(* ===== verification/Prelude.thy ===== *)
theory Prelude
  imports Main "HOL-Library.Word"
begin

unbundle bit_operations_syntax

text \<open>
  Shared types, fact collections and generic lemmas.

  The programs are C for a 32-bit little-endian ARM: an \<open>int\<close> is 32 bits, a
  \<open>uint16_t\<close> operand is promoted to \<open>int\<close> before it is shifted or combined, and the
  result is truncated when it is stored back. The type synonyms below name the C types;
  signed C integers share the representation of the unsigned ones and are read with
  \<^const>\<open>sint\<close>.
\<close>

type_synonym u8 = "8 word"
type_synonym u16 = "16 word"
type_synonym u32 = "32 word"
type_synonym u64 = "64 word"

named_theorems reg_laws "reading a register back after a store to the register file"
named_theorems byte_laws "splitting words into bytes and joining them again"
named_theorems step_defs "the definitions one step of a component unfolds to"

section \<open>Bytes and words\<close>

text \<open>The memory image of a word (little endian), and a word read from its image.\<close>

definition le16 :: "u16 \<Rightarrow> u8 list" where
  "le16 w = [ucast w, ucast (drop_bit 8 w)]"

definition le32 :: "u32 \<Rightarrow> u8 list" where
  "le32 w = [ucast w, ucast (drop_bit 8 w), ucast (drop_bit 16 w), ucast (drop_bit 24 w)]"

definition le64 :: "u64 \<Rightarrow> u8 list" where
  "le64 w = [ucast w, ucast (drop_bit 8 w), ucast (drop_bit 16 w), ucast (drop_bit 24 w),
     ucast (drop_bit 32 w), ucast (drop_bit 40 w), ucast (drop_bit 48 w), ucast (drop_bit 56 w)]"

definition join16 :: "u8 \<Rightarrow> u8 \<Rightarrow> u16" where
  "join16 b0 b1 = ucast b0 OR push_bit 8 (ucast b1)"

definition join32 :: "u8 \<Rightarrow> u8 \<Rightarrow> u8 \<Rightarrow> u8 \<Rightarrow> u32" where
  "join32 b0 b1 b2 b3 = ucast (join16 b0 b1) OR push_bit 16 (ucast (join16 b2 b3))"

definition join64 :: "u8 \<Rightarrow> u8 \<Rightarrow> u8 \<Rightarrow> u8 \<Rightarrow> u8 \<Rightarrow> u8 \<Rightarrow> u8 \<Rightarrow> u8 \<Rightarrow> u64" where
  "join64 b0 b1 b2 b3 b4 b5 b6 b7 =
     ucast (join32 b0 b1 b2 b3) OR push_bit 32 (ucast (join32 b4 b5 b6 b7))"

text \<open>Joining the low bytes of a wider word gives its low part.\<close>

lemma join16_ucast:
  fixes w :: "'a::len word"
  assumes "16 \<le> LENGTH('a)"
  shows "join16 (ucast w) (ucast (drop_bit 8 w)) = ucast w"
  unfolding join16_def using assms by (intro bit_word_eqI) (auto simp: bit_simps)

lemma join16_le16 [simp, byte_laws]:
  "join16 (ucast w) (ucast (drop_bit 8 w)) = (w :: u16)"
  by (simp add: join16_ucast)

lemma join32_ucast:
  fixes w :: "'a::len word"
  assumes "32 \<le> LENGTH('a)"
  shows "join32 (ucast w) (ucast (drop_bit 8 w)) (ucast (drop_bit 16 w)) (ucast (drop_bit 24 w)) =
    ucast w"
proof -
  have lo: "join16 (ucast w) (ucast (drop_bit 8 w)) = (ucast w :: u16)"
    using assms by (intro join16_ucast) simp
  have "join16 (ucast (drop_bit 16 w)) (ucast (drop_bit 8 (drop_bit 16 w))) =
      (ucast (drop_bit 16 w) :: u16)"
    using assms by (intro join16_ucast) simp
  then have hi: "join16 (ucast (drop_bit 16 w)) (ucast (drop_bit 24 w)) =
      (ucast (drop_bit 16 w) :: u16)"
    by (simp add: drop_bit_drop_bit)
  show ?thesis
    unfolding join32_def lo hi using assms by (intro bit_word_eqI) (auto simp: bit_simps)
qed

lemma join32_le32 [simp, byte_laws]:
  "join32 (ucast w) (ucast (drop_bit 8 w)) (ucast (drop_bit 16 w)) (ucast (drop_bit 24 w)) =
    (w :: u32)"
  by (simp add: join32_ucast)

lemma join64_le64 [simp, byte_laws]:
  "join64 (ucast w) (ucast (drop_bit 8 w)) (ucast (drop_bit 16 w)) (ucast (drop_bit 24 w))
     (ucast (drop_bit 32 w)) (ucast (drop_bit 40 w)) (ucast (drop_bit 48 w))
     (ucast (drop_bit 56 w)) = (w :: u64)"
proof -
  have hi: "join32 (ucast (drop_bit 32 w)) (ucast (drop_bit 40 w)) (ucast (drop_bit 48 w))
      (ucast (drop_bit 56 w)) = (ucast (drop_bit 32 w) :: u32)"
    using join32_ucast [of "drop_bit 32 w"] by (simp add: drop_bit_drop_bit)
  have lo: "join32 (ucast w) (ucast (drop_bit 8 w)) (ucast (drop_bit 16 w)) (ucast (drop_bit 24 w)) =
      (ucast w :: u32)"
    by (rule join32_ucast) simp
  show ?thesis
    unfolding join64_def lo hi by (intro bit_word_eqI) (auto simp: bit_simps)
qed

lemma length_le16 [simp]: "length (le16 w) = 2"
  by (simp add: le16_def)

lemma length_le32 [simp]: "length (le32 w) = 4"
  by (simp add: le32_def)

lemma length_le64 [simp]: "length (le64 w) = 8"
  by (simp add: le64_def)

text \<open>\<open>htonl\<close>/\<open>ntohl\<close> on the little-endian target: the byte image in network order.\<close>

definition be32 :: "u32 \<Rightarrow> u8 list" where
  "be32 w = rev (le32 w)"

lemma length_be32 [simp]: "length (be32 w) = 4"
  by (simp add: be32_def)

text \<open>Read a big-endian 32-bit word at an index of a byte list (\<open>ntohl(*(uint32_t *)p)\<close>).\<close>

definition be32_at :: "u8 list \<Rightarrow> nat \<Rightarrow> u32" where
  "be32_at bs i = join32 (bs ! (i + 3)) (bs ! (i + 2)) (bs ! (i + 1)) (bs ! i)"

definition le32_at :: "u8 list \<Rightarrow> nat \<Rightarrow> u32" where
  "le32_at bs i = join32 (bs ! i) (bs ! (i + 1)) (bs ! (i + 2)) (bs ! (i + 3))"

lemma be32_at_be32 [simp, byte_laws]: "be32_at (be32 w @ bs) 0 = w"
  by (simp add: be32_at_def be32_def le32_def)

section \<open>Bits\<close>

lemma and_not_or_mask [simp]:
  fixes w :: "'a::len word"
  shows "(w AND NOT m) OR m = w OR m"
  by (rule bit_word_eqI) (auto simp: bit_simps)

lemma or_mask_absorb [simp]:
  fixes w :: "'a::len word"
  shows "(w OR m) OR m = w OR m"
  by (rule bit_word_eqI) (auto simp: bit_simps)

lemma clear_mask_and:
  fixes w :: "'a::len word"
  shows "m AND (w AND NOT m) = 0"
  by (rule bit_word_eqI) (auto simp: bit_simps)

lemma bit_beyond_length [simp]:
  fixes w :: "'a::len word"
  shows "LENGTH('a) \<le> n \<Longrightarrow> \<not> bit w n"
  by (auto dest: bit_imp_le_length)

lemma unat_lt: "unat (w :: 'a::len word) < 2 ^ LENGTH('a)"
  by (rule unsigned_less)

lemma unat_ucast_up:
  fixes w :: "'a::len word"
  assumes "LENGTH('a) \<le> LENGTH('b)"
  shows "unat (ucast w :: 'b::len word) = unat w"
proof -
  have "unat w < 2 ^ LENGTH('b)"
    using unat_lt [of w] assms by (meson less_le_trans one_le_numeral power_increasing)
  then show ?thesis
    by (simp add: unsigned_ucast_eq take_bit_nat_eq_self)
qed

lemma unat_ucast_small:
  fixes w :: "'a::len word"
  assumes "unat w < 2 ^ LENGTH('b)"
  shows "unat (ucast w :: 'b::len word) = unat w"
  using assms by (simp add: unsigned_ucast_eq take_bit_nat_eq_self)

lemma unat_of_nat_small: "k < 2 ^ LENGTH('a) \<Longrightarrow> unat (of_nat k :: 'a::len word) = k"
  by (simp add: unsigned_of_nat take_bit_nat_eq_self)

lemma unat_and_mask_less:
  fixes w :: "'a::len word"
  assumes "unat m < n"
  shows "unat (w AND m) < n"
  using assms word_and_le1 [of w m] by (simp add: word_le_nat_alt)

section \<open>Lists\<close>

lemma length_concat_const:
  assumes "\<And>x. x \<in> set xs \<Longrightarrow> length (f x) = n"
  shows "length (concat (map f xs)) = n * length xs"
  using assms by (induction xs) auto

lemma concat_snoc: "concat (xs @ [x]) = concat xs @ x"
  by simp

lemma upt_split:
  assumes "d \<le> n"
  shows "[0..<n] = [0..<d] @ map ((+) d) [0..<n - d]"
proof -
  have "(+) d = (\<lambda>i. i + d)"
    by (simp add: fun_eq_iff)
  then have "map ((+) d) [0..<n - d] = [d..<d + (n - d)]"
    using map_add_upt [of d "n - d"] by (simp only: add.commute [of d])
  then show ?thesis
    using upt_add_eq_append [of 0 d "n - d"] assms by simp
qed

text \<open>Overwriting a segment of a buffer (\<open>memcpy\<close> into an array at an offset).\<close>

definition blit :: "'a list \<Rightarrow> nat \<Rightarrow> 'a list \<Rightarrow> 'a list" where
  "blit dst off src = take off dst @ src @ drop (off + length src) dst"

lemma length_blit [simp]:
  "off + length src \<le> length dst \<Longrightarrow> length (blit dst off src) = length dst"
  by (simp add: blit_def)

lemma nth_blit:
  assumes "off + length src \<le> length dst" and "i < length dst"
  shows "blit dst off src ! i =
    (if off \<le> i \<and> i < off + length src then src ! (i - off) else dst ! i)"
  using assms by (auto simp: blit_def nth_append)

lemma blit_take_before:
  "off + length src \<le> length dst \<Longrightarrow> n \<le> off \<Longrightarrow> take n (blit dst off src) = take n dst"
  by (simp add: blit_def)

end
