(* ===== verification/Axis.thy ===== *)
theory Axis
  imports Prelude
begin

text \<open>
  \<open>models/systemc/common/axis_tlm_types.h\<close>: the AXI-Stream transaction of the
  transaction-level models, a TLM generic payload with two optional extensions. The
  generic payload itself belongs to SystemC; of it only the fields the models use appear.
  Samples are \<open>int16_t\<close>, kept as 16-bit words and compared through \<^const>\<open>sint\<close>.
\<close>

record axis_extension =
  tlast :: bool
  tvalid :: bool
  sample_index :: u32
  packet_id :: u32

definition axis_extension_new :: axis_extension where
  "axis_extension_new = \<lparr>tlast = False, tvalid = True, sample_index = 0, packet_id = 0\<rparr>"

definition axis_extension_copy_from :: "axis_extension \<Rightarrow> axis_extension \<Rightarrow> axis_extension" where
  "axis_extension_copy_from this other = this\<lparr>tlast := tlast other, tvalid := tvalid other,
     sample_index := sample_index other, packet_id := packet_id other\<rparr>"

definition axis_extension_clone :: "axis_extension \<Rightarrow> axis_extension" where
  "axis_extension_clone this = axis_extension_new\<lparr>tlast := tlast this, tvalid := tvalid this,
     sample_index := sample_index this, packet_id := packet_id this\<rparr>"

record trigger_config =
  tc_enable :: bool
  tc_mode :: u8
  tc_threshold :: u16
  tc_ch_mask :: u8

definition trigger_config_new :: trigger_config where
  "trigger_config_new = \<lparr>tc_enable = True, tc_mode = 0, tc_threshold = 0, tc_ch_mask = 0x03\<rparr>"

record trigger_event =
  trigger_detected :: bool
  trigger_index :: u32
  trigger_value :: u16
  prev_value :: u16

definition trigger_event_new :: trigger_event where
  "trigger_event_new =
     \<lparr>trigger_detected = False, trigger_index = 0, trigger_value = 0, prev_value = 0\<rparr>"

definition trigger_event_copy_from :: "trigger_event \<Rightarrow> trigger_event \<Rightarrow> trigger_event" where
  "trigger_event_copy_from this other = this\<lparr>trigger_detected := trigger_detected other,
     trigger_index := trigger_index other, trigger_value := trigger_value other,
     prev_value := prev_value other\<rparr>"

definition trigger_event_clone :: "trigger_event \<Rightarrow> trigger_event" where
  "trigger_event_clone this = trigger_event_new\<lparr>trigger_detected := trigger_detected this,
     trigger_index := trigger_index this, trigger_value := trigger_value this,
     prev_value := prev_value this\<rparr>"

text \<open>\<open>enum class TriggerMode : uint8_t\<close>; a byte above 3 is none of the enumerators.\<close>

datatype trigger_mode = RISING | FALLING | BOTH | LEVEL

definition trigger_mode_of :: "u8 \<Rightarrow> trigger_mode option" where
  "trigger_mode_of m = (if m = 0 then Some RISING else if m = 1 then Some FALLING
     else if m = 2 then Some BOTH else if m = 3 then Some LEVEL else None)"

text \<open>Nanoseconds of one clock period at 125 MHz, and the trigger's pipeline depth.\<close>

definition clk_period_ns :: nat where "clk_period_ns = 8"
definition pipe_stages :: nat where "pipe_stages = 2"

datatype tlm_status = Incomplete | Ok_response | Generic_error

record payload =
  data_ptr :: "u16 option"
  axis_ext :: "axis_extension option"
  trig_ext :: "trigger_event option"
  status :: tlm_status

definition create_axis_transaction :: "u16 \<Rightarrow> bool \<Rightarrow> u32 \<Rightarrow> payload" where
  "create_axis_transaction d is_last index =
     \<lparr>data_ptr = Some d,
      axis_ext = Some (axis_extension_new\<lparr>tlast := is_last, tvalid := True, sample_index := index\<rparr>),
      trig_ext = None, status = Incomplete\<rparr>"

text \<open>Both ways of copying an extension give an equal one.\<close>

lemma axis_extension_clone_id [simp]: "axis_extension_clone e = e"
  by (simp add: axis_extension_clone_def axis_extension_new_def)

lemma axis_extension_copy_id [simp]: "axis_extension_copy_from e e' = e'"
  by (simp add: axis_extension_copy_from_def)

lemma trigger_event_clone_id [simp]: "trigger_event_clone e = e"
  by (simp add: trigger_event_clone_def trigger_event_new_def)

lemma trigger_event_copy_id [simp]: "trigger_event_copy_from e e' = e'"
  by (simp add: trigger_event_copy_from_def)

end
