(* ===== verification/Trigger.thy ===== *)
theory Trigger
  imports Axis
begin

text \<open>
  \<open>models/systemc/trigger/trigger_tlm.h\<close>: the event detector \<open>trigger_tlm\<close>, the stimulus
  generator that drives it and the monitor behind it. The transport callbacks are state
  transformers; \<open>output_socket->b_transport\<close> is whatever target is bound to the socket, so
  \<open>trigger_b_transport\<close> takes it as an argument.
\<close>

section \<open>The detector\<close>

record trigger =
  m_config :: trigger_config
  m_pipeline :: "u16 list"
  m_valid_pipe :: "bool list"
  m_armed :: bool
  m_sample_count :: u32
  m_trigger_count :: u32
  m_trigger_events :: "trigger_event list"

definition trigger_new :: trigger where
  "trigger_new = \<lparr>m_config = trigger_config_new, m_pipeline = replicate pipe_stages 0,
     m_valid_pipe = replicate pipe_stages False, m_armed = True, m_sample_count = 0,
     m_trigger_count = 0, m_trigger_events = []\<rparr>"

definition trigger_configure :: "trigger_config \<Rightarrow> trigger \<Rightarrow> trigger" where
  "trigger_configure cfg t = t\<lparr>m_config := cfg\<rparr>"

definition trigger_reset :: "trigger \<Rightarrow> trigger" where
  "trigger_reset t = t\<lparr>m_armed := True, m_sample_count := 0,
     m_pipeline := replicate pipe_stages 0, m_valid_pipe := replicate pipe_stages False,
     m_trigger_events := []\<rparr>"

definition detect_threshold_crossing :: "trigger_config \<Rightarrow> u16 \<Rightarrow> u16 \<Rightarrow> bool" where
  "detect_threshold_crossing cfg prev cur =
     (let threshold = sint (tc_threshold cfg);
          rising_edge = (sint prev < threshold \<and> threshold \<le> sint cur);
          falling_edge = (threshold \<le> sint prev \<and> sint cur < threshold) in
      case trigger_mode_of (tc_mode cfg) of
        Some RISING \<Rightarrow> rising_edge
      | Some FALLING \<Rightarrow> falling_edge
      | Some BOTH \<Rightarrow> rising_edge \<or> falling_edge
      | Some LEVEL \<Rightarrow> threshold \<le> sint cur
      | None \<Rightarrow> False)"

text \<open>The shift loop \<open>for (i = PIPE_STAGES - 1; i > 0; i--) p[i] = p[i - 1]\<close>, then \<open>p[0] = x\<close>.\<close>

definition shift_in :: "'a \<Rightarrow> 'a list \<Rightarrow> 'a list" where
  "shift_in x p = x # take (pipe_stages - 1) p"

definition process_sample :: "u16 \<Rightarrow> bool \<Rightarrow> u32 \<Rightarrow> trigger \<Rightarrow> bool \<times> trigger" where
  "process_sample sample valid index t =
     (if \<not> tc_enable (m_config t) then (False, t)
      else
        let t = t\<lparr>m_pipeline := shift_in sample (m_pipeline t),
                  m_valid_pipe := shift_in valid (m_valid_pipe t)\<rparr> in
        if \<not> m_valid_pipe t ! (pipe_stages - 2) then (False, t)
        else
          let prev_sample = m_pipeline t ! (pipe_stages - 1);
              curr_sample = m_pipeline t ! (pipe_stages - 2);
              event_detected = detect_threshold_crossing (m_config t) prev_sample curr_sample in
          if m_armed t \<and> event_detected then
            (True, t\<lparr>m_armed := False, m_trigger_count := m_trigger_count t + 1,
               m_trigger_events := m_trigger_events t @
                 [trigger_event_new\<lparr>trigger_detected := True, trigger_index := index,
                    trigger_value := curr_sample, prev_value := prev_sample\<rparr>]\<rparr>)
          else if \<not> event_detected then (False, t\<lparr>m_armed := True\<rparr>)
          else (False, t))"

definition trigger_b_transport ::
  "(payload \<Rightarrow> 't \<Rightarrow> payload \<times> 't) \<Rightarrow> payload \<Rightarrow> nat \<Rightarrow> trigger \<times> 't \<Rightarrow>
    payload \<times> nat \<times> trigger \<times> 't" where
  "trigger_b_transport output_socket tr delay st =
     (case st of (t, target) \<Rightarrow>
      case data_ptr tr of
        None \<Rightarrow> (tr\<lparr>status := Generic_error\<rparr>, delay, t, target)
      | Some sample \<Rightarrow>
          let idx = (case axis_ext tr of Some ext \<Rightarrow> sample_index ext | None \<Rightarrow> m_sample_count t);
              (trigger_out, t) = process_sample sample True idx t;
              delay = delay + pipe_stages * clk_period_ns;
              tr = (if trigger_out then
                tr\<lparr>trig_ext := Some (trigger_event_new\<lparr>trigger_detected := True,
                  trigger_index := idx, trigger_value := sample,
                  prev_value := m_pipeline t ! (pipe_stages - 1)\<rparr>)\<rparr> else tr);
              (tr, target) = output_socket tr target in
          (tr\<lparr>status := Ok_response\<rparr>, delay,
           t\<lparr>m_sample_count := m_sample_count t + 1\<rparr>, target))"

section \<open>The monitor and the stimulus generator\<close>

record trigger_monitor =
  mon_trigger_count :: u32
  mon_samples :: "u16 list"

definition trigger_monitor_new :: trigger_monitor where
  "trigger_monitor_new = \<lparr>mon_trigger_count = 0, mon_samples = []\<rparr>"

definition monitor_b_transport :: "payload \<Rightarrow> trigger_monitor \<Rightarrow> payload \<times> trigger_monitor" where
  "monitor_b_transport tr m =
     (let m = (case data_ptr tr of Some d \<Rightarrow> m\<lparr>mon_samples := mon_samples m @ [d]\<rparr> | None \<Rightarrow> m);
          m = (case trig_ext tr of
                 Some evt \<Rightarrow> if trigger_detected evt
                   then m\<lparr>mon_trigger_count := mon_trigger_count m + 1\<rparr> else m
               | None \<Rightarrow> m) in
      (tr\<lparr>status := Ok_response\<rparr>, m))"

text \<open>
  One iteration of \<open>generate_thread\<close>'s loop and the loop itself: send sample \<open>i\<close>, then wait
  for the annotated delay. The state is the simulated time in nanoseconds and the state
  behind the socket.
\<close>

definition generate_step ::
  "(payload \<Rightarrow> nat \<Rightarrow> 's \<Rightarrow> payload \<times> nat \<times> 's) \<Rightarrow> nat \<Rightarrow> nat \<Rightarrow> u16 \<Rightarrow> nat \<times> 's \<Rightarrow> nat \<times> 's" where
  "generate_step socket n i d st =
     (case st of (now, s) \<Rightarrow>
      case socket (create_axis_transaction d (i = n - 1) (of_nat i)) 0 s of
        (_, delay, s') \<Rightarrow> (now + delay, s'))"

fun generate_thread ::
  "(payload \<Rightarrow> nat \<Rightarrow> 's \<Rightarrow> payload \<times> nat \<times> 's) \<Rightarrow> nat \<Rightarrow> nat \<Rightarrow> u16 list \<Rightarrow> nat \<times> 's \<Rightarrow> nat \<times> 's" where
  "generate_thread socket n i [] st = st"
| "generate_thread socket n i (d # ds) st =
     generate_thread socket n (Suc i) ds (generate_step socket n i d st)"

section \<open>When the detector fires\<close>

text \<open>
  The detector seen as a function of the whole sample stream: sample \<open>i\<close> is compared with
  sample \<open>i - 1\<close>, sample \<open>0\<close> with the value the pipeline holds at the start.
\<close>

definition event_at :: "trigger_config \<Rightarrow> u16 \<Rightarrow> u16 list \<Rightarrow> nat \<Rightarrow> bool" where
  "event_at cfg p0 xs i =
     detect_threshold_crossing cfg (if i = 0 then p0 else xs ! (i - 1)) (xs ! i)"

text \<open>The specification: fire on an event unless the sample before was one too.\<close>

definition fires_at :: "trigger_config \<Rightarrow> u16 \<Rightarrow> bool \<Rightarrow> u16 list \<Rightarrow> nat \<Rightarrow> bool" where
  "fires_at cfg p0 armed xs i \<longleftrightarrow>
     event_at cfg p0 xs i \<and> (if i = 0 then armed else \<not> event_at cfg p0 xs (i - 1))"

fun trigger_run :: "nat \<Rightarrow> u16 list \<Rightarrow> trigger \<Rightarrow> bool list \<times> trigger" where
  "trigger_run i [] t = ([], t)"
| "trigger_run i (x # xs) t =
     (let (b, t) = process_sample x True (of_nat i) t; (bs, t) = trigger_run (Suc i) xs t in (b # bs, t))"

definition trigger_wf :: "trigger \<Rightarrow> bool" where
  "trigger_wf t \<longleftrightarrow> length (m_pipeline t) = pipe_stages \<and> length (m_valid_pipe t) = pipe_stages"

lemma take_one_of_two: "length xs = 2 \<Longrightarrow> take (Suc 0) xs = [xs ! 0]"
  by (cases xs) auto

lemma trigger_wf_new [simp]: "trigger_wf trigger_new"
  by (simp add: trigger_wf_def trigger_new_def)

lemma trigger_wf_reset [simp]: "trigger_wf (trigger_reset t)"
  by (simp add: trigger_wf_def trigger_reset_def)

text \<open>One enabled sample: the step as a function of the newest pipeline entry and the flag.\<close>

lemma process_sample_step:
  assumes "trigger_wf t" and "tc_enable (m_config t)" and "process_sample x True i t = (b, t')"
  defines "ev \<equiv> detect_threshold_crossing (m_config t) (m_pipeline t ! 0) x"
  shows "b = (m_armed t \<and> ev)" "m_armed t' = (\<not> ev)" "m_pipeline t' = [x, m_pipeline t ! 0]"
    "m_config t' = m_config t" "trigger_wf t'" "m_sample_count t' = m_sample_count t"
    "m_trigger_count t' = m_trigger_count t + of_bool b"
    "map trigger_index (m_trigger_events t') =
       map trigger_index (m_trigger_events t) @ (if b then [i] else [])"
  using assms
  by (auto simp: process_sample_def shift_in_def pipe_stages_def Let_def take_one_of_two
      trigger_wf_def trigger_event_new_def split: if_splits)

lemma process_sample_disabled:
  "\<not> tc_enable (m_config t) \<Longrightarrow> process_sample x v i t = (False, t)"
  by (simp add: process_sample_def)

lemma fires_at_0: "fires_at cfg p0 a (x # xs) 0 = (a \<and> detect_threshold_crossing cfg p0 x)"
  by (auto simp: fires_at_def event_at_def)

lemma fires_at_Suc:
  "fires_at cfg p0 a (x # xs) (Suc j) =
     fires_at cfg x (\<not> detect_threshold_crossing cfg p0 x) xs j"
  by (cases j) (auto simp: fires_at_def event_at_def)

lemma trigger_run_fires:
  assumes "trigger_wf t" and "tc_enable (m_config t)"
  shows "fst (trigger_run i xs t) =
    map (fires_at (m_config t) (m_pipeline t ! 0) (m_armed t) xs) [0..<length xs]"
  using assms
proof (induction xs arbitrary: i t)
  case Nil
  then show ?case by simp
next
  case (Cons x xs)
  obtain b t' where step: "process_sample x True (of_nat i) t = (b, t')"
    by fastforce
  note st = process_sample_step [OF Cons.prems step]
  have "fst (trigger_run (Suc i) xs t') =
      map (fires_at (m_config t') (m_pipeline t' ! 0) (m_armed t') xs) [0..<length xs]"
    using Cons.prems(2) st by (intro Cons.IH) simp_all
  then show ?case
    using st step
    by (simp add: split_beta Let_def map_upt_Suc fires_at_0 fires_at_Suc del: upt_Suc)
qed

lemma trigger_run_keeps:
  assumes "trigger_wf t" and "tc_enable (m_config t)"
  shows "trigger_wf (snd (trigger_run i xs t)) \<and> m_config (snd (trigger_run i xs t)) = m_config t \<and>
    m_trigger_count (snd (trigger_run i xs t)) =
      m_trigger_count t + of_nat (count_list (fst (trigger_run i xs t)) True) \<and>
    length (m_trigger_events (snd (trigger_run i xs t))) =
      length (m_trigger_events t) + count_list (fst (trigger_run i xs t)) True"
  using assms
proof (induction xs arbitrary: i t)
  case Nil
  then show ?case by simp
next
  case (Cons x xs)
  obtain b t' where step: "process_sample x True (of_nat i) t = (b, t')"
    by fastforce
  note st = process_sample_step [OF Cons.prems step]
  have "length (m_trigger_events t') = length (m_trigger_events t) + of_bool b"
    using arg_cong [OF st(8), of length] by (cases b) simp_all
  with st Cons.IH [of t' "Suc i"] Cons.prems(2) step show ?case
    by (cases b) (auto simp: split_beta Let_def)
qed

section \<open>The detector between a generator and a target\<close>

text \<open>The contract of a target the detector can be bound to: it records samples and events.\<close>

locale sample_sink =
  fixes sink :: "payload \<Rightarrow> 't \<Rightarrow> payload \<times> 't"
    and samples :: "'t \<Rightarrow> u16 list" and events :: "'t \<Rightarrow> u32"
  assumes sink_samples: "data_ptr p = Some d \<Longrightarrow> samples (snd (sink p s)) = samples s @ [d]"
    and sink_events: "events (snd (sink p s)) = events s +
      of_bool (case trig_ext p of Some e \<Rightarrow> trigger_detected e | None \<Rightarrow> False)"
begin

lemma transport_step:
  assumes "generate_step (trigger_b_transport sink) n i d (now, t, s) = (now', t', s')"
    and "trigger_wf t" and "tc_enable (m_config t)"
  shows "now' = now + 16 \<and> samples s' = samples s @ [d] \<and>
    events s' = events s + of_bool (fst (process_sample d True (of_nat i) t)) \<and>
    t' = (snd (process_sample d True (of_nat i) t))\<lparr>m_sample_count := m_sample_count t + 1\<rparr>"
proof -
  obtain b u where step: "process_sample d True (of_nat i) t = (b, u)"
    by fastforce
  note st = process_sample_step [OF assms(2,3) step]
  show ?thesis
    using assms(1) step st(6)
    by (cases b) (auto simp: generate_step_def trigger_b_transport_def create_axis_transaction_def
        Let_def split_beta sink_samples sink_events trigger_event_new_def pipe_stages_def
        clk_period_ns_def)
qed

lemma generate_run:
  assumes "trigger_wf t" and "tc_enable (m_config t)"
    and "generate_thread (trigger_b_transport sink) n i xs (now, t, s) = (now', t', s')"
  shows "now' = now + 16 * length xs \<and> samples s' = samples s @ xs \<and>
    events s' = events s + of_nat (count_list (fst (trigger_run i xs t)) True)"
  using assms
proof (induction xs arbitrary: i now t s)
  case Nil
  then show ?case by simp
next
  case (Cons d xs)
  obtain b u where step: "process_sample d True (of_nat i) t = (b, u)"
    by fastforce
  note st = process_sample_step [OF Cons.prems(1,2) step]
  obtain now1 t1 s1 where g: "generate_step (trigger_b_transport sink) n i d (now, t, s) = (now1, t1, s1)"
    by (metis prod_cases3)
  note g' = transport_step [OF g Cons.prems(1,2), unfolded step fst_conv snd_conv]
  then have t1: "t1 = u\<lparr>m_sample_count := m_sample_count t + 1\<rparr>" by simp
  have "trigger_wf t1" "tc_enable (m_config t1)"
    using st(4,5) Cons.prems(2) by (simp_all add: t1 trigger_wf_def)
  note IH = Cons.IH [OF this, of "Suc i" now1 s1]
  have run: "fst (trigger_run (Suc i) xs t1) = fst (trigger_run (Suc i) xs u)"
    using st(4,5) Cons.prems(2) by (subst (1 2) trigger_run_fires) (simp_all add: t1 trigger_wf_def)
  from IH g' g step Cons.prems(3) run show ?case
    by (cases b) (simp_all add: split_beta Let_def)
qed

end

interpretation monitor: sample_sink monitor_b_transport mon_samples mon_trigger_count
  by unfold_locales (auto simp: monitor_b_transport_def Let_def split: option.splits)

section \<open>Properties\<close>

text \<open>A configuration for concrete runs: rising edges through 4.\<close>

definition rising_at_4 :: trigger_config where
  "rising_at_4 = trigger_config_new\<lparr>tc_threshold := 4\<rparr>"

lemma rising_at_4_simps [simp]:
  "tc_enable rising_at_4" "tc_mode rising_at_4 = 0" "tc_threshold rising_at_4 = 4"
  by (simp_all add: rising_at_4_def trigger_config_new_def)

text \<open>
  C6. An enabled detector, configured and reset, fires at sample \<open>i\<close> of any stream exactly when
  the configured event holds between samples \<open>i - 1\<close> and \<open>i\<close> and did not hold at \<open>i - 1\<close>
  already (the detector re-arms on the first sample without an event).
\<close>

theorem trigger_fires_spec:
  assumes "tc_enable cfg"
  shows "fst (trigger_run 0 xs (trigger_configure cfg (trigger_reset t))) =
    map (fires_at cfg 0 True xs) [0..<length xs]"
  using assms trigger_run_fires [of "trigger_configure cfg (trigger_reset t)" 0 xs]
  by (simp add: trigger_wf_def trigger_configure_def trigger_reset_def pipe_stages_def)

theorem trigger_fires_spec_witness:
  "fst (trigger_run 0 [0, 5, 7, 1, 9] (trigger_configure rising_at_4 (trigger_reset trigger_new))) =
    [False, True, False, False, True]"
proof -
  have "tc_enable rising_at_4"
    and "map (fires_at rising_at_4 0 True [0, 5, 7, 1, 9]) [0..<length [0, 5, 7, 1, 9 :: u16]] =
      [False, True, False, False, True]"
    by code_simp+
  then show ?thesis
    using trigger_fires_spec [of rising_at_4 "[0, 5, 7, 1, 9]" trigger_new] by simp
qed

text \<open>
  In the two edge modes the disarmed state never hides anything: every crossing of the
  threshold in the configured direction fires.
\<close>

theorem edge_modes_lose_no_crossing:
  assumes "tc_mode cfg = 0 \<or> tc_mode cfg = 1" and "i < length xs"
  shows "fires_at cfg p0 True xs i = event_at cfg p0 xs i"
  using assms
  by (auto simp: fires_at_def event_at_def detect_threshold_crossing_def trigger_mode_of_def Let_def)

theorem edge_modes_lose_no_crossing_witness:
  "fires_at rising_at_4 0 True [0, 5, 1, 9] 3"
  using edge_modes_lose_no_crossing [of rising_at_4 3 "[0, 5, 1, 9]" 0]
  by (simp add: event_at_def detect_threshold_crossing_def trigger_mode_of_def Let_def)

text \<open>
  End to end: the generator drives the detector, bound to the monitor. The monitor receives
  every sample in order and counts exactly the samples the specification says fire, and the
  simulated time advances by the pipeline latency of 16 ns per sample.
\<close>

theorem monitor_sees_all:
  assumes "tc_enable cfg"
    and "generate_thread (trigger_b_transport monitor_b_transport) (length xs) 0 xs
      (now, trigger_configure cfg (trigger_reset t), trigger_monitor_new) = (now', t', m)"
  shows "mon_samples m = xs \<and> now' = now + 16 * length xs \<and>
    mon_trigger_count m = of_nat (count_list (map (fires_at cfg 0 True xs) [0..<length xs]) True)"
  using monitor.generate_run [OF _ _ assms(2)] trigger_run_fires [of "trigger_configure cfg (trigger_reset t)" 0 xs] assms(1)
  by (simp add: trigger_wf_def trigger_configure_def trigger_reset_def pipe_stages_def
      trigger_monitor_new_def)

theorem monitor_sees_all_witness:
  "mon_samples (snd (snd (generate_thread (trigger_b_transport monitor_b_transport)
      (length [0, 5, 1 :: u16]) 0 [0, 5, 1]
      (0, trigger_configure rising_at_4 (trigger_reset trigger_new), trigger_monitor_new)))) = [0, 5, 1]"
proof -
  obtain n t m where "generate_thread (trigger_b_transport monitor_b_transport)
      (length [0, 5, 1 :: u16]) 0 [0, 5, 1]
      (0, trigger_configure rising_at_4 (trigger_reset trigger_new), trigger_monitor_new) = (n, t, m)"
    by (metis prod_cases3)
  with monitor_sees_all [OF _ this] show ?thesis by simp
qed

text \<open>
  What \<open>reset\<close> leaves behind: the trigger count is not part of what it clears. After a
  reset and a run, \<open>get_trigger_count\<close> is the count from before plus the new triggers, while
  \<open>get_trigger_events\<close> holds the new ones only, so the two agree only if the count was 0.
\<close>

theorem reset_keeps_trigger_count:
  assumes "tc_enable cfg"
    and "trigger_run 0 xs (trigger_configure cfg (trigger_reset t)) = (bs, t')"
  shows "m_trigger_count t' = m_trigger_count t + of_nat (count_list bs True) \<and>
    length (m_trigger_events t') = count_list bs True"
  using trigger_run_keeps [of "trigger_configure cfg (trigger_reset t)" 0 xs] assms
  by (simp add: trigger_wf_def trigger_configure_def trigger_reset_def pipe_stages_def)

theorem reset_keeps_trigger_count_witness:
  "m_trigger_count (snd (trigger_run 0 [0, 9] (trigger_configure rising_at_4
     (trigger_reset (trigger_new\<lparr>m_trigger_count := 5\<rparr>))))) = 6"
proof -
  let ?t = "trigger_new\<lparr>m_trigger_count := 5\<rparr>"
  have run: "trigger_run 0 [0, 9] (trigger_configure rising_at_4 (trigger_reset ?t)) =
      ([False, True], snd (trigger_run 0 [0, 9] (trigger_configure rising_at_4 (trigger_reset ?t))))"
    by code_simp
  show ?thesis
    using reset_keeps_trigger_count [OF _ run] by (simp add: trigger_new_def)
qed

text \<open>
  The validity check looks at the stage just filled, so the very first sample is compared
  with the reset value 0 of the pipeline: with a positive threshold in rising mode a first
  sample at or above it fires, although no sample came before it.
\<close>

theorem first_sample_compared_with_reset_value:
  assumes "tc_enable cfg" and "tc_mode cfg = 0" and "0 < sint (tc_threshold cfg)"
    and "sint (tc_threshold cfg) \<le> sint x"
  shows "fst (process_sample x True 0 (trigger_configure cfg (trigger_reset t)))"
  using assms
  by (simp add: process_sample_def trigger_configure_def trigger_reset_def shift_in_def
      pipe_stages_def Let_def detect_threshold_crossing_def trigger_mode_of_def)

theorem first_sample_compared_with_reset_value_witness:
  "fst (process_sample 9 True 0 (trigger_configure rising_at_4 (trigger_reset trigger_new)))"
  using first_sample_compared_with_reset_value [of rising_at_4 9 trigger_new] by simp

end
