(* ===== verification/Scope.thy ===== *)
theory Scope
  imports Prelude
begin

text \<open>
  \<open>models/systemc/scope/scope_tlm.h\<close>: the oscilloscope \<open>scope_tlm\<close>, a state machine that keeps
  the last \<open>pre_samples\<close> samples, and on a trigger captures a window around it and then plays
  it back one sample per call. Deques and vectors are lists; the simulation messages printed
  on the way are left out.
\<close>

record scope_config =
  sc_enable :: bool
  pre_samples :: u32
  post_samples :: u32
  buffer_depth :: u32

definition scope_config_new :: scope_config where
  "scope_config_new = \<lparr>sc_enable = True, pre_samples = 100, post_samples = 100, buffer_depth = 4096\<rparr>"

datatype scope_state = IDLE | FILLING | ARMED | CAPTURING | OUTPUTTING

record captured_window =
  w_samples :: "u16 list"
  w_trigger_index :: u32
  w_pre_samples :: u32
  w_post_samples :: u32

record scope =
  sc_config :: scope_config
  sc_state :: scope_state
  circular_buffer :: "u16 list"
  capture_buffer :: "u16 list"
  post_counter :: u32
  sample_count :: u32
  output_index :: nat
  windows :: "captured_window list"

text \<open>\<open>m_output_index\<close> is not initialised by the constructor; any value can be there.\<close>

definition scope_new :: "nat \<Rightarrow> scope" where
  "scope_new garbage = \<lparr>sc_config = scope_config_new, sc_state = IDLE, circular_buffer = [],
     capture_buffer = [], post_counter = 0, sample_count = 0, output_index = garbage, windows = []\<rparr>"

definition scope_configure :: "scope_config \<Rightarrow> scope \<Rightarrow> scope" where
  "scope_configure cfg s = s\<lparr>sc_config := cfg\<rparr>"

definition scope_reset :: "scope \<Rightarrow> scope" where
  "scope_reset s = s\<lparr>sc_state := IDLE, circular_buffer := [], capture_buffer := [],
     post_counter := 0, sample_count := 0, windows := []\<rparr>"

definition scope_enable :: "scope \<Rightarrow> scope" where
  "scope_enable s =
     (if sc_state s = IDLE then s\<lparr>sc_state := FILLING, circular_buffer := []\<rparr> else s)"

text \<open>
  The loop-free push used in two states: append, then drop the oldest when the buffer is
  longer than \<open>pre_samples\<close>. A deque that has more than one element too many keeps the rest.
\<close>

definition push_circular :: "nat \<Rightarrow> u16 list \<Rightarrow> u16 \<Rightarrow> u16 list" where
  "push_circular n buf x = (let buf = buf @ [x] in if n < length buf then tl buf else buf)"

definition scope_process_sample :: "u16 \<Rightarrow> bool \<Rightarrow> scope \<Rightarrow> (bool \<times> u16) \<times> scope" where
  "scope_process_sample sample trigger s =
     (if \<not> sc_enable (sc_config s) then ((False, 0), s)
      else
        let cfg = sc_config s; s = s\<lparr>sample_count := sample_count s + 1\<rparr> in
        case sc_state s of
          IDLE \<Rightarrow> ((False, 0), s)
        | FILLING \<Rightarrow>
            (let s = s\<lparr>circular_buffer := push_circular (unat (pre_samples cfg)) (circular_buffer s) sample\<rparr>;
                 s = (if unat (pre_samples cfg) \<le> length (circular_buffer s)
                      then s\<lparr>sc_state := ARMED\<rparr> else s) in
             ((False, 0), s))
        | ARMED \<Rightarrow>
            (let s = s\<lparr>circular_buffer := push_circular (unat (pre_samples cfg)) (circular_buffer s) sample\<rparr> in
             if trigger then
               ((False, 0), s\<lparr>sc_state := CAPTURING,
                  capture_buffer := circular_buffer s @ [sample], post_counter := 1\<rparr>)
             else ((False, 0), s))
        | CAPTURING \<Rightarrow>
            (let s = s\<lparr>capture_buffer := capture_buffer s @ [sample], post_counter := post_counter s + 1\<rparr> in
             if post_samples cfg \<le> post_counter s then
               ((False, 0), s\<lparr>windows := windows s @
                    [\<lparr>w_samples = capture_buffer s, w_trigger_index = pre_samples cfg,
                      w_pre_samples = pre_samples cfg, w_post_samples = post_samples cfg\<rparr>],
                  sc_state := OUTPUTTING, output_index := 0\<rparr>)
             else ((False, 0), s))
        | OUTPUTTING \<Rightarrow>
            (if output_index s < length (capture_buffer s) then
               let out = capture_buffer s ! output_index s;
                   s = s\<lparr>output_index := output_index s + 1\<rparr> in
               ((True, out),
                if length (capture_buffer s) \<le> output_index s
                then s\<lparr>sc_state := ARMED, circular_buffer := []\<rparr> else s)
             else ((False, 0), s)))"

text \<open>A run over samples paired with the trigger line.\<close>

fun scope_run :: "(u16 \<times> bool) list \<Rightarrow> scope \<Rightarrow> (bool \<times> u16) list \<times> scope" where
  "scope_run [] s = ([], s)"
| "scope_run ((x, trg) # xs) s =
     (let (o1, s) = scope_process_sample x trg s; (os, s) = scope_run xs s in (o1 # os, s))"

section \<open>The invariant of the state machine\<close>

lemma length_push_circular:
  "length buf \<le> n \<Longrightarrow> length (push_circular n buf x) = min n (Suc (length buf))"
  by (auto simp: push_circular_def Let_def)

lemma last_push_circular:
  "0 < n \<Longrightarrow> length buf \<le> n \<Longrightarrow> push_circular n buf x \<noteq> [] \<and> last (push_circular n buf x) = x"
  by (cases buf) (auto simp: push_circular_def Let_def)

text \<open>The number of post-trigger samples a window gets: the trigger sample and at least one more.\<close>

definition post_total :: "scope_config \<Rightarrow> nat" where
  "post_total cfg = max 2 (unat (post_samples cfg))"

definition window_ok :: "scope_config \<Rightarrow> captured_window \<Rightarrow> bool" where
  "window_ok cfg w \<longleftrightarrow> post_total cfg \<le> length (w_samples w) \<and>
     length (w_samples w) \<le> unat (pre_samples cfg) + post_total cfg \<and>
     w_trigger_index w = pre_samples cfg"

definition scope_inv :: "scope \<Rightarrow> bool" where
  "scope_inv s \<longleftrightarrow>
     (let n = unat (pre_samples (sc_config s)); c = length (circular_buffer s);
          p = unat (post_counter s); total = post_total (sc_config s) in
      c \<le> n \<and> (\<forall>w \<in> set (windows s). window_ok (sc_config s) w) \<and>
      (case sc_state s of
         IDLE \<Rightarrow> True
       | FILLING \<Rightarrow> c < n \<or> n = 0
       | ARMED \<Rightarrow> True
       | CAPTURING \<Rightarrow> 1 \<le> p \<and> p < total \<and> p \<le> length (capture_buffer s) \<and>
           length (capture_buffer s) \<le> n + p
       | OUTPUTTING \<Rightarrow> output_index s < length (capture_buffer s)))"

lemma scope_inv_reset [simp]: "scope_inv (scope_reset s)"
  by (simp add: scope_inv_def scope_reset_def)


text \<open>The post-trigger counter never wraps: it stops at a 32-bit bound it starts below.\<close>

lemma post_counter_step:
  assumes "unat p < post_total cfg"
  shows "unat (p + 1 :: u32) = unat p + 1"
    and "post_samples cfg \<le> p + 1 \<longleftrightarrow> unat (post_samples cfg) \<le> unat p + 1"
proof -
  have "unat p + 1 < 2 ^ 32"
    using assms unat_lt [of "post_samples cfg"] by (auto simp: post_total_def)
  then show *: "unat (p + 1) = unat p + 1"
    by (simp add: unat_word_ariths)
  show "post_samples cfg \<le> p + 1 \<longleftrightarrow> unat (post_samples cfg) \<le> unat p + 1"
    by (simp add: word_le_nat_alt *)
qed


lemma scope_run_Cons:
  "scope_run (y # ys) s =
     (let (o1, s1) = scope_process_sample (fst y) (snd y) s; (os, s2) = scope_run ys s1 in (o1 # os, s2))"
  by (cases y) simp


section \<open>One capture\<close>

lemma capturing_run:
  assumes "sc_enable (sc_config s)" and "sc_state s = CAPTURING" and "1 \<le> unat (post_counter s)"
    and "ys \<noteq> []" and "unat (post_counter s) + length ys = post_total (sc_config s)"
  shows "\<exists>k. scope_run ys s = (replicate (length ys) (False, 0),
    s\<lparr>sample_count := k, sc_state := OUTPUTTING, capture_buffer := capture_buffer s @ map fst ys,
      post_counter := of_nat (post_total (sc_config s)), output_index := 0,
      windows := windows s @ [\<lparr>w_samples = capture_buffer s @ map fst ys,
        w_trigger_index = pre_samples (sc_config s), w_pre_samples = pre_samples (sc_config s),
        w_post_samples = post_samples (sc_config s)\<rparr>]\<rparr>)"
  using assms
proof (induction ys arbitrary: s)
  case Nil
  then show ?case by simp
next
  case (Cons y ys)
  obtain x trg where y: "y = (x, trg)" by fastforce
  have "unat (post_counter s) < post_total (sc_config s)"
    using Cons.prems by simp
  note step = post_counter_step [OF this]
  show ?case
  proof (cases "ys = []")
    case True
    have "post_counter s + 1 = of_nat (post_total (sc_config s))"
      using Cons.prems(5) True by (simp flip: Cons.prems(5))
    moreover have "post_samples (sc_config s) \<le> post_counter s + 1"
      using Cons.prems True by (auto simp: step(2) post_total_def)
    ultimately show ?thesis
      using Cons.prems True y
      by (intro exI [of _ "sample_count s + 1"] prod_eqI scope.equality)
        (simp_all add: scope_process_sample_def Let_def)
  next
    case False
    define u where "u = s\<lparr>sample_count := sample_count s + 1,
      capture_buffer := capture_buffer s @ [x], post_counter := post_counter s + 1\<rparr>"
    have "\<not> post_samples (sc_config s) \<le> post_counter s + 1"
      using Cons.prems False by (cases ys) (auto simp: step(2) post_total_def)
    then have run: "scope_process_sample x trg s = ((False, 0), u)"
      using Cons.prems by (simp add: scope_process_sample_def Let_def u_def)
    have "sc_enable (sc_config u)" "sc_state u = CAPTURING" "1 \<le> unat (post_counter u)"
      "unat (post_counter u) + length ys = post_total (sc_config u)"
      using Cons.prems step(1) by (simp_all add: u_def)
    from Cons.IH [OF this(1-3) False this(4)] show ?thesis
      by (auto simp: y run u_def)
  qed
qed

lemma playback_run:
  assumes "sc_enable (sc_config s)" and "sc_state s = OUTPUTTING"
    and "zs \<noteq> []" and "output_index s + length zs = length (capture_buffer s)"
  shows "\<exists>k. scope_run zs s = (map (Pair True) (drop (output_index s) (capture_buffer s)),
    s\<lparr>sample_count := k, output_index := length (capture_buffer s), sc_state := ARMED,
      circular_buffer := []\<rparr>)"
  using assms
proof (induction zs arbitrary: s)
  case Nil
  then show ?case by simp
next
  case (Cons z zs)
  obtain x trg where z: "z = (x, trg)" by fastforce
  have idx: "output_index s < length (capture_buffer s)"
    using Cons.prems by simp
  then have drop: "drop (output_index s) (capture_buffer s) =
      capture_buffer s ! output_index s # drop (Suc (output_index s)) (capture_buffer s)"
    by (simp add: Cons_nth_drop_Suc)
  show ?case
  proof (cases "zs = []")
    case True
    then show ?thesis
      using Cons.prems idx drop z by (auto simp: scope_process_sample_def Let_def)
  next
    case False
    define u where "u = s\<lparr>sample_count := sample_count s + 1, output_index := Suc (output_index s)\<rparr>"
    have run: "scope_process_sample x trg s = ((True, capture_buffer s ! output_index s), u)"
      using Cons.prems idx False by (cases zs) (simp_all add: scope_process_sample_def Let_def u_def)
    have "sc_enable (sc_config u)" "sc_state u = OUTPUTTING"
      "output_index u + length zs = length (capture_buffer u)"
      using Cons.prems by (simp_all add: u_def)
    from Cons.IH [OF this(1,2) False this(3)] show ?thesis
      using drop by (auto simp: z run u_def)
  qed
qed

lemma scope_run_append:
  "scope_run (xs @ ys) s =
     (let (os1, s1) = scope_run xs s; (os2, s2) = scope_run ys s1 in (os1 @ os2, s2))"
  by (induction xs arbitrary: s)
    (simp_all add: scope_run_Cons split_beta Let_def del: scope_run.simps(2))

text \<open>The window that a trigger on sample \<open>x\<close> followed by the samples \<open>ys\<close> captures.\<close>

definition window_samples :: "scope_config \<Rightarrow> u16 list \<Rightarrow> u16 \<Rightarrow> u16 list \<Rightarrow> u16 list" where
  "window_samples cfg circ x ys = push_circular (unat (pre_samples cfg)) circ x @ x # ys"

definition window_of :: "scope_config \<Rightarrow> u16 list \<Rightarrow> captured_window" where
  "window_of cfg ws = \<lparr>w_samples = ws, w_trigger_index = pre_samples cfg,
     w_pre_samples = pre_samples cfg, w_post_samples = post_samples cfg\<rparr>"

lemma capture_run:
  fixes x :: u16
  assumes "sc_enable (sc_config s)" and "sc_state s = ARMED"
    and "Suc (length ys) = post_total (sc_config s)"
  defines "ws \<equiv> window_samples (sc_config s) (circular_buffer s) x (map fst ys)"
  shows "\<exists>u. scope_run ((x, True) # ys) s = (replicate (Suc (length ys)) (False, 0), u) \<and>
    sc_config u = sc_config s \<and> sc_state u = OUTPUTTING \<and> output_index u = 0 \<and>
    capture_buffer u = ws \<and> windows u = windows s @ [window_of (sc_config s) ws]"
proof -
  define t where "t = snd (scope_process_sample x True s)"
  have step: "scope_process_sample x True s = ((False, 0), t)"
    using assms(1,2) by (simp add: t_def scope_process_sample_def Let_def)
  have t: "sc_enable (sc_config t)" "sc_state t = CAPTURING" "post_counter t = 1"
    "sc_config t = sc_config s" "windows t = windows s"
    "capture_buffer t = push_circular (unat (pre_samples (sc_config s))) (circular_buffer s) x @ [x]"
    using assms(1,2) by (simp_all add: t_def scope_process_sample_def Let_def)
  have "ys \<noteq> []" "unat (post_counter t) + length ys = post_total (sc_config t)"
    using assms(3) t by (auto simp: post_total_def)
  with capturing_run [OF t(1,2) _ this] obtain k where
    "scope_run ys t = (replicate (length ys) (False, 0),
      t\<lparr>sample_count := k, sc_state := OUTPUTTING, capture_buffer := capture_buffer t @ map fst ys,
      post_counter := of_nat (post_total (sc_config t)), output_index := 0,
      windows := windows t @ [\<lparr>w_samples = capture_buffer t @ map fst ys,
        w_trigger_index = pre_samples (sc_config t), w_pre_samples = pre_samples (sc_config t),
        w_post_samples = post_samples (sc_config t)\<rparr>]\<rparr>)"
    using t(3) by auto
  with t step show ?thesis
    by (simp add: ws_def window_samples_def window_of_def)
qed

section \<open>Properties\<close>


text \<open>
  A full cycle of an armed scope: a trigger on \<open>x\<close>, the rest \<open>ys\<close> of the post-trigger
  samples, then as many calls \<open>zs\<close> as the window is long. Nothing is output while capturing,
  the window is appended to the captured ones, the playback returns exactly the window's
  samples in order, and the scope is armed again with an empty pre-trigger buffer.
\<close>

theorem scope_capture_playback:
  assumes "sc_enable (sc_config s)" and "sc_state s = ARMED"
    and "Suc (length ys) = post_total (sc_config s)"
    and "ws = window_samples (sc_config s) (circular_buffer s) x (map fst ys)"
    and "length zs = length ws"
    and "scope_run ((x, True) # ys @ zs) s = (os, s')"
  shows "os = replicate (Suc (length ys)) (False, 0) @ map (Pair True) ws \<and>
    windows s' = windows s @ [window_of (sc_config s) ws] \<and>
    sc_state s' = ARMED \<and> circular_buffer s' = []"
proof -
  obtain u where u: "scope_run ((x, True) # ys) s = (replicate (Suc (length ys)) (False, 0), u)"
      "sc_config u = sc_config s" "sc_state u = OUTPUTTING" "output_index u = 0"
      "capture_buffer u = ws" "windows u = windows s @ [window_of (sc_config s) ws]"
    using capture_run [OF assms(1-3), of x] assms(4) by auto
  have "zs \<noteq> []"
    using assms(4,5) by (auto simp: window_samples_def)
  with playback_run [of u zs] obtain k where
    "scope_run zs u = (map (Pair True) ws, u\<lparr>sample_count := k,
      output_index := length (capture_buffer u), sc_state := ARMED, circular_buffer := []\<rparr>)"
    using u assms(1,5) by auto
  with u(1) assms(6) scope_run_append [of "(x, True) # ys" zs s] show ?thesis
    by (simp add: u(6) Let_def split_beta)
qed

text \<open>An armed scope with \<open>pre = 2\<close>, \<open>post = 2\<close> for concrete runs.\<close>

definition armed_2_2 :: scope where
  "armed_2_2 = snd (scope_run [(1, False), (2, False)]
     (scope_enable (scope_configure (scope_config_new\<lparr>pre_samples := 2, post_samples := 2\<rparr>)
        (scope_reset (scope_new 0)))))"

lemma armed_2_2_simps [simp]:
  "sc_enable (sc_config armed_2_2)" "sc_state armed_2_2 = ARMED"
  "pre_samples (sc_config armed_2_2) = 2" "post_samples (sc_config armed_2_2) = 2"
  "circular_buffer armed_2_2 = [1, 2]" "windows armed_2_2 = []"
  by (code_simp+)

theorem scope_capture_playback_witness:
  "w_samples (last (windows (snd (scope_run ((3, True) # [(4, False)] @ replicate 4 (0, False))
     armed_2_2)))) = [2, 3, 3, 4]"
proof -
  obtain os s' where run: "scope_run ((3, True) # [(4, False)] @ replicate 4 (0, False)) armed_2_2 = (os, s')"
    by fastforce
  have "[2, 3, 3, 4] = window_samples (sc_config armed_2_2) (circular_buffer armed_2_2) 3 (map fst [(4, False)])"
    by (simp add: window_samples_def push_circular_def)
  from scope_capture_playback [OF _ _ _ this _ run] run show ?thesis
    by (simp add: post_total_def window_of_def del: scope_run.simps)
qed

text \<open>
  With a full pre-trigger buffer of \<open>n > 0\<close> samples the window has \<open>n + post\<close> samples and holds
  the trigger sample twice, at \<open>n - 1\<close> and at the trigger index \<open>n\<close>: the sample has already been
  pushed into the pre-trigger buffer when it is appended as the first post-trigger one, so only
  \<open>n - 1\<close> samples from before the trigger are kept.
\<close>

theorem trigger_sample_twice:
  assumes "length (circular_buffer s) = unat (pre_samples (sc_config s))"
    and "0 < unat (pre_samples (sc_config s))"
    and "Suc (length ys) = post_total (sc_config s)"
    and "sc_enable (sc_config s)" and "sc_state s = ARMED"
    and "w = last (windows (snd (scope_run ((x, True) # ys) s)))"
  shows "length (w_samples w) = unat (w_trigger_index w) + post_total (sc_config s) \<and>
    w_samples w ! unat (w_trigger_index w) = x \<and> w_samples w ! (unat (w_trigger_index w) - 1) = x"
proof -
  define n where "n = unat (pre_samples (sc_config s))"
  define p where "p = push_circular n (circular_buffer s) x"
  have p: "length p = n" "p \<noteq> []" "last p = x"
    using assms(1,2) last_push_circular [of n "circular_buffer s" x]
    by (simp_all add: p_def n_def length_push_circular)
  have "w = window_of (sc_config s) (p @ x # map fst ys)"
    using capture_run [OF assms(4,5,3), of x] assms(6)
    by (auto simp: window_samples_def p_def n_def)
  moreover have "p ! (n - 1) = x"
    using p by (simp add: last_conv_nth)
  ultimately show ?thesis
    using p assms(2,3) by (simp add: window_of_def n_def [symmetric] nth_append)
qed

theorem trigger_sample_twice_witness:
  "w_samples (last (windows (snd (scope_run [(3, True), (4, False)] armed_2_2)))) ! 1 = 3"
  using trigger_sample_twice [of armed_2_2 "[(4, False)]" _ 3]
    capture_run [of armed_2_2 "[(4, False)]" 3]
  by (auto simp: post_total_def window_samples_def push_circular_def window_of_def)

text \<open>
  Playback re-arms without refilling: a trigger on the first sample after it gives a window
  with a single pre-trigger entry, the trigger sample itself, whose recorded trigger index still
  claims \<open>n\<close> entries.
\<close>

theorem rearmed_window_short:
  assumes "circular_buffer s = []" and "0 < unat (pre_samples (sc_config s))"
    and "Suc (length ys) = post_total (sc_config s)"
    and "sc_enable (sc_config s)" and "sc_state s = ARMED"
    and "w = last (windows (snd (scope_run ((x, True) # ys) s)))"
  shows "w_samples w = x # x # map fst ys \<and> w_trigger_index w = pre_samples (sc_config s)"
proof -
  have "push_circular (unat (pre_samples (sc_config s))) [] x = [x]"
    using assms(2) by (simp add: push_circular_def)
  then show ?thesis
    using capture_run [OF assms(4,5,3), of x] assms(1,6)
    by (auto simp: window_samples_def window_of_def)
qed

theorem rearmed_window_short_witness:
  "w_samples (last (windows (snd (scope_run [(3, True), (4, False)]
     (armed_2_2\<lparr>circular_buffer := []\<rparr>))))) = [3, 3, 4]"
  using rearmed_window_short [of "armed_2_2\<lparr>circular_buffer := []\<rparr>" "[(4, False)]" _ 3]
  by (simp add: post_total_def del: scope_run.simps)

end
