(* ===== verification/Ram_writer.thy ===== *)
theory Ram_writer
  imports Prelude
begin

unbundle bit_operations_syntax

text \<open>
  \<open>models/systemc/ram_writer/ram_writer_tlm.h\<close>: the RAM writer packs four 16-bit samples into
  a 64-bit word and writes words to memory in AXI4 bursts that must not cross a 4 KB page.
  \<open>m_memory\<close> is the sequence of words written, in order.
\<close>

record rw_config =
  base_addr :: u64
  buffer_size :: u64
  max_burst :: u32
  data_width :: u32

definition rw_config_new :: rw_config where
  "rw_config_new = \<lparr>base_addr = 0x10000000, buffer_size = 0x00100000, max_burst = 16, data_width = 64\<rparr>"

record axi4_write =
  address :: u64
  beats :: "u64 list"
  burst_len :: u32
  completed :: bool

text \<open>\<open>address & ~0xFFFULL\<close>\<close>

definition page_base :: "u64 \<Rightarrow> u64" where
  "page_base a = a AND NOT 0xFFF"

definition crosses_4kb :: "axi4_write \<Rightarrow> bool" where
  "crosses_4kb txn =
     (let end_addr = address txn + ucast (burst_len txn * 8) - 1 in
      page_base (address txn) \<noteq> page_base end_addr)"

datatype rw_state = RW_IDLE | COLLECTING | BURST_WRITE | FLUSH

record ram_writer =
  rw_config :: rw_config
  rw_state :: rw_state
  fifo :: "u16 list"
  packed_data :: "u64 list"
  write_ptr :: u64
  total_bytes :: u64
  burst_count :: u32
  transactions :: "axi4_write list"
  memory :: "u64 list"

definition ram_writer_new :: ram_writer where
  "ram_writer_new = \<lparr>rw_config = rw_config_new, rw_state = RW_IDLE, fifo = [], packed_data = [],
     write_ptr = 0, total_bytes = 0, burst_count = 0, transactions = [], memory = []\<rparr>"

definition rw_configure :: "rw_config \<Rightarrow> ram_writer \<Rightarrow> ram_writer" where
  "rw_configure cfg s = s\<lparr>rw_config := cfg, write_ptr := base_addr cfg\<rparr>"

definition rw_reset :: "ram_writer \<Rightarrow> ram_writer" where
  "rw_reset s = s\<lparr>rw_state := RW_IDLE, write_ptr := base_addr (rw_config s), fifo := [],
     total_bytes := 0, burst_count := 0, transactions := []\<rparr>"

definition rw_enable :: "ram_writer \<Rightarrow> ram_writer" where
  "rw_enable s = (if rw_state s = RW_IDLE then s\<lparr>rw_state := COLLECTING\<rparr> else s)"

text \<open>Four samples of the FIFO, the first in the low bits.\<close>

definition pack4 :: "u16 list \<Rightarrow> u64" where
  "pack4 xs = ucast (xs ! 0) OR push_bit 16 (ucast (xs ! 1)) OR push_bit 32 (ucast (xs ! 2)) OR
     push_bit 48 (ucast (xs ! 3))"

definition pack_and_queue :: "ram_writer \<Rightarrow> ram_writer" where
  "pack_and_queue s =
     (if length (fifo s) < 4 then s
      else s\<lparr>fifo := drop 4 (fifo s), packed_data := packed_data s @ [pack4 (take 4 (fifo s))]\<rparr>)"

text \<open>The loop stops early when the packed data run out; the pointers move by the full length.\<close>

definition create_transaction :: "u32 \<Rightarrow> ram_writer \<Rightarrow> ram_writer" where
  "create_transaction n s =
     (let words = take (unat n) (packed_data s) in
      s\<lparr>packed_data := drop (unat n) (packed_data s), memory := memory s @ words,
        transactions := transactions s @
          [\<lparr>address = write_ptr s, beats = words, burst_len = n, completed = True\<rparr>],
        write_ptr := write_ptr s + ucast (n * 8), total_bytes := total_bytes s + ucast (n * 8),
        burst_count := burst_count s + 1\<rparr>)"

definition generate_burst :: "ram_writer \<Rightarrow> ram_writer" where
  "generate_burst s =
     (if packed_data s = [] then s
      else
        let n = min (of_nat (length (packed_data s))) (max_burst (rw_config s));
            end_addr = write_ptr s + ucast (n * 8);
            boundary = page_base (write_ptr s) + 0x1000 in
        if boundary < end_addr then
          let first_burst = ucast ((boundary - write_ptr s) div 8) in
          if 0 < first_burst then create_transaction first_burst s else s
        else create_transaction n s)"

text \<open>\<open>while (m_fifo.size() >= 4) pack_and_queue();\<close>\<close>

function pack_all :: "ram_writer \<Rightarrow> ram_writer" where
  "pack_all s = (if 4 \<le> length (fifo s) then pack_all (pack_and_queue s) else s)"
  by pat_completeness auto
termination
  by (relation "measure (\<lambda>s. length (fifo s))") (auto simp: pack_and_queue_def)

declare pack_all.simps [simp del]

definition rw_flush :: "ram_writer \<Rightarrow> ram_writer" where
  "rw_flush s =
     (let s = pack_all s;
          s = (if fifo s \<noteq> [] then
                 pack_and_queue (s\<lparr>fifo := fifo s @ replicate (4 - length (fifo s)) 0\<rparr>) else s) in
      if packed_data s \<noteq> [] then generate_burst s else s)"

definition write_sample :: "u16 \<Rightarrow> bool \<Rightarrow> ram_writer \<Rightarrow> bool \<times> ram_writer" where
  "write_sample d is_last s =
     (if rw_state s = RW_IDLE then (False, s)
      else
        let s = s\<lparr>fifo := fifo s @ [d]\<rparr>;
            s = (if 4 \<le> length (fifo s) then pack_and_queue s else s);
            s = (if unat (max_burst (rw_config s)) \<le> length (packed_data s) then generate_burst s else s);
            s = (if is_last then rw_flush s else s) in
        (True, s))"

fun write_samples :: "(u16 \<times> bool) list \<Rightarrow> ram_writer \<Rightarrow> ram_writer" where
  "write_samples [] s = s"
| "write_samples ((d, l) # xs) s = write_samples xs (snd (write_sample d l s))"

section \<open>Packing\<close>

definition unpack4 :: "u64 \<Rightarrow> u16 list" where
  "unpack4 w = [ucast w, ucast (drop_bit 16 w), ucast (drop_bit 32 w), ucast (drop_bit 48 w)]"

lemma unpack4_pack4: "length xs = 4 \<Longrightarrow> unpack4 (pack4 xs) = xs"
proof -
  assume "length xs = 4"
  then obtain a b c d where xs: "xs = [a, b, c, d]"
    by (auto simp: eval_nat_numeral length_Suc_conv)
  show ?thesis
    unfolding xs unpack4_def pack4_def
    by (intro list.rel_eq [THEN fun_cong, THEN fun_cong, THEN iffD1] list.rel_intros)
      (auto intro!: bit_word_eqI simp: bit_simps)
qed

section \<open>Pages\<close>

lemma page_base_unat: "unat (page_base a) = unat a div 4096 * 4096"
proof -
  have m: "(0xFFF :: u64) = mask 12"
    by (simp add: mask_eq_exp_minus_1)
  have "page_base a = push_bit 12 (drop_bit 12 a)"
  proof (rule bit_word_eqI)
    fix n
    assume "n < LENGTH(64)"
    then show "bit (page_base a) n = bit (push_bit 12 (drop_bit 12 a)) n"
      unfolding page_base_def m bit_and_iff bit_not_iff bit_mask_iff bit_push_bit_iff bit_drop_bit_eq
      by (cases "n < 12") simp_all
  qed
  moreover have "unat (drop_bit 12 a) = unat a div 4096"
    by (simp add: unat_drop_bit_eq drop_bit_eq_div [of 12 "unat a"])
  moreover have "unat a div 4096 * 4096 < 2 ^ 64"
    using unat_lt [of a] by simp
  ultimately show ?thesis
    by (simp add: push_bit_eq_mult unat_word_ariths)
qed

lemma page_base_eq_iff: "page_base a = page_base b \<longleftrightarrow> unat a div 4096 = unat b div 4096"
  by (metis page_base_unat mult_cancel2 word_unat_eq_iff zero_neq_numeral)

section \<open>The sample stream is conserved\<close>

text \<open>What the writer holds: the words in memory, the packed words, the loose samples.\<close>

definition content :: "ram_writer \<Rightarrow> u16 list" where
  "content s = concat (map unpack4 (memory s @ packed_data s)) @ fifo s"

definition pad4 :: "u16 list \<Rightarrow> u16 list" where
  "pad4 xs = xs @ replicate ((4 - length xs mod 4) mod 4) 0"

fun stream_spec :: "(u16 \<times> bool) list \<Rightarrow> u16 list \<Rightarrow> u16 list" where
  "stream_spec [] acc = acc"
| "stream_spec ((d, l) # xs) acc = stream_spec xs (if l then pad4 (acc @ [d]) else acc @ [d])"

lemma content_fifo [simp]: "content (s\<lparr>fifo := fifo s @ zs\<rparr>) = content s @ zs"
  by (simp add: content_def)

lemma pack_content [simp]: "content (pack_and_queue s) = content s"
proof (cases "length (fifo s) < 4")
  case False
  then have "unpack4 (pack4 (take 4 (fifo s))) = take 4 (fifo s)"
    by (intro unpack4_pack4) simp
  with False show ?thesis
    by (simp add: content_def pack_and_queue_def)
qed (simp add: pack_and_queue_def)

lemma create_content [simp]: "content (create_transaction n s) = content s"
  by (simp add: content_def create_transaction_def Let_def flip: concat_append map_append)

lemma burst_content [simp]: "content (generate_burst s) = content s"
  by (simp add: generate_burst_def Let_def)

lemma burst_keeps [simp]:
  "fifo (generate_burst s) = fifo s" "rw_state (generate_burst s) = rw_state s"
  "rw_config (generate_burst s) = rw_config s"
  by (simp_all add: generate_burst_def create_transaction_def Let_def)

lemma pack_keeps [simp]:
  "rw_state (pack_and_queue s) = rw_state s" "rw_config (pack_and_queue s) = rw_config s"
  "memory (pack_and_queue s) = memory s" "write_ptr (pack_and_queue s) = write_ptr s"
  "transactions (pack_and_queue s) = transactions s"
  by (simp_all add: pack_and_queue_def)

lemma pack_all_few: "length (fifo s) < 4 \<Longrightarrow> pack_all s = s"
  by (simp add: pack_all.simps [of s])

text \<open>Between calls fewer than four samples are loose, so a flush packs at most one word.\<close>

lemma length_content_mod: "length (content s) mod 4 = length (fifo s) mod 4"
proof -
  let ?ws = "memory s @ packed_data s"
  have len: "length (concat (map unpack4 ?ws)) = 4 * length ?ws"
    by (rule length_concat_const) (simp add: unpack4_def)
  show ?thesis
    by (simp only: content_def length_append [of "concat (map unpack4 ?ws)" "fifo s"] len
        mod_mult_self4)
qed

lemma flush_content:
  assumes "length (fifo s) < 4"
  shows "content (rw_flush s) = pad4 (content s)" "fifo (rw_flush s) = []"
proof -
  have "(4 - length (content s) mod 4) mod 4 = (if fifo s = [] then 0 else 4 - length (fifo s))"
    using assms length_content_mod [of s] by (cases "fifo s") auto
  then show "content (rw_flush s) = pad4 (content s)"
    using assms by (simp add: rw_flush_def Let_def pack_all_few pad4_def)
  show "fifo (rw_flush s) = []"
    using assms by (simp add: rw_flush_def Let_def pack_all_few pack_and_queue_def)
qed

text \<open>A sample before its possible flush: appended, packed when four are there, maybe a burst.\<close>

definition accept_sample :: "u16 \<Rightarrow> ram_writer \<Rightarrow> ram_writer" where
  "accept_sample d s =
     (let s = s\<lparr>fifo := fifo s @ [d]\<rparr>; s = (if 4 \<le> length (fifo s) then pack_and_queue s else s) in
      if unat (max_burst (rw_config s)) \<le> length (packed_data s) then generate_burst s else s)"

lemma write_sample_accept:
  "write_sample d l s = (if rw_state s = RW_IDLE then (False, s)
     else (True, if l then rw_flush (accept_sample d s) else accept_sample d s))"
  by (simp add: write_sample_def accept_sample_def Let_def)

lemma accept_sample_content [simp]: "content (accept_sample d s) = content s @ [d]"
  by (simp add: accept_sample_def Let_def)

lemma accept_sample_keeps:
  "rw_state (accept_sample d s) = rw_state s" "rw_config (accept_sample d s) = rw_config s"
  "length (fifo s) < 4 \<Longrightarrow> length (fifo (accept_sample d s)) < 4"
  by (auto simp: accept_sample_def Let_def pack_and_queue_def)

lemma flush_keeps [simp]:
  "length (fifo s) < 4 \<Longrightarrow> rw_state (rw_flush s) = rw_state s"
  "length (fifo s) < 4 \<Longrightarrow> rw_config (rw_flush s) = rw_config s"
  by (simp_all add: rw_flush_def Let_def pack_all_few)

lemma write_samples_content:
  assumes "rw_state s \<noteq> RW_IDLE" and "length (fifo s) < 4"
  shows "content (write_samples xs s) = stream_spec xs (content s)"
  using assms
proof (induction xs arbitrary: s)
  case (Cons x xs)
  obtain d l where x: "x = (d, l)" by fastforce
  have "length (fifo (accept_sample d s)) < 4"
    using Cons.prems(2) by (rule accept_sample_keeps(3))
  with Cons show ?case
    by (simp add: x write_sample_accept flush_content accept_sample_keeps(1))
qed simp

section \<open>Bursts\<close>

text \<open>How many words one call of \<open>generate_burst\<close> writes: what is there, at most a burst, at most
  up to the end of the page.\<close>

definition beats_now :: "ram_writer \<Rightarrow> nat" where
  "beats_now s = min (min (length (packed_data s)) (unat (max_burst (rw_config s))))
     ((4096 - unat (write_ptr s) mod 4096) div 8)"

text \<open>The addresses a writer works at: aligned to words and far from the end of the address space.\<close>

definition addr_ok :: "ram_writer \<Rightarrow> bool" where
  "addr_ok s \<longleftrightarrow> unat (write_ptr s) < 2 ^ 63 \<and> unat (write_ptr s) mod 8 = 0 \<and>
     0 < unat (max_burst (rw_config s)) \<and> length (packed_data s) < 2 ^ 29"

lemma unat_times8:
  assumes "k < 2 ^ 29"
  shows "unat (ucast (of_nat k * 8 :: u32) :: u64) = 8 * k"
proof -
  have "unat (of_nat k * 8 :: u32) = 8 * k"
    using assms by (simp add: unat_word_ariths unat_of_nat_small)
  then show ?thesis
    by (simp add: unat_ucast_up)
qed

lemma boundary_unat:
  assumes "unat w < 2 ^ 63"
  shows "unat (page_base w + 0x1000) = unat w div 4096 * 4096 + 4096"
    and "unat ((page_base w + 0x1000 - w) div 8) = (4096 - unat w mod 4096) div 8"
proof -
  have "unat w div 4096 * 4096 \<le> unat w"
    by simp
  then show b: "unat (page_base w + 0x1000) = unat w div 4096 * 4096 + 4096"
    using assms by (simp add: unat_word_ariths page_base_unat)
  have split: "unat w = unat w div 4096 * 4096 + unat w mod 4096"
    by simp
  have "unat w \<le> unat (page_base w + 0x1000)"
    unfolding b using split mod_less_divisor [of 4096 "unat w"] by linarith
  then have "unat (page_base w + 0x1000 - w) = unat w div 4096 * 4096 + 4096 - unat w"
    using unat_sub [of w "page_base w + 0x1000"] b by (simp add: word_le_nat_alt)
  also have "\<dots> = 4096 - unat w mod 4096"
    using split by linarith
  finally have "unat (page_base w + 0x1000 - w) = 4096 - unat w mod 4096" .
  then show "unat ((page_base w + 0x1000 - w) div 8) = (4096 - unat w mod 4096) div 8"
    by (simp add: unat_div)
qed

lemma generate_burst_eq:
  assumes ok: "addr_ok s" and ne: "packed_data s \<noteq> []"
  shows "generate_burst s = create_transaction (of_nat (beats_now s)) s"
    and "0 < beats_now s"
proof -
  define a where "a = unat (write_ptr s)"
  define L where "L = length (packed_data s)"
  define M where "M = unat (max_burst (rw_config s))"
  define n where "n = min (of_nat L) (max_burst (rw_config s))"
  define R where "R = (4096 - a mod 4096) div 8"
  have a: "a < 2 ^ 63" "a mod 8 = 0" and L: "0 < L" "L < 2 ^ 29" and M: "0 < M"
    using ok ne by (simp_all add: addr_ok_def a_def L_def M_def)
  have "unat (of_nat L :: u32) = L"
    using L by (simp add: unat_of_nat_small)
  then have n: "n = of_nat (min L M)"
    by (simp add: n_def M_def min_def word_le_nat_alt)
  have "unat (ucast (n * 8) :: u64) = 8 * min L M"
    unfolding n using L by (intro unat_times8) simp
  then have end_addr: "unat (write_ptr s + ucast (n * 8)) = a + 8 * min L M"
    using a L by (simp add: unat_word_ariths a_def)
  note bound = boundary_unat [of "write_ptr s", folded a_def, OF a(1)]
  have page: "a div 4096 * 4096 + 4096 = a + (4096 - a mod 4096)"
    using div_mult_mod_eq [of a 4096] mod_less_divisor [of 4096 a] by linarith
  have "a mod 4096 mod 8 = 0"
    using a(2) by (simp add: mod_mod_cancel)
  then obtain k where k: "a mod 4096 = 8 * k"
    using mod_0_imp_dvd [of "a mod 4096" 8] by (auto elim: dvdE)
  have "k < 512"
    using mod_less_divisor [of 4096 a] unfolding k by simp
  then have R8: "8 * R = 4096 - a mod 4096"
    using nonzero_mult_div_cancel_left [of 8 "512 - k"] unfolding R_def k
    by (simp add: diff_mult_distrib2)
  then have "0 < R"
    using mod_less_divisor [of 4096 a] by (cases R) auto
  then show "0 < beats_now s"
    using L M by (simp add: beats_now_def L_def M_def R_def a_def)
  have cond: "page_base (write_ptr s) + 0x1000 < write_ptr s + ucast (n * 8) \<longleftrightarrow> R < min L M"
    unfolding word_less_nat_alt bound(1) end_addr page using R8 by linarith
  have first: "ucast ((page_base (write_ptr s) + 0x1000 - write_ptr s) div 8) = (of_nat R :: u32)"
    using bound(2) unfolding R_def [symmetric] by (metis of_nat_unat)
  have "beats_now s = min (min L M) R"
    by (simp add: beats_now_def L_def M_def R_def a_def)
  moreover have "(0 :: u32) < of_nat R"
    using \<open>0 < R\<close> by (simp add: word_less_nat_alt unat_of_nat_small R_def)
  ultimately show "generate_burst s = create_transaction (of_nat (beats_now s)) s"
    using ne unfolding generate_burst_def Let_def L_def [symmetric] n_def [symmetric] cond first
    by (simp add: n min_def)
qed


text \<open>A transaction carries the beats it announces, at least one, all in one page.\<close>

definition in_page :: "axi4_write \<Rightarrow> bool" where
  "in_page t \<longleftrightarrow> 0 < length (beats t) \<and> unat (burst_len t) = length (beats t) \<and> \<not> crosses_4kb t"

text \<open>The invariant of a writer whose base address is \<open>b\<close>: the pointer is behind the words written,
  the transactions tile the memory from \<open>b\<close>, none crosses a page.\<close>

fun tiles :: "nat \<Rightarrow> axi4_write list \<Rightarrow> bool" where
  "tiles p [] = True"
| "tiles p (t # ts) = (unat (address t) = p \<and> in_page t \<and> tiles (p + 8 * length (beats t)) ts)"

lemma tiles_append:
  "tiles p (ts @ us) \<longleftrightarrow> tiles p ts \<and> tiles (p + 8 * length (concat (map beats ts))) us"
  by (induction ts arbitrary: p) (auto simp: algebra_simps)

definition rw_inv :: "nat \<Rightarrow> ram_writer \<Rightarrow> bool" where
  "rw_inv b s \<longleftrightarrow> tiles b (transactions s) \<and> memory s = concat (map beats (transactions s)) \<and>
     unat (write_ptr s) = b + 8 * length (memory s) \<and>
     b mod 8 = 0 \<and> 0 < unat (max_burst (rw_config s))"

lemma beats_now_page:
  assumes "a mod 4096 + 8 * n \<le> 4096" and "0 < (n :: nat)"
  shows "(a + 8 * n - 1) div 4096 = a div (4096 :: nat)"
proof -
  have "a + 8 * n - 1 = a div 4096 * 4096 + (a mod 4096 + 8 * n - 1)"
    using assms(2) div_mult_mod_eq [of a 4096] by linarith
  moreover have "a mod 4096 + 8 * n - 1 < 4096"
    using assms by linarith
  ultimately show ?thesis
    by (simp add: div_mult_self3 add.commute [of "a div 4096 * 4096"])
qed

lemma beats_now_le:
  "beats_now s \<le> length (packed_data s)"
  "unat (write_ptr s) mod 4096 + 8 * beats_now s \<le> 4096"
  using mod_less_divisor [of 4096 "unat (write_ptr s)"] by (auto simp: beats_now_def)

lemma stays_in_page:
  assumes "unat w mod 4096 + 8 * n \<le> 4096" and "0 < n" and "n < 2 ^ 29" and "unat w + 8 * n < 2 ^ 63"
  shows "\<not> crosses_4kb \<lparr>address = w, beats = xs, burst_len = of_nat n, completed = c\<rparr>"
proof -
  have u: "unat (w + ucast (of_nat n * 8 :: u32)) = unat w + 8 * n"
    using assms(4) by (simp add: unat_word_ariths unat_times8 [OF assms(3)])
  then have "unat (w + ucast (of_nat n * 8 :: u32) - 1) = unat w + 8 * n - 1"
    using assms(2) unat_sub [of 1 "w + ucast (of_nat n * 8 :: u32)"] by (simp add: word_le_nat_alt)
  then show ?thesis
    using beats_now_page [OF assms(1,2)] by (simp add: crosses_4kb_def page_base_eq_iff)
qed

text \<open>The words a writer has taken in, written or not.\<close>

definition held :: "ram_writer \<Rightarrow> nat" where
  "held s = length (memory s) + length (packed_data s)"

lemma burst_held [simp]: "held (generate_burst s) = held s"
  by (auto simp: generate_burst_def create_transaction_def held_def Let_def)

lemma burst_inv:
  assumes inv: "rw_inv b s" and small: "b + 8 * held s < 2 ^ 63" and few: "held s < 2 ^ 29"
  shows "rw_inv b (generate_burst s)"
proof (cases "packed_data s = []")
  case True
  then show ?thesis
    using inv by (simp add: generate_burst_def)
next
  case False
  let ?n = "beats_now s"
  have "addr_ok s"
    using inv small few by (auto simp: addr_ok_def rw_inv_def held_def mod_add_eq [symmetric])
  note g = generate_burst_eq [OF this False]
  have n: "?n < 2 ^ 29"
    using beats_now_le(1) [of s] few by (simp add: held_def)
  then have u: "unat (of_nat ?n :: u32) = ?n"
    by (simp add: unat_of_nat_small)
  have fits: "unat (write_ptr s) + 8 * ?n < 2 ^ 63"
    using inv small beats_now_le(1) [of s] by (simp add: rw_inv_def held_def)
  then have ptr: "unat (write_ptr s + ucast (of_nat ?n * 8 :: u32)) = unat (write_ptr s) + 8 * ?n"
    by (simp add: unat_word_ariths unat_times8 [OF n])
  show ?thesis
    using inv False g(2) stays_in_page [OF beats_now_le(2) g(2) n fits] ptr
      min_absorb2 [OF beats_now_le(1) [of s]]
    unfolding g(1) create_transaction_def Let_def u rw_inv_def
    by (simp add: tiles_append in_page_def u)
qed

lemma pack_inv: "rw_inv b s \<Longrightarrow> rw_inv b (pack_and_queue s)"
  by (simp add: rw_inv_def)

lemma pack_held: "held (pack_and_queue s) = (if length (fifo s) < 4 then held s else held s + 1)"
  by (simp add: held_def pack_and_queue_def)

lemma fifo_irrelevant [simp]:
  "rw_inv b (s\<lparr>fifo := f\<rparr>) = rw_inv b s" "held (s\<lparr>fifo := f\<rparr>) = held s"
  by (simp_all add: rw_inv_def held_def)

lemma accept_inv:
  assumes "rw_inv b s" and "b + 8 * (held s + 1) < 2 ^ 63" and "held s + 1 < 2 ^ 29"
  shows "rw_inv b (accept_sample d s)"
  using assms by (auto simp: accept_sample_def Let_def pack_held intro!: burst_inv pack_inv)

lemma accept_held:
  assumes "length (fifo s) < 4"
  shows "held (accept_sample d s) = held s + (if length (fifo s) = 3 then 1 else 0)"
    and "length (fifo (accept_sample d s)) = (length (fifo s) + 1) mod 4"
proof -
  show "held (accept_sample d s) = held s + (if length (fifo s) = 3 then 1 else 0)"
    using assms by (auto simp: accept_sample_def Let_def pack_held)
  show "length (fifo (accept_sample d s)) = (length (fifo s) + 1) mod 4"
  proof (cases "length (fifo s) = 3")
    case True
    then show ?thesis
      by (simp add: accept_sample_def Let_def pack_and_queue_def)
  next
    case False
    then show ?thesis
      using assms by (simp add: accept_sample_def Let_def)
  qed
qed

lemma flush_inv:
  assumes "rw_inv b s" and "length (fifo s) < 4"
    and "b + 8 * (held s + (if fifo s = [] then 0 else 1)) < 2 ^ 63"
    and "held s + (if fifo s = [] then 0 else 1) < 2 ^ 29"
  shows "rw_inv b (rw_flush s)"
    and "held (rw_flush s) = held s + (if fifo s = [] then 0 else 1)"
proof -
  let ?p = "if fifo s \<noteq> [] then
     pack_and_queue (s\<lparr>fifo := fifo s @ replicate (4 - length (fifo s)) 0\<rparr>) else s"
  have fl: "rw_flush s = (if packed_data ?p \<noteq> [] then generate_burst ?p else ?p)"
    using assms(2) by (simp add: rw_flush_def Let_def pack_all_few)
  have p: "rw_inv b ?p" "held ?p = held s + (if fifo s = [] then 0 else 1)"
    using assms(1,2) by (simp_all add: pack_inv pack_held)
  then show "rw_inv b (rw_flush s)" "held (rw_flush s) = held s + (if fifo s = [] then 0 else 1)"
    using assms(3,4) burst_inv [OF p(1)] unfolding fl by (simp_all only: burst_held split: if_split) auto
qed

lemma write_sample_inv:
  assumes "rw_inv b s" and "length (fifo s) < 4"
    and "b + 8 * (held s + 1) < 2 ^ 63" and "held s + 1 < 2 ^ 29"
  shows "rw_inv b (snd (write_sample d l s))" and "length (fifo (snd (write_sample d l s))) < 4"
    and "held (snd (write_sample d l s)) \<le> held s + 1"
proof -
  let ?a = "accept_sample d s"
  have a: "rw_inv b ?a" and f: "length (fifo ?a) < 4"
    using accept_inv [OF assms(1,3,4)] accept_sample_keeps(3) [OF assms(2)] by auto
  have "held ?a + (if fifo ?a = [] then 0 else 1) \<le> held s + 1"
    using accept_held [OF assms(2), of d] assms(2) by (cases "length (fifo s) = 3") auto
  then have h: "held ?a \<le> held s + 1" "held (rw_flush ?a) \<le> held s + 1" "rw_inv b (rw_flush ?a)"
    using flush_inv [OF a f] assms(3,4) by auto
  show "rw_inv b (snd (write_sample d l s))" "length (fifo (snd (write_sample d l s))) < 4"
    "held (snd (write_sample d l s)) \<le> held s + 1"
    using assms a f h by (simp_all add: write_sample_accept flush_content)
qed

lemma write_samples_inv:
  assumes "rw_inv b s" and "length (fifo s) < 4"
    and "b + 8 * (held s + length xs) < 2 ^ 63" and "held s + length xs < 2 ^ 29"
  shows "rw_inv b (write_samples xs s) \<and> length (fifo (write_samples xs s)) < 4 \<and>
    held (write_samples xs s) \<le> held s + length xs"
  using assms
proof (induction xs arbitrary: s)
  case (Cons x xs)
  obtain d l where x: "x = (d, l)" by fastforce
  let ?s = "snd (write_sample d l s)"
  have "b + 8 * (held s + 1) < 2 ^ 63" "held s + 1 < 2 ^ 29"
    using Cons.prems(3,4) by simp_all
  note w = write_sample_inv [OF Cons.prems(1,2) this, of d l]
  have "b + 8 * (held ?s + length xs) < 2 ^ 63" "held ?s + length xs < 2 ^ 29"
    using w(3) Cons.prems(3,4) by simp_all
  then show ?case
    using Cons.IH [OF w(1,2)] w(3) by (simp add: x)
qed simp

section \<open>Properties\<close>

definition rw_started :: "rw_config \<Rightarrow> ram_writer" where
  "rw_started cfg = rw_enable (rw_configure cfg ram_writer_new)"

lemma rw_started_fields:
  "rw_state (rw_started cfg) = COLLECTING" "fifo (rw_started cfg) = []" "memory (rw_started cfg) = []"
  "packed_data (rw_started cfg) = []" "transactions (rw_started cfg) = []"
  "rw_config (rw_started cfg) = cfg" "write_ptr (rw_started cfg) = base_addr cfg"
  by (simp_all add: rw_started_def rw_enable_def rw_configure_def ram_writer_new_def)

text \<open>C20. No sample is lost, duplicated or reordered by packing, bursting and page splits: after any
  sequence of writes the words in memory, the packed words and the loose samples, unpacked in this
  order, are exactly the samples written, padded with zeros to a whole word at every flush.\<close>

theorem ram_stream_conserved:
  "content (write_samples xs (rw_started cfg)) = stream_spec xs []"
  by (subst write_samples_content) (simp_all add: rw_started_fields content_def)

text \<open>C21. With an aligned base, every AXI4 transaction ever issued is non-empty, stays within a 4 KB
  page by the code's own test, and starts where the one before ended, the first at the base: the
  memory image is the concatenation of the beats.\<close>

theorem ram_transactions_tile:
  assumes "unat (base_addr cfg) mod 8 = 0" and "0 < max_burst cfg"
    and "length xs < 2 ^ 29" and "unat (base_addr cfg) + 8 * length xs < 2 ^ 63"
  shows "tiles (unat (base_addr cfg)) (transactions (write_samples xs (rw_started cfg))) \<and>
    memory (write_samples xs (rw_started cfg)) =
      concat (map beats (transactions (write_samples xs (rw_started cfg))))"
proof -
  have "rw_inv (unat (base_addr cfg)) (rw_started cfg)"
    using assms(1,2) by (simp add: rw_inv_def rw_started_fields word_less_nat_alt)
  then have "rw_inv (unat (base_addr cfg)) (write_samples xs (rw_started cfg))"
    by (intro write_samples_inv [THEN conjunct1]) (use assms(3,4) in \<open>simp_all add: rw_started_fields held_def\<close>)
  then show ?thesis
    by (simp add: rw_inv_def)
qed

theorem ram_transactions_tile_witness:
  "tiles 0x0FF8 (transactions (write_samples (replicate 12 (7, False))
     (rw_started \<lparr>base_addr = 0x0FF8, buffer_size = 64, max_burst = 2, data_width = 64\<rparr>)))"
  using ram_transactions_tile [of "\<lparr>base_addr = 0x0FF8, buffer_size = 64, max_burst = 2, data_width = 64\<rparr>"
    "replicate 12 (7, False)"] by simp

text \<open>A flush issues one burst only: with the FIFO empty it writes what fits in a burst and in the
  page, and leaves every further packed word unwritten.\<close>

theorem flush_leaves_words:
  assumes "addr_ok s" and "fifo s = []"
  shows "packed_data (rw_flush s) = drop (beats_now s) (packed_data s)"
proof -
  have "unat (of_nat (beats_now s) :: u32) = beats_now s"
    using assms(1) beats_now_le(1) [of s] by (simp add: addr_ok_def unat_of_nat_small)
  then show ?thesis
    using assms generate_burst_eq(1) [OF assms(1)]
    by (simp add: rw_flush_def pack_all_few Let_def create_transaction_def)
qed

definition near_page_end :: ram_writer where
  "near_page_end = ram_writer_new\<lparr>rw_state := COLLECTING, write_ptr := 0xFF8, packed_data := [1, 2, 3]\<rparr>"

theorem flush_leaves_words_witness: "packed_data (rw_flush near_page_end) = [2, 3]"
  using flush_leaves_words [of near_page_end]
  by (simp add: near_page_end_def addr_ok_def beats_now_def ram_writer_new_def rw_config_new_def)

text \<open>A reset empties the FIFO but neither the packed words nor the memory image: a writer that is
  reset and enabled again first delivers the words of before the reset.\<close>

theorem reset_keeps_packed_words:
  "content (write_samples xs (rw_enable (rw_reset s))) =
     stream_spec xs (concat (map unpack4 (memory s @ packed_data s)))"
  by (subst write_samples_content) (simp_all add: rw_enable_def rw_reset_def content_def)

end
