(* ===== verification/Dpi_bridge.thy ===== *)
theory Dpi_bridge
  imports Prelude
begin

text \<open>
  \<open>tb/dpi/dpi_bridge.c\<close>: the C side of the testbench bridge. The globals are one record; the two
  static buffers are maps from indices, of which the code may touch those below the capacity only,
  so an access beyond it, undefined in C, is the value \<open>None\<close>. The counters are C \<open>int\<close>s, exact as
  long as fewer than $2^{31}$ notifications arrive. A registered callback is a function of the host:
  it is represented by its address, and a call of it by an entry of the list of calls. Messages on
  the terminal are left out.
\<close>

definition MAX_TRANSACTIONS :: int where
  "MAX_TRANSACTIONS = 100000"

definition MAX_TRIGGER_EVENTS :: int where
  "MAX_TRIGGER_EVENTS = 10000"

record axis_transaction =
  ax_data :: int
  ax_last :: int
  ax_timestamp :: int
  ax_seq_num :: int

record dpi_trigger_event =
  ev_sample_index :: int
  ev_sample_value :: int
  ev_threshold :: int

datatype callback_call =
    AxisCall nat axis_transaction
  | TriggerCall nat dpi_trigger_event

record bridge =
  g_axis_callback :: "nat option"
  g_trigger_callback :: "nat option"
  g_transaction_count :: int
  g_error_count :: int
  g_simulation_done :: int
  g_transaction_buffer :: "int \<Rightarrow> axis_transaction"
  g_trigger_buffer :: "int \<Rightarrow> dpi_trigger_event"
  g_trigger_count :: int
  g_calls :: "callback_call list"

text \<open>The globals of a freshly loaded library.\<close>

definition bridge_zero :: bridge where
  "bridge_zero = \<lparr>g_axis_callback = None, g_trigger_callback = None, g_transaction_count = 0,
     g_error_count = 0, g_simulation_done = 0,
     g_transaction_buffer = (\<lambda>_. \<lparr>ax_data = 0, ax_last = 0, ax_timestamp = 0, ax_seq_num = 0\<rparr>),
     g_trigger_buffer = (\<lambda>_. \<lparr>ev_sample_index = 0, ev_sample_value = 0, ev_threshold = 0\<rparr>),
     g_trigger_count = 0, g_calls = []\<rparr>"

definition dpi_notify_axis_response :: "int \<Rightarrow> int \<Rightarrow> int \<Rightarrow> bridge \<Rightarrow> bridge" where
  "dpi_notify_axis_response dat is_last timestamp s =
     (let txn = \<lparr>ax_data = dat, ax_last = is_last, ax_timestamp = timestamp,
                 ax_seq_num = g_transaction_count s\<rparr>;
          s = (if g_transaction_count s < MAX_TRANSACTIONS
               then s\<lparr>g_transaction_buffer := (g_transaction_buffer s)(g_transaction_count s := txn)\<rparr>
               else s);
          s = s\<lparr>g_transaction_count := g_transaction_count s + 1\<rparr> in
      case g_axis_callback s of
        None \<Rightarrow> s
      | Some cb \<Rightarrow> s\<lparr>g_calls := g_calls s @ [AxisCall cb txn]\<rparr>)"

definition dpi_notify_trigger_event :: "int \<Rightarrow> int \<Rightarrow> int \<Rightarrow> bridge \<Rightarrow> bridge" where
  "dpi_notify_trigger_event sample_index sample_value threshold s =
     (let event = \<lparr>ev_sample_index = sample_index, ev_sample_value = sample_value,
                   ev_threshold = threshold\<rparr>;
          s = (if g_trigger_count s < MAX_TRIGGER_EVENTS
               then s\<lparr>g_trigger_buffer := (g_trigger_buffer s)(g_trigger_count s := event)\<rparr>
               else s);
          s = s\<lparr>g_trigger_count := g_trigger_count s + 1\<rparr> in
      case g_trigger_callback s of
        None \<Rightarrow> s
      | Some cb \<Rightarrow> s\<lparr>g_calls := g_calls s @ [TriggerCall cb event]\<rparr>)"

definition dpi_notify_error :: "bridge \<Rightarrow> bridge" where
  "dpi_notify_error s = s\<lparr>g_error_count := g_error_count s + 1\<rparr>"

definition dpi_notify_sim_done :: "bridge \<Rightarrow> bridge" where
  "dpi_notify_sim_done s = s\<lparr>g_simulation_done := 1\<rparr>"

definition dpi_bridge_init :: "nat option \<Rightarrow> nat option \<Rightarrow> bridge \<Rightarrow> int \<times> bridge" where
  "dpi_bridge_init axis_cb trig_cb s =
     (0, s\<lparr>g_axis_callback := axis_cb, g_trigger_callback := trig_cb, g_transaction_count := 0,
           g_trigger_count := 0, g_error_count := 0, g_simulation_done := 0\<rparr>)"

definition dpi_bridge_cleanup :: "bridge \<Rightarrow> bridge" where
  "dpi_bridge_cleanup s = s\<lparr>g_axis_callback := None, g_trigger_callback := None\<rparr>"

text \<open>The status code, and the value stored through the pointer when it is 0.\<close>

definition dpi_get_transaction :: "int \<Rightarrow> bridge \<Rightarrow> int + axis_transaction" where
  "dpi_get_transaction index s =
     (if index < 0 \<or> g_transaction_count s \<le> index \<or> MAX_TRANSACTIONS \<le> index then Inl (- 1)
      else Inr (g_transaction_buffer s index))"

definition dpi_get_trigger_event :: "int \<Rightarrow> bridge \<Rightarrow> int + dpi_trigger_event" where
  "dpi_get_trigger_event index s =
     (if index < 0 \<or> g_trigger_count s \<le> index \<or> MAX_TRIGGER_EVENTS \<le> index then Inl (- 1)
      else Inr (g_trigger_buffer s index))"

text \<open>
  The loop of \<open>dpi_compare_transactions\<close> from index \<open>i\<close>. The bound of the loop is the number of
  notifications, not the capacity, so an iteration may read beyond the buffer.
\<close>

function compare_loop :: "int \<Rightarrow> int list \<Rightarrow> int \<Rightarrow> int \<Rightarrow> bridge \<Rightarrow> int option" where
  "compare_loop i expected count mismatches s =
     (if i < count \<and> i < g_transaction_count s then
        if MAX_TRANSACTIONS \<le> i \<or> int (length expected) \<le> i then None
        else compare_loop (i + 1) expected count
               (if ax_data (g_transaction_buffer s i) \<noteq> expected ! nat i then mismatches + 1
                else mismatches) s
      else Some mismatches)"
  by pat_completeness auto
termination
  by (relation "measure (\<lambda>(i, expected, count, _, _). nat (count - i))") auto

declare compare_loop.simps [simp del]

definition dpi_compare_transactions :: "int list \<Rightarrow> int \<Rightarrow> bridge \<Rightarrow> int option" where
  "dpi_compare_transactions expected count s =
     (case compare_loop 0 expected count 0 s of
        None \<Rightarrow> None
      | Some mismatches \<Rightarrow>
          Some (if g_transaction_count s < count then mismatches + (count - g_transaction_count s)
                else mismatches))"

section \<open>What is stored\<close>

fun notify_all :: "(int \<times> int \<times> int) list \<Rightarrow> bridge \<Rightarrow> bridge" where
  "notify_all [] s = s"
| "notify_all ((d, l, t) # xs) s = notify_all xs (dpi_notify_axis_response d l t s)"

definition txn_at :: "(int \<times> int \<times> int) list \<Rightarrow> nat \<Rightarrow> axis_transaction" where
  "txn_at xs i = (case xs ! i of (d, l, t) \<Rightarrow>
     \<lparr>ax_data = d, ax_last = l, ax_timestamp = t, ax_seq_num = int i\<rparr>)"

lemma notify_all_append: "notify_all (xs @ ys) s = notify_all ys (notify_all xs s)"
  by (induction xs s rule: notify_all.induct) auto

lemma notify_axis_fields [simp]:
  "g_transaction_count (dpi_notify_axis_response d l t s) = g_transaction_count s + 1"
  "g_axis_callback (dpi_notify_axis_response d l t s) = g_axis_callback s"
  "g_transaction_buffer (dpi_notify_axis_response d l t s) =
     (if g_transaction_count s < MAX_TRANSACTIONS
      then (g_transaction_buffer s)(g_transaction_count s :=
        \<lparr>ax_data = d, ax_last = l, ax_timestamp = t, ax_seq_num = g_transaction_count s\<rparr>)
      else g_transaction_buffer s)"
  "g_calls (dpi_notify_axis_response d l t s) = g_calls s @
     (case g_axis_callback s of None \<Rightarrow> []
      | Some cb \<Rightarrow> [AxisCall cb \<lparr>ax_data = d, ax_last = l, ax_timestamp = t,
                              ax_seq_num = g_transaction_count s\<rparr>])"
  by (simp_all add: dpi_notify_axis_response_def Let_def split: option.split)

lemma txn_at_append:
  "i < length xs \<Longrightarrow> txn_at (xs @ ys) i = txn_at xs i"
  "txn_at (xs @ [(d, l, t)]) (length xs) =
     \<lparr>ax_data = d, ax_last = l, ax_timestamp = t, ax_seq_num = int (length xs)\<rparr>"
  by (simp_all add: txn_at_def nth_append)

lemma notify_all_fields:
  assumes "g_transaction_count s = 0"
  shows "g_transaction_count (notify_all xs s) = int (length xs)"
    and "g_axis_callback (notify_all xs s) = g_axis_callback s"
    and "i < length xs \<Longrightarrow> int i < MAX_TRANSACTIONS \<Longrightarrow>
      g_transaction_buffer (notify_all xs s) (int i) = txn_at xs i"
    and "g_calls (notify_all xs s) = g_calls s @
      (case g_axis_callback s of None \<Rightarrow> []
       | Some cb \<Rightarrow> map (\<lambda>i. AxisCall cb (txn_at xs i)) [0..<length xs])"
proof (induction xs arbitrary: i rule: rev_induct)
  case Nil
  {
    case 1 show ?case using assms by simp
  next
    case 2 show ?case by simp
  next
    case 3 then show ?case by simp
  next
    case 4 show ?case by (simp split: option.split)
  }
next
  case (snoc x xs)
  obtain d l t where x: "x = (d, l, t)" by (cases x)
  note IH = snoc.IH
  {
    case 1 show ?case by (simp add: x notify_all_append IH(1))
  next
    case 2 show ?case by (simp add: x notify_all_append IH(2))
  next
    case 3 then show ?case
      using IH(1) IH(3) [of i]
      by (cases "i = length xs") (auto simp: x notify_all_append txn_at_append)
  next
    case 4 show ?case
      using IH(1,2,4)
      by (simp add: x notify_all_append txn_at_append split: option.split)
  }
qed

section \<open>Comparing\<close>

definition mismatch_count :: "int list \<Rightarrow> int list \<Rightarrow> nat" where
  "mismatch_count ds es = length (filter (\<lambda>(d, e). d \<noteq> e) (zip ds es))"

definition stored_data :: "bridge \<Rightarrow> int \<Rightarrow> int list" where
  "stored_data s n = map (\<lambda>i. ax_data (g_transaction_buffer s (int i))) [0..<nat n]"

lemma compare_loop_eq:
  assumes "g_transaction_count s \<le> MAX_TRANSACTIONS \<or> count \<le> MAX_TRANSACTIONS"
    and "count \<le> int (length expected)"
  shows "compare_loop (int i) expected count m s =
    Some (m + int (length (filter (\<lambda>k. ax_data (g_transaction_buffer s (int k)) \<noteq> expected ! k)
      [i..<nat (min count (g_transaction_count s))])))"
proof (induction "nat (count - int i)" arbitrary: i m)
  case 0
  then show ?case
    by (simp add: compare_loop.simps [of "int i"])
next
  case (Suc n)
  show ?case
  proof (cases "int i < count \<and> int i < g_transaction_count s")
    case True
    then have "i < nat (min count (g_transaction_count s))"
      by linarith
    then have "[i..<nat (min count (g_transaction_count s))] =
        i # [Suc i..<nat (min count (g_transaction_count s))]"
      by (rule upt_conv_Cons)
    moreover have "int i < MAX_TRANSACTIONS" "int i < int (length expected)"
      using True assms by auto
    moreover have "n = nat (count - int (Suc i))"
      using Suc.hyps(2) by simp
    note Suc.hyps(1) [OF this]
    ultimately show ?thesis
      using True by (simp add: compare_loop.simps [of "int i"] add.commute [of 1])
  next
    case False
    then show ?thesis
      by (auto simp: compare_loop.simps [of "int i"])
  qed
qed

lemma compare_loop_beyond:
  assumes "MAX_TRANSACTIONS < count" and "MAX_TRANSACTIONS < g_transaction_count s"
    and "i \<le> MAX_TRANSACTIONS"
  shows "compare_loop i expected count m s = None"
  using assms(3)
proof (induction "nat (MAX_TRANSACTIONS - i)" arbitrary: i m)
  case 0
  then have "i = MAX_TRANSACTIONS"
    by simp
  then show ?case
    using assms(1,2) compare_loop.simps [of MAX_TRANSACTIONS] by simp
next
  case (Suc n)
  then have "n = nat (MAX_TRANSACTIONS - (i + 1))" "i + 1 \<le> MAX_TRANSACTIONS"
    by auto
  note IH = Suc.hyps(1) [OF this]
  show ?case
    unfolding compare_loop.simps [of i] using IH assms(1,2) Suc.prems by simp
qed

section \<open>Properties\<close>

text \<open>After an initialisation, every notification is stored in order under its sequence number
  up to the capacity, beyond which lookups report an error, and a registered callback has been
  called once per notification, in order, the ones that no longer fit included.\<close>

theorem dpi_bridge_records:
  "let s = notify_all xs (snd (dpi_bridge_init (Some cb) tcb bridge_zero)) in
   g_transaction_count s = int (length xs) \<and>
   dpi_get_transaction i s =
     (if 0 \<le> i \<and> i < min (int (length xs)) MAX_TRANSACTIONS then Inr (txn_at xs (nat i)) else Inl (- 1)) \<and>
   g_calls s = map (\<lambda>i. AxisCall cb (txn_at xs i)) [0..<length xs]"
proof -
  let ?s = "snd (dpi_bridge_init (Some cb) tcb bridge_zero)"
  have s: "g_transaction_count ?s = 0" "g_axis_callback ?s = Some cb" "g_calls ?s = []"
    by (simp_all add: dpi_bridge_init_def bridge_zero_def)
  show ?thesis
    using notify_all_fields(3) [OF s(1), of "nat i" xs]
    by (auto simp: Let_def dpi_get_transaction_def notify_all_fields(1,4) [OF s(1)] s)
qed

text \<open>Within the capacity the comparison counts the positions that differ and the expected words
  that never arrived, so it returns 0 exactly when the expected data are a prefix of the received.\<close>

theorem dpi_compare_counts:
  assumes "g_transaction_count s \<le> MAX_TRANSACTIONS" and "0 \<le> g_transaction_count s"
  shows "\<exists>n. dpi_compare_transactions expected (int (length expected)) s = Some n \<and>
    (n = 0 \<longleftrightarrow> (int (length expected) \<le> g_transaction_count s \<and>
       (\<forall>k < length expected. ax_data (g_transaction_buffer s (int k)) = expected ! k)))"
proof -
  let ?c = "int (length expected)" and ?g = "g_transaction_count s"
  let ?l = "filter (\<lambda>k. ax_data (g_transaction_buffer s (int k)) \<noteq> expected ! k) [0..<nat (min ?c ?g)]"
  have l: "?l = [] \<longleftrightarrow> (\<forall>k < nat (min ?c ?g). ax_data (g_transaction_buffer s (int k)) = expected ! k)"
    by (auto simp: filter_empty_conv)
  have "compare_loop 0 expected ?c 0 s = Some (int (length ?l))"
    using compare_loop_eq [of s ?c expected 0 0] assms(1) by simp
  then have "dpi_compare_transactions expected ?c s =
      Some (if ?g < ?c then int (length ?l) + (?c - ?g) else int (length ?l))"
    by (simp add: dpi_compare_transactions_def)
  then show ?thesis
    using l by (cases "?g < ?c") auto
qed

theorem dpi_compare_counts_witness:
  "\<exists>n. dpi_compare_transactions [5, 6] (int (length [5 :: int, 6]))
     (notify_all [(5, 0, 1), (7, 1, 2)] bridge_zero) = Some n \<and> n \<noteq> 0"
proof -
  let ?s = "notify_all [(5, 0, 1), (7, 1, 2)] bridge_zero"
  have f: "g_transaction_count ?s = 2" "ax_data (g_transaction_buffer ?s 1) = 7"
    by (simp_all add: bridge_zero_def MAX_TRANSACTIONS_def)
  then show ?thesis
    using dpi_compare_counts [of ?s "[5, 6]"]
    by (auto simp: MAX_TRANSACTIONS_def dest!: spec [of _ "Suc 0"])
qed

text \<open>When more transactions were notified, and more are expected, than the buffer holds, the
  comparison reads beyond the end of the buffer.\<close>

theorem dpi_compare_reads_beyond:
  assumes "MAX_TRANSACTIONS < count" and "MAX_TRANSACTIONS < g_transaction_count s"
  shows "dpi_compare_transactions expected count s = None"
  using compare_loop_beyond [OF assms, of 0] by (simp add: dpi_compare_transactions_def MAX_TRANSACTIONS_def)

theorem dpi_compare_reads_beyond_witness:
  "dpi_compare_transactions (replicate 100001 0) 100001 (bridge_zero\<lparr>g_transaction_count := 100001\<rparr>) = None"
  by (rule dpi_compare_reads_beyond) (simp_all add: MAX_TRANSACTIONS_def)

end
