(* ===== verification/Clib.thy ===== *)
theory Clib
  imports Prelude
begin

text \<open>
  The functions of the C library the programs parse their arguments and files with, and \<open>memcpy\<close>.
  \<open>long\<close> has 64 bits.
\<close>

text \<open>A copy from or to a place outside an array has no result.\<close>

definition memcpy :: "u8 list \<Rightarrow> nat \<Rightarrow> u8 list \<Rightarrow> nat \<Rightarrow> nat \<Rightarrow> u8 list option" where
  "memcpy dst off src soff len =
     (if soff + len \<le> length src \<and> off + len \<le> length dst then Some (blit dst off (take len (drop soff src))) else None)"

definition is_space :: "char \<Rightarrow> bool" where
  "is_space c \<longleftrightarrow> of_char c = (32 :: nat) \<or> 9 \<le> (of_char c :: nat) \<and> (of_char c :: nat) \<le> 13"

definition is_digit :: "char \<Rightarrow> bool" where
  "is_digit c \<longleftrightarrow> 48 \<le> (of_char c :: nat) \<and> (of_char c :: nat) \<le> 57"

definition digit_of :: "char \<Rightarrow> int" where
  "digit_of c = of_char c - 48"

definition digits_value :: "string \<Rightarrow> int" where
  "digits_value ds = foldl (\<lambda>a c. 10 * a + digit_of c) 0 ds"

text \<open>\<open>strtol(s, &end, 10)\<close>: the value, whether \<open>errno\<close> becomes \<open>ERANGE\<close>, whether \<open>end == s\<close>.\<close>

definition strtol :: "string \<Rightarrow> int \<times> bool \<times> bool" where
  "strtol s =
     (let t = dropWhile is_space s;
          (neg, u) = (case t of [] \<Rightarrow> (False, t)
             | c # r \<Rightarrow> if c = CHR ''-'' then (True, r) else if c = CHR ''+'' then (False, r) else (False, t));
          ds = takeWhile is_digit u in
      if ds = [] then (0, False, True)
      else let v = (if neg then - digits_value ds else digits_value ds) in
        if v < - (2 ^ 63) then (- (2 ^ 63), True, False)
        else if 2 ^ 63 \<le> v then (2 ^ 63 - 1, True, False)
        else (v, False, False))"

text \<open>\<open>strtol\<close> where \<open>long\<close> has \<open>w\<close> bits, with the text after the number. \<open>None\<close>: no number.\<close>

definition sign_of :: "string \<Rightarrow> bool \<times> string" where
  "sign_of t = (case t of [] \<Rightarrow> (False, t)
     | c # r \<Rightarrow> if c = CHR ''-'' then (True, r) else if c = CHR ''+'' then (False, r) else (False, t))"

definition strtol_rest :: "nat \<Rightarrow> string \<Rightarrow> (int \<times> string) option" where
  "strtol_rest w s =
     (let (neg, u) = sign_of (dropWhile is_space s); ds = takeWhile is_digit u;
          v = (if neg then - digits_value ds else digits_value ds) in
      if ds = [] then None else Some (max (- (2 ^ (w - 1))) (min (2 ^ (w - 1) - 1) v), dropWhile is_digit u))"

text \<open>\<open>strtoull(s, &end, base)\<close> for the bases 0, 10 and 16, with the text after the number. \<open>None\<close>: no number.\<close>

definition lower :: "char \<Rightarrow> char" where
  "lower c = (if 65 \<le> (of_char c :: nat) \<and> (of_char c :: nat) \<le> 90 then char_of ((of_char c :: nat) + 32) else c)"

definition is_xdigit :: "char \<Rightarrow> bool" where
  "is_xdigit c \<longleftrightarrow> is_digit c \<or> 97 \<le> (of_char (lower c) :: nat) \<and> (of_char (lower c) :: nat) \<le> 102"

definition has_prefix :: "string \<Rightarrow> string \<Rightarrow> bool" where
  "has_prefix p s \<longleftrightarrow> map lower (take (length p) s) = p"

definition xdigit_of :: "char \<Rightarrow> int" where
  "xdigit_of c = (if is_digit c then digit_of c else of_char (lower c) - 87)"

definition is_digit_in :: "int \<Rightarrow> char \<Rightarrow> bool" where
  "is_digit_in b c \<longleftrightarrow> is_xdigit c \<and> xdigit_of c < b"

definition base_value :: "int \<Rightarrow> string \<Rightarrow> int" where
  "base_value b ds = foldl (\<lambda>a c. b * a + xdigit_of c) 0 ds"

definition strtoull_rest :: "int \<Rightarrow> string \<Rightarrow> (int \<times> string) option" where
  "strtoull_rest b s =
     (let (neg, u) = sign_of (dropWhile is_space s);
          hex = ((b = 0 \<or> b = 16) \<and> has_prefix ''0x'' u \<and> takeWhile is_xdigit (drop 2 u) \<noteq> []);
          (b, t) = (if hex then (16, drop 2 u) else if b = 0 then (if has_prefix ''0'' u then 8 else 10, u) else (b, u));
          ds = takeWhile (is_digit_in b) t; v = base_value b ds in
      if ds = [] then None
      else Some (if 2 ^ 64 \<le> v then 2 ^ 64 - 1 else if neg then - v else v, dropWhile (is_digit_in b) t))"

text \<open>The check the clients make of a numeric argument: \<open>errno\<close> is 0 before it.\<close>

definition parse_range :: "int \<Rightarrow> int \<Rightarrow> string \<Rightarrow> int option" where
  "parse_range lo hi s =
     (case strtol s of (v, erange, none) \<Rightarrow> if erange \<or> none \<or> v < lo \<or> hi < v then None else Some v)"

lemma parse_range_bounds: "parse_range lo hi s = Some v \<Longrightarrow> lo \<le> v \<and> v \<le> hi"
  by (auto simp: parse_range_def split: prod.splits if_splits)

text \<open>\<open>fgets\<close> with room for \<open>n\<close> characters: the line read and what is left of the file.\<close>

fun fgets :: "nat \<Rightarrow> string \<Rightarrow> string \<times> string" where
  "fgets 0 cs = ([], cs)"
| "fgets (Suc n) [] = ([], [])"
| "fgets (Suc n) (c # cs) =
     (if c = CHR 0x0A then ([c], cs) else case fgets n cs of (line, rest) \<Rightarrow> (c # line, rest))"

lemma fgets_conserves: "fgets n cs = (line, rest) \<Longrightarrow> line @ rest = cs"
  by (induction n cs arbitrary: line rule: fgets.induct) (auto split: if_splits prod.splits)

lemma fgets_progress: "0 < n \<Longrightarrow> cs \<noteq> [] \<Longrightarrow> fgets n cs = (line, rest) \<Longrightarrow> line \<noteq> []"
  by (cases n; cases cs) (auto split: if_splits prod.splits)

text \<open>\<open>std::getline\<close>: the lines without their ends.\<close>

function getlines :: "string \<Rightarrow> string list" where
  "getlines cs =
     (if cs = [] then [] else takeWhile (\<lambda>c. c \<noteq> CHR 0x0A) cs # getlines (drop 1 (dropWhile (\<lambda>c. c \<noteq> CHR 0x0A) cs)))"
  by pat_completeness auto
termination
proof (relation "measure length")
  fix cs :: string
  assume "cs \<noteq> []"
  then have "0 < length cs"
    by simp
  then show "(drop 1 (dropWhile (\<lambda>c. c \<noteq> CHR 0x0A) cs), cs) \<in> measure length"
    using length_dropWhile_le [of "\<lambda>c. c \<noteq> CHR 0x0A" cs] unfolding in_measure length_drop by linarith
qed simp

declare getlines.simps [simp del]

text \<open>\<open>sscanf\<close> with \<open>"%d"\<close> (a 32-bit \<open>int\<close>), \<open>"%u"\<close>, \<open>"%x"\<close> and \<open>"%hx"\<close> (the number modulo the width of its
  target) and \<open>"%s"\<close>; the text after it is returned.\<close>

definition scan_d :: "string \<Rightarrow> (u32 \<times> string) option" where
  "scan_d s = map_option (\<lambda>(v, r). (word_of_int v, r)) (strtol_rest 64 s)"

definition scan_u :: "string \<Rightarrow> (u32 \<times> string) option" where
  "scan_u s = map_option (\<lambda>(v, r). (word_of_int v, r)) (strtoull_rest 10 s)"

definition scan_x :: "string \<Rightarrow> ('w::len word \<times> string) option" where
  "scan_x s = map_option (\<lambda>(v, r). (word_of_int v, r)) (strtoull_rest 16 s)"

definition scan_s :: "string \<Rightarrow> (string \<times> string) option" where
  "scan_s s =
     (let t = dropWhile is_space s; w = takeWhile (\<lambda>c. \<not> is_space c) t in
      if w = [] then None else Some (w, dropWhile (\<lambda>c. \<not> is_space c) t))"

end
