(* ===== verification/Mmio.thy ===== *)
theory Mmio
  imports Prelude
begin

unbundle bit_operations_syntax

text \<open>
  Memory-mapped registers. Every server maps the FPGA's configuration page and reads and
  writes it through \<open>volatile\<close> pointers of several widths, so the page is a byte map and
  a store of \<open>n\<close> bytes replaces \<open>n\<close> consecutive bytes. Stores are device accesses, so each
  one is also recorded, in program order, in a trace together with the other effects the
  programs have on the outside world (FIFO ports, I2C and UART transfers, sleeping).
\<close>

datatype port = Fifo | Codec | Alex | Gen | TxRamp nat | DacRamp nat

datatype io =
    Store nat "u8 list"    \<comment> \<open>bytes stored at an offset of the configuration page\<close>
  | Port port u32          \<comment> \<open>a word stored to a FIFO port or table entry\<close>
  | I2cSelect u8           \<comment> \<open>\<open>ioctl(fd, I2C_SLAVE, addr)\<close>\<close>
  | I2cWrite "u8 list"     \<comment> \<open>\<open>write\<close> to the I2C bus\<close>
  | Uart "u8 list"         \<comment> \<open>\<open>write\<close> to the serial line\<close>
  | Sleep nat              \<comment> \<open>\<open>usleep\<close>, in microseconds\<close>
  | Send "u8 list"         \<comment> \<open>\<open>send\<close>, \<open>sendto\<close> on a socket\<close>

record machine =
  regs :: "nat \<Rightarrow> u8"
  trace :: "io list"

definition emit :: "io \<Rightarrow> 'a machine_scheme \<Rightarrow> 'a machine_scheme" where
  "emit e s = s\<lparr>trace := trace s @ [e]\<rparr>"

definition store :: "nat \<Rightarrow> u8 list \<Rightarrow> 'a machine_scheme \<Rightarrow> 'a machine_scheme" where
  "store off bs s = s\<lparr>regs := (\<lambda>a. if off \<le> a \<and> a < off + length bs then bs ! (a - off) else regs s a),
     trace := trace s @ [Store off bs]\<rparr>"

definition rd8 :: "nat \<Rightarrow> 'a machine_scheme \<Rightarrow> u8" where
  "rd8 off s = regs s off"

definition rd16 :: "nat \<Rightarrow> 'a machine_scheme \<Rightarrow> u16" where
  "rd16 off s = join16 (regs s off) (regs s (off + 1))"

definition rd32 :: "nat \<Rightarrow> 'a machine_scheme \<Rightarrow> u32" where
  "rd32 off s = join32 (regs s off) (regs s (off + 1)) (regs s (off + 2)) (regs s (off + 3))"

definition rd64 :: "nat \<Rightarrow> 'a machine_scheme \<Rightarrow> u64" where
  "rd64 off s = join64 (regs s off) (regs s (off + 1)) (regs s (off + 2)) (regs s (off + 3))
     (regs s (off + 4)) (regs s (off + 5)) (regs s (off + 6)) (regs s (off + 7))"

definition wr8 :: "nat \<Rightarrow> u8 \<Rightarrow> 'a machine_scheme \<Rightarrow> 'a machine_scheme" where
  "wr8 off w = store off [w]"

definition wr16 :: "nat \<Rightarrow> u16 \<Rightarrow> 'a machine_scheme \<Rightarrow> 'a machine_scheme" where
  "wr16 off w = store off (le16 w)"

definition wr32 :: "nat \<Rightarrow> u32 \<Rightarrow> 'a machine_scheme \<Rightarrow> 'a machine_scheme" where
  "wr32 off w = store off (le32 w)"

definition wr64 :: "nat \<Rightarrow> u64 \<Rightarrow> 'a machine_scheme \<Rightarrow> 'a machine_scheme" where
  "wr64 off w = store off (le64 w)"

lemmas wr_defs = wr8_def wr16_def wr32_def wr64_def
lemmas rd_defs = rd8_def rd16_def rd32_def rd64_def
lemmas le_defs = le16_def le32_def le64_def

section \<open>Read after write\<close>

lemma regs_store:
  "regs (store off bs s) a =
     (if off \<le> a \<and> a < off + length bs then bs ! (a - off) else regs s a)"
  by (simp add: store_def)

lemma trace_store [simp]: "trace (store off bs s) = trace s @ [Store off bs]"
  by (simp add: store_def)

lemma trace_emit [simp]: "trace (emit e s) = trace s @ [e]"
  by (simp add: emit_def)

lemma regs_emit [simp]: "regs (emit e s) = regs s"
  by (simp add: emit_def)

lemma rd_emit [simp, reg_laws]:
  "rd8 a (emit e s) = rd8 a s" "rd16 a (emit e s) = rd16 a s" "rd32 a (emit e s) = rd32 a s"
  "rd64 a (emit e s) = rd64 a s"
  by (simp_all add: rd_defs)

lemma rd_wr_same [simp, reg_laws]:
  "rd8 off (wr8 off b s) = b" "rd16 off (wr16 off h s) = h" "rd32 off (wr32 off w s) = w"
  "rd64 off (wr64 off d s) = d"
  by (simp_all add: wr_defs rd_defs le_defs regs_store)

lemma regs_wr_out:
  "a < off \<or> off + 1 \<le> a \<Longrightarrow> regs (wr8 off b s) a = regs s a"
  "a < off \<or> off + 2 \<le> a \<Longrightarrow> regs (wr16 off h s) a = regs s a"
  "a < off \<or> off + 4 \<le> a \<Longrightarrow> regs (wr32 off w s) a = regs s a"
  "a < off \<or> off + 8 \<le> a \<Longrightarrow> regs (wr64 off d s) a = regs s a"
  by (auto simp: wr_defs regs_store)

lemma rd8_wr_other [simp, reg_laws]:
  "a + 1 \<le> off \<or> off + 1 \<le> a \<Longrightarrow> rd8 a (wr8 off b s) = rd8 a s"
  "a + 1 \<le> off \<or> off + 2 \<le> a \<Longrightarrow> rd8 a (wr16 off h s) = rd8 a s"
  "a + 1 \<le> off \<or> off + 4 \<le> a \<Longrightarrow> rd8 a (wr32 off w s) = rd8 a s"
  "a + 1 \<le> off \<or> off + 8 \<le> a \<Longrightarrow> rd8 a (wr64 off d s) = rd8 a s"
  by (auto simp: rd_defs regs_wr_out)

lemma rd16_wr_other [simp, reg_laws]:
  "a + 2 \<le> off \<or> off + 1 \<le> a \<Longrightarrow> rd16 a (wr8 off b s) = rd16 a s"
  "a + 2 \<le> off \<or> off + 2 \<le> a \<Longrightarrow> rd16 a (wr16 off h s) = rd16 a s"
  "a + 2 \<le> off \<or> off + 4 \<le> a \<Longrightarrow> rd16 a (wr32 off w s) = rd16 a s"
  "a + 2 \<le> off \<or> off + 8 \<le> a \<Longrightarrow> rd16 a (wr64 off d s) = rd16 a s"
  by (auto simp: rd_defs regs_wr_out)

lemma rd32_wr_other [simp, reg_laws]:
  "a + 4 \<le> off \<or> off + 1 \<le> a \<Longrightarrow> rd32 a (wr8 off b s) = rd32 a s"
  "a + 4 \<le> off \<or> off + 2 \<le> a \<Longrightarrow> rd32 a (wr16 off h s) = rd32 a s"
  "a + 4 \<le> off \<or> off + 4 \<le> a \<Longrightarrow> rd32 a (wr32 off w s) = rd32 a s"
  "a + 4 \<le> off \<or> off + 8 \<le> a \<Longrightarrow> rd32 a (wr64 off d s) = rd32 a s"
  by (auto simp: rd_defs regs_wr_out)

lemma rd64_wr_other [simp, reg_laws]:
  "a + 8 \<le> off \<or> off + 1 \<le> a \<Longrightarrow> rd64 a (wr8 off b s) = rd64 a s"
  "a + 8 \<le> off \<or> off + 2 \<le> a \<Longrightarrow> rd64 a (wr16 off h s) = rd64 a s"
  "a + 8 \<le> off \<or> off + 4 \<le> a \<Longrightarrow> rd64 a (wr32 off w s) = rd64 a s"
  "a + 8 \<le> off \<or> off + 8 \<le> a \<Longrightarrow> rd64 a (wr64 off d s) = rd64 a s"
  by (auto simp: rd_defs regs_wr_out)

lemma trace_wr [simp]:
  "trace (wr8 off b s) = trace s @ [Store off [b]]"
  "trace (wr16 off h s) = trace s @ [Store off (le16 h)]"
  "trace (wr32 off w s) = trace s @ [Store off (le32 w)]"
  "trace (wr64 off d s) = trace s @ [Store off (le64 d)]"
  by (simp_all add: wr_defs)

lemma more_wr [simp]:
  "machine.more (wr8 off b s) = machine.more s" "machine.more (wr16 off h s) = machine.more s"
  "machine.more (wr32 off w s) = machine.more s" "machine.more (wr64 off d s) = machine.more s"
  "machine.more (emit e s) = machine.more s"
  by (simp_all add: wr_defs store_def emit_def)

section \<open>Read-modify-write\<close>

text \<open>
  \<open>*r &= ~m\<close>, \<open>*r |= m\<close>, and the reset pulse \<open>*r &= ~m; *r |= m;\<close> that all servers use to
  restart a block of the FPGA: the bit goes low and high again.
\<close>

definition reg_clear :: "('s \<Rightarrow> 'w::len word) \<Rightarrow> ('w word \<Rightarrow> 's \<Rightarrow> 's) \<Rightarrow> 'w word \<Rightarrow> 's \<Rightarrow> 's" where
  "reg_clear get put m s = put (get s AND NOT m) s"

definition reg_set :: "('s \<Rightarrow> 'w::len word) \<Rightarrow> ('w word \<Rightarrow> 's \<Rightarrow> 's) \<Rightarrow> 'w word \<Rightarrow> 's \<Rightarrow> 's" where
  "reg_set get put m s = put (get s OR m) s"

definition pulse :: "('s \<Rightarrow> 'w::len word) \<Rightarrow> ('w word \<Rightarrow> 's \<Rightarrow> 's) \<Rightarrow> 'w word \<Rightarrow> 's \<Rightarrow> 's" where
  "pulse get put m s = reg_set get put m (reg_clear get put m s)"

text \<open>The contract of a register: what was stored is read back.\<close>

locale word_register =
  fixes get :: "'s \<Rightarrow> 'w::len word" and put :: "'w word \<Rightarrow> 's \<Rightarrow> 's"
  assumes get_put: "get (put v s) = v"
begin

lemma get_clear: "get (reg_clear get put m s) = get s AND NOT m"
  by (simp add: reg_clear_def get_put)

lemma get_set: "get (reg_set get put m s) = get s OR m"
  by (simp add: reg_set_def get_put)

lemma get_pulse: "get (pulse get put m s) = get s OR m"
  by (simp add: pulse_def get_set get_clear)

text \<open>A pulse leaves the bits outside its mask as they were and the bits of the mask high.\<close>

lemma pulse_bits: "bit (get (pulse get put m s)) n \<longleftrightarrow> bit (get s) n \<or> bit m n"
  by (simp add: get_pulse bit_simps)

end

text \<open>The contract of an observation that a register's stores do not disturb.\<close>

locale undisturbed =
  fixes put :: "'w::len word \<Rightarrow> 's \<Rightarrow> 's" and obs :: "'s \<Rightarrow> 'v"
  assumes obs_put: "obs (put v s) = obs s"
begin

lemma obs_clear: "obs (reg_clear get put m s) = obs s"
  by (simp add: reg_clear_def obs_put)

lemma obs_set: "obs (reg_set get put m s) = obs s"
  by (simp add: reg_set_def obs_put)

lemma obs_pulse: "obs (pulse get put m s) = obs s"
  by (simp add: pulse_def obs_set obs_clear)

end

interpretation r8: word_register "rd8 off" "wr8 off" for off
  by unfold_locales simp

interpretation r16: word_register "rd16 off" "wr16 off" for off
  by unfold_locales simp

interpretation r32: word_register "rd32 off" "wr32 off" for off
  by unfold_locales simp

interpretation m8: undisturbed "wr8 off" machine.more for off
  by unfold_locales simp

interpretation m16: undisturbed "wr16 off" machine.more for off
  by unfold_locales simp

lemmas [simp, reg_laws] =
  r8.get_clear r8.get_set r8.get_pulse r16.get_clear r16.get_set r16.get_pulse
  m8.obs_clear m8.obs_set m8.obs_pulse m16.obs_clear m16.obs_set m16.obs_pulse

section \<open>The bytes of a 16-bit register\<close>

text \<open>Clearing or setting bits of one byte of a register leaves its other byte alone.\<close>

lemma le16_join16:
  "le16 (join16 a b) = [a, b]"
  by (auto simp: le16_def join16_def intro!: bit_word_eqI simp: bit_simps)

lemma byte_and: "le16 (join16 a b AND m) = [a AND ucast m, b AND ucast (drop_bit 8 m)]"
  by (auto simp: le16_def join16_def intro!: bit_word_eqI simp: bit_simps)

lemma byte_or: "le16 (join16 a b OR m) = [a OR ucast m, b OR ucast (drop_bit 8 m)]"
  by (auto simp: le16_def join16_def intro!: bit_word_eqI simp: bit_simps)

lemma regs_clear16 [reg_laws]:
  "regs (reg_clear (rd16 off) (wr16 off) m s) a =
     (if a = off then regs s a AND NOT (ucast m)
      else if a = off + 1 then regs s a AND NOT (ucast (drop_bit 8 m)) else regs s a)"
proof -
  have n: "ucast (NOT m) = (NOT (ucast m) :: u8)" "ucast (drop_bit 8 (NOT m)) = (NOT (ucast (drop_bit 8 m)) :: u8)"
    by (rule bit_word_eqI; auto simp: bit_simps)+
  show ?thesis
    by (auto simp: reg_clear_def wr16_def regs_store rd16_def byte_and n less_Suc_eq)
qed

lemma regs_set16 [reg_laws]:
  "regs (reg_set (rd16 off) (wr16 off) m s) a =
     (if a = off then regs s a OR ucast m
      else if a = off + 1 then regs s a OR ucast (drop_bit 8 m) else regs s a)"
  by (auto simp: reg_set_def wr16_def regs_store rd16_def byte_or less_Suc_eq)

end
