(* ===== verification/Search.thy ===== *)
theory Search
  imports Prelude
begin

text \<open>
  The binary search \<open>lower_bound\<close> that both \<open>mcpha-server.c\<close> (pulse amplitudes) and
  \<open>sdr-transceiver-hpsdr.c\<close> (amateur bands) carry: the same loop over an array of
  \<open>int64_t\<close> and of \<open>int\<close>. Array elements and the value are compared at the wider type,
  so both are integers here. Every caller passes the array's own length.
\<close>

function lower_bound_loop :: "int list \<Rightarrow> int \<Rightarrow> nat \<Rightarrow> nat \<Rightarrow> nat" where
  "lower_bound_loop array v i j =
     (if i < j then
        let k = i + (j - i) div 2 in
        if array ! k < v then lower_bound_loop array v (k + 1) j
        else lower_bound_loop array v i k
      else i)"
  by pat_completeness auto
termination
  by (relation "measure (\<lambda>(array, v, i, j). j - i)") auto

declare lower_bound_loop.simps [simp del]

definition lower_bound :: "int list \<Rightarrow> int \<Rightarrow> nat" where
  "lower_bound array v = lower_bound_loop array v 0 (length array)"

text \<open>
  The loop keeps everything below \<open>i\<close> smaller than the value and everything from \<open>j\<close> on at
  least the value; it only reads elements between them.
\<close>

lemma lower_bound_loop_spec:
  assumes "sorted array" and "i \<le> j" and "j \<le> length array"
    and "\<forall>p<i. array ! p < v" and "\<forall>p. j \<le> p \<and> p < length array \<longrightarrow> v \<le> array ! p"
  shows "let r = lower_bound_loop array v i j in i \<le> r \<and> r \<le> j \<and>
    (\<forall>p<r. array ! p < v) \<and> (\<forall>p. r \<le> p \<and> p < length array \<longrightarrow> v \<le> array ! p)"
  using assms
proof (induction array v i j rule: lower_bound_loop.induct)
  case (1 array v i j)
  show ?case
  proof (cases "i < j")
    case False
    then have "lower_bound_loop array v i j = i"
      by (simp add: lower_bound_loop.simps [of array v i j])
    with False "1.prems" show ?thesis by (simp add: Let_def)
  next
    case True
    define k where "k = i + (j - i) div 2"
    have k: "i \<le> k" "k < j"
      using True by (auto simp: k_def)
    show ?thesis
    proof (cases "array ! k < v")
      case lt: True
      have "array ! p < v" if "p < k + 1" for p
        using lt k "1.prems"(3) that sorted_nth_mono [OF "1.prems"(1), of p k] by auto
      then have less: "\<forall>p<k + 1. array ! p < v" by blast
      have step: "lower_bound_loop array v i j = lower_bound_loop array v (k + 1) j"
        using True lt by (simp add: lower_bound_loop.simps [of array v i j] k_def [symmetric] Let_def)
      show ?thesis
        using "1.IH"(1) [OF True k_def lt "1.prems"(1) _ "1.prems"(3) less "1.prems"(5)] k
        unfolding step Let_def by auto
    next
      case ge: False
      have "v \<le> array ! p" if "k \<le> p" "p < length array" for p
        using ge that sorted_nth_mono [OF "1.prems"(1), of k p] by auto
      then have least: "\<forall>p. k \<le> p \<and> p < length array \<longrightarrow> v \<le> array ! p" by blast
      have step: "lower_bound_loop array v i j = lower_bound_loop array v i k"
        using True ge by (simp add: lower_bound_loop.simps [of array v i j] k_def [symmetric] Let_def)
      have "k \<le> length array" using k "1.prems"(3) by simp
      then show ?thesis
        using "1.IH"(2) [OF True k_def ge "1.prems"(1) k(1) _ "1.prems"(4) least] k
        unfolding step Let_def by auto
    qed
  qed
qed

lemma lower_bound_loop_le: "lower_bound_loop array v i j \<le> max i j"
proof (induction array v i j rule: lower_bound_loop.induct)
  case (1 array v i j)
  show ?case
  proof (cases "i < j")
    case True
    define k where "k = i + (j - i) div 2"
    have "k < j" using True by (auto simp: k_def)
    with "1.IH" [OF True k_def] True show ?thesis
      by (subst lower_bound_loop.simps) (auto simp: k_def [symmetric] Let_def)
  qed (simp add: lower_bound_loop.simps [of array v i j])
qed

lemma lower_bound_le_length: "lower_bound array v \<le> length array"
  using lower_bound_loop_le [of array v 0 "length array"] by (simp add: lower_bound_def)

section \<open>The contract of a search\<close>

locale first_at_least =
  fixes search :: "int list \<Rightarrow> int \<Rightarrow> nat"
  assumes search_le: "search array v \<le> length array"
    and below: "sorted array \<Longrightarrow> p < search array v \<Longrightarrow> array ! p < v"
    and above: "sorted array \<Longrightarrow> search array v \<le> p \<Longrightarrow> p < length array \<Longrightarrow> v \<le> array ! p"
begin

lemma search_eqI:
  assumes "sorted array" and "r \<le> length array"
    and "0 < r \<Longrightarrow> array ! (r - 1) < v" and "r < length array \<Longrightarrow> v \<le> array ! r"
  shows "search array v = r"
proof (rule antisym)
  show "search array v \<le> r"
  proof (rule ccontr)
    assume "\<not> search array v \<le> r"
    then have "r < search array v" by simp
    with below [OF assms(1) this] assms(4) search_le [of array v] show False by simp
  qed
  show "r \<le> search array v"
  proof (rule ccontr)
    assume less: "\<not> r \<le> search array v"
    then have "v \<le> array ! (r - 1)"
      using assms(2) by (intro above [OF assms(1)]) auto
    with less assms(3) show False by simp
  qed
qed

lemma search_less_length:
  assumes "sorted array" and "array \<noteq> []" and "v \<le> last array"
  shows "search array v < length array"
proof (rule ccontr)
  assume "\<not> search array v < length array"
  then have "length array - 1 < search array v"
    using assms(2) by (cases array) auto
  from below [OF assms(1) this] assms show False
    by (simp add: last_conv_nth)
qed

lemma search_is_count:
  assumes "sorted array"
  shows "search array v = length (takeWhile (\<lambda>x. x < v) array)"
proof (rule search_eqI [OF assms])
  let ?n = "length (takeWhile (\<lambda>x. x < v) array)"
  show "?n \<le> length array"
    by (rule length_takeWhile_le)
  show "array ! (?n - 1) < v" if "0 < ?n"
    using that nth_length_takeWhile by (metis diff_less less_numeral_extra(1) nth_mem
        set_takeWhileD takeWhile_nth)
  show "v \<le> array ! ?n" if "?n < length array"
    using nth_length_takeWhile [OF that] by simp
qed

text \<open>The index found is never that of an element equal to its predecessor.\<close>

lemma search_skips_repeats:
  assumes "sorted array" and "p < length array" and "0 < p" and "array ! p = array ! (p - 1)"
  shows "search array v \<noteq> p"
  using below [OF assms(1), of "p - 1" v] above [OF assms(1), of v p] assms by auto

end

interpretation lb: first_at_least lower_bound
proof unfold_locales
  fix array v
  show "lower_bound array v \<le> length array"
    by (rule lower_bound_le_length)
next
  fix array :: "int list" and v p
  assume "sorted array" and "p < lower_bound array v"
  then show "array ! p < v"
    using lower_bound_loop_spec [of array 0 "length array" v] by (simp add: lower_bound_def Let_def)
next
  fix array :: "int list" and v p
  assume "sorted array" and "lower_bound array v \<le> p" and "p < length array"
  then show "v \<le> array ! p"
    using lower_bound_loop_spec [of array 0 "length array" v] by (simp add: lower_bound_def Let_def)
qed

end
