(* ===== verification/Doubles.thy ===== *)
theory Doubles
  imports Prelude "HOL-Library.Log_Nat"
begin

text \<open>
  The servers compute phase increments, intervals and levels in C \<open>double\<close> arithmetic and
  truncate the result to a register. A \<open>double\<close> operation returns the exact result rounded
  to 53 significant bits, ties to even (IEEE 754 binary64; \<open>float\<close> has 24 bits). All values
  that occur are zero or between \<open>2 ^ -40\<close> and \<open>2 ^ 60\<close> in magnitude, far from the exponent
  range's ends, so overflow and subnormal numbers are left out. Values are rationals, so the
  operations below compute.
\<close>

section \<open>Rounding to a number of significant bits\<close>

text \<open>Round to the nearest integer, ties to even.\<close>

definition rne :: "rat \<Rightarrow> int" where
  "rne y = (let n = \<lfloor>y\<rfloor>; d = y - of_int n in
     if d < 1 / 2 then n else if 1 / 2 < d then n + 1 else if even n then n else n + 1)"

text \<open>The binary exponent of a positive rational: \<open>2 ^ e \<le> x < 2 ^ (e + 1)\<close>.\<close>

definition ilog2 :: "rat \<Rightarrow> int" where
  "ilog2 x = (if 1 \<le> x then int (floorlog 2 (nat \<lfloor>x\<rfloor>)) - 1
     else - int (floorlog 2 (nat \<lceil>1 / x\<rceil> - 1)))"

definition fl :: "nat \<Rightarrow> rat \<Rightarrow> rat" where
  "fl p x = (if x = 0 then 0 else
     let u = 2 powi (ilog2 \<bar>x\<bar> - int p + 1) in of_int (rne (x / u)) * u)"

text \<open>The \<open>double\<close> operations the code uses.\<close>

definition dadd :: "rat \<Rightarrow> rat \<Rightarrow> rat" where "dadd a b = fl 53 (a + b)"
definition dmul :: "rat \<Rightarrow> rat \<Rightarrow> rat" where "dmul a b = fl 53 (a * b)"
definition ddiv :: "rat \<Rightarrow> rat \<Rightarrow> rat" where "ddiv a b = fl 53 (a / b)"

lemma rne_error: "\<bar>of_int (rne y) - y\<bar> \<le> 1 / 2"
proof -
  define n d where "n = \<lfloor>y\<rfloor>" and "d = y - of_int n"
  have "y = of_int n + d" and "0 \<le> d" and "d < 1"
    unfolding n_def d_def by linarith+
  then show ?thesis
    unfolding rne_def Let_def n_def [symmetric] d_def [symmetric] by auto
qed

lemma rne_of_int [simp]: "rne (of_int n) = n"
  by (simp add: rne_def)

lemma ilog2_lower:
  assumes "0 < x"
  shows "2 powi ilog2 x \<le> x"
proof (cases "1 \<le> x")
  case True
  define n where "n = nat \<lfloor>x\<rfloor>"
  have "0 < n" and nx: "of_nat n \<le> x"
    using True by (simp_all add: n_def)
  then have "2 ^ (floorlog 2 n - 1) \<le> n"
    using floorlog_bounds [of n 2] by simp
  then have "(2::rat) ^ (floorlog 2 n - 1) \<le> of_nat n"
    by (metis of_nat_le_iff of_nat_numeral of_nat_power)
  then have low: "(2::rat) ^ (floorlog 2 n - 1) \<le> x"
    using nx by (rule order_trans)
  have "ilog2 x = int (floorlog 2 n - 1)"
    using True \<open>0 < n\<close> by (simp add: ilog2_def n_def [symmetric] floorlog_def)
  with low show ?thesis by simp
next
  case False
  define m where "m = nat \<lceil>1 / x\<rceil> - 1"
  have "m < 2 ^ floorlog 2 m"
    using floorlog_leD [of 2 m "floorlog 2 m"] by simp
  moreover have "1 / x \<le> of_nat (m + 1)"
    using assms False by (simp add: m_def)
  ultimately have "1 / x \<le> 2 ^ floorlog 2 m"
    by (metis Suc_eq_plus1 Suc_leI of_nat_le_iff of_nat_numeral of_nat_power order_trans)
  then show ?thesis
    using assms False
    by (simp add: ilog2_def m_def power_int_minus field_simps)
qed

text \<open>The relative error of one operation is at most half a unit in the last place.\<close>

lemma fl_error: "\<bar>fl p x - x\<bar> \<le> \<bar>x\<bar> / 2 ^ p"
proof (cases "x = 0")
  case True
  then show ?thesis by (simp add: fl_def)
next
  case False
  define u where "u = (2::rat) powi (ilog2 \<bar>x\<bar> - int p + 1)"
  have u: "0 < u" by (simp add: u_def)
  have "\<bar>of_int (rne (x / u)) - x / u\<bar> * u \<le> 1 / 2 * u"
    using rne_error u by (intro mult_right_mono) auto
  moreover have "\<bar>of_int (rne (x / u)) - x / u\<bar> * u = \<bar>of_int (rne (x / u)) * u - x\<bar>"
    using u by (simp add: abs_mult_pos left_diff_distrib)
  ultimately have "\<bar>fl p x - x\<bar> \<le> u / 2"
    using False by (simp add: fl_def u_def [symmetric] Let_def)
  also have "u / 2 = 2 powi ilog2 \<bar>x\<bar> / 2 ^ p"
    by (simp add: u_def power_int_add power_int_diff)
  also have "\<dots> \<le> \<bar>x\<bar> / 2 ^ p"
    using False ilog2_lower [of "\<bar>x\<bar>"] by (simp add: divide_right_mono)
  finally show ?thesis .
qed

lemma fl_0 [simp]: "fl p 0 = 0"
  by (simp add: fl_def)

text \<open>A half of an integer of at most \<open>p\<close> bits is not rounded.\<close>

lemma fl_half_int:
  assumes "0 < m" and "m < 2 ^ p"
  shows "fl p (of_int m / 2) = of_int m / 2"
proof -
  let ?x = "of_int m / 2 :: rat"
  have x: "0 < ?x" "\<bar>?x\<bar> = ?x"
    using assms(1) by simp_all
  have "(of_int m :: rat) < 2 ^ p"
    using assms(2) by (metis of_int_less_iff of_int_numeral of_int_power)
  moreover have "2 powi ilog2 ?x \<le> ?x"
    by (rule ilog2_lower [OF x(1)])
  ultimately have "2 powi ilog2 ?x * 2 < (2 :: rat) ^ p"
    by linarith
  then have "(2 :: rat) powi (ilog2 ?x + 1) < 2 powi int p"
    by (simp add: power_int_add)
  then have e: "ilog2 ?x + 1 < int p"
    using power_int_increasing [of "int p" "ilog2 ?x + 1" "2 :: rat"] by linarith
  define k where "k = nat (int p - 2 - ilog2 ?x)"
  have u: "(2 :: rat) powi (ilog2 ?x - int p + 1) = 1 / (2 * 2 ^ k)"
  proof -
    have "ilog2 ?x - int p + 1 = - int (Suc k)"
      using e by (simp add: k_def)
    then show ?thesis
      by (simp add: power_int_minus inverse_eq_divide del: of_nat_Suc)
  qed
  have "?x / (1 / (2 * 2 ^ k)) = of_int (m * 2 ^ k)"
    by simp
  then have "rne (?x / (1 / (2 * 2 ^ k))) = m * 2 ^ k"
    by (simp only: rne_of_int)
  then show ?thesis
    using x unfolding fl_def Let_def x(2) u by simp
qed

lemma fl_int:
  assumes "0 \<le> n" and "2 * n < 2 ^ p"
  shows "fl p (of_int n) = of_int n"
  using assms fl_half_int [of "2 * n" p] by (cases "n = 0") simp_all

text \<open>Rounding is an odd function.\<close>

lemma rne_minus: "rne (- y) = - rne y"
proof (cases "y = of_int \<lfloor>y\<rfloor>")
  case True
  then show ?thesis
    by (metis of_int_minus rne_of_int)
next
  case False
  then have "of_int \<lfloor>y\<rfloor> < y" "y < of_int \<lfloor>y\<rfloor> + 1"
    by linarith+
  then have "\<lfloor>- y\<rfloor> = - \<lfloor>y\<rfloor> - 1"
    by (intro floor_unique) simp_all
  then show ?thesis
    by (simp add: rne_def Let_def)
qed

lemma fl_minus: "fl p (- x) = - fl p x"
  by (simp add: fl_def Let_def rne_minus flip: minus_divide_left)

lemma fl_int_signed:
  assumes "2 * \<bar>n\<bar> < 2 ^ p"
  shows "fl p (of_int n) = of_int n"
  using assms fl_int [of n p] fl_int [of "- n" p] by (cases "0 \<le> n") (simp_all add: fl_minus)

lemma fl_nonneg: "0 \<le> x \<Longrightarrow> 0 \<le> fl p x"
  by (simp add: fl_def rne_def Let_def)

section \<open>What an expression rounded step by step truncates to\<close>

text \<open>
  The contract of a rounded operation that the analysis needs, and nothing more: a relative
  error of \<open>2 ^ -53\<close>. The lemmas hold for any rounding mode that keeps it.
\<close>

locale rounding =
  fixes rnd :: "rat \<Rightarrow> rat"
  assumes rnd_error: "\<bar>rnd x - x\<bar> \<le> \<bar>x\<bar> / 2 ^ 53"
begin

text \<open>The error of an operand is carried through and a new rounding error is added.\<close>

lemma rnd_near:
  assumes "\<bar>y - x\<bar> \<le> e"
  shows "\<bar>rnd y - x\<bar> \<le> e + (\<bar>x\<bar> + e) / 2 ^ 53"
proof -
  have "\<bar>y\<bar> / 2 ^ 53 \<le> (\<bar>x\<bar> + e) / 2 ^ 53"
    using assms by (intro divide_right_mono) auto
  then show ?thesis
    using rnd_error [of y] assms by linarith
qed

lemma rnd_within:
  assumes "\<bar>y - x\<bar> \<le> e" and "\<bar>x\<bar> \<le> B"
  shows "\<bar>rnd y - x\<bar> \<le> e + (B + e) / 2 ^ 53"
proof -
  have "(\<bar>x\<bar> + e) / 2 ^ 53 \<le> (B + e) / 2 ^ 53"
    using assms(2) by (intro divide_right_mono) simp_all
  then show ?thesis
    using rnd_near [OF assms(1)] by linarith
qed

lemma two_roundings:
  fixes t :: rat
  assumes "0 \<le> t"
  shows "5 / 2 * t / 2 ^ 53 + (\<bar>t + 1 / 2\<bar> + 5 / 2 * t / 2 ^ 53) / 2 ^ 53 \<le> 4 * (t + 1) / 2 ^ 53"
  using assms by (simp add: field_simps)

text \<open>The shape \<open>a * k + 0.5\<close>, where \<open>a\<close> is itself a rounded quotient.\<close>

lemma scaled_half_error:
  assumes "0 \<le> a" and "0 \<le> k"
  shows "\<bar>rnd (rnd (rnd a * k) + 1 / 2) - (a * k + 1 / 2)\<bar> \<le> 4 * (a * k + 1) / 2 ^ 53"
proof -
  have x: "0 \<le> a * k"
    using assms by simp
  have "\<bar>rnd a - a\<bar> * k \<le> a / 2 ^ 53 * k"
    using rnd_error [of a] assms by (intro mult_right_mono) auto
  then have "\<bar>rnd a * k - a * k\<bar> \<le> a * k / 2 ^ 53"
    using assms by (simp add: abs_mult_pos left_diff_distrib)
  from rnd_near [OF this]
  have "\<bar>rnd (rnd a * k) - a * k\<bar> \<le> 5 / 2 * (a * k) / 2 ^ 53"
    using x by simp
  then have "\<bar>(rnd (rnd a * k) + 1 / 2) - (a * k + 1 / 2)\<bar> \<le> 5 / 2 * (a * k) / 2 ^ 53"
    by simp
  from order_trans [OF rnd_near [OF this] two_roundings [OF x]] show ?thesis .
qed

text \<open>The shape \<open>a + 0.5\<close> for a rounded \<open>a\<close>.\<close>

lemma half_error:
  assumes "0 \<le> a"
  shows "\<bar>rnd (rnd a + 1 / 2) - (a + 1 / 2)\<bar> \<le> 4 * (a + 1) / 2 ^ 53"
proof -
  have "\<bar>(rnd a + 1 / 2) - (a + 1 / 2)\<bar> \<le> a / 2 ^ 53"
    using rnd_error [of a] assms by simp
  from rnd_near [OF this] show ?thesis
    using assms by (simp add: field_simps)
qed

end

interpretation double: rounding "fl 53"
  by unfold_locales (rule fl_error)

text \<open>
  A value whose distance to the fraction \<open>N / D\<close> is below \<open>1 / D\<close> has the same integer part,
  unless the fraction is itself an integer.
\<close>

lemma floor_near_fraction:
  fixes y :: rat and N D :: int
  assumes D: "0 < D" and N: "N mod D \<noteq> 0"
    and near: "\<bar>y - of_int N / of_int D\<bar> < 1 / of_int D"
  shows "\<lfloor>y\<rfloor> = N div D"
proof -
  define q r where "q = N div D" and "r = N mod D"
  have r: "1 \<le> r" "r \<le> D - 1"
    using D N pos_mod_bound [OF D, of N] pos_mod_sign [OF D, of N] by (auto simp: r_def)
  have "N = q * D + r"
    by (simp add: q_def r_def)
  then have split: "of_int N / of_int D = (of_int q + of_int r / of_int D :: rat)"
    using D by (simp add: add_divide_distrib)
  have "1 / of_int D \<le> (of_int r / of_int D :: rat)"
    and "(of_int r / of_int D :: rat) \<le> of_int (D - 1) / of_int D"
    using D r by (simp_all add: divide_right_mono)
  moreover have "of_int (D - 1) / of_int D = (1 - 1 / of_int D :: rat)"
    using D by (simp add: diff_divide_distrib)
  ultimately have "of_int q \<le> y" and "y < of_int q + 1"
    using near split by linarith+
  then show ?thesis
    unfolding q_def [symmetric] by (intro floor_unique) auto
qed

section \<open>Phase increments\<close>

text \<open>
  \<open>(uint32_t)floor(freq / CLK * (1 << 30) + 0.5)\<close> for an integer frequency: the increment of a
  30-bit phase accumulator clocked at \<open>CLK\<close>.
\<close>

definition phase_inc :: "rat \<Rightarrow> nat \<Rightarrow> u32" where
  "phase_inc clk freq = word_of_int \<lfloor>dadd (dmul (ddiv (of_nat freq) clk) (2 ^ 30)) (1 / 2)\<rfloor>"

text \<open>
  With \<open>2 ^ 30 / CLK\<close> in lowest terms \<open>m / n\<close> and \<open>n\<close> odd, \<open>freq * m / n + 1 / 2\<close> is never an
  integer, so its integer part survives the rounding errors as long as they stay below
  \<open>1 / (2 * n)\<close>.
\<close>

lemma phase_inc_fraction:
  assumes c: "0 < c" "2 ^ 30 * n = m * c" and n: "odd n"
    and small: "8 * of_nat n * (of_nat freq * of_nat m + of_nat n) < (2 ^ 53 * of_nat n :: rat)"
  shows "phase_inc (of_nat c) freq = word_of_nat ((2 * freq * m + n) div (2 * n))"
proof -
  let ?x = "of_nat freq / of_nat c * 2 ^ 30 :: rat"
  have n0: "0 < n"
    using n by (simp add: odd_pos)
  have "(2 ^ 30 :: rat) * of_nat n = of_nat m * of_nat c"
    using c(2) by (metis of_nat_mult of_nat_numeral of_nat_power)
  then have x: "?x = of_nat freq * of_nat m / of_nat n"
    using c(1) n0 by (simp add: frac_eq_eq mult.commute)
  have "4 * (?x + 1) / 2 ^ 53 < 1 / of_nat (2 * n)"
    using small n0 unfolding x by (simp add: field_simps)
  then have "\<bar>dadd (dmul (ddiv (of_nat freq) (of_nat c)) (2 ^ 30)) (1 / 2) - (?x + 1 / 2)\<bar>
      < 1 / of_nat (2 * n)"
    using double.scaled_half_error [of "of_nat freq / of_nat c" "2 ^ 30"]
    unfolding dadd_def dmul_def ddiv_def by simp
  moreover have "?x + 1 / 2 = of_int (int (2 * freq * m + n)) / of_int (int (2 * n))"
    using n0 unfolding x by (simp add: field_simps)
  moreover have "\<not> 2 * n dvd 2 * freq * m + n"
    using n by (metis dvd_add_right_iff dvd_mult_left dvd_triv_left mult.assoc)
  then have "int (2 * freq * m + n) mod int (2 * n) \<noteq> 0"
    by (metis mod_0_imp_dvd of_nat_dvd_iff)
  ultimately have "\<lfloor>dadd (dmul (ddiv (of_nat freq) (of_nat c)) (2 ^ 30)) (1 / 2)\<rfloor> =
      int (2 * freq * m + n) div int (2 * n)"
    using n0 by (intro floor_near_fraction) simp_all
  then show ?thesis
    unfolding phase_inc_def by (simp only: zdiv_int [symmetric] of_int_of_nat_eq)
qed

text \<open>The two ADC clocks of the boards: 125 MHz and 122.88 MHz.\<close>

abbreviation clk_125 :: rat where "clk_125 \<equiv> 125000000"
abbreviation clk_122 :: rat where "clk_122 \<equiv> 122880000"

lemma phase_inc_125:
  assumes "f \<le> 62500000"
  shows "phase_inc clk_125 f = word_of_nat ((f * 2 ^ 25 + 1953125) div 3906250)"
proof -
  have "of_nat f \<le> (62500000 :: rat)"
    using assms by (metis of_nat_le_iff of_nat_numeral)
  then show ?thesis
    using phase_inc_fraction [of 125000000 1953125 "2 ^ 24" f] by (simp add: mult.commute)
qed

lemma phase_inc_125_le:
  assumes "f \<le> 62500000"
  shows "phase_inc clk_125 f \<le> 2 ^ 29"
proof -
  have "(f * 2 ^ 25 + 1953125) div 3906250 \<le> 2 ^ 29"
    using assms div_le_mono [of "f * 2 ^ 25 + 1953125" "62500000 * 2 ^ 25 + 1953125" 3906250] by simp
  then show ?thesis
    by (simp add: phase_inc_125 [OF assms] word_le_nat_alt unat_of_nat_small)
qed

lemma phase_inc_0: "phase_inc clk 0 = 0"
  by (simp add: phase_inc_def dadd_def dmul_def ddiv_def fl_int [of 0, simplified])
    (code_simp)

lemma phase_inc_122:
  assumes "f \<le> 62500000"
  shows "phase_inc clk_122 f = word_of_nat ((f * 2 ^ 15 + 1875) div 3750)"
proof -
  have "of_nat f \<le> (62500000 :: rat)"
    using assms by (metis of_nat_le_iff of_nat_numeral)
  then show ?thesis
    using phase_inc_fraction [of 122880000 1875 "2 ^ 14" f] by (simp add: mult.commute)
qed

section \<open>Products and the correction factor\<close>

lemma product_near:
  fixes a b x y :: rat
  assumes "\<bar>a - x\<bar> \<le> e" and "\<bar>b - y\<bar> \<le> f" and "\<bar>x\<bar> \<le> A" and "\<bar>b\<bar> \<le> B"
  shows "\<bar>a * b - x * y\<bar> \<le> e * B + A * f"
proof -
  have "a * b - x * y = (a - x) * b + x * (b - y)"
    by (simp add: algebra_simps)
  then have "\<bar>a * b - x * y\<bar> \<le> \<bar>a - x\<bar> * \<bar>b\<bar> + \<bar>x\<bar> * \<bar>b - y\<bar>"
    by (metis abs_mult abs_triangle_ineq)
  also have "\<dots> \<le> e * B + A * f"
    using assms by (intro add_mono mult_mono) auto
  finally show ?thesis .
qed

text \<open>\<open>1.0 + 1.0e-6 * corr\<close>, for a correction in parts per million.\<close>

lemma correction_near:
  assumes "\<bar>corr\<bar> \<le> 100"
  shows "\<bar>dadd 1 (dmul (fl 53 (1 / 1000000)) corr) - (1 + corr / 1000000)\<bar> \<le> 1 / 2 ^ 52"
proof -
  have "\<bar>fl 53 (1 / 1000000) - 1 / 1000000\<bar> \<le> 1 / 1000000 / 2 ^ 53"
    using fl_error [of 53 "1 / 1000000"] by simp
  then have "\<bar>fl 53 (1 / 1000000) * corr - 1 / 1000000 * corr\<bar> \<le> 1 / 1000000 / 2 ^ 53 * 100 + 1 * 0"
    using assms by (intro product_near) auto
  then have "\<bar>dmul (fl 53 (1 / 1000000)) corr - corr / 1000000\<bar> \<le> 1 / 10000 / 2 ^ 53 + (1 / 10000 + 1 / 10000 / 2 ^ 53) / 2 ^ 53"
    unfolding dmul_def using assms by (intro double.rnd_within) auto
  then have "\<bar>(1 + dmul (fl 53 (1 / 1000000)) corr) - (1 + corr / 1000000)\<bar> \<le> 1 / 2 ^ 60"
    by simp
  then have "\<bar>fl 53 (1 + dmul (fl 53 (1 / 1000000)) corr) - (1 + corr / 1000000)\<bar> \<le> 1 / 2 ^ 60 + (10001 / 10000 + 1 / 2 ^ 60) / 2 ^ 53"
    using assms by (intro double.rnd_within) auto
  then show ?thesis
    unfolding dadd_def by simp
qed

text \<open>A coarse bound.\<close>

lemma fl_between:
  assumes "0 \<le> x" and "x \<le> b"
  shows "0 \<le> fl 53 x \<and> fl 53 x \<le> b * (101 / 100)"
proof -
  have "\<bar>fl 53 x - x\<bar> \<le> x / 2 ^ 53"
    using fl_error [of 53 x] assms(1) by simp
  also have "\<dots> \<le> x / 100"
    using assms(1) by (intro divide_left_mono) simp_all
  finally show ?thesis
    using fl_nonneg [OF assms(1), of 53] assms by linarith
qed

end
