(* ===== verification/Pulser.thy ===== *)
theory Pulser
  imports Search Doubles
begin

text \<open>
  The arithmetic of the pulse generator in \<open>projects/mcpha/server/mcpha-server.c\<close>: the cumulative
  histogram amplitudes are drawn from, the gain of the two-pole pulse shaper, the interval between
  pulses. \<open>int64_t\<close> values are integers; a product that does not fit into 64 bits is undefined in C
  and is the value \<open>None\<close>. \<open>expf\<close> and \<open>logf\<close> of the C library are parameters.
\<close>

definition RAND_MAX :: int where
  "RAND_MAX = 2147483647"

definition int64 :: "int \<Rightarrow> int option" where
  "int64 x = (if - (2 ^ 63) \<le> x \<and> x < 2 ^ 63 then Some x else None)"

section \<open>The histogram\<close>

text \<open>\<open>for(i = 0; i < 4096; ++i) tot += spectrum[i];\<close>\<close>

fun spectrum_total :: "u32 list \<Rightarrow> int \<Rightarrow> int" where
  "spectrum_total [] tot = tot"
| "spectrum_total (w # ws) tot = spectrum_total ws (tot + uint w)"

text \<open>The second loop; the division truncates, like \<open>div\<close> on values that are not negative.\<close>

fun fill_hist :: "u32 list \<Rightarrow> int \<Rightarrow> int \<Rightarrow> int list option" where
  "fill_hist [] v tot = Some []"
| "fill_hist (w # ws) v tot =
     (let v = v + uint w in
      case int64 (v * RAND_MAX) of
        None \<Rightarrow> None
      | Some p \<Rightarrow> (case fill_hist ws v tot of
                    None \<Rightarrow> None
                  | Some h \<Rightarrow> Some ((p div tot - 1) # h)))"

definition build_hist :: "u32 list \<Rightarrow> int list option" where
  "build_hist spectrum = fill_hist spectrum 0 (spectrum_total spectrum 0)"

text \<open>\<open>lower_bound(hist, 4096, rand() % RAND_MAX)\<close>\<close>

definition draw_amplitude :: "int list \<Rightarrow> int \<Rightarrow> nat" where
  "draw_amplitude hist rand = lower_bound hist (rand mod RAND_MAX)"

text \<open>The weight below bin \<open>i\<close>.\<close>

definition cum :: "u32 list \<Rightarrow> nat \<Rightarrow> int" where
  "cum sp i = sum_list (map uint (take i sp))"

lemma cum_0 [simp]: "cum sp 0 = 0"
  by (simp add: cum_def)

lemma cum_Suc: "i < length sp \<Longrightarrow> cum sp (Suc i) = cum sp i + uint (sp ! i)"
  by (simp add: cum_def take_Suc_conv_app_nth)

lemma cum_Cons [simp]: "cum (w # ws) (Suc i) = uint w + cum ws i"
  by (simp add: cum_def)

lemma cum_mono:
  assumes "i \<le> j"
  shows "cum sp i \<le> cum sp j"
proof -
  have split: "take j sp = take i sp @ drop i (take j sp)"
    using assms by (metis append_take_drop_id min.absorb1 take_take)
  have "0 \<le> sum_list (map uint (drop i (take j sp)))"
    by (rule sum_list_nonneg) auto
  then show ?thesis
    unfolding cum_def by (subst split) simp
qed

lemma total_is_cum: "spectrum_total sp v = v + cum sp (length sp)"
  by (induction sp v rule: spectrum_total.induct) (auto simp: cum_def)

lemma fill_hist_spec:
  assumes "0 \<le> v" and "(v + cum sp (length sp)) * RAND_MAX < 2 ^ 63"
  shows "fill_hist sp v tot =
    Some (map (\<lambda>i. (v + cum sp (Suc i)) * RAND_MAX div tot - 1) [0..<length sp])"
  using assms
proof (induction sp v tot rule: fill_hist.induct)
  case (1 v tot)
  then show ?case by simp
next
  case (2 w ws v tot)
  have nn: "0 \<le> cum ws (length ws)"
    using cum_mono [of 0 "length ws" ws] by simp
  have "(v + uint w) * RAND_MAX \<le> (v + uint w + cum ws (length ws)) * RAND_MAX"
    using nn by (simp add: RAND_MAX_def)
  then have "(v + uint w) * RAND_MAX < 2 ^ 63"
    using 2(3) by (simp add: algebra_simps)
  moreover have "0 \<le> (v + uint w) * RAND_MAX"
    using 2(2) by (simp add: RAND_MAX_def)
  ultimately have i: "int64 ((v + uint w) * RAND_MAX) = Some ((v + uint w) * RAND_MAX)"
    by (simp add: int64_def)
  have "fill_hist ws (v + uint w) tot =
      Some (map (\<lambda>i. (v + uint w + cum ws (Suc i)) * RAND_MAX div tot - 1) [0..<length ws])"
    using 2(2,3) i by (intro "2.IH") (simp_all add: add.assoc)
  then show ?case
    using i by (simp add: Let_def upt_conv_Cons comp_def add.assoc del: upt_Suc flip: map_Suc_upt)
qed

lemma fill_hist_overflow:
  assumes "0 \<le> v" and "2 ^ 63 \<le> (v + cum sp (length sp)) * RAND_MAX" and "v * RAND_MAX < 2 ^ 63"
  shows "fill_hist sp v tot = None"
  using assms
proof (induction sp v tot rule: fill_hist.induct)
  case (2 w ws v tot)
  show ?case
  proof (cases "(v + uint w) * RAND_MAX < 2 ^ 63")
    case True
    moreover have "0 \<le> (v + uint w) * RAND_MAX"
      using 2(2) by (simp add: RAND_MAX_def)
    ultimately have i: "int64 ((v + uint w) * RAND_MAX) = Some ((v + uint w) * RAND_MAX)"
      by (simp add: int64_def)
    have "fill_hist ws (v + uint w) tot = None"
      using 2(2,3) True i by (intro "2.IH") (simp_all add: add.assoc)
    with i show ?thesis by (simp add: Let_def)
  next
    case False
    then show ?thesis by (simp add: Let_def int64_def)
  qed
qed simp

lemma le_div_iff_int:
  fixes a b c :: int
  assumes "0 < c"
  shows "a \<le> b div c \<longleftrightarrow> a * c \<le> b"
proof
  assume "a \<le> b div c"
  then have "a * c \<le> b div c * c"
    using assms by (intro mult_right_mono) simp_all
  then show "a * c \<le> b"
    using pos_mod_sign [OF assms, of b] div_mult_mod_eq [of b c] by linarith
next
  assume "a * c \<le> b"
  moreover have "b < (b div c + 1) * c"
    using pos_mod_bound [OF assms, of b] div_mult_mod_eq [of b c] unfolding distrib_right by linarith
  ultimately have "a * c < (b div c + 1) * c"
    by linarith
  then show "a \<le> b div c"
    using assms by simp
qed

text \<open>A value \<open>v\<close> is at most the entry of bin \<open>i\<close> exactly when the weight up to and including the
  bin is large enough.\<close>

lemma hist_entry_ge:
  assumes "0 < tot"
  shows "v \<le> c * RAND_MAX div tot - 1 \<longleftrightarrow> (v + 1) * tot \<le> c * RAND_MAX"
  using le_div_iff_int [OF assms, of "v + 1" "c * RAND_MAX"] by linarith

lemma build_hist_ok:
  assumes "cum sp (length sp) * RAND_MAX < 2 ^ 63"
  shows "build_hist sp =
    Some (map (\<lambda>i. cum sp (Suc i) * RAND_MAX div cum sp (length sp) - 1) [0..<length sp])"
  unfolding build_hist_def total_is_cum using fill_hist_spec [of 0 sp] assms by simp

lemma cum_pos_sorted:
  assumes "0 < tot"
  shows "sorted (map (\<lambda>i. cum sp (Suc i) * RAND_MAX div tot - 1) [0..<n])"
proof -
  have "cum sp (Suc i) * RAND_MAX div tot \<le> cum sp (Suc j) * RAND_MAX div tot" if "i \<le> j" for i j
    using assms cum_mono [of "Suc i" "Suc j" sp] that
    by (intro zdiv_mono1 mult_right_mono) (simp_all add: RAND_MAX_def)
  then have "cum sp (Suc i) * RAND_MAX div tot - 1 < cum sp (Suc j) * RAND_MAX div tot" if "i \<le> j" for i j
    using that by (meson less_le_trans order_refl zle_diff1_eq)
  then show ?thesis
    by (simp add: sorted_iff_nth_mono)
qed

section \<open>The pulse shape\<close>

text \<open>The loop that finds the peak of the response of the shaper to a full-scale pulse.\<close>

partial_function (option) iir_loop :: "int \<Rightarrow> int \<Rightarrow> int \<Rightarrow> int \<Rightarrow> int \<Rightarrow> int option" where
  "iir_loop f r y0 y1 y2 =
     (if y2 \<le> y1 then iir_loop f r (y0 * f div 65536) (y0 + y1 * r div 65536) y1 else Some y2)"

definition iir_scale :: "u16 \<Rightarrow> u16 \<Rightarrow> u16 option" where
  "iir_scale f r =
     (case iir_loop (uint f) (uint r) (4095 * 2 ^ 9) 0 0 of
        None \<Rightarrow> None
      | Some y2 \<Rightarrow> if y2 div 2 ^ 9 = 0 then None else Some (word_of_int (4095 * 65535 div (y2 div 2 ^ 9))))"

lemma factor_shrinks:
  assumes "0 \<le> (x :: int)" and "0 \<le> g" and "g < 65536"
  shows "0 \<le> x * g div 65536" and "x * g div 65536 \<le> x" and "0 < x \<Longrightarrow> x * g div 65536 < x"
proof -
  have "0 \<le> x * g"
    using assms by simp
  then show "0 \<le> x * g div 65536"
    by linarith
  have le: "x * g \<le> x * 65535"
    using assms by (intro mult_left_mono) auto
  then show "x * g div 65536 \<le> x"
    using assms by linarith
  show "x * g div 65536 < x" if "0 < x"
    using le that by linarith
qed

text \<open>While the loop runs \<open>y[1]\<close> does not decrease and \<open>y[0]\<close> shrinks to 0, when \<open>y[1]\<close> must fall. No
  product leaves 53 bits.\<close>

definition iir_ok :: "int \<Rightarrow> int \<Rightarrow> int \<Rightarrow> bool" where
  "iir_ok y0 y1 y2 \<longleftrightarrow> 0 \<le> y0 \<and> y0 \<le> 2096640 \<and> 0 \<le> y1 \<and> y1 \<le> 137405399040 \<and>
     y2 \<le> 137405399040 \<and> 2096640 \<le> max y1 y2"

lemma iir_step_ok:
  assumes ok: "iir_ok y0 y1 y2" and le: "y2 \<le> y1" and f: "0 \<le> f" "f < 65536" and r: "0 \<le> r" "r < 65536"
  shows "iir_ok (y0 * f div 65536) (y0 + y1 * r div 65536) y1"
proof -
  have y: "0 \<le> y0" "y0 \<le> 2096640" "0 \<le> y1" "y1 \<le> 137405399040" "2096640 \<le> y1"
    using ok le by (simp_all add: iir_ok_def)
  have "y1 * r \<le> y1 * 65535"
    using y r by (intro mult_left_mono) auto
  then have up: "y0 + y1 * r div 65536 \<le> 137405399040"
    using y by linarith
  then show ?thesis
    using y factor_shrinks(1,2) [OF y(1) f] factor_shrinks(1) [OF y(3) r] by (simp add: iir_ok_def)
qed

lemma iir_loop_returns:
  assumes "iir_ok y0 y1 y2" and f: "0 \<le> f" "f < 65536" and r: "0 \<le> r" "r < 65536"
  shows "\<exists>y. iir_loop f r y0 y1 y2 = Some y \<and> 2096640 \<le> y \<and> y \<le> 137405399040"
  using assms(1)
proof (induction "nat y0" arbitrary: y0 y1 y2 rule: less_induct)
  case less
  show ?case
  proof (cases "y2 \<le> y1")
    case False
    then show ?thesis
      using less.prems by (simp add: iir_loop.simps [of f r y0 y1 y2] iir_ok_def max_def)
  next
    case le: True
    let ?y0 = "y0 * f div 65536" and ?y1 = "y0 + y1 * r div 65536"
    have step: "iir_loop f r y0 y1 y2 = iir_loop f r ?y0 ?y1 y1"
      using le by (simp add: iir_loop.simps [of f r y0 y1 y2])
    have ok: "iir_ok ?y0 ?y1 y1"
      using iir_step_ok [OF less.prems le f r] .
    have y: "0 \<le> y0" "2096640 \<le> y1" "y1 \<le> 137405399040"
      using less.prems le by (simp_all add: iir_ok_def)
    show ?thesis
    proof (cases "y0 = 0")
      case True
      then have "?y1 < y1"
        using factor_shrinks(3) [of y1 r] y r by simp
      then show ?thesis
        using y unfolding step iir_loop.simps [of f r ?y0 ?y1 y1] by simp
    next
      case False
      then have "?y0 < y0"
        using factor_shrinks(3) [of y0 f] y f by simp
      then have "nat ?y0 < nat y0"
        using factor_shrinks(1) [OF y(1) f] by simp
      from less.hyps [OF this ok] show ?thesis
        unfolding step .
    qed
  qed
qed

section \<open>Factors and intervals\<close>

text \<open>
  \<open>f\<close> and \<open>r\<close> from the fall and rise times. A zero time makes the argument of \<open>expf\<close> negative
  infinity, whose exponential is 0. \<open>expf\<close> and \<open>logf\<close> work on \<open>float\<close>, 24 significant bits.
\<close>

definition fall_factor :: "(rat \<Rightarrow> rat) \<Rightarrow> (rat \<Rightarrow> rat) \<Rightarrow> u16 \<Rightarrow> u16" where
  "fall_factor expf logf fall = word_of_int \<lfloor>dadd (dmul
     (if fall = 0 then 0 else expf (fl 24 (ddiv (ddiv (- logf 2) 125) (of_nat (unat fall))))) 65536) (1 / 2)\<rfloor>"

definition rise_factor :: "(rat \<Rightarrow> rat) \<Rightarrow> (rat \<Rightarrow> rat) \<Rightarrow> u16 \<Rightarrow> u16" where
  "rise_factor expf logf rise = word_of_int \<lfloor>dadd (dmul
     (if rise = 0 then 0
      else expf (fl 24 (dmul (ddiv (ddiv (- logf 2) 125) (of_nat (unat rise))) 1000))) 65536) (1 / 2)\<rfloor>"

text \<open>The conversion of a floating-point value to \<open>int32_t\<close>, undefined when it does not fit.\<close>

definition to_int32 :: "rat \<Rightarrow> u32 option" where
  "to_int32 x = (let n = \<lfloor>x\<rfloor> in if - (2 ^ 31) \<le> n \<and> n < 2 ^ 31 then Some (word_of_int n) else None)"

text \<open>The interval after a pulse, in clock cycles: constant, or exponentially distributed.\<close>

definition pulse_interval :: "(rat \<Rightarrow> rat) \<Rightarrow> u32 \<Rightarrow> u32 \<Rightarrow> int \<Rightarrow> u32 option" where
  "pulse_interval logf distr rate rand =
     (if rate = 0 then None
      else if distr = 0 then to_int32 (dadd (ddiv 125000000 (of_nat (unat rate))) (1 / 2))
      else to_int32 (dadd (ddiv (dmul
             (- logf (fl 24 (dadd 1 (- ddiv (of_int rand) (of_int (RAND_MAX + 1)))))) 125000000)
             (of_nat (unat rate))) (1 / 2)))"

lemma constant_interval_floor:
  assumes "0 < r" and "r < 2 ^ 32"
  shows "\<lfloor>dadd (ddiv 125000000 (of_nat r)) (1 / 2)\<rfloor> = (250000000 + int r) div (2 * int r)"
proof (cases "(250000000 + int r) mod (2 * int r) = 0")
  case True
  define q where "q = (250000000 + int r) div (2 * int r)"
  have N: "250000000 + int r = 2 * int r * q"
    using True mult_div_mod_eq [of "2 * int r" "250000000 + int r"] by (simp add: q_def)
  have "0 < q"
    using N assms(1) by (smt (verit) mult_nonneg_nonpos of_nat_0_le_iff)
  have "1 * q \<le> 2 * int r * q"
    using assms(1) \<open>0 < q\<close> by (intro mult_right_mono) simp_all
  then have "q \<le> 250000000 + int r"
    unfolding N by simp
  then have q: "0 < 2 * q - 1" "2 * q < 2 ^ 53"
    using assms(2) \<open>0 < q\<close> by simp_all
  have "(250000000 + of_nat r :: rat) = 2 * of_nat r * of_int q"
    using N by (metis of_int_add of_int_mult of_int_numeral of_int_of_nat_eq)
  then have quot: "(125000000 :: rat) / of_nat r = of_int (2 * q - 1) / 2"
    using assms(1) by (simp add: field_simps)
  have "ddiv 125000000 (of_nat r) = of_int (2 * q - 1) / 2"
    unfolding ddiv_def quot by (rule fl_half_int) (use q in simp_all)
  moreover have "of_int (2 * q - 1) / 2 + 1 / 2 = (of_int (2 * q) / 2 :: rat)"
    by (simp add: field_simps)
  moreover have "fl 53 (of_int (2 * q) / 2) = (of_int (2 * q) / 2 :: rat)"
    by (rule fl_half_int) (use q in simp_all)
  ultimately have "dadd (ddiv 125000000 (of_nat r)) (1 / 2) = of_int q"
    unfolding dadd_def by (simp only:)
  then show ?thesis
    by (simp add: q_def)
next
  case False
  have r: "(0 :: rat) < of_nat r" "of_nat r < (2 ^ 32 :: rat)"
    using assms(1) of_nat_less_iff [of r "2 ^ 32", where 'a = rat] assms(2) by simp_all
  have x: "125000000 / of_nat r + 1 / 2 = (of_int (250000000 + int r) / of_int (2 * int r) :: rat)"
    using assms(1) by (simp add: field_simps)
  have "4 * (125000000 / of_nat r + 1) / 2 ^ 53 < 1 / (2 * of_nat r :: rat)"
    using r by (simp add: field_simps)
  then have "\<bar>dadd (ddiv 125000000 (of_nat r)) (1 / 2) - (125000000 / of_nat r + 1 / 2)\<bar> < 1 / (2 * of_nat r)"
    using double.half_error [of "125000000 / of_nat r"] r by (simp add: dadd_def ddiv_def)
  then show ?thesis
    unfolding x using assms(1) False by (intro floor_near_fraction) simp_all
qed

lemma iir_scale_exact:
  "\<exists>y2 s. iir_loop (uint f) (uint r) (4095 * 2 ^ 9) 0 0 = Some y2 \<and> iir_scale f r = Some s \<and>
     4095 \<le> y2 div 2 ^ 9 \<and> y2 < 2 ^ 38 \<and> uint s = 4095 * 65535 div (y2 div 2 ^ 9)"
proof -
  have f: "0 \<le> uint f" "uint f < 65536" and r: "0 \<le> uint r" "uint r < 65536"
    using uint_lt2p [of f] uint_lt2p [of r] by simp_all
  let ?y0 = "2096640 * uint f div 65536"
  have first: "iir_loop (uint f) (uint r) (4095 * 2 ^ 9) 0 0 = iir_loop (uint f) (uint r) ?y0 2096640 0"
    by (simp add: iir_loop.simps [of _ _ 2096640 0 0])
  have "iir_ok ?y0 2096640 0"
    using factor_shrinks(1,2) [of 2096640 "uint f"] f by (simp add: iir_ok_def)
  from iir_loop_returns [OF this f r] obtain y2 where
    y2: "iir_loop (uint f) (uint r) ?y0 2096640 0 = Some y2" "2096640 \<le> y2" "y2 \<le> 137405399040"
    by blast
  have d: "4095 \<le> y2 div 512"
    using y2 by linarith
  have "4095 * 65535 div (y2 div 512) \<le> 4095 * 65535 div 4095"
    using d by (intro zdiv_mono2) simp_all
  moreover have "0 \<le> 4095 * 65535 div (y2 div 512)"
    using d by (intro div_int_pos_iff [THEN iffD2]) simp
  ultimately have "uint (word_of_int (4095 * 65535 div (y2 div 512)) :: u16) = 4095 * 65535 div (y2 div 512)"
    by (simp add: word_of_int_inverse take_bit_int_eq_self unsigned_of_int)
  with d y2 show ?thesis
    unfolding first iir_scale_def by simp
qed

lemma iir_scale_some: "\<exists>s. iir_scale f r = Some s"
  using iir_scale_exact by blast

lemma interval_some:
  assumes "0 < rate"
  shows "pulse_interval logf 0 rate rand = Some (word_of_nat ((250000000 + unat rate) div (2 * unat rate)))"
proof -
  have r: "0 < unat rate" "unat rate < 2 ^ 32"
    using assms unat_lt [of rate] by (simp_all add: word_less_nat_alt)
  let ?q = "(250000000 + unat rate) div (2 * unat rate)"
  have "?q \<le> (250000001 * unat rate) div (2 * unat rate)"
    using r(1) by (intro div_le_mono) simp
  also have "\<dots> = 125000000"
    using r(1) by simp
  finally have "?q < 2 ^ 31"
    by simp
  have f: "\<lfloor>dadd (ddiv 125000000 (of_nat (unat rate))) (1 / 2)\<rfloor> = int ?q"
    using constant_interval_floor [OF r] by (simp add: zdiv_int)
  show ?thesis
    using assms \<open>?q < 2 ^ 31\<close> unfolding pulse_interval_def to_int32_def Let_def f by simp
qed

section \<open>Properties\<close>

text \<open>C1. The amplitude drawn from a spectrum is a bin of it that has weight, and the inverse of
  the cumulative distribution: a random value selects bin \<open>i\<close> exactly when the scaled value lies
  between the weight before the bin and the weight up to it.\<close>

theorem pulse_amplitude_inverts:
  assumes "0 < cum sp (length sp)" and "cum sp (length sp) * RAND_MAX < 2 ^ 63" and "0 \<le> rand"
  shows "\<exists>hist. build_hist sp = Some hist \<and> (let i = draw_amplitude hist rand in
    i < length sp \<and> 0 < sp ! i \<and>
    cum sp i * RAND_MAX < (rand mod RAND_MAX + 1) * cum sp (length sp) \<and>
    (rand mod RAND_MAX + 1) * cum sp (length sp) \<le> cum sp (Suc i) * RAND_MAX)"
proof -
  define T where "T = cum sp (length sp)"
  define hist where "hist = map (\<lambda>i. cum sp (Suc i) * RAND_MAX div T - 1) [0..<length sp]"
  define v where "v = rand mod RAND_MAX"
  define i where "i = lower_bound hist v"
  have T: "0 < T" and v: "0 \<le> v" "v < RAND_MAX"
    using assms by (simp_all add: T_def v_def RAND_MAX_def)
  have s: "sorted hist"
    unfolding hist_def using T by (rule cum_pos_sorted)
  have len: "length hist = length sp" and ne: "sp \<noteq> []" "hist \<noteq> []"
    using T by (auto simp: hist_def T_def)
  have entry: "v \<le> hist ! p \<longleftrightarrow> (v + 1) * T \<le> cum sp (Suc p) * RAND_MAX" if "p < length sp" for p
    using that hist_entry_ge [OF T] by (simp add: hist_def)
  have "v \<le> last hist"
    using ne T v by (simp add: hist_def last_map flip: T_def)
  then have i: "i < length sp"
    using lb.search_less_length [OF s ne(2), of v] len by (simp add: i_def)
  have up: "(v + 1) * T \<le> cum sp (Suc i) * RAND_MAX"
    using lb.above [OF s, of v i] entry [OF i] i len by (simp add: i_def)
  have low: "cum sp i * RAND_MAX < (v + 1) * T"
  proof (cases i)
    case 0
    then show ?thesis using T v by simp
  next
    case (Suc p)
    then have "hist ! p < v"
      using lb.below [OF s, of p v] by (simp add: i_def)
    then show ?thesis
      using entry [of p] Suc i by simp
  qed
  have "uint (sp ! i) \<noteq> 0"
    using low up cum_Suc [OF i] by auto
  then have "0 < sp ! i"
    by (simp add: word_less_def less_le)
  moreover have "build_hist sp = Some hist"
    using build_hist_ok [OF assms(2)] by (simp add: hist_def T_def)
  moreover have "draw_amplitude hist rand = i"
    by (simp add: draw_amplitude_def i_def v_def)
  ultimately show ?thesis
    using i up low by (simp add: Let_def flip: T_def v_def)
qed

theorem pulse_amplitude_inverts_witness:
  "\<exists>hist. build_hist [0, 3, 0, 1] = Some hist \<and> draw_amplitude hist 12 = 1"
proof -
  have c: "cum [0, 3, 0, 1] (length [0, 3, 0, 1 :: u32]) = 4"
    by (simp add: cum_def)
  obtain hist where h: "build_hist [0, 3, 0, 1] = Some hist"
    "let i = draw_amplitude hist 12 in i < 4 \<and> 0 < [0, 3, 0, 1 :: u32] ! i \<and>
       13 * 4 \<le> cum [0, 3, 0, 1] (Suc i) * RAND_MAX \<and> cum [0, 3, 0, 1] i * RAND_MAX < 13 * 4"
    using pulse_amplitude_inverts [of "[0, 3, 0, 1]" 12] unfolding c by (auto simp: RAND_MAX_def Let_def)
  define i where "i = draw_amplitude hist 12"
  have "i = 0 \<or> i = 1 \<or> i = 2 \<or> i = 3"
    using h(2) unfolding i_def [symmetric] Let_def by linarith
  then have "i = 1"
    using h(2) unfolding i_def [symmetric] Let_def by (elim disjE) (simp_all add: cum_def RAND_MAX_def)
  then have "draw_amplitude hist 12 = 1"
    by (simp add: i_def)
  with h(1) show ?thesis by blast
qed

text \<open>The 64-bit products of the cumulative histogram overflow exactly when the counts of the
  spectrum add up to more than \<open>2 ^ 32 + 2\<close>, which 4096 bins of 32 bits allow.\<close>

theorem hist_overflow_iff:
  "build_hist sp = None \<longleftrightarrow> 2 ^ 32 + 2 < cum sp (length sp)"
proof (cases "cum sp (length sp) * RAND_MAX < 2 ^ 63")
  case True
  then have "cum sp (length sp) \<le> 2 ^ 32 + 2"
    by (simp add: RAND_MAX_def)
  then show ?thesis
    by (simp add: build_hist_ok [OF True])
next
  case False
  then have "2 ^ 32 + 2 < cum sp (length sp)"
    by (simp add: RAND_MAX_def)
  then show ?thesis
    using fill_hist_overflow [of 0 sp] False by (simp add: build_hist_def)
qed

text \<open>C37. For any decay factors the search for the peak of the pulse ends, every intermediate
  value stays far inside 64 bits, the division is never by zero, and the scale factor fits its
  16-bit register without truncation.\<close>

theorem iir_scale_total:
  "\<exists>y2 s. iir_loop (uint f) (uint r) (4095 * 2 ^ 9) 0 0 = Some y2 \<and> iir_scale f r = Some s \<and>
     4095 \<le> y2 div 2 ^ 9 \<and> y2 < 2 ^ 38 \<and> uint s = 4095 * 65535 div (y2 div 2 ^ 9)"
  by (rule iir_scale_exact)

text \<open>The interval between periodic pulses is the exact quotient of the clock and the rate,
  rounded half up, for every rate but 0: the double-precision division and addition never move it
  to a neighbour.\<close>

theorem pulse_interval_exact:
  assumes "0 < rate"
  shows "pulse_interval logf 0 rate rand = Some (word_of_nat ((250000000 + unat rate) div (2 * unat rate)))"
  using assms by (rule interval_some)

theorem pulse_interval_exact_witness: "pulse_interval id 0 300 7 = Some 416667"
  using pulse_interval_exact [of 300 id 7] by simp

end
