(* ===== verification/Mcpha.thy ===== *)
theory Mcpha
  imports Mmio Pulser
begin

unbundle bit_operations_syntax

text \<open>
  \<open>projects/mcpha/server/mcpha-server.c\<close>: the multichannel analyser's control server. A client
  sends 64-bit commands over TCP: an operation code in bits 56-63, a channel in bits 52-55, data
  in bits 0-51. The main thread decodes them and writes the configuration registers; a second
  thread feeds pulses to the generator.

  The state is the register page with its trace (\<^typ>\<open>machine\<close>), the memories the FPGA shares
  (status page, two histograms, sample RAM) and the variables of the program. \<open>rst[0]\<close> and
  \<open>rst[1]\<close> are the 16-bit words at offsets 0 and 2 of the configuration page. The results of
  \<open>send\<close> come from the network: a list of successes and failures, success when it is used up.
\<close>

record mcpha = machine +
  sts :: "nat \<Rightarrow> u8"
  hst0 :: "u32 list"
  hst1 :: "u32 list"
  ram :: "nat \<Rightarrow> u8"
  send_results :: "bool list"
  pulse_rate :: u32
  pulse_dist :: u32
  pulse_hist :: "int list"
  enable_thread :: bool
  active_thread :: bool
  fall :: u16
  rise :: u16
  spectrum :: "u32 list"
  keep_pulsing :: u32

text \<open>How a command leaves the loop body: read on, leave the loop over the client, or wait for the
  pulser thread first.\<close>

datatype wait_reason = ForRestart | ForStop | ForClose

datatype outcome = Continue | Break | WaitThread wait_reason

definition command_code :: "u64 \<Rightarrow> u8" where
  "command_code command = ucast (drop_bit 56 command) AND 0xff"

definition command_chan :: "u64 \<Rightarrow> u8" where
  "command_chan command = ucast (drop_bit 52 command) AND 0xf"

definition command_data :: "u64 \<Rightarrow> u64" where
  "command_data command = command AND 0xfffffffffffff"

abbreviation rst0_clear :: "u16 \<Rightarrow> 'a machine_scheme \<Rightarrow> 'a machine_scheme" where
  "rst0_clear \<equiv> reg_clear (rd16 0) (wr16 0)"

abbreviation rst0_set :: "u16 \<Rightarrow> 'a machine_scheme \<Rightarrow> 'a machine_scheme" where
  "rst0_set \<equiv> reg_set (rd16 0) (wr16 0)"

abbreviation rst1_clear :: "u16 \<Rightarrow> 'a machine_scheme \<Rightarrow> 'a machine_scheme" where
  "rst1_clear \<equiv> reg_clear (rd16 2) (wr16 2)"

abbreviation rst1_set :: "u16 \<Rightarrow> 'a machine_scheme \<Rightarrow> 'a machine_scheme" where
  "rst1_set \<equiv> reg_set (rd16 2) (wr16 2)"

text \<open>\<open>if(send(...) < 0) break;\<close>\<close>

definition do_send :: "u8 list \<Rightarrow> mcpha \<Rightarrow> outcome \<times> mcpha" where
  "do_send bs s =
     (case send_results s of
        [] \<Rightarrow> (Continue, emit (Send bs) s)
      | ok # rest \<Rightarrow> (if ok then Continue else Break, emit (Send bs) (s\<lparr>send_results := rest\<rparr>)))"

section \<open>Resets\<close>

definition reset_oscilloscope :: "'a machine_scheme \<Rightarrow> 'a machine_scheme" where
  "reset_oscilloscope s = rst1_set 0x0003 (rst1_clear 0x0002 (emit (Sleep 100) (rst1_clear 0x0001 s)))"

definition reset_generator :: "'a machine_scheme \<Rightarrow> 'a machine_scheme" where
  "reset_generator s = rst1_set 0x8000 (rst1_clear 0x8000 s)"

definition reset_histogram :: "u8 \<Rightarrow> mcpha \<Rightarrow> mcpha" where
  "reset_histogram chan s =
     (if chan = 0 then (rst0_set 0x0001 (rst0_clear 0x0001 s))\<lparr>hst0 := replicate 4096 0\<rparr>
      else if chan = 1 then (rst0_set 0x0100 (rst0_clear 0x0100 s))\<lparr>hst1 := replicate 4096 0\<rparr>
      else s)"

definition reset_timer :: "u8 \<Rightarrow> mcpha \<Rightarrow> mcpha" where
  "reset_timer chan s =
     (if chan = 0 then rst0_set 0x0002 (rst0_clear 0x0002 s)
      else if chan = 1 then rst0_set 0x0200 (rst0_clear 0x0200 s)
      else s)"

section \<open>Acquisition settings\<close>

definition set_sample_rate :: "u64 \<Rightarrow> mcpha \<Rightarrow> mcpha" where
  "set_sample_rate data s =
     (if data < 4 then wr16 4 4 (rst0_clear 0x0008 s)
      else wr16 4 (ucast data) (rst0_set 0x0008 s))"

definition set_negator_mode :: "u8 \<Rightarrow> u64 \<Rightarrow> mcpha \<Rightarrow> mcpha" where
  "set_negator_mode chan data s =
     (if chan = 0 then
        (if data = 0 then rst0_clear 0x0010 s else if data = 1 then rst0_set 0x0010 s else s)
      else if chan = 1 then
        (if data = 0 then rst0_clear 0x1000 s else if data = 1 then rst0_set 0x1000 s else s)
      else s)"

definition set_pha_delay :: "u8 \<Rightarrow> u64 \<Rightarrow> mcpha \<Rightarrow> mcpha" where
  "set_pha_delay chan data s =
     (if chan = 0 then wr16 16 (ucast data) s else if chan = 1 then wr16 32 (ucast data) s else s)"

definition set_pha_min :: "u8 \<Rightarrow> u64 \<Rightarrow> mcpha \<Rightarrow> mcpha" where
  "set_pha_min chan data s =
     (if chan = 0 then wr16 18 (ucast data) s else if chan = 1 then wr16 34 (ucast data) s else s)"

definition set_pha_max :: "u8 \<Rightarrow> u64 \<Rightarrow> mcpha \<Rightarrow> mcpha" where
  "set_pha_max chan data s =
     (if chan = 0 then wr16 20 (ucast data) s else if chan = 1 then wr16 36 (ucast data) s else s)"

definition set_timer :: "u8 \<Rightarrow> u64 \<Rightarrow> mcpha \<Rightarrow> mcpha" where
  "set_timer chan data s =
     (if chan = 0 then wr64 8 data s else if chan = 1 then wr64 24 data s else s)"

definition set_timer_mode :: "u8 \<Rightarrow> u64 \<Rightarrow> mcpha \<Rightarrow> mcpha" where
  "set_timer_mode chan data s =
     (if chan = 0 then
        (if data = 0 then rst0_clear 0x0004 s else if data = 1 then rst0_set 0x0004 s else s)
      else if chan = 1 then
        (if data = 0 then rst0_clear 0x0400 s else if data = 1 then rst0_set 0x0400 s else s)
      else if chan = 2 then
        (if data = 0 then rst0_clear 0x0404 s else if data = 1 then rst0_set 0x0404 s else s)
      else s)"

definition read_status :: "mcpha \<Rightarrow> outcome \<times> mcpha" where
  "read_status s = do_send (map (sts s) [0..<36]) s"

definition read_histogram :: "u8 \<Rightarrow> mcpha \<Rightarrow> outcome \<times> mcpha" where
  "read_histogram chan s =
     (if chan = 0 then do_send (concat (map le32 (hst0 s))) s
      else if chan = 1 then do_send (concat (map le32 (hst1 s))) s
      else (Continue, s))"

section \<open>Oscilloscope\<close>

definition set_trigger_source :: "u8 \<Rightarrow> mcpha \<Rightarrow> mcpha" where
  "set_trigger_source chan s =
     (if chan = 0 then rst1_clear 0x0004 s else if chan = 1 then rst1_set 0x0004 s else s)"

definition set_trigger_slope :: "u64 \<Rightarrow> mcpha \<Rightarrow> mcpha" where
  "set_trigger_slope data s =
     (if data = 0 then rst1_clear 0x0008 s else if data = 1 then rst1_set 0x0008 s else s)"

definition set_trigger_mode :: "u64 \<Rightarrow> mcpha \<Rightarrow> mcpha" where
  "set_trigger_mode data s =
     (if data = 0 then rst1_clear 0x0010 s else if data = 1 then rst1_set 0x0010 s else s)"

definition set_trigger_level :: "u64 \<Rightarrow> mcpha \<Rightarrow> mcpha" where
  "set_trigger_level data s = wr16 84 (ucast data) s"

definition set_pre_samples :: "u64 \<Rightarrow> mcpha \<Rightarrow> mcpha" where
  "set_pre_samples data s = wr32 76 (ucast (data - 1)) s"

definition set_tot_samples :: "u64 \<Rightarrow> mcpha \<Rightarrow> mcpha" where
  "set_tot_samples data s = wr32 80 (ucast (data - 1)) s"

definition start_oscilloscope :: "mcpha \<Rightarrow> mcpha" where
  "start_oscilloscope s = rst1_clear 0x0020 (rst1_set 0x0020 s)"

text \<open>\<open>*(uint32_t *)(sts + 32)\<close> and \<open>*(uint16_t *)(sts + 42)\<close>\<close>

definition sts32 :: "nat \<Rightarrow> mcpha \<Rightarrow> u32" where
  "sts32 off s = join32 (sts s off) (sts s (off + 1)) (sts s (off + 2)) (sts s (off + 3))"

definition sts16 :: "nat \<Rightarrow> mcpha \<Rightarrow> u16" where
  "sts16 off s = join16 (sts s off) (sts s (off + 1))"

text \<open>The bytes \<open>send(sock, ram + off, len, ...)\<close> reads.\<close>

definition ram_bytes :: "u32 \<Rightarrow> u32 \<Rightarrow> mcpha \<Rightarrow> u8 list" where
  "ram_bytes off len s = map (ram s) [unat off..<unat off + unat len]"

definition scope_start :: "mcpha \<Rightarrow> u32" where
  "scope_start s = (drop_bit 1 (sts32 32 s) - (rd32 76 s + 1)) AND 0x007FFFFF"

definition read_oscilloscope :: "mcpha \<Rightarrow> outcome \<times> mcpha" where
  "read_oscilloscope s =
     (let tot = rd32 80 s + 1; start = scope_start s in
      if start + tot \<le> 0x007FFFFF then do_send (ram_bytes (start * 4) (tot * 4) s) s
      else
        case do_send (ram_bytes (start * 4) ((0x007FFFFF - start) * 4) s) s of
          (Continue, s) \<Rightarrow> do_send (ram_bytes 0 ((start + tot - 0x007FFFFF) * 4) s) s
        | (out, s) \<Rightarrow> (out, s))"

section \<open>Pulse generator\<close>

definition set_fall_time :: "u64 \<Rightarrow> mcpha \<Rightarrow> mcpha" where
  "set_fall_time data s = (if 100 < data then s else s\<lparr>fall := ucast data\<rparr>)"

definition set_rise_time :: "u64 \<Rightarrow> mcpha \<Rightarrow> mcpha" where
  "set_rise_time data s = (if 100 < data then s else s\<lparr>rise := ucast data\<rparr>)"

definition set_lower_limit :: "u64 \<Rightarrow> mcpha \<Rightarrow> mcpha" where
  "set_lower_limit data s = wr16 94 (ucast data) s"

definition set_upper_limit :: "u64 \<Rightarrow> mcpha \<Rightarrow> mcpha" where
  "set_upper_limit data s = wr16 96 (ucast data) s"

definition set_pulse_rate :: "u64 \<Rightarrow> mcpha \<Rightarrow> mcpha" where
  "set_pulse_rate data s = s\<lparr>pulse_rate := ucast data\<rparr>"

definition set_pulse_dist :: "u64 \<Rightarrow> mcpha \<Rightarrow> mcpha" where
  "set_pulse_dist data s = s\<lparr>pulse_dist := ucast data\<rparr>"

definition reset_spectrum :: "mcpha \<Rightarrow> mcpha" where
  "reset_spectrum s = s\<lparr>spectrum := replicate 4096 0\<rparr>"

definition set_spectrum_bin :: "u64 \<Rightarrow> mcpha \<Rightarrow> mcpha" where
  "set_spectrum_bin data s =
     s\<lparr>spectrum := (spectrum s)[unat (drop_bit 32 data AND 0xfff) := ucast (data AND 0xffffffff)]\<rparr>"

text \<open>\<open>enable_thread = 0;\<close>, then the loop \<open>while(active_thread) usleep(1000);\<close> is a wait.\<close>

definition ask_stop :: "mcpha \<Rightarrow> mcpha" where
  "ask_stop s = s\<lparr>enable_thread := False\<rparr>"

text \<open>After the wait of a restart: the generator is reset; an empty spectrum ends the command, and
  otherwise the thread's tables are filled and the thread is started.\<close>

definition start_pulser :: "(rat \<Rightarrow> rat) \<Rightarrow> (rat \<Rightarrow> rat) \<Rightarrow> mcpha \<Rightarrow> mcpha option" where
  "start_pulser expf logf s =
     (let s = reset_generator s in
      if spectrum_total (spectrum s) 0 < 1 then Some s
      else
        let f = fall_factor expf logf (fall s); r = rise_factor expf logf (rise s) in
        case (build_hist (spectrum s), iir_scale f r) of
          (Some h, Some sc) \<Rightarrow>
            Some ((wr16 92 r (wr16 90 f (wr16 88 sc (s\<lparr>pulse_hist := h\<rparr>))))
              \<lparr>enable_thread := True, active_thread := True\<rparr>)
        | _ \<Rightarrow> None)"

section \<open>The command loop\<close>

definition mcpha_command :: "u64 \<Rightarrow> mcpha \<Rightarrow> outcome \<times> mcpha" where
  "mcpha_command command s =
     (let code = command_code command; chan = command_chan command; data = command_data command in
      if code = 0 then (Continue, reset_histogram chan s)
      else if code = 1 then (Continue, reset_timer chan s)
      else if code = 2 then (Continue, reset_oscilloscope s)
      else if code = 3 then (Continue, reset_generator s)
      else if code = 4 then (Continue, set_sample_rate data s)
      else if code = 5 then (Continue, set_negator_mode chan data s)
      else if code = 6 then (Continue, set_pha_delay chan data s)
      else if code = 7 then (Continue, set_pha_min chan data s)
      else if code = 8 then (Continue, set_pha_max chan data s)
      else if code = 9 then (Continue, set_timer chan data s)
      else if code = 10 then (Continue, set_timer_mode chan data s)
      else if code = 11 then read_status s
      else if code = 12 then read_histogram chan s
      else if code = 13 then (Continue, set_trigger_source chan s)
      else if code = 14 then (Continue, set_trigger_slope data s)
      else if code = 15 then (Continue, set_trigger_mode data s)
      else if code = 16 then (Continue, set_trigger_level data s)
      else if code = 17 then (Continue, set_pre_samples data s)
      else if code = 18 then (Continue, set_tot_samples data s)
      else if code = 19 then (Continue, start_oscilloscope s)
      else if code = 20 then read_oscilloscope s
      else if code = 21 then (Continue, set_fall_time data s)
      else if code = 22 then (Continue, set_rise_time data s)
      else if code = 23 then (Continue, set_lower_limit data s)
      else if code = 24 then (Continue, set_upper_limit data s)
      else if code = 25 then (Continue, set_pulse_rate data s)
      else if code = 26 then (Continue, set_pulse_dist data s)
      else if code = 27 then (Continue, reset_spectrum s)
      else if code = 28 then (Continue, set_spectrum_bin data s)
      else if code = 29 then (WaitThread ForRestart, ask_stop (s\<lparr>keep_pulsing := ucast data\<rparr>))
      else if code = 30 then (WaitThread ForStop, ask_stop s)
      else (Continue, s))"

text \<open>The registers \<open>main\<close> sets up before it listens; \<open>cma_size\<close> is what the driver returned.\<close>

definition mcpha_init :: "u32 \<Rightarrow> mcpha \<Rightarrow> mcpha" where
  "mcpha_init cma_size s =
     (let s = wr32 72 cma_size s;
          s = wr16 4 4 s;
          s = rst0_set 0x0303 (rst0_clear 0x0303 s);
          s = reset_oscilloscope s;
          s = rst1_clear 0x0004 s;
          s = reset_generator s;
          s = s\<lparr>fall := 50, rise := 50\<rparr>;
          s = wr16 92 58655 (wr16 90 65528 (wr16 88 6932 s));
          s = wr16 96 8191 (wr16 94 (- 8192) s) in
      s\<lparr>spectrum := replicate 4096 0\<rparr>)"

text \<open>The program before \<open>main\<close> has run, on a board whose memories read as zero.\<close>

definition mcpha_zero :: mcpha where
  "mcpha_zero = \<lparr>regs = (\<lambda>_. 0), trace = [], sts = (\<lambda>_. 0), hst0 = replicate 4096 0,
     hst1 = replicate 4096 0, ram = (\<lambda>_. 0), send_results = [], pulse_rate = 1000, pulse_dist = 0,
     pulse_hist = replicate 4096 0, enable_thread = False, active_thread = False, fall = 0, rise = 0,
     spectrum = replicate 4096 0, keep_pulsing = 0\<rparr>"

section \<open>Register accesses leave the rest of the state alone\<close>

lemma store_fields [simp]:
  "sts (store off bs s) = sts s" "hst0 (store off bs s) = hst0 s"
  "hst1 (store off bs s) = hst1 s" "ram (store off bs s) = ram s"
  "send_results (store off bs s) = send_results s" "pulse_rate (store off bs s) = pulse_rate s"
  "pulse_dist (store off bs s) = pulse_dist s" "pulse_hist (store off bs s) = pulse_hist s"
  "enable_thread (store off bs s) = enable_thread s" "active_thread (store off bs s) = active_thread s"
  "fall (store off bs s) = fall s" "rise (store off bs s) = rise s"
  "spectrum (store off bs s) = spectrum s" "keep_pulsing (store off bs s) = keep_pulsing s"
  "sts (emit e s) = sts s" "hst0 (emit e s) = hst0 s"
  "hst1 (emit e s) = hst1 s" "ram (emit e s) = ram s"
  "send_results (emit e s) = send_results s" "pulse_rate (emit e s) = pulse_rate s"
  "pulse_dist (emit e s) = pulse_dist s" "pulse_hist (emit e s) = pulse_hist s"
  "enable_thread (emit e s) = enable_thread s" "active_thread (emit e s) = active_thread s"
  "fall (emit e s) = fall s" "rise (emit e s) = rise s"
  "spectrum (emit e s) = spectrum s" "keep_pulsing (emit e s) = keep_pulsing s"
  by (simp_all add: store_def emit_def)

lemma wr_fields [simp]:
  "sts (wr16 off h s) = sts s" "hst0 (wr16 off h s) = hst0 s"
  "hst1 (wr16 off h s) = hst1 s" "ram (wr16 off h s) = ram s"
  "send_results (wr16 off h s) = send_results s" "pulse_rate (wr16 off h s) = pulse_rate s"
  "pulse_dist (wr16 off h s) = pulse_dist s" "pulse_hist (wr16 off h s) = pulse_hist s"
  "enable_thread (wr16 off h s) = enable_thread s" "active_thread (wr16 off h s) = active_thread s"
  "fall (wr16 off h s) = fall s" "rise (wr16 off h s) = rise s"
  "spectrum (wr16 off h s) = spectrum s" "keep_pulsing (wr16 off h s) = keep_pulsing s"
  "sts (wr32 off w s) = sts s" "hst0 (wr32 off w s) = hst0 s"
  "hst1 (wr32 off w s) = hst1 s" "ram (wr32 off w s) = ram s"
  "send_results (wr32 off w s) = send_results s" "pulse_rate (wr32 off w s) = pulse_rate s"
  "pulse_dist (wr32 off w s) = pulse_dist s" "pulse_hist (wr32 off w s) = pulse_hist s"
  "enable_thread (wr32 off w s) = enable_thread s" "active_thread (wr32 off w s) = active_thread s"
  "fall (wr32 off w s) = fall s" "rise (wr32 off w s) = rise s"
  "spectrum (wr32 off w s) = spectrum s" "keep_pulsing (wr32 off w s) = keep_pulsing s"
  "sts (wr64 off d s) = sts s" "hst0 (wr64 off d s) = hst0 s"
  "hst1 (wr64 off d s) = hst1 s" "ram (wr64 off d s) = ram s"
  "send_results (wr64 off d s) = send_results s" "pulse_rate (wr64 off d s) = pulse_rate s"
  "pulse_dist (wr64 off d s) = pulse_dist s" "pulse_hist (wr64 off d s) = pulse_hist s"
  "enable_thread (wr64 off d s) = enable_thread s" "active_thread (wr64 off d s) = active_thread s"
  "fall (wr64 off d s) = fall s" "rise (wr64 off d s) = rise s"
  "spectrum (wr64 off d s) = spectrum s" "keep_pulsing (wr64 off d s) = keep_pulsing s"
  by (simp_all add: wr_defs)

lemma reg_fields [simp]:
  "sts (reg_clear (rd16 off) (wr16 off) m s) = sts s" "hst0 (reg_clear (rd16 off) (wr16 off) m s) = hst0 s"
  "hst1 (reg_clear (rd16 off) (wr16 off) m s) = hst1 s" "ram (reg_clear (rd16 off) (wr16 off) m s) = ram s"
  "send_results (reg_clear (rd16 off) (wr16 off) m s) = send_results s" "pulse_rate (reg_clear (rd16 off) (wr16 off) m s) = pulse_rate s"
  "pulse_dist (reg_clear (rd16 off) (wr16 off) m s) = pulse_dist s" "pulse_hist (reg_clear (rd16 off) (wr16 off) m s) = pulse_hist s"
  "enable_thread (reg_clear (rd16 off) (wr16 off) m s) = enable_thread s" "active_thread (reg_clear (rd16 off) (wr16 off) m s) = active_thread s"
  "fall (reg_clear (rd16 off) (wr16 off) m s) = fall s" "rise (reg_clear (rd16 off) (wr16 off) m s) = rise s"
  "spectrum (reg_clear (rd16 off) (wr16 off) m s) = spectrum s" "keep_pulsing (reg_clear (rd16 off) (wr16 off) m s) = keep_pulsing s"
  "sts (reg_set (rd16 off) (wr16 off) m s) = sts s" "hst0 (reg_set (rd16 off) (wr16 off) m s) = hst0 s"
  "hst1 (reg_set (rd16 off) (wr16 off) m s) = hst1 s" "ram (reg_set (rd16 off) (wr16 off) m s) = ram s"
  "send_results (reg_set (rd16 off) (wr16 off) m s) = send_results s" "pulse_rate (reg_set (rd16 off) (wr16 off) m s) = pulse_rate s"
  "pulse_dist (reg_set (rd16 off) (wr16 off) m s) = pulse_dist s" "pulse_hist (reg_set (rd16 off) (wr16 off) m s) = pulse_hist s"
  "enable_thread (reg_set (rd16 off) (wr16 off) m s) = enable_thread s" "active_thread (reg_set (rd16 off) (wr16 off) m s) = active_thread s"
  "fall (reg_set (rd16 off) (wr16 off) m s) = fall s" "rise (reg_set (rd16 off) (wr16 off) m s) = rise s"
  "spectrum (reg_set (rd16 off) (wr16 off) m s) = spectrum s" "keep_pulsing (reg_set (rd16 off) (wr16 off) m s) = keep_pulsing s"
  by (simp_all add: reg_clear_def reg_set_def)

lemmas command_defs = reset_histogram_def reset_timer_def reset_oscilloscope_def reset_generator_def
  set_sample_rate_def set_negator_mode_def set_pha_delay_def set_pha_min_def set_pha_max_def
  set_timer_def set_timer_mode_def read_status_def read_histogram_def set_trigger_source_def
  set_trigger_slope_def set_trigger_mode_def set_trigger_level_def set_pre_samples_def
  set_tot_samples_def start_oscilloscope_def read_oscilloscope_def set_fall_time_def
  set_rise_time_def set_lower_limit_def set_upper_limit_def set_pulse_rate_def set_pulse_dist_def
  reset_spectrum_def set_spectrum_bin_def ask_stop_def

lemma do_send_fields [simp]:
  "enable_thread (snd (do_send bs s)) = enable_thread s"
  "active_thread (snd (do_send bs s)) = active_thread s"
  "fst (do_send bs s) \<noteq> WaitThread r"
  by (auto simp: do_send_def split: list.split)

lemma do_send_regs [simp]:
  "regs (snd (do_send bs s)) = regs s" "hst0 (snd (do_send bs s)) = hst0 s"
  "hst1 (snd (do_send bs s)) = hst1 s"
  by (auto simp: do_send_def emit_def split: list.split)

text \<open>A command with its three parts, the way a client writes it.\<close>

definition encode :: "u8 \<Rightarrow> u8 \<Rightarrow> u64 \<Rightarrow> u64" where
  "encode code chan data = push_bit 56 (ucast code) OR push_bit 52 (ucast chan) OR data"

lemma decode_encode [simp]:
  assumes "data AND 0xfffffffffffff = data" and "chan AND 0xf = chan"
  shows "command_code (encode code chan data) = code" "command_chan (encode code chan data) = chan"
    "command_data (encode code chan data) = data"
proof -
  have m: "(0xfffffffffffff :: u64) = mask 52" "(0xf :: u8) = mask 4" "(0xff :: u8) = mask 8"
    by (simp_all add: mask_eq_exp_minus_1)
  have d: "n < 52" if "bit data n" for n
    using assms(1) that by (metis bit_and_iff bit_mask_iff m(1))
  have c: "n < 4" if "bit chan n" for n
    using assms(2) that by (metis bit_and_iff bit_mask_iff m(2))
  show "command_code (encode code chan data) = code"
    unfolding command_code_def encode_def m
    by (intro bit_word_eqI) (auto simp: bit_simps dest: c d)
  show "command_chan (encode code chan data) = chan"
    unfolding command_chan_def encode_def m
    by (intro bit_word_eqI) (auto simp: bit_simps dest: c d)
  show "command_data (encode code chan data) = data"
    unfolding command_data_def encode_def m
    by (intro bit_word_eqI) (auto simp: bit_simps dest: d)
qed

section \<open>Properties of the commands\<close>

text \<open>What a channel's part of the analyser is configured by and has counted.\<close>

definition channel_view :: "u8 \<Rightarrow> mcpha \<Rightarrow> u8 \<times> u8 list \<times> u32 list" where
  "channel_view chan s = (if chan = 0 then (regs s 0, map (regs s) [8..<22], hst0 s)
     else (regs s 1, map (regs s) [24..<38], hst1 s))"

lemma regs_wr16:
  "regs (wr16 off h s) a =
     (if a = off then ucast h else if a = off + 1 then ucast (drop_bit 8 h) else regs s a)"
  by (auto simp: wr_defs regs_store le16_def less_Suc_eq)

lemma byte_literals:
  "(- 257 :: u8) = - 1" "(- 513 :: u8) = - 1" "(- 1025 :: u8) = - 1" "(- 4097 :: u8) = - 1"
  "(256 :: u8) = 0" "(512 :: u8) = 0" "(1024 :: u8) = 0" "(4096 :: u8) = 0"
  by simp_all

text \<open>The parts of the state a channel's commands may not touch.\<close>

definition other_channel :: "u8 \<Rightarrow> u8 \<Rightarrow> bool" where
  "other_channel chan other \<longleftrightarrow> chan = 0 \<and> other = 1 \<or> chan = 1 \<and> other = 0"

lemma view_eqI:
  assumes "other_channel chan other"
    and "other = 1 \<Longrightarrow> (regs s' 1 = regs s 1 \<and> hst1 s' = hst1 s) \<and> (\<forall>a. 24 \<le> a \<and> a < 38 \<longrightarrow> regs s' a = regs s a)"
    and "other = 0 \<Longrightarrow> (regs s' 0 = regs s 0 \<and> hst0 s' = hst0 s) \<and> (\<forall>a. 8 \<le> a \<and> a < 22 \<longrightarrow> regs s' a = regs s a)"
  shows "channel_view other s' = channel_view other s"
  using assms by (auto simp: channel_view_def other_channel_def simp del: upt_rec_numeral)

lemma channel_ops:
  assumes "other_channel chan other"
  shows "channel_view other (reset_histogram chan s) = channel_view other s"
    and "channel_view other (reset_timer chan s) = channel_view other s"
    and "channel_view other (set_negator_mode chan data s) = channel_view other s"
    and "channel_view other (set_pha_delay chan data s) = channel_view other s"
    and "channel_view other (set_pha_min chan data s) = channel_view other s"
    and "channel_view other (set_pha_max chan data s) = channel_view other s"
    and "channel_view other (set_timer chan data s) = channel_view other s"
    and "channel_view other (set_timer_mode chan data s) = channel_view other s"
    and "channel_view other (snd (read_histogram chan s)) = channel_view other s"
  by (rule view_eqI [OF assms];
      use assms in \<open>auto simp: other_channel_def command_defs regs_set16 regs_clear16 regs_wr16
        regs_wr_out byte_literals\<close>)+

text \<open>The commands that take a channel change that channel only: the half of the reset register,
  the thresholds, the timer and the histogram of the other one stay as they are.\<close>

theorem channels_isolated:
  assumes "command_code c \<in> {0, 1, 5, 6, 7, 8, 9, 10, 12}"
    and "other_channel (command_chan c) other"
  shows "channel_view other (snd (mcpha_command c s)) = channel_view other s"
  using assms(1) channel_ops [OF assms(2)] by (elim insertE) (simp_all add: mcpha_command_def Let_def)

theorem channels_isolated_witness:
  "channel_view 1 (snd (mcpha_command (encode 7 0 1000) mcpha_zero)) = channel_view 1 mcpha_zero"
  by (rule channels_isolated) (simp_all add: other_channel_def)

text \<open>A rate below 4 switches the decimator off and stores 4, any other 16-bit rate is stored and
  switches it on.\<close>

theorem sample_rate_set:
  assumes "command_code c = 4" and "command_data c < 2 ^ 16"
  shows "rd16 4 (snd (mcpha_command c s)) = (if command_data c < 4 then 4 else ucast (command_data c)) \<and>
    4 \<le> unat (rd16 4 (snd (mcpha_command c s))) \<and>
    (bit (rd16 0 (snd (mcpha_command c s))) 3 \<longleftrightarrow> 4 \<le> command_data c)"
proof -
  have "unat (ucast (command_data c) :: u16) = unat (command_data c)"
    using assms(2) by (simp add: unat_ucast_small word_less_nat_alt)
  then show ?thesis
    using assms(1) by (simp add: mcpha_command_def Let_def set_sample_rate_def word_less_nat_alt
        word_le_nat_alt r16.get_set r16.get_clear bit_simps)
qed

theorem sample_rate_set_witness:
  "rd16 4 (snd (mcpha_command (encode 4 0 100) mcpha_zero)) = 100"
  using sample_rate_set [of "encode 4 0 100" mcpha_zero] by (simp add: word_less_nat_alt)

text \<open>The guard of the sample rate looks at all 52 bits of the data and the register keeps 16 of
  them: a request of 65536 passes it, switches the decimator on and stores the rate 0.\<close>

theorem sample_rate_truncated:
  "rd16 4 (snd (mcpha_command (encode 4 0 65536) s)) = 0 \<and>
   bit (rd16 0 (snd (mcpha_command (encode 4 0 65536) s))) 3"
  by (simp add: mcpha_command_def Let_def set_sample_rate_def r16.get_set bit_simps)

text \<open>The sample RAM as 32-bit samples, and what a trace has sent.\<close>

definition ring_sample :: "mcpha \<Rightarrow> nat \<Rightarrow> u8 list" where
  "ring_sample s k = map (ram s) [4 * k..<4 * k + 4]"

lemma ring_sample_eq:
  "ring_sample s k = [ram s (4 * k), ram s (4 * k + 1), ram s (4 * k + 2), ram s (4 * k + 3)]"
  by (simp add: ring_sample_def upt_conv_Cons eval_nat_numeral)

definition sent :: "io list \<Rightarrow> u8 list" where
  "sent es = concat (map (\<lambda>e. case e of Send bs \<Rightarrow> bs | _ \<Rightarrow> []) es)"

lemma ring_samples: "concat (map (\<lambda>k. ring_sample s (a + k)) [0..<n]) = map (ram s) [4 * a..<4 * a + 4 * n]"
proof (induction n)
  case (Suc n)
  have "[4 * a..<4 * a + 4 * n + 4] = [4 * a..<4 * a + 4 * n] @ [4 * a + 4 * n..<4 * a + 4 * n + 4]"
    by (rule upt_add_eq_append) simp
  moreover have "4 * a + 4 * Suc n = 4 * a + 4 * n + 4"
    by simp
  ultimately have "map (ram s) [4 * a..<4 * a + 4 * Suc n] =
      map (ram s) [4 * a..<4 * a + 4 * n] @ map (ram s) [4 * a + 4 * n..<4 * a + 4 * n + 4]"
    by (simp only: map_append)
  then show ?case
    using Suc.IH by (simp add: ring_sample_def distrib_left add.assoc)
qed simp

lemma ring_segment:
  assumes "unat off < 2 ^ 23" and "unat len < 2 ^ 24"
  shows "ram_bytes (off * 4) (len * 4) s = concat (map (\<lambda>k. ring_sample s (unat off + k)) [0..<unat len])"
proof -
  have "unat (off * 4) = 4 * unat off" "unat (len * 4) = 4 * unat len"
    using assms by (simp_all add: unat_word_ariths)
  then show ?thesis
    by (simp add: ram_bytes_def ring_samples)
qed

lemma sent_do_send [simp]:
  assumes "send_results s = []"
  shows "do_send bs s = (Continue, emit (Send bs) s)"
  using assms by (simp add: do_send_def)

lemma ram_bytes_emit [simp]: "ram_bytes off len (emit e s) = ram_bytes off len s"
  by (simp add: ram_bytes_def)

lemma scope_start_bound: "unat (scope_start s) \<le> 0x7FFFFF"
  using unat_and_mask_less [of "0x7FFFFF :: u32" "0x800000" "drop_bit 1 (sts32 32 s) - (rd32 76 s + 1)"]
  by (simp add: scope_start_def)

text \<open>A read-out of the oscilloscope sends exactly the requested number of samples, starting the
  requested number before the trigger, in order around the ring; but the ring it walks is one
  sample shorter than the memory: indices are taken modulo 8388607, so the last sample of the
  8388608 is never sent and a window across the end of the memory is shifted by one.\<close>

theorem oscilloscope_window:
  assumes "send_results s = []" and "unat (rd32 80 s + 1) \<le> 0x7FFFFF"
  shows "\<exists>es. trace (snd (read_oscilloscope s)) = trace s @ es \<and>
    sent es = concat (map (\<lambda>k. ring_sample s ((unat (scope_start s) + k) mod 0x7FFFFF))
                        [0..<unat (rd32 80 s + 1)])"
proof -
  define st n where "st = scope_start s" and "n = rd32 80 s + 1"
  have st: "unat st \<le> 0x7FFFFF"
    unfolding st_def by (rule scope_start_bound)
  have n: "unat n \<le> 0x7FFFFF"
    using assms(2) by (simp add: n_def)
  have add: "unat (st + n) = unat st + unat n"
    using st n by (simp add: unat_word_ariths)
  show ?thesis
  proof (cases "unat st + unat n \<le> 0x7FFFFF")
    case True
    then have "st + n \<le> 0x7FFFFF"
      using add by (simp add: word_le_nat_alt)
    moreover have eq: "map (\<lambda>k. ring_sample s ((unat st + k) mod 0x7FFFFF)) [0..<unat n] =
        map (\<lambda>k. ring_sample s (unat st + k)) [0..<unat n]"
      using True by simp
    ultimately show ?thesis
      using st n assms(1) unfolding st_def [symmetric] n_def [symmetric] eq
      by (simp add: read_oscilloscope_def Let_def ring_segment sent_def flip: st_def n_def)
  next
    case False
    define d where "d = 0x7FFFFF - unat st"
    have not_le: "\<not> st + n \<le> 0x7FFFFF"
      using False add by (simp add: word_le_nat_alt)
    have d: "unat (0x7FFFFF - st) = d"
      using st unat_sub [of st "0x7FFFFF"] by (simp add: word_le_nat_alt d_def)
    have e: "unat (st + n - 0x7FFFFF) = unat n - d"
      using False st add unat_sub [of "0x7FFFFF" "st + n"] by (simp add: word_le_nat_alt d_def)
    have split: "[0..<unat n] = [0..<d] @ map ((+) d) [0..<unat n - d]"
      using False by (intro upt_split) (simp add: d_def)
    have second: "map (\<lambda>k. ring_sample s ((unat st + (d + k)) mod 0x7FFFFF)) [0..<unat n - d] =
        map (ring_sample s) [0..<unat n - d]"
    proof (rule map_cong [OF refl])
      fix k assume "k \<in> set [0..<unat n - d]"
      then have eq: "unat st + (d + k) = 0x7FFFFF + k" and k: "k < 0x7FFFFF"
        using st n by (auto simp: d_def)
      show "ring_sample s ((unat st + (d + k)) mod 0x7FFFFF) = ring_sample s k"
        unfolding eq using k by simp
    qed
    have first: "map (\<lambda>k. ring_sample s ((unat st + k) mod 0x7FFFFF)) [0..<d] =
        map (\<lambda>k. ring_sample s (unat st + k)) [0..<d]"
      by (simp add: d_def)
    have "ram_bytes (st * 4) ((0x7FFFFF - st) * 4) s =
        concat (map (\<lambda>k. ring_sample s (unat st + k)) [0..<d])"
      using ring_segment [of st "0x7FFFFF - st" s] st unfolding d by (simp add: d_def)
    moreover have "ram_bytes 0 ((st + n - 0x7FFFFF) * 4) s = concat (map (ring_sample s) [0..<unat n - d])"
      using ring_segment [of 0 "st + n - 0x7FFFFF" s] n unfolding e by simp
    ultimately show ?thesis
      using assms(1) not_le unfolding st_def [symmetric] n_def [symmetric] split
      by (simp add: read_oscilloscope_def Let_def sent_def first second comp_def flip: st_def n_def)
  qed
qed

text \<open>Two samples are asked for one sample before the end of the memory: the second one sent is the
  first sample of the memory, not the last.\<close>

definition near_ring_end :: mcpha where
  "near_ring_end = wr32 80 1 (wr32 76 1 (mcpha_zero\<lparr>ram := (\<lambda>a. if a < 4 then 1 else 2)\<rparr>))"

theorem oscilloscope_window_witness:
  "\<exists>es. trace (snd (read_oscilloscope near_ring_end)) = trace near_ring_end @ es \<and>
    sent es = [2, 2, 2, 2, 1, 1, 1, 1]"
proof -
  have r: "rd32 80 near_ring_end + 1 = 2" "rd32 76 near_ring_end + 1 = 2"
    by (simp_all add: near_ring_end_def)
  have "scope_start near_ring_end = 0x7FFFFE"
    unfolding scope_start_def r by (simp add: near_ring_end_def sts32_def mcpha_zero_def join32_def join16_def)
  then have st: "unat (scope_start near_ring_end) = 0x7FFFFE"
    by simp
  have "ring_sample near_ring_end 0x7FFFFE = [2, 2, 2, 2]" "ring_sample near_ring_end 0 = [1, 1, 1, 1]"
    by (simp_all add: ring_sample_eq near_ring_end_def)
  moreover have "[0..<unat (2 :: u32)] = [0, 1]"
    by (simp add: upt_rec)
  moreover have "send_results near_ring_end = []"
    by (simp add: near_ring_end_def mcpha_zero_def)
  ultimately show ?thesis
    using oscilloscope_window [of near_ring_end] unfolding r st by simp
qed

end
