(* ===== verification/Mcpha_client.thy ===== *)
theory Mcpha_client
  imports Clib Mcpha
begin

unbundle bit_operations_syntax

text \<open>
  The clients of the pulse generator, \<open>projects/mcpha/client/mcpha-pulser-start.c\<close> and
  \<open>mcpha-pulser-stop.c\<close>: they check their arguments, read a spectrum and send one block of
  commands. A connection that cannot be made, like a file that cannot be opened, ends them with a
  failure before anything is sent.
\<close>

text \<open>The loop over the lines of the spectrum file from bin \<open>i\<close> on, for \<open>n\<close> more bins; \<open>over\<close> says
  that \<open>errno\<close> is \<open>ERANGE\<close>.\<close>

fun read_spectrum :: "nat \<Rightarrow> nat \<Rightarrow> string \<Rightarrow> bool \<Rightarrow> u32 list \<Rightarrow> u32 list" where
  "read_spectrum 0 i contents over hist = hist"
| "read_spectrum (Suc n) i contents over hist =
     (if contents = [] then hist
      else case fgets 127 contents of (line, rest) \<Rightarrow>
        case strtol line of (v, erange, _) \<Rightarrow>
          let over = (over \<or> erange) in
          if over then read_spectrum n (Suc i) rest over hist
          else if v < 0 then read_spectrum n (Suc i) rest over hist
          else read_spectrum n (Suc i) rest over (hist[i := word_of_int v]))"

text \<open>The block of commands; the first element of the array is not assigned and holds whatever the
  stack held.\<close>

definition bin_command :: "u32 list \<Rightarrow> nat \<Rightarrow> u64" where
  "bin_command hist i = push_bit 56 28 + push_bit 32 (of_nat i) + ucast (hist ! i)"

definition pulser_commands :: "u64 \<Rightarrow> int \<Rightarrow> int \<Rightarrow> int \<Rightarrow> int \<Rightarrow> u32 list \<Rightarrow> u64 list" where
  "pulser_commands unset fall_t rise_t rate_t dist_t hist =
     [unset, push_bit 56 21 + word_of_int fall_t, push_bit 56 22 + word_of_int rise_t,
      push_bit 56 25 + word_of_int rate_t, push_bit 56 26 + word_of_int dist_t] @
     map (bin_command hist) [0..<4096] @ [push_bit 56 29 + 1]"

text \<open>\<open>main\<close>: the arguments after the program name, the files, whether the connection was made.\<close>

definition mcpha_pulser_start ::
  "(string \<Rightarrow> string option) \<Rightarrow> bool \<Rightarrow> u64 \<Rightarrow> string list \<Rightarrow> u64 list option" where
  "mcpha_pulser_start files online unset args =
     (if length args \<noteq> 6 then None
      else case parse_range 1 100000 (args ! 1) of None \<Rightarrow> None
      | Some rate_t \<Rightarrow> (case parse_range 0 1 (args ! 2) of None \<Rightarrow> None
      | Some dist_t \<Rightarrow> (case parse_range 0 100 (args ! 3) of None \<Rightarrow> None
      | Some rise_t \<Rightarrow> (case parse_range 0 100 (args ! 4) of None \<Rightarrow> None
      | Some fall_t \<Rightarrow> (case files (args ! 5) of None \<Rightarrow> None
      | Some contents \<Rightarrow>
          let hist = read_spectrum 4096 0 contents False (replicate 4096 0) in
          if \<not> online then None
          else Some (pulser_commands unset fall_t rise_t rate_t dist_t hist))))))"

definition mcpha_pulser_stop :: "bool \<Rightarrow> string list \<Rightarrow> u64 list option" where
  "mcpha_pulser_stop online args =
     (if length args \<noteq> 1 then None else if \<not> online then None else Some [push_bit 56 30])"

text \<open>The server's loop over the commands of one block.\<close>

fun run_commands :: "u64 list \<Rightarrow> mcpha \<Rightarrow> outcome \<times> mcpha" where
  "run_commands [] s = (Continue, s)"
| "run_commands (c # cs) s =
     (case mcpha_command c s of (Continue, s') \<Rightarrow> run_commands cs s' | r \<Rightarrow> r)"

lemma run_commands_append:
  "run_commands (cs @ ds) s =
     (case run_commands cs s of (Continue, s') \<Rightarrow> run_commands ds s' | r \<Rightarrow> r)"
  by (induction cs s rule: run_commands.induct) (auto split: prod.splits outcome.splits)

section \<open>What the server makes of the commands\<close>

lemma sum_is_encode:
  assumes "d AND 0xfffffffffffff = d"
  shows "push_bit 56 (ucast code) + d = encode code 0 d"
proof -
  have m: "(0xfffffffffffff :: u64) = mask 52"
    by (simp add: mask_eq_exp_minus_1)
  have d: "n < 52" if "bit d n" for n
    using assms that by (metis bit_and_iff bit_mask_iff m)
  have "push_bit 56 (ucast code) AND d = 0"
    by (intro bit_word_eqI) (auto simp: bit_simps dest: d)
  then show ?thesis
    by (simp add: encode_def disjunctive_add_eq_or)
qed

lemma small_data:
  assumes "uint w < 2 ^ 52"
  shows "(w :: u64) AND 0xfffffffffffff = w"
proof -
  have m: "(0xfffffffffffff :: u64) = mask 52"
    by (simp add: mask_eq_exp_minus_1)
  have "uint (take_bit 52 w) = uint w"
    using assms by (simp add: unsigned_take_bit_eq take_bit_int_eq_self)
  then show ?thesis
    by (simp add: m take_bit_eq_mask word_uint_eq_iff)
qed

lemma argument_command:
  assumes "0 \<le> v" and "v < 2 ^ 32"
  shows "mcpha_command (push_bit 56 (ucast code) + word_of_int v) s = mcpha_command (encode code 0 (word_of_int v)) s"
    and "command_code (encode code 0 (word_of_int v)) = code"
    and "command_data (encode code 0 (word_of_int v)) = word_of_int v"
    and "(ucast (word_of_int v :: u64) :: u32) = word_of_int v"
    and "(ucast (word_of_int v :: u64) :: u16) = word_of_int v"
proof -
  have "uint (word_of_int v :: u64) = v"
    using assms by (simp add: uint_word_of_int)
  then have d: "(word_of_int v :: u64) AND 0xfffffffffffff = word_of_int v"
    using assms by (intro small_data) simp
  then show "mcpha_command (push_bit 56 (ucast code) + word_of_int v) s = mcpha_command (encode code 0 (word_of_int v)) s"
    by (simp add: sum_is_encode)
  show "command_code (encode code 0 (word_of_int v)) = code" "command_data (encode code 0 (word_of_int v)) = word_of_int v"
    using d by simp_all
  show "(ucast (word_of_int v :: u64) :: u32) = word_of_int v" "(ucast (word_of_int v :: u64) :: u16) = word_of_int v"
    by (intro bit_word_eqI; simp add: bit_simps)+
qed

lemma bin_data:
  assumes "i < 4096"
  shows "bin_command hist i = encode 28 0 (push_bit 32 (of_nat i) OR ucast (hist ! i))"
    and "mcpha_command (bin_command hist i) s = (Continue, s\<lparr>spectrum := (spectrum s)[i := hist ! i]\<rparr>)"
proof -
  let ?d = "push_bit 32 (of_nat i) OR ucast (hist ! i) :: u64"
  have i: "n < 12" if "bit i n" for n
  proof (rule ccontr)
    assume "\<not> n < 12"
    then have "(2 :: nat) ^ 12 \<le> 2 ^ n"
      by (intro power_increasing) simp_all
    then have "i div 2 ^ n = 0"
      using assms by simp
    then show False
      using that by (simp add: bit_iff_odd)
  qed
  have m: "(0xfffffffffffff :: u64) = mask 52" "(0xfff :: u64) = mask 12" "(0xffffffff :: u64) = mask 32"
    by (simp_all add: mask_eq_exp_minus_1)
  have dis: "push_bit 32 (of_nat i) AND ucast (hist ! i) = (0 :: u64)"
    by (intro bit_word_eqI) (auto simp: bit_simps)
  have d: "?d AND 0xfffffffffffff = ?d"
    unfolding m by (intro bit_word_eqI) (auto simp: bit_simps dest: i bit_imp_le_length)
  have hi: "drop_bit 32 ?d AND 0xfff = of_nat i"
    unfolding m by (intro bit_word_eqI) (auto simp: bit_simps dest: i)
  have lo: "ucast (?d AND 0xffffffff) = hist ! i"
    unfolding m by (intro bit_word_eqI) (auto simp: bit_simps)
  show b: "bin_command hist i = encode 28 0 ?d"
    using sum_is_encode [OF d, of 28] disjunctive_add_eq_or [OF dis]
    by (simp add: bin_command_def add.assoc)
  have "unat (of_nat i :: u64) = i"
    using assms by (simp add: unat_of_nat_small)
  then show "mcpha_command (bin_command hist i) s = (Continue, s\<lparr>spectrum := (spectrum s)[i := hist ! i]\<rparr>)"
    using d hi lo unfolding b by (simp add: mcpha_command_def Let_def set_spectrum_bin_def)
qed

lemma run_bins:
  assumes "n \<le> 4096" and "length hist = 4096" and "length (spectrum s) = 4096"
  shows "run_commands (map (bin_command hist) [0..<n]) s =
    (Continue, s\<lparr>spectrum := take n hist @ drop n (spectrum s)\<rparr>)"
  using assms(1)
proof (induction n)
  case (Suc n)
  have "(take n hist @ drop n (spectrum s))[n := hist ! n] = take (Suc n) hist @ drop (Suc n) (spectrum s)"
    using Suc.prems assms(2,3)
    by (simp add: list_update_append take_Suc_conv_app_nth Cons_nth_drop_Suc [symmetric])
  with Suc show ?case
    by (simp add: run_commands_append bin_data(2))
qed simp

section \<open>Properties\<close>

lemma read_spectrum_length: "length (read_spectrum n i contents over hist) = length hist"
  by (induction n i contents over hist rule: read_spectrum.induct) (auto split: prod.split simp: Let_def)

lemma start_result:
  assumes "mcpha_pulser_start files online unset args = Some cs"
  shows "\<exists>fall_t rise_t rate_t dist_t contents. cs = pulser_commands unset fall_t rise_t rate_t dist_t
      (read_spectrum 4096 0 contents False (replicate 4096 0)) \<and> files (args ! 5) = Some contents \<and>
    parse_range 1 100000 (args ! 1) = Some rate_t \<and> parse_range 0 1 (args ! 2) = Some dist_t \<and>
    parse_range 0 100 (args ! 3) = Some rise_t \<and> parse_range 0 100 (args ! 4) = Some fall_t"
  using assms by (auto simp: mcpha_pulser_start_def Let_def split: if_splits option.splits)

text \<open>C3. The server understands the client: whenever \<open>mcpha-pulser-start\<close> sends its block, the server, after
  the first command, ends in the wait for a restart with the pulser's rate, distribution, rise and
  fall time, and with the spectrum of the file in its table.\<close>

theorem pulser_start_configures:
  assumes "mcpha_pulser_start files online unset args = Some (c0 # cs)" and "length (spectrum s) = 4096"
  shows "\<exists>s' contents rate_t dist_t rise_t fall_t.
    run_commands cs s = (WaitThread ForRestart, s') \<and> keep_pulsing s' = 1 \<and>
    files (args ! 5) = Some contents \<and>
    spectrum s' = read_spectrum 4096 0 contents False (replicate 4096 0) \<and>
    parse_range 1 100000 (args ! 1) = Some rate_t \<and> pulse_rate s' = word_of_int rate_t \<and>
    parse_range 0 1 (args ! 2) = Some dist_t \<and> pulse_dist s' = word_of_int dist_t \<and>
    parse_range 0 100 (args ! 3) = Some rise_t \<and> rise s' = word_of_int rise_t \<and>
    parse_range 0 100 (args ! 4) = Some fall_t \<and> fall s' = word_of_int fall_t"
proof -
  obtain ft rt ra di contents where
    cs: "c0 # cs = pulser_commands unset ft rt ra di (read_spectrum 4096 0 contents False (replicate 4096 0))"
    and p: "files (args ! 5) = Some contents" "parse_range 1 100000 (args ! 1) = Some ra"
      "parse_range 0 1 (args ! 2) = Some di" "parse_range 0 100 (args ! 3) = Some rt"
      "parse_range 0 100 (args ! 4) = Some ft"
    using start_result [OF assms(1)] by blast
  define hist where "hist = read_spectrum 4096 0 contents False (replicate 4096 0)"
  have len: "length hist = 4096"
    by (simp add: hist_def read_spectrum_length)
  have b: "0 \<le> ft" "ft \<le> 100" "0 \<le> rt" "rt \<le> 100" "0 \<le> ra" "ra \<le> 100000" "0 \<le> di" "di \<le> 1"
    using p(2-5) by (auto dest!: parse_range_bounds)
  have le: "\<not> (100 :: u64) < word_of_int v" if "0 \<le> v" "v \<le> 100" for v
    using that by (simp add: word_less_def uint_word_of_int)
  define s1 where "s1 = s\<lparr>fall := word_of_int ft, rise := word_of_int rt, pulse_rate := word_of_int ra,
    pulse_dist := word_of_int di\<rparr>"
  have head: "run_commands [push_bit 56 21 + word_of_int ft, push_bit 56 22 + word_of_int rt,
      push_bit 56 25 + word_of_int ra, push_bit 56 26 + word_of_int di] s = (Continue, s1)"
    using b le argument_command(1) [of _ 21] argument_command(1) [of _ 22] argument_command(1) [of _ 25]
      argument_command(1) [of _ 26]
    by (simp add: mcpha_command_def argument_command(2-5) set_fall_time_def set_rise_time_def
        set_pulse_rate_def set_pulse_dist_def s1_def)
  have "length (spectrum s1) = 4096"
    using assms(2) by (simp add: s1_def)
  then have mid: "run_commands (map (bin_command hist) [0..<4096]) s1 = (Continue, s1\<lparr>spectrum := hist\<rparr>)"
    using run_bins [of 4096 hist s1] len by simp
  have tail: "run_commands [push_bit 56 29 + 1] s2 =
      (WaitThread ForRestart, ask_stop (s2\<lparr>keep_pulsing := 1\<rparr>))" for s2
    using argument_command(1) [of 1 29 s2] argument_command(2,3) [of 1 29] by (simp add: mcpha_command_def)
  have "cs = [push_bit 56 21 + word_of_int ft, push_bit 56 22 + word_of_int rt,
      push_bit 56 25 + word_of_int ra, push_bit 56 26 + word_of_int di] @
      map (bin_command hist) [0..<4096] @ [push_bit 56 29 + 1]"
    using cs by (simp add: pulser_commands_def hist_def)
  then have "run_commands cs s = (WaitThread ForRestart, ask_stop (s1\<lparr>spectrum := hist, keep_pulsing := 1\<rparr>))"
    by (simp only: run_commands_append head mid tail prod.case outcome.case)
  then show ?thesis
    using p by (simp add: s1_def ask_stop_def hist_def)
qed

text \<open>A line of the spectrum file that is out of range silences the rest of the file: \<open>errno\<close> is
  never cleared, so every later bin stays 0, whatever its line says.\<close>

theorem range_error_sticks:
  assumes "fgets 127 contents = (line, rest)" and "contents \<noteq> []" and "fst (snd (strtol line))"
  shows "read_spectrum (Suc n) i contents False hist = hist"
proof -
  have "read_spectrum n i contents True hist = hist" for i contents
    by (induction n arbitrary: i contents) (auto split: prod.split)
  then show ?thesis
    using assms by (cases "strtol line") simp
qed

theorem range_error_sticks_witness:
  "read_spectrum 3 0 (''99999999999999999999'' @ [CHR 0x0A] @ ''5'') False [0, 0, 0] = [0, 0, 0]"
proof -
  have f: "fgets 127 (''99999999999999999999'' @ [CHR 0x0A] @ ''5'') = (''99999999999999999999'' @ [CHR 0x0A], ''5'')"
    by code_simp
  have "fst (snd (strtol (''99999999999999999999'' @ [CHR 0x0A])))"
    by code_simp
  then show ?thesis
    using range_error_sticks [OF f, of 2 0 "[0, 0, 0]"] by (simp add: numeral_3_eq_3 numeral_2_eq_2)
qed

text \<open>The arguments and the file of the witness.\<close>

definition demo_args :: "string list" where
  "demo_args = [''10.0.0.2'', ''300'', ''1'', ''50'', ''20'', ''bins.txt'']"

definition demo_files :: "string \<Rightarrow> string option" where
  "demo_files name = (if name = ''bins.txt'' then Some (''4'' @ [CHR 0x0A] @ ''7'') else None)"

theorem pulser_start_configures_witness:
  "\<exists>cs s'. mcpha_pulser_start demo_files True 0 demo_args = Some (0 # cs) \<and>
     run_commands cs mcpha_zero = (WaitThread ForRestart, s') \<and> pulse_rate s' = 300"
proof -
  have a: "parse_range 1 100000 ''300'' = Some 300" "parse_range 0 1 ''1'' = Some 1"
    "parse_range 0 100 ''50'' = Some 50" "parse_range 0 100 ''20'' = Some 20"
    by code_simp+
  obtain cs where cs: "mcpha_pulser_start demo_files True 0 demo_args = Some (0 # cs)"
    by (simp add: mcpha_pulser_start_def demo_args_def demo_files_def a pulser_commands_def Let_def
        del: read_spectrum.simps)
  have "length (spectrum mcpha_zero) = 4096"
    by (simp add: mcpha_zero_def)
  from pulser_start_configures [OF cs this] obtain s' rate_t where
    "run_commands cs mcpha_zero = (WaitThread ForRestart, s')"
    "parse_range 1 100000 (demo_args ! 1) = Some rate_t" "pulse_rate s' = word_of_int rate_t"
    by blast
  then show ?thesis
    using cs a(1) by (simp add: demo_args_def)
qed

text \<open>The first word of the block is not initialised and the server executes it: with the stack
  holding the code of the lower limit, for instance, the client silently changes that limit.\<close>

theorem first_command_unset:
  "\<exists>cs. mcpha_pulser_start demo_files True (encode 23 0 5) demo_args = Some (encode 23 0 5 # cs) \<and>
     rd16 94 (snd (mcpha_command (encode 23 0 5) s)) = 5"
proof -
  have a: "parse_range 1 100000 ''300'' = Some 300" "parse_range 0 1 ''1'' = Some 1"
    "parse_range 0 100 ''50'' = Some 50" "parse_range 0 100 ''20'' = Some 20"
    by code_simp+
  show ?thesis
    by (simp add: mcpha_pulser_start_def demo_args_def demo_files_def a pulser_commands_def Let_def
        mcpha_command_def set_lower_limit_def del: read_spectrum.simps)
qed

end
