(* ===== verification/Mcpha_threads.thy ===== *)
theory Mcpha_threads
  imports Mcpha
begin

text \<open>
  The two threads of \<open>mcpha-server.c\<close> as a step relation. The main thread accepts a client, runs
  its commands and, before it restarts or stops the generator, clears \<open>enable_thread\<close> and polls
  \<open>active_thread\<close>. \<open>pulser_handler\<close> writes pulses to the generator's FIFO until it sees
  \<open>enable_thread\<close> clear. The pulser threads are a list, so that a second one is not ruled out by
  the model. Between any two steps the hardware may change the memories it shares.
\<close>

datatype main_pc = Accepting | Serving | Waiting wait_reason

datatype pulser_pc = Started | LoopTest | FifoTest | Draw | WriteAmplitude nat u32 | WriteInterval u32

record system =
  server :: mcpha
  main_at :: main_pc
  pulsers :: "pulser_pc list"

section \<open>The steps of the main thread\<close>

text \<open>After the loop over a client: \<open>close\<close>, then stop the pulser unless it is to be kept.\<close>

definition leave_client :: "mcpha \<Rightarrow> main_pc \<times> mcpha" where
  "leave_client s = (if keep_pulsing s \<noteq> 0 then (Accepting, s) else (Waiting ForClose, ask_stop s))"

definition after_command :: "outcome \<times> mcpha \<Rightarrow> main_pc \<times> mcpha" where
  "after_command r =
     (case r of
        (Continue, s) \<Rightarrow> (Serving, s)
      | (Break, s) \<Rightarrow> leave_client s
      | (WaitThread w, s) \<Rightarrow> (Waiting w, s))"

text \<open>One iteration of \<open>while(active_thread) usleep(1000);\<close>, or what follows the loop; the second
  component says whether a thread was asked for.\<close>

definition poll_thread ::
  "(rat \<Rightarrow> rat) \<Rightarrow> (rat \<Rightarrow> rat) \<Rightarrow> wait_reason \<Rightarrow> mcpha \<Rightarrow> (main_pc \<times> bool \<times> mcpha) option" where
  "poll_thread expf logf w s =
     (if active_thread s then Some (Waiting w, False, emit (Sleep 1000) s)
      else case w of
        ForStop \<Rightarrow> Some (Serving, False, reset_generator s)
      | ForClose \<Rightarrow> Some (Accepting, False, reset_generator s)
      | ForRestart \<Rightarrow> (case start_pulser expf logf s of
                        None \<Rightarrow> None
                      | Some s' \<Rightarrow> Some (Serving, active_thread s', s')))"

section \<open>The steps of the pulser thread\<close>

definition gen_write :: "u32 \<Rightarrow> mcpha \<Rightarrow> mcpha" where
  "gen_write w s = emit (Port Gen w) s"

text \<open>One step of \<open>pulser_handler\<close> at \<open>pc\<close>, with the next two values of \<open>rand\<close>; the new \<open>pc\<close> is
  \<open>None\<close> when the thread ends, and there is no step where the interval is undefined.\<close>

definition pulser_step ::
  "(rat \<Rightarrow> rat) \<Rightarrow> int \<Rightarrow> int \<Rightarrow> pulser_pc \<Rightarrow> mcpha \<Rightarrow> (pulser_pc option \<times> mcpha) option" where
  "pulser_step logf rand1 rand2 pc s =
     (case pc of
        Started \<Rightarrow> Some (Some LoopTest, gen_write 125000 (gen_write 0 s))
      | LoopTest \<Rightarrow>
          if enable_thread s then Some (Some FifoTest, s)
          else Some (None, s\<lparr>active_thread := False\<rparr>)
      | FifoTest \<Rightarrow>
          if 6000 < sts16 42 s then Some (Some FifoTest, emit (Sleep 1000) s)
          else Some (Some Draw, s)
      | Draw \<Rightarrow>
          (case pulse_interval logf (pulse_dist s) (pulse_rate s) rand2 of
             None \<Rightarrow> None
           | Some w \<Rightarrow> Some (Some (WriteAmplitude (draw_amplitude (pulse_hist s) rand1) w), s))
      | WriteAmplitude a w \<Rightarrow> Some (Some (WriteInterval w), gen_write (of_nat a) s)
      | WriteInterval w \<Rightarrow> Some (Some LoopTest, gen_write w s))"

inductive mcpha_step :: "(rat \<Rightarrow> rat) \<Rightarrow> (rat \<Rightarrow> rat) \<Rightarrow> system \<Rightarrow> system \<Rightarrow> bool"
  for expf logf where
  accept: "main_at t = Accepting \<Longrightarrow> mcpha_step expf logf t (t\<lparr>main_at := Serving\<rparr>)"
| command: "main_at t = Serving \<Longrightarrow> after_command (mcpha_command c (server t)) = (pc, s) \<Longrightarrow>
    mcpha_step expf logf t (t\<lparr>main_at := pc, server := s\<rparr>)"
| disconnect: "main_at t = Serving \<Longrightarrow> leave_client (server t) = (pc, s) \<Longrightarrow>
    mcpha_step expf logf t (t\<lparr>main_at := pc, server := s\<rparr>)"
| poll: "main_at t = Waiting w \<Longrightarrow> poll_thread expf logf w (server t) = Some (pc, created, s) \<Longrightarrow>
    ps = pulsers t @ (if created then [Started] else []) \<Longrightarrow>
    mcpha_step expf logf t (t\<lparr>main_at := pc, server := s, pulsers := ps\<rparr>)"
| create_fails: "main_at t = Waiting w \<Longrightarrow> poll_thread expf logf w (server t) = Some (pc, True, s) \<Longrightarrow>
    mcpha_step expf logf t (t\<lparr>main_at := pc, server := s\<rparr>)"
| pulse: "pulsers t = ps @ p # qs \<Longrightarrow> rand1 \<in> {0..RAND_MAX} \<Longrightarrow> rand2 \<in> {0..RAND_MAX} \<Longrightarrow>
    pulser_step logf rand1 rand2 p (server t) = Some (p', s) \<Longrightarrow>
    rs = ps @ (case p' of None \<Rightarrow> [] | Some q \<Rightarrow> [q]) @ qs \<Longrightarrow>
    mcpha_step expf logf t (t\<lparr>server := s, pulsers := rs\<rparr>)"
| hardware: "s = (server t)\<lparr>sts := status, hst0 := h0, hst1 := h1, ram := samples\<rparr> \<Longrightarrow>
    mcpha_step expf logf t (t\<lparr>server := s\<rparr>)"

inductive mcpha_reachable :: "(rat \<Rightarrow> rat) \<Rightarrow> (rat \<Rightarrow> rat) \<Rightarrow> system \<Rightarrow> bool" for expf logf where
  start: "\<not> active_thread s \<Longrightarrow> \<not> enable_thread s \<Longrightarrow>
    mcpha_reachable expf logf \<lparr>server = mcpha_init cma_size s, main_at = Accepting, pulsers = []\<rparr>"
| step: "mcpha_reachable expf logf t \<Longrightarrow> mcpha_step expf logf t t' \<Longrightarrow> mcpha_reachable expf logf t'"

section \<open>The flags\<close>

lemma command_flags:
  "active_thread (snd (mcpha_command c s)) = active_thread s"
  "enable_thread (snd (mcpha_command c s)) \<Longrightarrow> enable_thread s"
  "fst (mcpha_command c s) = WaitThread w \<Longrightarrow> \<not> enable_thread (snd (mcpha_command c s))"
proof -
  have scope: "active_thread (snd (read_oscilloscope s)) = active_thread s"
    "enable_thread (snd (read_oscilloscope s)) = enable_thread s"
    "fst (read_oscilloscope s) \<noteq> WaitThread w"
    by (auto simp: read_oscilloscope_def Let_def do_send_def split: outcome.split list.split)
  have hist: "active_thread (snd (read_histogram ch s)) = active_thread s"
    "enable_thread (snd (read_histogram ch s)) = enable_thread s"
    "fst (read_histogram ch s) \<noteq> WaitThread w" for ch
    by (auto simp: read_histogram_def)
  show "active_thread (snd (mcpha_command c s)) = active_thread s"
    by (simp add: mcpha_command_def Let_def scope hist) (simp add: command_defs)
  show "enable_thread (snd (mcpha_command c s)) \<Longrightarrow> enable_thread s"
    by (simp add: mcpha_command_def Let_def scope hist split: if_split_asm)
      (simp_all add: command_defs split: if_split_asm)
  show "fst (mcpha_command c s) = WaitThread w \<Longrightarrow> \<not> enable_thread (snd (mcpha_command c s))"
    by (simp add: mcpha_command_def Let_def scope hist read_status_def ask_stop_def split: if_split_asm)
qed

lemma leave_flags:
  assumes "leave_client s = (pc, s')"
  shows "active_thread s' = active_thread s" and "enable_thread s' \<Longrightarrow> enable_thread s"
    and "pc = Waiting w \<Longrightarrow> \<not> enable_thread s'"
  using assms by (auto simp: leave_client_def ask_stop_def split: if_split_asm)

lemma after_flags:
  assumes "after_command (mcpha_command c s) = (pc, s')"
  shows "active_thread s' = active_thread s" and "pc = Waiting w \<Longrightarrow> \<not> enable_thread s'"
proof -
  obtain out s1 where m: "mcpha_command c s = (out, s1)"
    by fastforce
  have s1: "active_thread s1 = active_thread s" "\<And>w. out = WaitThread w \<Longrightarrow> \<not> enable_thread s1"
    using command_flags [of c s] m by simp_all
  then show "active_thread s' = active_thread s" "pc = Waiting w \<Longrightarrow> \<not> enable_thread s'"
    using assms leave_flags [of s1 pc s'] by (auto simp: m after_command_def split: outcome.split_asm)
qed

lemma start_flags:
  assumes "start_pulser expf logf s = Some s'" and "\<not> active_thread s"
  shows "active_thread s' \<longleftrightarrow> 1 \<le> spectrum_total (spectrum s) 0"
  using assms
  by (auto simp: start_pulser_def Let_def reset_generator_def split: if_split_asm option.split_asm)

lemma poll_flags:
  assumes "poll_thread expf logf w s = Some (pc, created, s')"
  shows "active_thread s \<Longrightarrow> pc = Waiting w \<and> \<not> created \<and> active_thread s' \<and> enable_thread s' = enable_thread s"
    and "\<not> active_thread s \<Longrightarrow> pc \<noteq> Waiting w' \<and> (created \<longrightarrow> active_thread s')"
  using assms by (auto simp: poll_thread_def split: if_split_asm wait_reason.split_asm option.split_asm)

lemma pulser_flags:
  assumes "pulser_step logf rand1 rand2 p s = Some (p', s')"
  shows "enable_thread s' = enable_thread s" and "p' \<noteq> None \<Longrightarrow> active_thread s' = active_thread s"
  using assms
  by (auto simp: pulser_step_def gen_write_def split: pulser_pc.split_asm if_split_asm option.split_asm)

section \<open>The invariant\<close>

definition threads_ok :: "system \<Rightarrow> bool" where
  "threads_ok t \<longleftrightarrow> length (pulsers t) \<le> 1 \<and> (pulsers t \<noteq> [] \<longrightarrow> active_thread (server t)) \<and>
     (\<forall>w. main_at t = Waiting w \<longrightarrow> \<not> enable_thread (server t))"

lemma init_flags:
  "active_thread (mcpha_init size' s) = active_thread s" "enable_thread (mcpha_init size' s) = enable_thread s"
  by (simp_all add: mcpha_init_def Let_def reset_generator_def reset_oscilloscope_def)

lemma step_keeps_threads_ok:
  assumes "mcpha_step expf logf t t'" and "threads_ok t"
  shows "threads_ok t'"
  using assms
proof (cases rule: mcpha_step.cases)
  case accept
  then show ?thesis using assms(2) by (simp add: threads_ok_def)
next
  case (command c pc s)
  then show ?thesis
    using assms(2) after_flags [OF command(3)] by (simp add: threads_ok_def)
next
  case (disconnect pc s)
  then show ?thesis
    using assms(2) leave_flags [OF disconnect(3)] by (simp add: threads_ok_def)
next
  case (poll w pc created s ps)
  then show ?thesis
    using assms(2) poll_flags [OF poll(3)] by (cases "active_thread (server t)") (auto simp: threads_ok_def)
next
  case (create_fails w pc s)
  then show ?thesis
    using assms(2) poll_flags [OF create_fails(3)] by (cases "active_thread (server t)") (auto simp: threads_ok_def)
next
  case (pulse ps p qs rand1 rand2 p' s rs)
  then have "ps = []" "qs = []"
    using assms(2) by (auto simp: threads_ok_def)
  with pulse show ?thesis
    using assms(2) pulser_flags [OF pulse(5)] by (auto simp: threads_ok_def split: option.split)
next
  case hardware
  then show ?thesis
    using assms(2) by (simp add: threads_ok_def)
qed

lemma reachable_threads_ok: "mcpha_reachable expf logf t \<Longrightarrow> threads_ok t"
proof (induction rule: mcpha_reachable.induct)
  case (start s cma_size)
  then show ?case by (simp add: threads_ok_def)
next
  case (step t t')
  then show ?case by (simp add: step_keeps_threads_ok)
qed

section \<open>Stopping ends\<close>

text \<open>How many steps the thread is from the test of \<open>enable_thread\<close>.\<close>

fun rank :: "pulser_pc \<Rightarrow> nat" where
  "rank LoopTest = 0"
| "rank Started = 1"
| "rank (WriteInterval w) = 1"
| "rank (WriteAmplitude a w) = 2"
| "rank Draw = 3"
| "rank FifoTest = 4"

definition can_finish :: "(rat \<Rightarrow> rat) \<Rightarrow> mcpha \<Rightarrow> bool" where
  "can_finish logf s \<longleftrightarrow> \<not> enable_thread s \<and> sts16 42 s \<le> 6000 \<and>
     pulse_interval logf (pulse_dist s) (pulse_rate s) 0 \<noteq> None"

lemma pulser_progress:
  assumes "can_finish logf s"
  shows "\<exists>p' s'. pulser_step logf 0 0 p s = Some (p', s') \<and>
    (case p' of None \<Rightarrow> \<not> active_thread s' | Some q \<Rightarrow> rank q < rank p \<and> can_finish logf s')"
proof -
  have g: "can_finish logf (gen_write w s) = can_finish logf s" for w and s :: mcpha
    by (simp add: can_finish_def gen_write_def sts16_def)
  show ?thesis
    using assms by (cases p) (auto simp: pulser_step_def g, auto simp: can_finish_def not_less)
qed

lemma pulser_finishes:
  assumes "pulsers t = [p]" and "can_finish logf (server t)"
  shows "\<exists>s. (mcpha_step expf logf)\<^sup>*\<^sup>* t (t\<lparr>server := s, pulsers := []\<rparr>) \<and> \<not> active_thread s"
  using assms
proof (induction "rank p" arbitrary: p t rule: less_induct)
  case less
  obtain p' s' where st: "pulser_step logf 0 0 p (server t) = Some (p', s')"
    and next': "case p' of None \<Rightarrow> \<not> active_thread s' | Some q \<Rightarrow> rank q < rank p \<and> can_finish logf s'"
    using pulser_progress [OF less.prems(2), of p] by blast
  let ?u = "t\<lparr>server := s', pulsers := (case p' of None \<Rightarrow> [] | Some q \<Rightarrow> [q])\<rparr>"
  have one: "mcpha_step expf logf t ?u"
    by (rule mcpha_step.pulse [of t "[]" p "[]" 0 0 _ p' s'])
      (use less.prems(1) st in \<open>simp_all add: RAND_MAX_def\<close>)
  show ?case
  proof (cases p')
    case None
    then show ?thesis
      using one next' by auto
  next
    case (Some q)
    then obtain s where "(mcpha_step expf logf)\<^sup>*\<^sup>* ?u (?u\<lparr>server := s, pulsers := []\<rparr>)" "\<not> active_thread s"
      using less.hyps [of q ?u] next' by auto
    with one Some show ?thesis
      by (auto intro: converse_rtranclp_into_rtranclp)
  qed
qed

section \<open>Properties\<close>

text \<open>At most one pulser thread exists at any time, and while one exists \<open>active_thread\<close> is set.\<close>

theorem pulser_exclusive:
  assumes "mcpha_reachable expf logf t"
  shows "length (pulsers t) \<le> 1 \<and> (active_thread (server t) \<or> pulsers t = [])"
  using reachable_threads_ok [OF assms] by (auto simp: threads_ok_def)

definition fresh_system :: system where
  "fresh_system = \<lparr>server = mcpha_init 0 mcpha_zero, main_at = Accepting, pulsers = []\<rparr>"

lemma fresh_reachable: "mcpha_reachable expf logf fresh_system"
  unfolding fresh_system_def by (rule mcpha_reachable.start) (simp_all add: mcpha_zero_def)

theorem pulser_exclusive_witness: "length (pulsers fresh_system) \<le> 1"
  using pulser_exclusive [OF fresh_reachable] by blast





text \<open>A stop can always complete: while the main thread waits and the generator's FIFO has room, the
  pulser thread reaches its end and clears \<open>active_thread\<close>.\<close>

theorem stop_completes:
  assumes "mcpha_reachable expf logf t" and "main_at t = Waiting w" and "pulsers t \<noteq> []"
    and "sts16 42 (server t) \<le> 6000"
    and "pulse_interval logf (pulse_dist (server t)) (pulse_rate (server t)) 0 \<noteq> None"
  shows "\<exists>s. (mcpha_step expf logf)\<^sup>*\<^sup>* t (t\<lparr>server := s, pulsers := []\<rparr>) \<and> \<not> active_thread s"
proof -
  have ok: "threads_ok t"
    using assms(1) by (rule reachable_threads_ok)
  then obtain p where "pulsers t = [p]"
    using assms(3) by (cases "pulsers t") (auto simp: threads_ok_def)
  moreover have "can_finish logf (server t)"
    using ok assms(2,4,5) by (auto simp: threads_ok_def can_finish_def)
  ultimately show ?thesis
    by (rule pulser_finishes)
qed

text \<open>A client that sets a bin of the spectrum, starts the pulser and stops it again.\<close>

definition one_bin :: mcpha where
  "one_bin = set_spectrum_bin 5 (mcpha_init 0 mcpha_zero)"

lemma one_bin_start:
  "\<exists>s. start_pulser expf logf (ask_stop (one_bin\<lparr>keep_pulsing := 1\<rparr>)) = Some s \<and> active_thread s \<and>
     sts s = (\<lambda>_. 0) \<and> pulse_rate s = 1000 \<and> pulse_dist s = 0"
proof -
  have sp: "spectrum one_bin = 5 # replicate 4095 0"
  proof -
    have "replicate 4096 (0 :: u32) = 0 # replicate 4095 0"
      using replicate_Suc [of 4095 "0 :: u32"] by simp
    then show ?thesis
      by (simp add: one_bin_def set_spectrum_bin_def mcpha_init_def Let_def)
  qed
  have c: "cum (5 # replicate 4095 0) (length (5 # replicate 4095 (0 :: u32))) = 5"
    by (simp add: cum_def sum_list_replicate map_replicate_const)
  have t: "spectrum_total (5 # replicate 4095 0) 0 = 5"
    unfolding total_is_cum c by simp
  obtain h where h: "build_hist (5 # replicate 4095 0) = Some h"
    using build_hist_ok [of "5 # replicate 4095 0"] unfolding c by (auto simp: RAND_MAX_def)
  obtain sc where sc: "iir_scale (fall_factor expf logf (fall one_bin)) (rise_factor expf logf (rise one_bin)) = Some sc"
    using iir_scale_some by blast
  show ?thesis
    using sc by (simp add: start_pulser_def ask_stop_def Let_def reset_generator_def sp t h
        del: spectrum_total.simps)
      (simp add: one_bin_def set_spectrum_bin_def mcpha_init_def Let_def reset_generator_def
        reset_oscilloscope_def mcpha_zero_def)
qed

text \<open>Runs of the main thread alone.\<close>

abbreviation sys_at :: "main_pc \<Rightarrow> mcpha \<Rightarrow> pulser_pc list \<Rightarrow> system" where
  "sys_at pc s ps \<equiv> \<lparr>server = s, main_at = pc, pulsers = ps\<rparr>"

lemma run_command:
  assumes "mcpha_reachable expf logf (sys_at Serving s ps)"
    and "after_command (mcpha_command c s) = (pc, s')"
  shows "mcpha_reachable expf logf (sys_at pc s' ps)"
  using mcpha_reachable.step [OF assms(1) mcpha_step.command [of _ c pc s']] assms(2) by simp

lemma run_restart:
  assumes "mcpha_reachable expf logf (sys_at (Waiting ForRestart) s ps)"
    and "\<not> active_thread s" and "start_pulser expf logf s = Some s'" and "active_thread s'"
  shows "mcpha_reachable expf logf (sys_at Serving s' (ps @ [Started]))"
  using mcpha_reachable.step [OF assms(1)
      mcpha_step.poll [of _ ForRestart _ _ Serving True s' "ps @ [Started]"]] assms(2-4)
  by (simp add: poll_thread_def)

lemma pulsing_reachable:
  "\<exists>s. mcpha_reachable expf logf (sys_at (Waiting ForStop) s [Started]) \<and>
     active_thread s \<and> sts16 42 s = 0 \<and> pulse_rate s = 1000 \<and> pulse_dist s = 0"
proof -
  obtain s where s: "start_pulser expf logf (ask_stop (one_bin\<lparr>keep_pulsing := 1\<rparr>)) = Some s" "active_thread s"
    "sts s = (\<lambda>_. 0)" "pulse_rate s = 1000" "pulse_dist s = 0"
    using one_bin_start by blast
  let ?R = "mcpha_reachable expf logf"
  have "?R (sys_at Serving (mcpha_init 0 mcpha_zero) [])"
    using mcpha_reachable.step [OF fresh_reachable mcpha_step.accept] by (simp add: fresh_system_def)
  then have "?R (sys_at Serving one_bin [])"
    by (rule run_command [where c = "encode 28 0 5"])
      (simp add: mcpha_command_def after_command_def one_bin_def)
  then have "?R (sys_at (Waiting ForRestart) (ask_stop (one_bin\<lparr>keep_pulsing := 1\<rparr>)) [])"
    by (rule run_command [where c = "encode 29 0 1"]) (simp add: mcpha_command_def after_command_def)
  moreover have "\<not> active_thread (ask_stop (one_bin\<lparr>keep_pulsing := 1\<rparr>))"
    by (simp add: one_bin_def ask_stop_def set_spectrum_bin_def init_flags mcpha_zero_def)
  ultimately have "?R (sys_at Serving s ([] @ [Started]))"
    using s(1,2) by (rule run_restart)
  then have "?R (sys_at Serving s [Started])"
    by simp
  then have "?R (sys_at (Waiting ForStop) (ask_stop s) [Started])"
    by (rule run_command [where c = "encode 30 0 0"]) (simp add: mcpha_command_def after_command_def)
  moreover have "sts16 42 (ask_stop s) = 0"
    using s(3) by (simp add: ask_stop_def sts16_def join16_def)
  ultimately show ?thesis
    using s by (intro exI [of _ "ask_stop s"]) (simp add: ask_stop_def)
qed

theorem stop_completes_witness:
  "\<exists>t s. pulsers t = [Started] \<and> (mcpha_step id id)\<^sup>*\<^sup>* t (t\<lparr>server := s, pulsers := []\<rparr>) \<and> \<not> active_thread s"
proof -
  obtain s where s: "mcpha_reachable id id \<lparr>server = s, main_at = Waiting ForStop, pulsers = [Started]\<rparr>"
    "sts16 42 s = 0" "pulse_rate s = 1000" "pulse_dist s = 0"
    using pulsing_reachable by blast
  let ?t = "sys_at (Waiting ForStop) s [Started]"
  have i: "pulse_interval id (pulse_dist (server ?t)) (pulse_rate (server ?t)) 0 \<noteq> None"
    using interval_some [of 1000 id 0] s(3,4) by simp
  have "\<exists>s'. (mcpha_step id id)\<^sup>*\<^sup>* ?t (?t\<lparr>server := s', pulsers := []\<rparr>) \<and> \<not> active_thread s'"
    by (rule stop_completes [OF s(1) _ _ _ i]) (simp_all add: s(2))
  then show ?thesis
    by (intro exI [of _ ?t]) simp
qed

text \<open>\<open>pthread_create\<close> reports an error with a positive number and the test \<open>< 0\<close> never sees it:
  when no thread could be created \<open>active_thread\<close> stays set, and the next stop waits for ever.\<close>

theorem lost_thread_blocks:
  assumes "(mcpha_step expf logf)\<^sup>*\<^sup>* t t'"
    and "main_at t = Waiting w" and "active_thread (server t)" and "pulsers t = []"
  shows "main_at t' = Waiting w \<and> active_thread (server t') \<and> pulsers t' = []"
  using assms
proof (induction rule: rtranclp_induct)
  case (step u u')
  then have u: "main_at u = Waiting w" "active_thread (server u)" "pulsers u = []"
    by simp_all
  from step.hyps(2) show ?case
  proof (cases rule: mcpha_step.cases)
    case (poll w' pc created s ps)
    then show ?thesis
      using u poll_flags(1) [OF poll(3)] by simp
  next
    case (create_fails w' pc s)
    then show ?thesis
      using u poll_flags(1) [OF create_fails(3)] by simp
  qed (use u in simp_all)
qed simp

definition lost_thread :: system where
  "lost_thread = \<lparr>server = mcpha_zero\<lparr>active_thread := True\<rparr>, main_at = Waiting ForStop, pulsers = []\<rparr>"

theorem lost_thread_blocks_witness:
  "main_at (lost_thread\<lparr>server := (server lost_thread)\<lparr>sts := (\<lambda>_. 1)\<rparr>\<rparr>) = Waiting ForStop"
proof -
  have "mcpha_step id id lost_thread (lost_thread\<lparr>server := (server lost_thread)\<lparr>sts := (\<lambda>_. 1)\<rparr>\<rparr>)"
    by (rule mcpha_step.hardware [where status = "\<lambda>_. 1" and ?h0.0 = "hst0 (server lost_thread)"
        and ?h1.0 = "hst1 (server lost_thread)" and samples = "ram (server lost_thread)"]) simp
  then show ?thesis
    using lost_thread_blocks [OF r_into_rtranclp, of id id lost_thread _ ForStop]
    by (simp add: lost_thread_def)
qed

end
