(* ===== verification/Pha.thy ===== *)
theory Pha
  imports Clib Mmio
begin

unbundle bit_operations_syntax

text \<open>
  \<open>projects/mcpha/server/pha-server.c\<close>, the server that streams pulse heights, and its client
  \<open>projects/mcpha/client/pha-start.c\<close>. A command has its code in bits 60-63, its channel in bits
  56-59 and data in bits 0-55; \<open>rst\<close> is the byte at offset 3 of the configuration page. After a
  start command a thread moves words from the FPGA's FIFO to the socket \<open>sock_thread\<close>.
\<close>

record pha = machine +
  pha_sts :: "nat \<Rightarrow> u8"
  sock_thread :: int

definition pha_code :: "u64 \<Rightarrow> u8" where
  "pha_code command = ucast (drop_bit 60 command) AND 0xf"

definition pha_chan :: "u64 \<Rightarrow> u8" where
  "pha_chan command = ucast (drop_bit 56 command) AND 0xf"

definition pha_data :: "u64 \<Rightarrow> u64" where
  "pha_data command = command AND 0xffffffffffffff"

abbreviation prst_clear :: "u8 \<Rightarrow> pha \<Rightarrow> pha" where
  "prst_clear \<equiv> reg_clear (rd8 3) (wr8 3)"

abbreviation prst_set :: "u8 \<Rightarrow> pha \<Rightarrow> pha" where
  "prst_set \<equiv> reg_set (rd8 3) (wr8 3)"

section \<open>The commands\<close>

definition pha_reset :: "pha \<Rightarrow> pha" where
  "pha_reset s = prst_set 1 (prst_clear 1 s)"

definition pha_reset_timer :: "pha \<Rightarrow> pha" where
  "pha_reset_timer s = prst_set 2 (prst_clear 2 s)"

definition pha_set_rate :: "u64 \<Rightarrow> pha \<Rightarrow> pha" where
  "pha_set_rate data s =
     (if data < 4 then wr16 6 4 (prst_clear 8 s) else wr16 6 (ucast data) (prst_set 8 s))"

definition pha_set_negator :: "u8 \<Rightarrow> u64 \<Rightarrow> pha \<Rightarrow> pha" where
  "pha_set_negator chan data s =
     (if chan = 0 then
        (if data = 0 then prst_clear 16 s else if data = 1 then prst_set 16 s else s)
      else if chan = 1 then
        (if data = 0 then prst_clear 32 s else if data = 1 then prst_set 32 s else s)
      else s)"

definition pha_set_delay :: "u8 \<Rightarrow> u64 \<Rightarrow> pha \<Rightarrow> pha" where
  "pha_set_delay chan data s =
     (if chan = 0 then wr16 48 (ucast data) s else if chan = 1 then wr16 64 (ucast data) s else s)"

definition pha_set_min :: "u8 \<Rightarrow> u64 \<Rightarrow> pha \<Rightarrow> pha" where
  "pha_set_min chan data s =
     (if chan = 0 then wr16 50 (ucast data) s else if chan = 1 then wr16 66 (ucast data) s else s)"

definition pha_set_max :: "u8 \<Rightarrow> u64 \<Rightarrow> pha \<Rightarrow> pha" where
  "pha_set_max chan data s =
     (if chan = 0 then wr16 52 (ucast data) s else if chan = 1 then wr16 68 (ucast data) s else s)"

definition pha_set_timer :: "u8 \<Rightarrow> u64 \<Rightarrow> pha \<Rightarrow> pha" where
  "pha_set_timer chan data s =
     (if chan = 0 then wr64 40 data s else if chan = 1 then wr64 56 data s else s)"

text \<open>The start command on behalf of the client's socket; the thread is created before the FIFO is
  reset and the timer started.\<close>

definition pha_start :: "int \<Rightarrow> pha \<Rightarrow> pha" where
  "pha_start sock s = prst_set 4 (prst_set 64 (prst_clear 64 (s\<lparr>sock_thread := sock\<rparr>)))"

text \<open>The command loop's body; the first component says that a reader thread is created.\<close>

definition pha_command :: "int \<Rightarrow> u64 \<Rightarrow> pha \<Rightarrow> bool \<times> pha" where
  "pha_command sock command s =
     (let code = pha_code command; chan = pha_chan command; data = pha_data command in
      if code = 0 then (False, pha_reset s)
      else if code = 1 then (False, pha_reset_timer s)
      else if code = 2 then (False, pha_set_rate data s)
      else if code = 3 then (False, pha_set_negator chan data s)
      else if code = 4 then (False, pha_set_delay chan data s)
      else if code = 5 then (False, pha_set_min chan data s)
      else if code = 6 then (False, pha_set_max chan data s)
      else if code = 7 then (False, pha_set_timer chan data s)
      else if code = 8 then (True, pha_start sock s)
      else (False, s))"

definition pha_init :: "pha \<Rightarrow> pha" where
  "pha_init s = prst_set 3 (prst_clear 3 (wr16 6 4 s))"

text \<open>When a client has left: the timer is stopped and the readers are told to end.\<close>

definition pha_leave :: "pha \<Rightarrow> pha" where
  "pha_leave s = (prst_clear 4 s)\<lparr>sock_thread := - 1\<rparr>"

section \<open>The client\<close>

definition pha_commands :: "int \<Rightarrow> int \<Rightarrow> int \<Rightarrow> int \<Rightarrow> int \<Rightarrow> int \<Rightarrow> int \<Rightarrow> int \<Rightarrow> u64 list" where
  "pha_commands stop rate pol1 pol2 min1 max1 min2 max2 =
     [push_bit 60 0, push_bit 60 1, push_bit 60 2 + word_of_int rate,
      push_bit 60 3 + push_bit 56 0 + word_of_int pol1, push_bit 60 3 + push_bit 56 1 + word_of_int pol2,
      push_bit 60 4 + push_bit 56 0 + 100, push_bit 60 4 + push_bit 56 1 + 100,
      push_bit 60 5 + push_bit 56 0 + word_of_int min1, push_bit 60 5 + push_bit 56 1 + word_of_int min2,
      push_bit 60 6 + push_bit 56 0 + word_of_int max1, push_bit 60 6 + push_bit 56 1 + word_of_int max2,
      push_bit 60 7 + push_bit 56 0 + 125000000 * word_of_int stop,
      push_bit 60 7 + push_bit 56 1 + 125000000 * word_of_int stop,
      push_bit 60 8]"

text \<open>\<open>main\<close> up to the point where the block is sent: the arguments after the program name, whether
  the output file can be opened, whether the connection was made.\<close>

definition pha_start_client :: "(string \<Rightarrow> bool) \<Rightarrow> bool \<Rightarrow> string list \<Rightarrow> u64 list option" where
  "pha_start_client writable online args =
     (if length args \<noteq> 10 then None
      else case parse_range 1 99999999 (args ! 1) of None \<Rightarrow> None
      | Some stop \<Rightarrow> (case parse_range 1 8192 (args ! 2) of None \<Rightarrow> None
      | Some rate \<Rightarrow> (case parse_range 0 1 (args ! 3) of None \<Rightarrow> None
      | Some pol1 \<Rightarrow> (case parse_range 0 1 (args ! 4) of None \<Rightarrow> None
      | Some pol2 \<Rightarrow> (case parse_range 0 4090 (args ! 5) of None \<Rightarrow> None
      | Some min1 \<Rightarrow> (case parse_range 0 4090 (args ! 6) of None \<Rightarrow> None
      | Some max1 \<Rightarrow> (case parse_range 0 4090 (args ! 7) of None \<Rightarrow> None
      | Some min2 \<Rightarrow> (case parse_range 0 4090 (args ! 8) of None \<Rightarrow> None
      | Some max2 \<Rightarrow>
          if \<not> writable (args ! 9) then None
          else if \<not> online then None
          else Some (pha_commands stop rate pol1 pol2 min1 max1 min2 max2)))))))))"

text \<open>The client's receiving loop: per iteration the clock, \<open>interrupted\<close>, and what \<open>select\<close> and
  \<open>recv\<close> gave; what was written to the file. \<open>None\<close> ends the input.\<close>

datatype received = Nothing | SelectError | Closed | Chunk "u8 list" bool

fun pha_receive :: "int \<Rightarrow> int \<Rightarrow> (bool \<times> int \<times> received) list \<Rightarrow> u8 list" where
  "pha_receive start stop [] = []"
| "pha_receive start stop ((interrupted, now, r) # rest) =
     (if \<not> interrupted \<and> now - start < stop then
        case r of
          SelectError \<Rightarrow> []
        | Nothing \<Rightarrow> pha_receive start stop rest
        | Closed \<Rightarrow> []
        | Chunk bs ok \<Rightarrow> bs @ (if ok then pha_receive start stop rest else [])
      else [])"

section \<open>The reader threads\<close>

text \<open>\<open>read_handler\<close>: test the socket, read the fill of the FIFO, read that many words, send them.\<close>

datatype reader_pc = CheckSocket | ReadSize | ReadWords nat | SendWords "u32 list"

record pha_system =
  pha_state :: pha
  client :: "int option"
  readers :: "reader_pc list"

definition pha_fill :: "pha \<Rightarrow> nat" where
  "pha_fill s = unat (join16 (pha_sts s 40) (pha_sts s 41))"

text \<open>One step of a reader; \<open>words\<close> is what the FIFO delivers, \<open>ok\<close> whether \<open>send\<close> succeeds.\<close>

definition reader_step :: "u32 list \<Rightarrow> bool \<Rightarrow> reader_pc \<Rightarrow> pha \<Rightarrow> reader_pc option \<times> pha" where
  "reader_step words ok pc s =
     (case pc of
        CheckSocket \<Rightarrow> (if sock_thread s < 0 then None else Some ReadSize, s)
      | ReadSize \<Rightarrow>
          if pha_fill s < 4 then (Some CheckSocket, emit (Sleep 1000) s)
          else (Some (ReadWords (min 4096 (pha_fill s))), s)
      | ReadWords n \<Rightarrow> (Some (SendWords (take n words)), s)
      | SendWords ws \<Rightarrow>
          (if ok \<and> 0 \<le> sock_thread s then (Some CheckSocket, emit (Send (concat (map le32 ws))) s)
           else (None, s)))"

inductive pha_step :: "pha_system \<Rightarrow> pha_system \<Rightarrow> bool" where
  accept: "client t = None \<Longrightarrow> 0 \<le> sock \<Longrightarrow> pha_step t (t\<lparr>client := Some sock\<rparr>)"
| command: "client t = Some sock \<Longrightarrow> pha_command sock c (pha_state t) = (created, s) \<Longrightarrow>
    rs = readers t @ (if created then [CheckSocket] else []) \<Longrightarrow>
    pha_step t (t\<lparr>pha_state := s, readers := rs\<rparr>)"
| disconnect: "client t = Some sock \<Longrightarrow>
    pha_step t (t\<lparr>pha_state := pha_leave (pha_state t), client := None\<rparr>)"
| reader: "readers t = ps @ p # qs \<Longrightarrow> length words = 4096 \<Longrightarrow> reader_step words ok p (pha_state t) = (p', s) \<Longrightarrow>
    rs = ps @ (case p' of None \<Rightarrow> [] | Some q \<Rightarrow> [q]) @ qs \<Longrightarrow>
    pha_step t (t\<lparr>pha_state := s, readers := rs\<rparr>)"
| hardware: "s = (pha_state t)\<lparr>pha_sts := status\<rparr> \<Longrightarrow> pha_step t (t\<lparr>pha_state := s\<rparr>)"

inductive pha_reachable :: "pha_system \<Rightarrow> bool" where
  start: "pha_reachable \<lparr>pha_state = pha_init (s\<lparr>sock_thread := - 1\<rparr>), client = None, readers = []\<rparr>"
| step: "pha_reachable t \<Longrightarrow> pha_step t t' \<Longrightarrow> pha_reachable t'"

section \<open>Decoding\<close>

definition pha_encode :: "u8 \<Rightarrow> u8 \<Rightarrow> u64 \<Rightarrow> u64" where
  "pha_encode code chan data = push_bit 60 (ucast code) OR push_bit 56 (ucast chan) OR data"

lemma pha_masks:
  "(0xffffffffffffff :: u64) = mask 56" "(0xf :: u8) = mask 4"
  by (simp_all add: mask_eq_exp_minus_1)

lemma pha_sum_is_encode:
  assumes "uint (d :: u64) < 2 ^ 56" and "chan AND 0xf = chan"
  shows "push_bit 60 (ucast code) + push_bit 56 (ucast chan) + d = pha_encode code chan d"
proof -
  have "take_bit 56 d = d"
    using assms(1) by (simp add: word_uint_eq_iff unsigned_take_bit_eq take_bit_int_eq_self)
  then have d: "n < 56" if "bit d n" for n
    using that by (metis bit_take_bit_iff)
  have c: "n < 4" if "bit chan n" for n
    using assms(2) that by (metis bit_and_iff bit_mask_iff pha_masks(2))
  have "push_bit 60 (ucast code) AND push_bit 56 (ucast chan) = (0 :: u64)"
    by (intro bit_word_eqI) (auto simp: bit_simps dest: c)
  then have 1: "push_bit 60 (ucast code) + push_bit 56 (ucast chan) =
      push_bit 60 (ucast code) OR (push_bit 56 (ucast chan) :: u64)"
    by (rule disjunctive_add_eq_or)
  have "(push_bit 60 (ucast code) OR push_bit 56 (ucast chan)) AND d = 0"
    by (intro bit_word_eqI) (auto simp: bit_simps dest: d)
  then show ?thesis
    unfolding 1 pha_encode_def by (simp only: disjunctive_add_eq_or or.assoc)
qed

lemma pha_decode:
  assumes "uint (d :: u64) < 2 ^ 56" and "chan AND 0xf = chan" and "code AND 0xf = code"
  shows "pha_code (pha_encode code chan d) = code" "pha_chan (pha_encode code chan d) = chan"
    "pha_data (pha_encode code chan d) = d"
proof -
  have "take_bit 56 d = d"
    using assms(1) by (simp add: word_uint_eq_iff unsigned_take_bit_eq take_bit_int_eq_self)
  then have d: "n < 56" if "bit d n" for n
    using that by (metis bit_take_bit_iff)
  have c: "n < 4" if "bit chan n" for n
    using assms(2) that by (metis bit_and_iff bit_mask_iff pha_masks(2))
  have e: "n < 4" if "bit code n" for n
    using assms(3) that by (metis bit_and_iff bit_mask_iff pha_masks(2))
  show "pha_code (pha_encode code chan d) = code"
    unfolding pha_code_def pha_encode_def pha_masks by (intro bit_word_eqI) (auto simp: bit_simps dest: c d e)
  show "pha_chan (pha_encode code chan d) = chan"
    unfolding pha_chan_def pha_encode_def pha_masks by (intro bit_word_eqI) (auto simp: bit_simps dest: c d)
  show "pha_data (pha_encode code chan d) = d"
    unfolding pha_data_def pha_encode_def pha_masks by (intro bit_word_eqI) (auto simp: bit_simps dest: d)
qed

text \<open>A whole block of commands.\<close>

fun pha_run :: "int \<Rightarrow> u64 list \<Rightarrow> pha \<Rightarrow> nat \<times> pha" where
  "pha_run sock [] s = (0, s)"
| "pha_run sock (c # cs) s =
     (case pha_command sock c s of (created, s') \<Rightarrow>
      case pha_run sock cs s' of (n, s'') \<Rightarrow> ((if created then n + 1 else n), s''))"

lemma pha_command_sum:
  assumes "uint (d :: u64) < 2 ^ 56" and "chan AND 0xf = chan" and "code AND 0xf = (code :: u8)"
  shows "pha_command sock (push_bit 60 (ucast code) + push_bit 56 (ucast chan) + d) s =
    (if code = 0 then (False, pha_reset s)
      else if code = 1 then (False, pha_reset_timer s)
      else if code = 2 then (False, pha_set_rate d s)
      else if code = 3 then (False, pha_set_negator chan d s)
      else if code = 4 then (False, pha_set_delay chan d s)
      else if code = 5 then (False, pha_set_min chan d s)
      else if code = 6 then (False, pha_set_max chan d s)
      else if code = 7 then (False, pha_set_timer chan d s)
      else if code = 8 then (True, pha_start sock s)
      else (False, s))"
  unfolding pha_sum_is_encode [OF assms(1,2)] by (simp add: pha_command_def pha_decode [OF assms])

lemma pha_block:
  assumes "0 < stop" "stop \<le> 99999999" and "0 \<le> rate" "rate \<le> 8192" and "0 \<le> pol1" "pol1 \<le> 1"
    and "0 \<le> pol2" "pol2 \<le> 1" and "0 \<le> min1" "min1 \<le> 4090" and "0 \<le> max1" "max1 \<le> 4090"
    and "0 \<le> min2" "min2 \<le> 4090" and "0 \<le> max2" "max2 \<le> 4090"
  shows "pha_run sock (pha_commands stop rate pol1 pol2 min1 max1 min2 max2) s =
    (1, pha_start sock (pha_set_timer 1 (word_of_int (125000000 * stop)) (pha_set_timer 0 (word_of_int (125000000 * stop))
      (pha_set_max 1 (word_of_int max2) (pha_set_max 0 (word_of_int max1) (pha_set_min 1 (word_of_int min2)
      (pha_set_min 0 (word_of_int min1) (pha_set_delay 1 100 (pha_set_delay 0 100
      (pha_set_negator 1 (word_of_int pol2) (pha_set_negator 0 (word_of_int pol1)
      (pha_set_rate (word_of_int rate) (pha_reset_timer (pha_reset s))))))))))))))"
proof -
  have u: "uint (word_of_int v :: u64) < 2 ^ 56" if "0 \<le> v" "v < 2 ^ 56" for v
    using that by (simp add: uint_word_of_int)
  have t: "125000000 * word_of_int stop = (word_of_int (125000000 * stop) :: u64)"
    by simp
  have tb: "uint (word_of_int (125000000 * stop) :: u64) < 2 ^ 56"
    using assms(1,2) by (intro u) simp_all
  have k0: "pha_command sock (push_bit 60 0) s = (False, pha_reset s)" for s
    using pha_command_sum [of 0 0 0 sock s] by simp
  have k1: "pha_command sock (push_bit 60 1) s = (False, pha_reset_timer s)" for s
    using pha_command_sum [of 0 0 1 sock s] by simp
  have k2: "pha_command sock (push_bit 60 2 + word_of_int rate) s = (False, pha_set_rate (word_of_int rate) s)" for s
    using pha_command_sum [of "word_of_int rate" 0 2 sock s] u [of rate] assms by simp
  have k3: "pha_command sock (push_bit 60 3 + push_bit 56 0 + word_of_int pol1) s = (False, pha_set_negator 0 (word_of_int pol1) s)" for s
    using pha_command_sum [of "word_of_int pol1" 0 3 sock s] u [of pol1] assms by simp
  have k4: "pha_command sock (push_bit 60 3 + push_bit 56 1 + word_of_int pol2) s = (False, pha_set_negator 1 (word_of_int pol2) s)" for s
    using pha_command_sum [of "word_of_int pol2" 1 3 sock s] u [of pol2] assms by simp
  have k5: "pha_command sock (push_bit 60 4 + push_bit 56 0 + 100) s = (False, pha_set_delay 0 100 s)" for s
    using pha_command_sum [of 100 0 4 sock s] by simp
  have k6: "pha_command sock (push_bit 60 4 + push_bit 56 1 + 100) s = (False, pha_set_delay 1 100 s)" for s
    using pha_command_sum [of 100 1 4 sock s] by simp
  have k7: "pha_command sock (push_bit 60 5 + push_bit 56 0 + word_of_int min1) s = (False, pha_set_min 0 (word_of_int min1) s)" for s
    using pha_command_sum [of "word_of_int min1" 0 5 sock s] u [of min1] assms by simp
  have k8: "pha_command sock (push_bit 60 5 + push_bit 56 1 + word_of_int min2) s = (False, pha_set_min 1 (word_of_int min2) s)" for s
    using pha_command_sum [of "word_of_int min2" 1 5 sock s] u [of min2] assms by simp
  have k9: "pha_command sock (push_bit 60 6 + push_bit 56 0 + word_of_int max1) s = (False, pha_set_max 0 (word_of_int max1) s)" for s
    using pha_command_sum [of "word_of_int max1" 0 6 sock s] u [of max1] assms by simp
  have k10: "pha_command sock (push_bit 60 6 + push_bit 56 1 + word_of_int max2) s = (False, pha_set_max 1 (word_of_int max2) s)" for s
    using pha_command_sum [of "word_of_int max2" 1 6 sock s] u [of max2] assms by simp
  have k11: "pha_command sock (push_bit 60 7 + push_bit 56 0 + 125000000 * word_of_int stop) s = (False, pha_set_timer 0 (word_of_int (125000000 * stop)) s)" for s
    using pha_command_sum [of "word_of_int (125000000 * stop)" 0 7 sock s] tb by simp
  have k12: "pha_command sock (push_bit 60 7 + push_bit 56 1 + 125000000 * word_of_int stop) s = (False, pha_set_timer 1 (word_of_int (125000000 * stop)) s)" for s
    using pha_command_sum [of "word_of_int (125000000 * stop)" 1 7 sock s] tb by simp
  have k13: "pha_command sock (push_bit 60 8) s = (True, pha_start sock s)" for s
    using pha_command_sum [of 0 0 8 sock s] by simp
  show ?thesis
    by (simp only: pha_commands_def pha_run.simps k0 k1 k2 k3 k4 k5 k6 k7 k8 k9 k10 k11 k12 k13
        prod.case if_True if_False)
      simp
qed

lemma pha_client_result:
  assumes "pha_start_client writable online args = Some cs"
  shows "\<exists>stop rate pol1 pol2 min1 max1 min2 max2.
    cs = pha_commands stop rate pol1 pol2 min1 max1 min2 max2 \<and>
    parse_range 1 99999999 (args ! 1) = Some stop \<and> parse_range 1 8192 (args ! 2) = Some rate \<and>
    parse_range 0 1 (args ! 3) = Some pol1 \<and> parse_range 0 1 (args ! 4) = Some pol2 \<and>
    parse_range 0 4090 (args ! 5) = Some min1 \<and> parse_range 0 4090 (args ! 6) = Some max1 \<and>
    parse_range 0 4090 (args ! 7) = Some min2 \<and> parse_range 0 4090 (args ! 8) = Some max2"
  using assms by (auto simp: pha_start_client_def split: if_splits option.splits)

lemmas pha_defs = pha_start_def pha_set_timer_def pha_set_max_def pha_set_min_def pha_set_delay_def
  pha_set_negator_def pha_set_rate_def pha_reset_timer_def pha_reset_def

text \<open>Registers at different offsets of the page do not disturb each other.\<close>

lemma prst_other [simp]:
  "4 \<le> a \<Longrightarrow> rd16 a (prst_clear m s) = rd16 a s" "4 \<le> a \<Longrightarrow> rd16 a (prst_set m s) = rd16 a s"
  "4 \<le> a \<Longrightarrow> rd64 a (prst_clear m s) = rd64 a s" "4 \<le> a \<Longrightarrow> rd64 a (prst_set m s) = rd64 a s"
  by (simp_all add: reg_clear_def reg_set_def)

lemma sock_irrelevant [simp]:
  "rd8 a (s\<lparr>sock_thread := k\<rparr>) = rd8 a s" "rd16 a (s\<lparr>sock_thread := k\<rparr>) = rd16 a s"
  "rd64 a (s\<lparr>sock_thread := k\<rparr>) = rd64 a s"
  by (simp_all add: rd_defs)

lemma sock_kept [simp]:
  "sock_thread (prst_clear m s) = sock_thread s" "sock_thread (prst_set m s) = sock_thread s"
  "sock_thread (wr16 a h s) = sock_thread s" "sock_thread (wr64 a d s) = sock_thread s"
  by (simp_all add: reg_clear_def reg_set_def wr_defs store_def)

text \<open>The settings a block leaves behind.\<close>

lemma pha_settings:
  assumes t: "t = pha_start sock (pha_set_timer 1 d (pha_set_timer 0 d (pha_set_max 1 x2 (pha_set_max 0 x1
    (pha_set_min 1 n2 (pha_set_min 0 n1 (pha_set_delay 1 100 (pha_set_delay 0 100
    (pha_set_negator 1 p2 (pha_set_negator 0 p1 (pha_set_rate r s)))))))))))"
    and p: "p1 = 0 \<or> p1 = 1" "p2 = 0 \<or> p2 = 1"
  shows "rd16 6 t = (if r < 4 then 4 else ucast r)" and "rd64 40 t = d" and "rd64 56 t = d"
    and "rd16 50 t = ucast n1" and "rd16 66 t = ucast n2" and "rd16 52 t = ucast x1" and "rd16 68 t = ucast x2"
    and "bit (rd8 3 t) 2" and "bit (rd8 3 t) 4 \<longleftrightarrow> p1 = 1" and "bit (rd8 3 t) 5 \<longleftrightarrow> p2 = 1"
    and "sock_thread t = sock"
  using p by (auto simp: t pha_defs r8.get_set r8.get_clear bit_simps)

section \<open>Properties\<close>

text \<open>The server understands the client: the block of \<open>pha-start\<close> sets the decimation, the
  polarities and thresholds of both channels and both timers to the arguments, the time in clock
  cycles without spilling into the channel bits, runs the timer and starts exactly one reader.\<close>

theorem pha_client_configures:
  assumes "pha_start_client writable online args = Some cs"
  shows "\<exists>t stop rate pol1 pol2 min1 max1 min2 max2. pha_run sock cs s = (1, t) \<and>
    parse_range 1 99999999 (args ! 1) = Some stop \<and> rd64 40 t = word_of_int (125000000 * stop) \<and>
    rd64 56 t = word_of_int (125000000 * stop) \<and>
    parse_range 1 8192 (args ! 2) = Some rate \<and> rd16 6 t = word_of_int (max 4 rate) \<and>
    parse_range 0 1 (args ! 3) = Some pol1 \<and> (bit (rd8 3 t) 4 \<longleftrightarrow> pol1 = 1) \<and>
    parse_range 0 1 (args ! 4) = Some pol2 \<and> (bit (rd8 3 t) 5 \<longleftrightarrow> pol2 = 1) \<and>
    parse_range 0 4090 (args ! 5) = Some min1 \<and> rd16 50 t = word_of_int min1 \<and>
    parse_range 0 4090 (args ! 6) = Some max1 \<and> rd16 52 t = word_of_int max1 \<and>
    parse_range 0 4090 (args ! 7) = Some min2 \<and> rd16 66 t = word_of_int min2 \<and>
    parse_range 0 4090 (args ! 8) = Some max2 \<and> rd16 68 t = word_of_int max2 \<and>
    bit (rd8 3 t) 2 \<and> sock_thread t = sock"
proof -
  obtain stop rate pol1 pol2 min1 max1 min2 max2 where
    cs: "cs = pha_commands stop rate pol1 pol2 min1 max1 min2 max2"
    and p: "parse_range 1 99999999 (args ! 1) = Some stop" "parse_range 1 8192 (args ! 2) = Some rate"
      "parse_range 0 1 (args ! 3) = Some pol1" "parse_range 0 1 (args ! 4) = Some pol2"
      "parse_range 0 4090 (args ! 5) = Some min1" "parse_range 0 4090 (args ! 6) = Some max1"
      "parse_range 0 4090 (args ! 7) = Some min2" "parse_range 0 4090 (args ! 8) = Some max2"
    using pha_client_result [OF assms] by blast
  note b = p [THEN parse_range_bounds]
  have pol: "word_of_int v = (0 :: u64) \<or> word_of_int v = (1 :: u64)" "(word_of_int v = (1 :: u64)) = (v = 1)"
    if "0 \<le> v \<and> v \<le> 1" for v :: int
  proof -
    have "v = 0 \<or> v = 1"
      using that by linarith
    then show "word_of_int v = (0 :: u64) \<or> word_of_int v = (1 :: u64)" "(word_of_int v = (1 :: u64)) = (v = 1)"
      by auto
  qed
  have c16: "(ucast (word_of_int v :: u64) :: u16) = word_of_int v" for v
    by (intro bit_word_eqI) (simp add: bit_simps)
  have lt: "(word_of_int rate :: u64) < 4 \<longleftrightarrow> rate < 4"
    using b(2) by (simp add: word_less_def uint_word_of_int)
  define t where "t = pha_start sock
      (pha_set_timer 1 (word_of_int (125000000 * stop)) (pha_set_timer 0 (word_of_int (125000000 * stop))
      (pha_set_max 1 (word_of_int max2) (pha_set_max 0 (word_of_int max1) (pha_set_min 1 (word_of_int min2)
      (pha_set_min 0 (word_of_int min1) (pha_set_delay 1 100 (pha_set_delay 0 100
      (pha_set_negator 1 (word_of_int pol2) (pha_set_negator 0 (word_of_int pol1)
      (pha_set_rate (word_of_int rate) (pha_reset_timer (pha_reset s)))))))))))))"
  have t: "pha_run sock cs s = (1, t)"
    unfolding cs t_def using b by (intro pha_block) simp_all
  note settings = pha_settings [OF t_def pol(1) pol(1), OF b(3) b(4)]
  show ?thesis
    by (rule exI [of _ t], rule exI [of _ stop], rule exI [of _ rate], rule exI [of _ pol1],
        rule exI [of _ pol2], rule exI [of _ min1], rule exI [of _ max1], rule exI [of _ min2],
        rule exI [of _ max2])
      (simp add: t p settings c16 lt max_def pol(2) b(3,4) del: One_nat_def)
qed

definition pha_args :: "string list" where
  "pha_args = [''10.0.0.2'', ''60'', ''4'', ''0'', ''1'', ''10'', ''4000'', ''20'', ''4090'', ''out.bin'']"

definition pha_zero :: pha where
  "pha_zero = \<lparr>regs = (\<lambda>_. 0), trace = [], pha_sts = (\<lambda>_. 0), sock_thread = - 1\<rparr>"

theorem pha_client_configures_witness:
  "\<exists>cs t. pha_start_client (\<lambda>_. True) True pha_args = Some cs \<and> pha_run 5 cs pha_zero = (1, t) \<and>
     rd64 40 t = 7500000000"
proof -
  have a: "parse_range 1 99999999 ''60'' = Some 60" "parse_range 1 8192 ''4'' = Some 4"
    "parse_range 0 1 ''0'' = Some 0" "parse_range 0 1 ''1'' = Some 1" "parse_range 0 4090 ''10'' = Some 10"
    "parse_range 0 4090 ''4000'' = Some 4000" "parse_range 0 4090 ''20'' = Some 20"
    "parse_range 0 4090 ''4090'' = Some 4090"
    by code_simp+
  have "\<exists>cs. pha_start_client (\<lambda>_. True) True pha_args = Some cs"
    by (simp add: pha_start_client_def pha_args_def a)
  then obtain cs where cs: "pha_start_client (\<lambda>_. True) True pha_args = Some cs"
    by blast
  obtain t stop where "pha_run 5 cs pha_zero = (1, t)" "parse_range 1 99999999 (pha_args ! 1) = Some stop"
    "rd64 40 t = word_of_int (125000000 * stop)"
    using pha_client_configures [OF cs, of 5 pha_zero] by blast
  then show ?thesis
    using cs a(1) by (simp add: pha_args_def)
qed

text \<open>Between steps a reader holds as many words as it has read, within its buffer; the socket is
  cleared while no client is connected.\<close>

fun reader_ok :: "reader_pc \<Rightarrow> bool" where
  "reader_ok (ReadWords n) = (4 \<le> n \<and> n \<le> 4096)"
| "reader_ok (SendWords ws) = (4 \<le> length ws \<and> length ws \<le> 4096)"
| "reader_ok p = True"

definition readers_ok :: "pha_system \<Rightarrow> bool" where
  "readers_ok t \<longleftrightarrow> list_all reader_ok (readers t) \<and> (client t = None \<longrightarrow> sock_thread (pha_state t) = - 1)"

lemma reader_step_ok:
  assumes "reader_step words ok p s = (p', s')" and "reader_ok p" and "length words = 4096"
  shows "sock_thread s' = sock_thread s" and "p' = Some q \<Longrightarrow> reader_ok q"
  using assms by (auto simp: reader_step_def emit_def split: reader_pc.split_asm if_split_asm)

lemma pha_step_ok:
  assumes "pha_step t t'" and "readers_ok t"
  shows "readers_ok t'"
  using assms
proof (cases rule: pha_step.cases)
  case (reader ps p qs words ok p' s rs)
  then have "reader_ok p"
    using assms(2) by (simp add: readers_ok_def)
  note r = reader_step_ok [OF reader(4) this reader(3)]
  then show ?thesis
    using reader assms(2) by (auto simp: readers_ok_def split: option.split)
qed (auto simp: readers_ok_def pha_leave_def)

lemma pha_reachable_ok: "pha_reachable t \<Longrightarrow> readers_ok t"
proof (induction rule: pha_reachable.induct)
  case (start s)
  then show ?case by (simp add: readers_ok_def pha_init_def)
next
  case (step t t')
  then show ?case by (simp add: pha_step_ok)
qed

text \<open>A reader never overruns its buffer of 4096 words, and once the main thread has closed the
  connection and cleared the socket a reader that still holds words ends without sending them.\<close>

theorem pha_readers_safe:
  assumes "pha_reachable t"
  shows "list_all reader_ok (readers t) \<and>
    (client t \<noteq> None \<or> reader_step words ok (SendWords ws) (pha_state t) = (None, pha_state t))"
  using pha_reachable_ok [OF assms] by (auto simp: readers_ok_def reader_step_def)

lemma pha_fresh_reachable:
  "pha_reachable \<lparr>pha_state = pha_init pha_zero, client = None, readers = []\<rparr>"
  using pha_reachable.start [of pha_zero] by (simp add: pha_zero_def)

theorem pha_readers_safe_witness:
  "reader_step [] True (SendWords [1, 2, 3, 4]) (pha_init pha_zero) = (None, pha_init pha_zero)"
  using pha_readers_safe [OF pha_fresh_reachable] by simp

text \<open>Runs of the main thread alone.\<close>

definition pha_at :: "pha \<Rightarrow> int option \<Rightarrow> reader_pc list \<Rightarrow> pha_system" where
  "pha_at s k rs = \<lparr>pha_state = s, client = k, readers = rs\<rparr>"

lemma run_accept: "pha_reachable (pha_at s None rs) \<Longrightarrow> 0 \<le> k \<Longrightarrow> pha_reachable (pha_at s (Some k) rs)"
  using pha_reachable.step [OF _ pha_step.accept [of "pha_at s None rs" k]] by (simp add: pha_at_def)

lemma run_start:
  "pha_reachable (pha_at s (Some k) rs) \<Longrightarrow> pha_reachable (pha_at (pha_start k s) (Some k) (rs @ [CheckSocket]))"
  using pha_reachable.step [OF _ pha_step.command [of "pha_at s (Some k) rs" k "pha_encode 8 0 0" True "pha_start k s"]]
  by (simp add: pha_at_def pha_command_def pha_decode)

lemma run_leave: "pha_reachable (pha_at s (Some k) rs) \<Longrightarrow> pha_reachable (pha_at (pha_leave s) None rs)"
  using pha_reachable.step [OF _ pha_step.disconnect [of "pha_at s (Some k) rs" k]] by (simp add: pha_at_def)

text \<open>A client that disconnects and a next one that starts at once leave two readers at work: the
  first one has not looked at the socket while it was cleared, and both now drain the same FIFO
  into the new connection.\<close>

theorem readers_overlap:
  "\<exists>s. pha_reachable (pha_at s (Some 6) [CheckSocket, CheckSocket]) \<and> sock_thread s = 6"
proof -
  have "pha_reachable (pha_at (pha_init pha_zero) None [])"
    using pha_fresh_reachable by (simp add: pha_at_def)
  then have "pha_reachable (pha_at (pha_start 5 (pha_init pha_zero)) (Some 5) [CheckSocket])"
    using run_start [OF run_accept, of _ "[]" 5] by simp
  then have "pha_reachable (pha_at (pha_start 6 (pha_leave (pha_start 5 (pha_init pha_zero)))) (Some 6)
      [CheckSocket, CheckSocket])"
    using run_start [OF run_accept [OF run_leave], of _ 5 "[CheckSocket]" 6] by simp
  moreover have "sock_thread (pha_start 6 s) = 6" for s
    by (simp add: pha_start_def)
  ultimately show ?thesis
    by blast
qed

end
