(* ===== verification/Hpsdr_state.thy ===== *)
theory Hpsdr_state
  imports Mmio Doubles
begin

unbundle bit_operations_syntax

text \<open>
  \<open>projects/sdr_transceiver_hpsdr/server/sdr-transceiver-hpsdr.c\<close>: the state of the HPSDR
  transceiver server and its access to the I2C bus. The globals are the fields of one record, which
  extends the register page and its trace; \<open>i2c_<device>\<close> is the field \<open>has_<device>\<close> and
  \<open>i2c_<device>_data\<close> the field \<open><device>_data\<close>. The variant of the program for the 122.88 MHz
  board, \<open>projects/sdr_transceiver_hpsdr_122_88\<close>, differs in the constants of the record \<open>board\<close>
  only; \<open>thetis\<close> is the compile-time switch of the same name.
\<close>

record board =
  clk :: rat
  default_rate :: u16
  rates :: "u16 list"
  ramp_scale :: rat
  default_tx_level :: u16
  default_ps_level :: u16
  drive_factor :: rat
  thetis :: bool

definition board_125 :: board where
  "board_125 = \<lparr>clk = clk_125, default_rate = 1000, rates = [1000, 500, 250, 125], ramp_scale = 6100000,
     default_tx_level = 32110, default_ps_level = 23080, drive_factor = fl 53 (12592 / 100), thetis = False\<rparr>"

definition board_122 :: board where
  "board_122 = \<lparr>clk = clk_122, default_rate = 1280, rates = [1280, 640, 320, 160], ramp_scale = 4100000,
     default_tx_level = 21910, default_ps_level = 18716, drive_factor = fl 53 (85920 / 1000), thetis = False\<rparr>"

text \<open>The I2C devices found and the values last written to them, and the ICOM serial line.\<close>

record i2c_state = machine +
  has_pene :: bool
  has_alex :: bool
  has_level :: bool
  has_misc :: bool
  has_drive :: bool
  has_codec :: bool
  has_dac0 :: bool
  has_dac1 :: bool
  has_arduino :: bool
  has_nucleo :: bool
  pene_data :: u16
  alex_port_data :: u16
  level_data :: u16
  misc_data :: u16
  drive_data :: u16
  dac0_data :: u16
  dac1_data :: u16
  nucleo_lo :: u32
  nucleo_hi :: u32
  ard_frx1 :: u16
  ard_frx2 :: u16
  ard_ftx :: u16
  ard_ocant :: u32
  ard_txatt :: u32
  ard_rxatt :: u16
  boost_data :: u8
  uart_open :: bool
  icom_band :: u8

text \<open>The radio's settings; \<open>gpio_in\<close> and the FIFO counters are status registers of the FPGA.\<close>

record radio = i2c_state +
  gpio_in :: u8
  tx_cntr :: u16
  dac_cntr :: u16
  rx_cntr :: u16
  adc_cntr :: u16
  receivers :: u8
  ep_rate :: u8
  ep_enable :: bool
  ep_active :: bool
  log_table :: "u8 list"
  dac_level_data :: u8
  cw_int_data :: u8
  rx_att_data :: u8
  tx_mux_data :: u8
  tx_eer_data :: u8
  rx_sync_data :: u16
  freq0 :: u32
  freq1 :: u32
  freq2 :: u32
  alex_rx :: u16
  alex_tx :: u16
  alex_0 :: u16
  alex_1 :: u16
  alex_update :: bool
  misc_0 :: u16
  misc_1 :: u16
  misc_2 :: u16
  misc_update :: bool
  nucleo_0 :: u32
  nucleo_1 :: u32
  nucleo_2 :: u32
  nucleo_3 :: u32
  nucleo_update :: bool

text \<open>The keyer's settings and memory.\<close>

record hpsdr = radio +
  cw_hang :: u16
  cw_reversed :: u8
  cw_speed :: u8
  cw_mode :: u8
  cw_weight :: u8
  cw_spacing :: u8
  cw_delay :: u8
  cw_ptt :: u8
  cw_mem0 :: u32
  cw_mem1 :: u32
  cw_ptt_delay :: int

text \<open>The initial values of the globals, over a register page \<open>r\<close>, before any device was found.\<close>

definition hpsdr_globals :: "(nat \<Rightarrow> u8) \<Rightarrow> hpsdr" where
  "hpsdr_globals r = \<lparr>regs = r, trace = [],
     has_pene = False, has_alex = False, has_level = False, has_misc = False, has_drive = False,
     has_codec = False, has_dac0 = False, has_dac1 = False, has_arduino = False, has_nucleo = False,
     pene_data = 0, alex_port_data = 0, level_data = 0, misc_data = 0, drive_data = 0,
     dac0_data = 0xfff, dac1_data = 0xfff, nucleo_lo = 0, nucleo_hi = 0,
     ard_frx1 = 0, ard_frx2 = 0, ard_ftx = 0, ard_ocant = 0, ard_txatt = 0, ard_rxatt = 0,
     boost_data = 0, uart_open = False, icom_band = 0,
     gpio_in = 0, tx_cntr = 0, dac_cntr = 0, rx_cntr = 0, adc_cntr = 0, receivers = 1, ep_rate = 0, ep_enable = False, ep_active = False,
     log_table = replicate 256 0, dac_level_data = 0, cw_int_data = 0, rx_att_data = 0, tx_mux_data = 0,
     tx_eer_data = 0, rx_sync_data = 0, freq0 = 0, freq1 = 0, freq2 = 0,
     alex_rx = 0, alex_tx = 0, alex_0 = 0, alex_1 = 0, alex_update = False,
     misc_0 = 0, misc_1 = 0, misc_2 = 0, misc_update = False,
     nucleo_0 = 0, nucleo_1 = 0, nucleo_2 = 0, nucleo_3 = 0, nucleo_update = False,
     cw_hang = 0, cw_reversed = 0, cw_speed = 25, cw_mode = 0, cw_weight = 50, cw_spacing = 0,
     cw_delay = 0, cw_ptt = 0, cw_mem0 = 0, cw_mem1 = 0, cw_ptt_delay = 0\<rparr>"

section \<open>Registers\<close>

abbreviation (input) rx_rst :: nat where "rx_rst \<equiv> 0"
abbreviation (input) lo_rst :: nat where "lo_rst \<equiv> 1"
abbreviation (input) tx_rst :: nat where "tx_rst \<equiv> 2"
abbreviation (input) gpio_out :: nat where "gpio_out \<equiv> 3"
abbreviation (input) rx_rate :: nat where "rx_rate \<equiv> 4"
abbreviation (input) rx_sel :: nat where "rx_sel \<equiv> 6"
abbreviation (input) rx_freq0 :: nat where "rx_freq0 \<equiv> 8"
abbreviation (input) rx_freq1 :: nat where "rx_freq1 \<equiv> 12"
abbreviation (input) rx_freq2 :: nat where "rx_freq2 \<equiv> 16"
abbreviation (input) tx_freq :: nat where "tx_freq \<equiv> 20"
abbreviation (input) tx_size :: nat where "tx_size \<equiv> 24"
abbreviation (input) tx_level :: nat where "tx_level \<equiv> 26"
abbreviation (input) ps_level :: nat where "ps_level \<equiv> 28"
abbreviation (input) tx_sel :: nat where "tx_sel \<equiv> 30"
abbreviation (input) dac_freq :: nat where "dac_freq \<equiv> 32"
abbreviation (input) dac_size :: nat where "dac_size \<equiv> 36"
abbreviation (input) dac_level :: nat where "dac_level \<equiv> 38"

abbreviation clear8 :: "nat \<Rightarrow> u8 \<Rightarrow> 'a machine_scheme \<Rightarrow> 'a machine_scheme" where
  "clear8 off \<equiv> reg_clear (rd8 off) (wr8 off)"

abbreviation set8 :: "nat \<Rightarrow> u8 \<Rightarrow> 'a machine_scheme \<Rightarrow> 'a machine_scheme" where
  "set8 off \<equiv> reg_set (rd8 off) (wr8 off)"

section \<open>The I2C bus\<close>

definition ADDR_PENE :: u8 where "ADDR_PENE = 0x20"
definition ADDR_ALEX :: u8 where "ADDR_ALEX = 0x21"
definition ADDR_LEVEL :: u8 where "ADDR_LEVEL = 0x22"
definition ADDR_MISC :: u8 where "ADDR_MISC = 0x23"
definition ADDR_DRIVE :: u8 where "ADDR_DRIVE = 0x28"
definition ADDR_CODEC :: u8 where "ADDR_CODEC = 0x1A"
definition ADDR_DAC0 :: u8 where "ADDR_DAC0 = 0x60"
definition ADDR_DAC1 :: u8 where "ADDR_DAC1 = 0x61"
definition ADDR_ARDUINO :: u8 where "ADDR_ARDUINO = 0x40"
definition ADDR_NUCLEO :: u8 where "ADDR_NUCLEO = 0x55"

lemmas i2c_addresses = ADDR_PENE_def ADDR_ALEX_def ADDR_LEVEL_def ADDR_MISC_def ADDR_DRIVE_def
  ADDR_CODEC_def ADDR_DAC0_def ADDR_DAC1_def ADDR_ARDUINO_def ADDR_NUCLEO_def

text \<open>The bytes each of the \<open>i2c_write_...\<close> functions passes to \<open>write\<close>.\<close>

definition addr_data8 :: "u8 \<Rightarrow> u8 \<Rightarrow> u8 list" where
  "addr_data8 reg d = [reg, d]"

definition addr_data16 :: "u8 \<Rightarrow> u16 \<Rightarrow> u8 list" where
  "addr_data16 reg d = [reg, ucast d, ucast (drop_bit 8 d)]"

definition addr_data24 :: "u8 \<Rightarrow> u32 \<Rightarrow> u8 list" where
  "addr_data24 reg d = [reg, ucast d, ucast (drop_bit 8 d), ucast (drop_bit 16 d)]"

definition data16 :: "u16 \<Rightarrow> u8 list" where
  "data16 d = [ucast (drop_bit 8 d), ucast d]"

text \<open>Two 32-bit words in memory, of which five bytes are written.\<close>

definition data40 :: "u32 \<Rightarrow> u32 \<Rightarrow> u8 list" where
  "data40 lo hi = take 5 (le32 lo @ le32 hi)"

definition i2c_send :: "u8 \<Rightarrow> u8 list \<Rightarrow> 'a machine_scheme \<Rightarrow> 'a machine_scheme" where
  "i2c_send addr bs s = emit (I2cWrite bs) (emit (I2cSelect addr) s)"

text \<open>The writes every address has received in a trace, the latest first.\<close>

fun bus :: "io list \<Rightarrow> u8 \<Rightarrow> (u8 \<Rightarrow> u8 list list) \<Rightarrow> u8 \<times> (u8 \<Rightarrow> u8 list list)" where
  "bus [] sel dev = (sel, dev)"
| "bus (e # es) sel dev =
     (case e of
        I2cSelect a \<Rightarrow> bus es a dev
      | I2cWrite bs \<Rightarrow> bus es sel (dev(sel := bs # dev sel))
      | _ \<Rightarrow> bus es sel dev)"

definition writes :: "u8 \<Rightarrow> io list \<Rightarrow> u8 list list" where
  "writes addr es = snd (bus es 0 (\<lambda>_. [])) addr"

lemma bus_append: "bus (es @ fs) sel dev = (case bus es sel dev of (sel', dev') \<Rightarrow> bus fs sel' dev')"
proof (induction es arbitrary: sel dev)
  case (Cons e es)
  then show ?case
    by (cases e) (simp_all add: fun_upd_def)
qed simp

lemma writes_send [simp]:
  "writes addr (trace (i2c_send a bs s)) = (if addr = a then bs # writes addr (trace s) else writes addr (trace s))"
  by (simp add: writes_def i2c_send_def bus_append split: prod.split)

lemma writes_other [simp]:
  "writes addr (es @ [Store off bs]) = writes addr es" "writes addr (es @ [Port p w]) = writes addr es"
  "writes addr (es @ [Uart bs]) = writes addr es" "writes addr (es @ [Sleep n]) = writes addr es"
  "writes addr (es @ [Send bs]) = writes addr es"
  by (simp_all add: writes_def bus_append split: prod.split)

section \<open>Devices with a remembered value\<close>

text \<open>
  The server remembers what it last wrote to a device and writes again only when the value changes:
  \<open>if(i2c_x_data != data) { i2c_x_data = data; ioctl(...); i2c_write_...(...); }\<close>.
\<close>

definition i2c_update :: "('s machine_scheme \<Rightarrow> 'v) \<Rightarrow> ('v \<Rightarrow> 's machine_scheme \<Rightarrow> 's machine_scheme) \<Rightarrow>
    u8 \<Rightarrow> ('v \<Rightarrow> u8 list) \<Rightarrow> 'v \<Rightarrow> 's machine_scheme \<Rightarrow> 's machine_scheme" where
  "i2c_update get put addr bytes v s =
     (if get s \<noteq> v then i2c_send addr (bytes v) (put v s) else s)"

text \<open>The contract of the remembered value, and what follows: the memory and the device agree, that is,
  the latest of the writes that carry the value, \<open>val\<close>, carries the remembered one.\<close>

locale remembered =
  fixes get :: "'s machine_scheme \<Rightarrow> 'v" and put :: "'v \<Rightarrow> 's machine_scheme \<Rightarrow> 's machine_scheme"
    and addr :: u8 and bytes :: "'v \<Rightarrow> u8 list" and val :: "u8 list \<Rightarrow> bool"
  assumes get_put: "get (put v s) = v"
    and trace_put: "trace (put v s) = trace s"
    and get_trace: "get (trace_update f s) = get s"
    and val_bytes: "val (bytes v)"
begin

definition agrees :: "'s machine_scheme \<Rightarrow> bool" where
  "agrees s \<longleftrightarrow> find val (writes addr (trace s)) = Some (bytes (get s))"

lemma get_send: "get (i2c_send a bs s) = get s"
  by (simp add: i2c_send_def emit_def get_trace)

lemma get_update: "get (i2c_update get put addr bytes v s) = v"
  by (simp add: i2c_update_def get_send get_put)

lemma update_agrees: "agrees s \<Longrightarrow> agrees (i2c_update get put addr bytes v s)"
  by (simp add: agrees_def i2c_update_def get_send get_put trace_put val_bytes)

text \<open>Whatever was there before, a change is written out; an unchanged value causes no traffic.\<close>

lemma changed_agrees: "get s \<noteq> v \<Longrightarrow> agrees (i2c_update get put addr bytes v s)"
  by (simp add: agrees_def i2c_update_def get_send get_put trace_put val_bytes)

lemma unchanged_quiet: "get s = v \<Longrightarrow> i2c_update get put addr bytes v s = s"
  by (simp add: i2c_update_def)

text \<open>A device that was never written holds its own reset value; \<open>d\<close> is what the server takes it to be.\<close>

definition tracks :: "'v \<Rightarrow> 's machine_scheme \<Rightarrow> bool" where
  "tracks d s \<longleftrightarrow> get s = d \<or> agrees s"

lemma update_tracks: "tracks d s \<Longrightarrow> tracks d (i2c_update get put addr bytes v s)"
  by (cases "get s = v") (auto simp: tracks_def unchanged_quiet changed_agrees)

text \<open>A step that writes to other addresses only and leaves the memory alone keeps the agreement.\<close>

lemma agrees_cong:
  "get s' = get s \<Longrightarrow> writes addr (trace s') = writes addr (trace s) \<Longrightarrow> agrees s' = agrees s"
  by (simp add: agrees_def)

end

abbreviation reg2 :: "u8 list \<Rightarrow> bool" where
  "reg2 w \<equiv> w \<noteq> [] \<and> hd w = 2"

interpretation pene: remembered pene_data "\<lambda>v. pene_data_update (\<lambda>_. v)" ADDR_PENE "addr_data16 2" reg2
  by unfold_locales (simp_all add: addr_data16_def)

interpretation alex: remembered alex_port_data "\<lambda>v. alex_port_data_update (\<lambda>_. v)" ADDR_ALEX "addr_data16 2" reg2
  by unfold_locales (simp_all add: addr_data16_def)

interpretation level: remembered level_data "\<lambda>v. level_data_update (\<lambda>_. v)" ADDR_LEVEL "addr_data16 2" reg2
  by unfold_locales (simp_all add: addr_data16_def)

interpretation misc: remembered misc_data "\<lambda>v. misc_data_update (\<lambda>_. v)" ADDR_MISC "addr_data16 2" reg2
  by unfold_locales (simp_all add: addr_data16_def)

interpretation drive: remembered drive_data "\<lambda>v. drive_data_update (\<lambda>_. v)" ADDR_DRIVE
    "\<lambda>d. addr_data16 0xa9 (push_bit 8 d OR d)" "\<lambda>w. w \<noteq> [] \<and> hd w = 0xa9"
  by unfold_locales (simp_all add: addr_data16_def)

interpretation dac0: remembered dac0_data "\<lambda>v. dac0_data_update (\<lambda>_. v)" ADDR_DAC0 data16 "\<lambda>_. True"
  by unfold_locales simp_all

interpretation nucleo: remembered "\<lambda>s. (nucleo_lo s, nucleo_hi s)"
    "\<lambda>(lo, hi) s. s\<lparr>nucleo_lo := lo, nucleo_hi := hi\<rparr>" ADDR_NUCLEO "\<lambda>(lo, hi). data40 lo hi" "\<lambda>_. True"
  by unfold_locales (simp_all split: prod.split)

text \<open>The registers of the Arduino sketch and of the codec.\<close>

interpretation frx1: remembered ard_frx1 "\<lambda>v. ard_frx1_update (\<lambda>_. v)" ADDR_ARDUINO "addr_data16 1" "\<lambda>w. w \<noteq> [] \<and> hd w = 1"
  by unfold_locales (simp_all add: addr_data16_def)

interpretation frx2: remembered ard_frx2 "\<lambda>v. ard_frx2_update (\<lambda>_. v)" ADDR_ARDUINO "addr_data16 2" reg2
  by unfold_locales (simp_all add: addr_data16_def)

interpretation ftx: remembered ard_ftx "\<lambda>v. ard_ftx_update (\<lambda>_. v)" ADDR_ARDUINO "addr_data16 3" "\<lambda>w. w \<noteq> [] \<and> hd w = 3"
  by unfold_locales (simp_all add: addr_data16_def)

interpretation ocant: remembered ard_ocant "\<lambda>v. ard_ocant_update (\<lambda>_. v)" ADDR_ARDUINO "addr_data24 4" "\<lambda>w. w \<noteq> [] \<and> hd w = 4"
  by unfold_locales (simp_all add: addr_data24_def)

interpretation txatt: remembered ard_txatt "\<lambda>v. ard_txatt_update (\<lambda>_. v)" ADDR_ARDUINO "addr_data24 5" "\<lambda>w. w \<noteq> [] \<and> hd w = 5"
  by unfold_locales (simp_all add: addr_data24_def)

interpretation rxatt: remembered ard_rxatt "\<lambda>v. ard_rxatt_update (\<lambda>_. v)" ADDR_ARDUINO "addr_data16 6" "\<lambda>w. w \<noteq> [] \<and> hd w = 6"
  by unfold_locales (simp_all add: addr_data16_def)

interpretation boost: remembered boost_data "\<lambda>v. boost_data_update (\<lambda>_. v)" ADDR_CODEC "\<lambda>v. addr_data8 8 (0x14 + v)" "\<lambda>w. w \<noteq> [] \<and> hd w = 8"
  by unfold_locales (simp_all add: addr_data8_def)

text \<open>Every remembered value is what its device was told last, or still the value the server started with.\<close>

definition i2c_tracks :: "'a radio_scheme \<Rightarrow> bool" where
  "i2c_tracks s \<longleftrightarrow>
     pene.tracks 0 s \<and> alex.tracks 0 s \<and> level.tracks 0 s \<and> misc.tracks 0 s \<and> drive.tracks 0 s \<and>
     dac0.tracks 0xfff s \<and> nucleo.tracks (0, 0) s \<and> frx1.tracks 0 s \<and> frx2.tracks 0 s \<and> ftx.tracks 0 s \<and>
     ocant.tracks 0 s \<and> txatt.tracks 0 s \<and> rxatt.tracks 0 s \<and> boost.tracks 0 s"

lemmas tracks_defs = pene.tracks_def alex.tracks_def level.tracks_def misc.tracks_def drive.tracks_def
  dac0.tracks_def nucleo.tracks_def frx1.tracks_def frx2.tracks_def ftx.tracks_def ocant.tracks_def
  txatt.tracks_def rxatt.tracks_def boost.tracks_def pene.agrees_def alex.agrees_def level.agrees_def
  misc.agrees_def drive.agrees_def dac0.agrees_def nucleo.agrees_def frx1.agrees_def frx2.agrees_def
  ftx.agrees_def ocant.agrees_def txatt.agrees_def rxatt.agrees_def boost.agrees_def

end
