(* ===== verification/Hpsdr_filters.thy ===== *)
theory Hpsdr_filters
  imports Hpsdr_state Search
begin

unbundle bit_operations_syntax

text \<open>
  The filter and band outputs of \<open>sdr-transceiver-hpsdr.c\<close>: \<open>calc_log_lookup\<close>, \<open>alex_write\<close>,
  \<open>misc_write\<close>, \<open>nucleo_write\<close> and \<open>icom_write\<close>. They derive a word from the frequencies and
  the settings received and send it out when it differs from the one sent before.
\<close>

abbreviation flag :: "bool \<Rightarrow> 'w::len word" where
  "flag b \<equiv> of_bool b"

section \<open>The drive table\<close>

text \<open>
  \<open>log10\<close> is the function of the C library; \<open>value\<close> is a \<open>float\<close>. The conversion to
  \<open>uint8_t\<close> truncates; the value it is applied to is between 0 and 63.
\<close>

definition log_value :: "(rat \<Rightarrow> rat) \<Rightarrow> nat \<Rightarrow> rat" where
  "log_value log10 index = fl 24 (dmul (- 40) (log10 (ddiv (of_nat index) 255)))"

definition calc_log_lookup :: "(rat \<Rightarrow> rat) \<Rightarrow> u8 list" where
  "calc_log_lookup log10 = 63 # map (\<lambda>index.
     let v = log_value log10 index in if 63 < v then 63 else word_of_int \<lfloor>v\<rfloor>) [1..<256]"

section \<open>ALEX filters\<close>

definition alex_preamp :: "'a radio_scheme \<Rightarrow> u16" where
  "alex_preamp s = (let manual = drop_bit 15 (alex_1 s) AND 1; hi = max (freq1 s) (freq2 s) in
     if manual \<noteq> 0 then drop_bit 6 (alex_1 s) AND 1 else flag (50000000 < hi))"

definition alex_hpf :: "'a radio_scheme \<Rightarrow> u16" where
  "alex_hpf s = (let manual = drop_bit 15 (alex_1 s) AND 1; freq = min (freq1 s) (freq2 s) in
     if alex_preamp s \<noteq> 0 then 0
     else if manual \<noteq> 0 then alex_1 s AND 0x3f
     else if freq < 1416000 then 0x20
     else if freq < 6500000 then 0x10
     else if freq < 9500000 then 0x08
     else if freq < 13000000 then 0x04
     else if freq < 20000000 then 0x01
     else 0x02)"

definition alex_rx_word :: "'a radio_scheme \<Rightarrow> u16" where
  "alex_rx_word s = (let hpf = alex_hpf s; d = alex_0 s in
     push_bit 15 (d AND 1) OR
     push_bit 14 (drop_bit 1 d AND 1) OR
     push_bit 13 (drop_bit 2 d AND 1) OR
     push_bit 12 (drop_bit 5 hpf AND 1) OR
     push_bit 11 (drop_bit 7 d AND 1) OR
     push_bit 10 (flag (drop_bit 5 d AND 3 = 1)) OR
     push_bit 9 (flag (drop_bit 5 d AND 3 = 2)) OR
     push_bit 8 (flag (drop_bit 5 d AND 3 = 3)) OR
     push_bit 4 (drop_bit 2 hpf AND 7) OR
     push_bit 3 (alex_preamp s) OR
     push_bit 1 (hpf AND 3) OR 1)"

definition alex_lpf :: "'a radio_scheme \<Rightarrow> u16" where
  "alex_lpf s = (let manual = drop_bit 15 (alex_1 s) AND 1;
       freq = if alex_0 s AND 1 \<noteq> 0 then freq0 s else max (freq1 s) (freq2 s) in
     if manual \<noteq> 0 then drop_bit 8 (alex_1 s) AND 0x7f
     else if 32000000 < freq then 0x10
     else if 22000000 < freq then 0x20
     else if 15000000 < freq then 0x40
     else if 8000000 < freq then 0x01
     else if 4500000 < freq then 0x02
     else if 2400000 < freq then 0x04
     else 0x08)"

definition alex_tx_word :: "'a radio_scheme \<Rightarrow> u16" where
  "alex_tx_word s = (let lpf = alex_lpf s; d = alex_0 s; ptt = d AND 1 in
     push_bit 13 (drop_bit 4 lpf AND 7) OR
     push_bit 12 ptt OR
     push_bit 11 (NOT (drop_bit 7 (alex_1 s)) AND ptt) OR
     push_bit 10 (flag (drop_bit 8 d AND 3 = 2)) OR
     push_bit 9 (flag (drop_bit 8 d AND 3 = 1)) OR
     push_bit 8 (flag (drop_bit 8 d AND 3 = 0)) OR
     push_bit 4 (lpf AND 0xf) OR
     push_bit 3 1)"

text \<open>\<open>if(alex_data_rx != data) { alex_data_rx = data; *alex = 1 << 16 | data; }\<close>, and the transmit half.\<close>

definition alex_latch :: "('a radio_scheme \<Rightarrow> u16) \<Rightarrow> (u16 \<Rightarrow> 'a radio_scheme \<Rightarrow> 'a radio_scheme) \<Rightarrow> nat \<Rightarrow>
    u16 \<Rightarrow> 'a radio_scheme \<Rightarrow> 'a radio_scheme" where
  "alex_latch get put k data s =
     (if get s \<noteq> data then emit (Port Alex (push_bit k 1 OR ucast data)) (put data s) else s)"

definition alex_write :: "'a radio_scheme \<Rightarrow> 'a radio_scheme" where
  "alex_write s =
     (if has_codec s then s
      else
        let s = alex_latch alex_rx (\<lambda>v. alex_rx_update (\<lambda>_. v)) 16 (alex_rx_word s) s
        in alex_latch alex_tx (\<lambda>v. alex_tx_update (\<lambda>_. v)) 17 (alex_tx_word s) s)"

section \<open>Band codes\<close>

definition misc_freqs :: "int list" where
  "misc_freqs =
    [1700000, 2100000, 3400000, 3900000, 6900000, 7350000, 9900000, 10250000, 13900000, 14450000,
     17950000, 18250000, 20900000, 21550000, 24800000, 25100000, 26900000, 30000000, 49000000, 55000000]"

definition nucleo_freqs :: "int list" where
  "nucleo_freqs =
    [1700000, 2100000, 3400000, 3900000, 5250000, 5450000, 6900000, 7350000, 9900000, 10250000,
     13900000, 14450000, 17950000, 18250000, 20900000, 21550000, 24800000, 25100000, 26900000, 30000000,
     49000000, 55000000]"

text \<open>\<open>code = lower_bound(freqs, n, freq); code = code % 2 ? code / 2 + 1 : 0\<close>, for a frequency
  converted to \<open>int\<close>.\<close>

definition band_code :: "int list \<Rightarrow> u32 \<Rightarrow> nat" where
  "band_code freqs freq = (let c = lower_bound freqs (sint freq) in if c mod 2 = 1 then c div 2 + 1 else 0)"

definition misc_word :: "'a radio_scheme \<Rightarrow> u16" where
  "misc_word s =
     (let code = (\<lambda>f. of_nat (band_code misc_freqs f) :: u16) in
      push_bit 8 (flag (code (freq0 s) \<noteq> code (freq1 s))) OR push_bit 4 (code (freq2 s)) OR code (freq1 s) OR
      push_bit 8 (misc_1 s AND 0x18) OR push_bit 6 (misc_0 s AND 0x18) OR
      push_bit 13 (misc_2 s AND 3))"

definition misc_write :: "'a radio_scheme \<Rightarrow> 'a radio_scheme" where
  "misc_write s = i2c_update misc_data (\<lambda>v. misc_data_update (\<lambda>_. v)) ADDR_MISC (addr_data16 2) (misc_word s) s"

definition nucleo_words :: "'a radio_scheme \<Rightarrow> u32 \<times> u32" where
  "nucleo_words s =
     (let code = (\<lambda>f. of_nat (band_code nucleo_freqs f) :: u32) in
      (push_bit 25 (nucleo_3 s) OR push_bit 20 (nucleo_2 s) OR push_bit 17 (nucleo_1 s) OR
         push_bit 1 (nucleo_0 s) OR flag (code (freq0 s) \<noteq> code (freq1 s)),
       push_bit 4 (code (freq2 s)) OR code (freq1 s)))"

definition nucleo_write :: "'a radio_scheme \<Rightarrow> 'a radio_scheme" where
  "nucleo_write s =
     i2c_update (\<lambda>s. (nucleo_lo s, nucleo_hi s)) (\<lambda>(lo, hi) s. s\<lparr>nucleo_lo := lo, nucleo_hi := hi\<rparr>)
       ADDR_NUCLEO (\<lambda>(lo, hi). data40 lo hi) (nucleo_words s) s"

section \<open>ICOM serial interface\<close>

definition icom_band_of :: "u32 \<Rightarrow> u8" where
  "icom_band_of freq =
     (if freq < 2000000 then 0x01 else if freq < 4000000 then 0x03 else if freq < 8000000 then 0x07
      else if freq < 11000000 then 0x10 else if freq < 15000000 then 0x14 else if freq < 20000000 then 0x18
      else if freq < 22000000 then 0x21 else if freq < 26000000 then 0x24 else 0x28)"

definition icom_message :: "u8 \<Rightarrow> u8 list" where
  "icom_message band =
     [0xfe, 0xfe, 0x04, 0xe0, 0x05, 0x00, 0x00,
      if band = 0x01 then 0x80 else if band = 0x03 then 0x50 else 0x00, band, 0xfd]"

definition icom_write :: "'a radio_scheme \<Rightarrow> 'a radio_scheme" where
  "icom_write s =
     (let band = icom_band_of (freq0 s) in
      if icom_band s \<noteq> band then
        let s = s\<lparr>icom_band := band\<rparr> in
        if uart_open s then emit (Uart (icom_message band)) s else s
      else s)"

section \<open>The filter relays\<close>





definition alex_manual :: "'a radio_scheme \<Rightarrow> bool" where
  "alex_manual s \<longleftrightarrow> bit (alex_1 s) 15"

definition alex_ptt :: "'a radio_scheme \<Rightarrow> bool" where
  "alex_ptt s \<longleftrightarrow> bit (alex_0 s) 0"















section \<open>What is latched\<close>

text \<open>The words a trace stored to the ALEX interface, the latest first; bit 16 addresses the receive
  latch and bit 17 the transmit latch.\<close>

fun alex_of :: "io \<Rightarrow> u32 option" where
  "alex_of (Port Alex w) = Some w"
| "alex_of e = None"

definition alex_port :: "nat \<Rightarrow> io list \<Rightarrow> u32 option" where
  "alex_port k es = find (\<lambda>w. bit w k) (List.map_filter alex_of (rev es))"

definition alex_latched :: "'a radio_scheme \<Rightarrow> bool" where
  "alex_latched s \<longleftrightarrow>
     (alex_rx s = 0 \<or> alex_port 16 (trace s) = Some (push_bit 16 1 OR ucast (alex_rx s))) \<and>
     (alex_tx s = 0 \<or> alex_port 17 (trace s) = Some (push_bit 17 1 OR ucast (alex_tx s)))"

lemma alex_port_emit [simp]:
  "alex_port k (es @ [Port Alex w]) = (if bit w k then Some w else alex_port k es)"
  "alex_of e = None \<Longrightarrow> alex_port k (es @ [e]) = alex_port k es"
  by (simp_all add: alex_port_def map_filter_simps)

lemma alex_words_nonzero: "alex_rx_word s \<noteq> 0" "alex_tx_word s \<noteq> 0"
proof -
  have "bit (alex_rx_word s) 0" "bit (alex_tx_word s) 3"
    unfolding alex_rx_word_def alex_tx_word_def Let_def bit_or_iff by (simp_all add: bit_push_bit_iff bit_1_iff)
  then show "alex_rx_word s \<noteq> 0" "alex_tx_word s \<noteq> 0"
    by auto
qed

lemma alex_tx_word_cong [simp]: "alex_tx_word (emit e s) = alex_tx_word s" "alex_tx_word (alex_rx_update f s) = alex_tx_word s"
  by (simp_all add: alex_tx_word_def alex_lpf_def emit_def Let_def)

lemma alex_emit:
  "alex_rx (emit e s) = alex_rx s" "alex_tx (emit e s) = alex_tx s" "has_codec (emit e s) = has_codec s"
  "alex_tx_update f (emit e s) = emit e (alex_tx_update f s)"
  by (simp_all add: emit_def)

text \<open>Unless a codec is connected, ALEX latches the words derived from the settings, whether they
  were sent now or remembered from before.\<close>

lemma alex_write_latched:
  assumes "alex_latched s" and "\<not> has_codec s"
  shows "alex_port 16 (trace (alex_write s)) = Some (push_bit 16 1 OR ucast (alex_rx_word s)) \<and>
    alex_port 17 (trace (alex_write s)) = Some (push_bit 17 1 OR ucast (alex_tx_word s)) \<and>
    alex_rx (alex_write s) = alex_rx_word s \<and> alex_tx (alex_write s) = alex_tx_word s"
  using assms alex_words_nonzero [of s]
  by (auto simp: alex_write_def alex_latch_def alex_latched_def Let_def bit_simps alex_emit)



text \<open>Receiving on 7.1 MHz and 14.2 MHz and transmitting on 14.2 MHz, the push-to-talk bit set.\<close>

definition hpsdr_on_air :: hpsdr where
  "hpsdr_on_air = (hpsdr_globals (\<lambda>_. 0))\<lparr>freq0 := 14200000, freq1 := 7100000, freq2 := 14200000, alex_0 := 1\<rparr>"

lemma hpsdr_on_air_facts [simp]:
  "alex_latched hpsdr_on_air" "\<not> has_codec hpsdr_on_air" "\<not> alex_manual hpsdr_on_air" "alex_ptt hpsdr_on_air"
  "freq0 hpsdr_on_air = 14200000" "freq1 hpsdr_on_air = 7100000" "freq2 hpsdr_on_air = 14200000"
  by (simp_all add: hpsdr_on_air_def hpsdr_globals_def alex_latched_def alex_manual_def alex_ptt_def bit_0)

lemma alex_write_latched_witness:
  "alex_port 16 (trace (alex_write hpsdr_on_air)) = Some (push_bit 16 1 OR ucast (alex_rx_word hpsdr_on_air))"
  using alex_write_latched [of hpsdr_on_air] by simp


section \<open>What the band codes say\<close>

lemma misc_freqs_sorted: "sorted misc_freqs" and nucleo_freqs_sorted: "sorted nucleo_freqs"
  by (simp_all add: misc_freqs_def nucleo_freqs_def)

lemma band_code_spec:
  assumes "sorted freqs" and "2 * k + 1 < length freqs"
  shows "band_code freqs f = k + 1 \<longleftrightarrow> freqs ! (2 * k) < sint f \<and> sint f \<le> freqs ! (2 * k + 1)"
proof -
  let ?c = "lower_bound freqs (sint f)"
  have "(if ?c mod 2 = 1 then ?c div 2 + 1 else 0) = k + 1 \<longleftrightarrow> ?c = 2 * k + 1"
    by (cases "?c mod 2 = 1") arith+
  then have "band_code freqs f = k + 1 \<longleftrightarrow> ?c = 2 * k + 1"
    by (simp only: band_code_def Let_def)
  also have "\<dots> \<longleftrightarrow> freqs ! (2 * k) < sint f \<and> sint f \<le> freqs ! (2 * k + 1)"
  proof
    assume c: "?c = 2 * k + 1"
    show "freqs ! (2 * k) < sint f \<and> sint f \<le> freqs ! (2 * k + 1)"
      using lb.below [OF assms(1)] lb.above [OF assms(1)] assms(2) by (simp add: c)
  next
    assume "freqs ! (2 * k) < sint f \<and> sint f \<le> freqs ! (2 * k + 1)"
    then show "?c = 2 * k + 1"
      using assms(2) by (intro lb.search_eqI [OF assms(1)]) simp_all
  qed
  finally show ?thesis .
qed

lemma odd_half_less: "(c :: nat) mod 2 = 1 \<Longrightarrow> c \<le> 2 * m \<Longrightarrow> c div 2 + 1 \<le> m"
  by arith

lemma band_code_le: "length freqs = 2 * m \<Longrightarrow> band_code freqs f \<le> m"
  using lb.search_le [of freqs "sint f"] odd_half_less [of "lower_bound freqs (sint f)" m]
  by (simp add: band_code_def Let_def)

lemma band_code_bounds: "band_code misc_freqs f \<le> 10" "band_code nucleo_freqs f \<le> 11"
  using band_code_le [of misc_freqs 10 f] band_code_le [of nucleo_freqs 11 f]
  by (simp_all add: misc_freqs_def nucleo_freqs_def)

text \<open>The band code of a frequency is \<open>k + 1\<close> exactly when the frequency lies in the \<open>k\<close>-th band of
  the table, whose limits are the table's entries \<open>2 k\<close> and \<open>2 k + 1\<close>, and 0 outside all bands.\<close>

lemma band_codes:
  "(\<forall>k<10. band_code misc_freqs f = k + 1 \<longleftrightarrow>
      misc_freqs ! (2 * k) < sint f \<and> sint f \<le> misc_freqs ! (2 * k + 1)) \<and>
   (\<forall>k<11. band_code nucleo_freqs f = k + 1 \<longleftrightarrow>
      nucleo_freqs ! (2 * k) < sint f \<and> sint f \<le> nucleo_freqs ! (2 * k + 1)) \<and>
   band_code misc_freqs f \<le> 10 \<and> band_code nucleo_freqs f \<le> 11"
proof (intro conjI allI impI band_code_bounds)
  fix k :: nat
  show "band_code misc_freqs f = k + 1 \<longleftrightarrow> misc_freqs ! (2 * k) < sint f \<and> sint f \<le> misc_freqs ! (2 * k + 1)"
    if "k < 10"
    using that by (intro band_code_spec misc_freqs_sorted) (simp add: misc_freqs_def)
  show "band_code nucleo_freqs f = k + 1 \<longleftrightarrow> nucleo_freqs ! (2 * k) < sint f \<and> sint f \<le> nucleo_freqs ! (2 * k + 1)"
    if "k < 11"
    using that by (intro band_code_spec nucleo_freqs_sorted) (simp add: nucleo_freqs_def)
qed

lemma band_codes_witness: "band_code misc_freqs 7100000 = 3 \<and> band_code nucleo_freqs 5300000 = 3"
  using band_codes [of 7100000] band_codes [of 5300000]
  by (elim conjE allE [where x = 2]) (simp add: misc_freqs_def nucleo_freqs_def)

text \<open>The settings packed into the five bytes for the NUCLEO board, as they are kept by the server.\<close>

definition nucleo_ok :: "'a radio_scheme \<Rightarrow> bool" where
  "nucleo_ok s \<longleftrightarrow> nucleo_0 s < 2 ^ 16 \<and> nucleo_1 s < 2 ^ 3 \<and> nucleo_2 s < 2 ^ 5 \<and> nucleo_3 s < 2 ^ 5"

lemma less_pow_bit:
  assumes "(w :: u32) < 2 ^ k" and "k \<le> n" and "k < 32"
  shows "\<not> bit w n"
proof -
  have "unat ((2 :: u32) ^ k) = 2 ^ k"
    using unat_of_nat [of "2 ^ k", where 'a = 32] power_strict_increasing [of k 32 "2 :: nat"] assms(3) by simp
  then have "unat w < 2 ^ k"
    using assms(1) by (simp add: word_less_nat_alt)
  then show ?thesis
    using assms(2) take_bit_nat_eq_self [of "unat w" k] bit_take_bit_iff [of k "unat w" n]
    by (simp add: bit_unsigned_iff)
qed

lemma code_bits: "bit (band_code nucleo_freqs f) n \<Longrightarrow> n < 4"
  using band_code_bounds(2) [of f] take_bit_nat_eq_self [of "band_code nucleo_freqs f" 4]
    bit_take_bit_iff [of 4 "band_code nucleo_freqs f" n] by simp

text \<open>Each setting can be read back from its own bits of the two words, and the bytes of the
  second word beyond its first, which are not sent, are zero.\<close>

lemma nucleo_fields:
  assumes "nucleo_ok s" and "nucleo_words s = (lo, hi)"
  shows "drop_bit 25 lo = nucleo_3 s \<and> take_bit 5 (drop_bit 20 lo) = nucleo_2 s \<and>
    take_bit 3 (drop_bit 17 lo) = nucleo_1 s \<and> take_bit 16 (drop_bit 1 lo) = nucleo_0 s \<and>
    (bit lo 0 \<longleftrightarrow> band_code nucleo_freqs (freq0 s) \<noteq> band_code nucleo_freqs (freq1 s)) \<and>
    take_bit 4 hi = of_nat (band_code nucleo_freqs (freq1 s)) \<and>
    drop_bit 4 hi = of_nat (band_code nucleo_freqs (freq2 s)) \<and> take_bit 8 hi = hi"
proof -
  have bits: "bit (nucleo_0 s) n \<Longrightarrow> n < 16" "bit (nucleo_1 s) n \<Longrightarrow> n < 3" "bit (nucleo_2 s) n \<Longrightarrow> n < 5"
      "bit (nucleo_3 s) n \<Longrightarrow> n < 5" for n
    using assms(1) less_pow_bit [of "nucleo_0 s" 16 n] less_pow_bit [of "nucleo_1 s" 3 n]
      less_pow_bit [of "nucleo_2 s" 5 n] less_pow_bit [of "nucleo_3 s" 5 n]
    by (auto simp: nucleo_ok_def not_less [symmetric])
  have double: "bit (w * 2) n \<longleftrightarrow> 0 < n \<and> n < 32 \<and> bit w (n - 1)" for w :: u32 and n
    using bit_push_bit_iff [of 1 w n] by (auto simp: mult.commute)
  let ?c = "\<lambda>f. of_nat (band_code nucleo_freqs f) :: u32"
  have inj: "?c f = ?c g \<longleftrightarrow> band_code nucleo_freqs f = band_code nucleo_freqs g" for f g
    using band_code_bounds(2) [of f] band_code_bounds(2) [of g]
    by (auto dest!: arg_cong [where f = unat] simp: unat_of_nat)
  have lo: "lo = push_bit 25 (nucleo_3 s) OR push_bit 20 (nucleo_2 s) OR push_bit 17 (nucleo_1 s) OR
      push_bit 1 (nucleo_0 s) OR flag (?c (freq0 s) \<noteq> ?c (freq1 s))"
    and hi: "hi = push_bit 4 (?c (freq2 s)) OR ?c (freq1 s)"
    using assms(2) by (simp_all add: nucleo_words_def Let_def)
  show ?thesis
    by (intro conjI; (rule bit_word_eqI)?) (auto simp: lo hi bit_simps double inj dest: bits code_bits)
qed

lemma nucleo_fields_witness:
  "drop_bit 25 (fst (nucleo_words (hpsdr_on_air\<lparr>nucleo_0 := 0x8001, nucleo_3 := 0x1f\<rparr>))) = (0x1f :: u32)"
  using nucleo_fields [of "hpsdr_on_air\<lparr>nucleo_0 := 0x8001, nucleo_3 := 0x1f\<rparr>", OF _ prod.collapse [symmetric]]
  by (simp add: nucleo_ok_def hpsdr_on_air_def hpsdr_globals_def)

end
