(* ===== verification/Hpsdr_ep2.thy ===== *)
theory Hpsdr_ep2
  imports Hpsdr_filters
begin

unbundle bit_operations_syntax

text \<open>
  \<open>process_ep2\<close> of \<open>sdr-transceiver-hpsdr.c\<close>: the commands a host sends in the five control bytes of
  every 512-byte frame. The first byte selects the case; its lowest bit is push-to-talk. There is
  one definition per case, with the parts that concern one device split off.
\<close>

abbreviation upd :: "(('v \<Rightarrow> 'v) \<Rightarrow> 's \<Rightarrow> 's) \<Rightarrow> 'v \<Rightarrow> 's \<Rightarrow> 's" where
  "upd f v \<equiv> f (\<lambda>_. v)"

text \<open>\<open>if(x != data) { x = data; x_update = 1; }\<close>\<close>

definition note_change :: "('s \<Rightarrow> 'v) \<Rightarrow> ('v \<Rightarrow> 's \<Rightarrow> 's) \<Rightarrow> ('s \<Rightarrow> 's) \<Rightarrow> 'v \<Rightarrow> 's \<Rightarrow> 's" where
  "note_change get put mark v s = (if get s \<noteq> v then mark (put v s) else s)"

abbreviation mark_alex :: "hpsdr \<Rightarrow> hpsdr" where "mark_alex \<equiv> alex_update_update (\<lambda>_. True)"
abbreviation mark_misc :: "hpsdr \<Rightarrow> hpsdr" where "mark_misc \<equiv> misc_update_update (\<lambda>_. True)"
abbreviation mark_nucleo :: "hpsdr \<Rightarrow> hpsdr" where "mark_nucleo \<equiv> nucleo_update_update (\<lambda>_. True)"

section \<open>Cases 0 and 1: general settings\<close>

text \<open>\<open>*lo_rst &= ~3; *lo_rst |= 3;\<close>\<close>

definition reset_rx_los :: "hpsdr \<Rightarrow> hpsdr" where
  "reset_rx_los s = set8 lo_rst 3 (clear8 lo_rst 3 s)"

definition ep2_sync :: "u8 list \<Rightarrow> hpsdr \<Rightarrow> hpsdr" where
  "ep2_sync frame s =
     (let s = s\<lparr>receivers := (drop_bit 3 (frame ! 4) AND 7) + 1\<rparr>;
          data = ucast (drop_bit 7 (frame ! 4) AND 1) :: u16;
          s = (if rx_sync_data s \<noteq> data
               then let s = s\<lparr>rx_sync_data := data\<rparr> in
                 if data \<noteq> 0 then reset_rx_los (wr32 rx_freq1 (rd32 rx_freq0 s) s) else s
               else s)
      in s\<lparr>tx_eer_data := frame ! 2 AND 1\<rparr>)"

definition ep2_pins :: "u8 list \<Rightarrow> hpsdr \<Rightarrow> hpsdr" where
  "ep2_pins frame s =
     (let ptt = frame ! 0 AND 1; att = frame ! 3 AND 3;
          preamp = (if ptt OR (gpio_in s AND 1) \<noteq> 0 then 0
                    else drop_bit 2 (frame ! 3 AND 4) OR flag (rx_att_data s = 0))
      in wr8 gpio_out (push_bit 3 (frame ! 2 AND 0x1e) OR push_bit 2 att OR push_bit 1 preamp OR ptt) s)"

definition ep2_rate :: "board \<Rightarrow> u8 list \<Rightarrow> hpsdr \<Rightarrow> hpsdr" where
  "ep2_rate b frame s =
     (let code = frame ! 1 AND 3; s = s\<lparr>ep_rate := code\<rparr>
      in wr16 rx_rate (rates b ! unat code) s)"

definition ep2_alex0 :: "u8 list \<Rightarrow> hpsdr \<Rightarrow> hpsdr" where
  "ep2_alex0 frame s =
     note_change alex_0 (upd alex_0_update) mark_alex
       (push_bit 8 (ucast (frame ! 4 AND 3)) OR ucast (frame ! 3 AND 0xe0) OR
        push_bit 1 (ucast (frame ! 3 AND 3)) OR ucast (frame ! 0 AND 1)) s"

definition ep2_pene :: "u8 list \<Rightarrow> hpsdr \<Rightarrow> hpsdr" where
  "ep2_pene frame s =
     (if has_pene s then
        i2c_update pene_data (upd pene_data_update) ADDR_PENE (addr_data16 2)
          (push_bit 11 (ucast (frame ! 3 AND 0x1c)) OR push_bit 11 (ucast (frame ! 4 AND 3)) OR
           push_bit 4 (ucast (frame ! 3 AND 0x60)) OR push_bit 7 (ucast (frame ! 3 AND 3)) OR
           ucast (drop_bit 1 (frame ! 2))) s
      else s)"

text \<open>\<open>data\<close> is a \<open>uint16_t\<close>.\<close>

definition ep2_nucleo0 :: "u8 list \<Rightarrow> hpsdr \<Rightarrow> hpsdr" where
  "ep2_nucleo0 frame s =
     (if has_nucleo s then
        let tx = frame ! 4 AND 3; rx = drop_bit 5 (frame ! 3) AND 3;
            data = push_bit 15 (flag (tx = 2)) OR push_bit 14 (flag (tx = 1)) OR push_bit 13 (flag (tx = 0)) OR
              push_bit 12 (flag (rx = 3)) OR push_bit 11 (flag (rx = 2)) OR push_bit 10 (flag (rx = 1)) OR
              push_bit 5 (ucast (frame ! 3 AND 0x18)) OR ucast (frame ! 2 AND 0xfe) OR
              ucast (frame ! 0 AND 1) :: u16
        in note_change nucleo_0 (upd nucleo_0_update) mark_nucleo (ucast data) s
      else s)"

definition dac0_word :: "u8 \<Rightarrow> u8 \<Rightarrow> u16" where
  "dac0_word rx_att att =
     (let data = ucast rx_att + 10 * ucast att :: u16
      in ucast (4065 - (ucast data * 4095) div 61 :: u32))"

definition ep2_dac0 :: "u8 list \<Rightarrow> hpsdr \<Rightarrow> hpsdr" where
  "ep2_dac0 frame s =
     (if has_dac0 s then
        i2c_update dac0_data (upd dac0_data_update) ADDR_DAC0 data16
          (dac0_word (rx_att_data s) (frame ! 3 AND 3)) s
      else s)"

definition ocant_word :: "u8 list \<Rightarrow> u32 \<Rightarrow> u32" where
  "ocant_word frame old =
     (if frame ! 0 AND 1 \<noteq> 0 then
        (old AND 0x00fc7f00) OR ucast (drop_bit 1 (frame ! 2)) OR push_bit 16 (ucast (frame ! 4 AND 3))
      else
        let aux = drop_bit 5 (frame ! 3 AND 0x60)
        in (old AND 0x0003007f) OR push_bit 7 (ucast (frame ! 2)) OR
           push_bit 20 (ucast (if aux = 0 then frame ! 4 AND 3 else (aux + 2) AND 7)))"

definition ep2_ocant :: "u8 list \<Rightarrow> hpsdr \<Rightarrow> hpsdr" where
  "ep2_ocant frame s =
     (if has_arduino s then
        i2c_update ard_ocant (upd ard_ocant_update) ADDR_ARDUINO (addr_data24 4) (ocant_word frame (ard_ocant s)) s
      else s)"

definition ep2_general :: "board \<Rightarrow> u8 list \<Rightarrow> hpsdr \<Rightarrow> hpsdr" where
  "ep2_general b frame s =
     ep2_ocant frame (ep2_dac0 frame (ep2_nucleo0 frame (ep2_pene frame (ep2_alex0 frame
       (ep2_rate b frame (ep2_pins frame (ep2_sync frame s)))))))"

section \<open>Cases 2 to 9: frequencies\<close>

text \<open>\<open>freq_min\<close> is 0, so only the upper limit can exclude a frequency.\<close>

definition freq_min :: u32 where "freq_min = 0"
definition freq_max :: u32 where "freq_max = 61440000"

definition frame_freq :: "u8 list \<Rightarrow> u32" where
  "frame_freq frame = be32_at frame 1"

definition freq_ok :: "u32 \<Rightarrow> bool" where
  "freq_ok freq \<longleftrightarrow> \<not> (freq < freq_min \<or> freq > freq_max)"

definition increment :: "board \<Rightarrow> u32 \<Rightarrow> u32" where
  "increment b freq = phase_inc (clk b) (unat freq)"

text \<open>The outputs that depend on a frequency are brought up to date by \<open>main\<close>; the Arduino is told at once.\<close>

definition freq_changed :: "hpsdr \<Rightarrow> hpsdr" where
  "freq_changed s =
     (let s = mark_alex s; s = (if has_misc s then mark_misc s else s)
      in if has_nucleo s then mark_nucleo s else s)"

definition tell_arduino :: "(hpsdr \<Rightarrow> u16) \<Rightarrow> (u16 \<Rightarrow> hpsdr \<Rightarrow> hpsdr) \<Rightarrow> u8 \<Rightarrow> u32 \<Rightarrow> hpsdr \<Rightarrow> hpsdr" where
  "tell_arduino get put reg freq s =
     (if has_arduino s then i2c_update get put ADDR_ARDUINO (addr_data16 reg) (ucast (freq div 1000)) s else s)"

definition ep2_tx_freq :: "board \<Rightarrow> u8 list \<Rightarrow> hpsdr \<Rightarrow> hpsdr" where
  "ep2_tx_freq b frame s =
     (let freq = frame_freq frame in
      if \<not> freq_ok freq then s
      else
        let s = wr32 tx_freq (increment b freq) s
        in if freq0 s \<noteq> freq then
             let s = icom_write (s\<lparr>freq0 := freq\<rparr>)
             in tell_arduino ard_ftx (upd ard_ftx_update) 3 freq (freq_changed s)
           else s)"

definition ep2_rx0_freq :: "board \<Rightarrow> u8 list \<Rightarrow> hpsdr \<Rightarrow> hpsdr" where
  "ep2_rx0_freq b frame s =
     (let freq = frame_freq frame in
      if \<not> freq_ok freq then s
      else
        let s = wr32 rx_freq0 (increment b freq) s;
            s = (if rx_sync_data s \<noteq> 0 then wr32 rx_freq1 (rd32 rx_freq0 s) s else s)
        in if freq1 s \<noteq> freq then
             let s = s\<lparr>freq1 := freq\<rparr>;
                 s = (if rx_sync_data s \<noteq> 0 then reset_rx_los s else s)
             in tell_arduino ard_frx1 (upd ard_frx1_update) 1 freq (freq_changed s)
           else s)"

text \<open>The band of the second receiver, taken from receiver 1 or, for \<open>THETIS\<close>, from receiver 2.\<close>

definition ep2_second_band :: "u32 \<Rightarrow> hpsdr \<Rightarrow> hpsdr" where
  "ep2_second_band freq s =
     (if freq2 s \<noteq> freq
      then tell_arduino ard_frx2 (upd ard_frx2_update) 2 freq (freq_changed (s\<lparr>freq2 := freq\<rparr>))
      else s)"

definition ep2_rx1_freq :: "board \<Rightarrow> u8 list \<Rightarrow> hpsdr \<Rightarrow> hpsdr" where
  "ep2_rx1_freq b frame s =
     (if rx_sync_data s \<noteq> 0 then s
      else
        let freq = frame_freq frame in
        if \<not> freq_ok freq then s
        else
          let s = wr32 rx_freq1 (increment b freq) s
          in if thetis b then s else ep2_second_band freq s)"

definition ep2_rx2_freq :: "board \<Rightarrow> u8 list \<Rightarrow> hpsdr \<Rightarrow> hpsdr" where
  "ep2_rx2_freq b frame s =
     (let freq = frame_freq frame in
      if \<not> freq_ok freq then s
      else
        let s = wr32 rx_freq2 (increment b freq) s
        in if thetis b then ep2_second_band freq s else s)"

section \<open>Cases 18 and 19: filters, drive level\<close>

definition ep2_alex1 :: "u8 list \<Rightarrow> hpsdr \<Rightarrow> hpsdr" where
  "ep2_alex1 frame s =
     note_change alex_1 (upd alex_1_update) mark_alex
       (push_bit 9 (ucast (frame ! 2 AND 0x40)) OR push_bit 8 (ucast (frame ! 4)) OR ucast (frame ! 3)) s"

definition ep2_misc2 :: "u8 list \<Rightarrow> hpsdr \<Rightarrow> hpsdr" where
  "ep2_misc2 frame s =
     (if has_misc s then
        note_change misc_2 (upd misc_2_update) mark_misc
          (ucast (drop_bit 6 (frame ! 3 AND 0x80) OR drop_bit 5 (frame ! 3 AND 0x20))) s
      else s)"

definition ep2_nucleo1 :: "u8 list \<Rightarrow> hpsdr \<Rightarrow> hpsdr" where
  "ep2_nucleo1 frame s =
     (if has_nucleo s then
        note_change nucleo_1 (upd nucleo_1_update) mark_nucleo (ucast (drop_bit 5 (frame ! 3 AND 0xe0))) s
      else s)"

definition ep2_alex_port :: "u8 list \<Rightarrow> hpsdr \<Rightarrow> hpsdr" where
  "ep2_alex_port frame s =
     (if has_alex s then
        i2c_update alex_port_data (upd alex_port_data_update) ADDR_ALEX (addr_data16 2)
          (push_bit 8 (ucast (frame ! 4)) OR ucast (frame ! 3)) s
      else s)"

definition txatt_word :: "u8 list \<Rightarrow> u8 \<Rightarrow> u32 \<Rightarrow> u32" where
  "txatt_word frame att old = (old AND 0x00001f00) OR ucast att OR push_bit 10 (ucast (frame ! 3 AND 0xc0))"

definition tx_level_value :: "board \<Rightarrow> u16 \<Rightarrow> u16" where
  "tx_level_value b data = word_of_int \<lfloor>dadd (dmul (of_nat (unat data)) (drive_factor b)) (1 / 2)\<rfloor>"

text \<open>The drive level goes to the first of four outputs that is there.\<close>

definition ep2_level :: "board \<Rightarrow> u8 list \<Rightarrow> hpsdr \<Rightarrow> hpsdr" where
  "ep2_level b frame s =
     (let data = ucast (frame ! 1) :: u16 in
      if has_level s then
        i2c_update level_data (upd level_data_update) ADDR_LEVEL (addr_data16 2) data s
      else if has_drive s then
        i2c_update drive_data (upd drive_data_update) ADDR_DRIVE (\<lambda>d. addr_data16 0xa9 (push_bit 8 d OR d)) data s
      else if has_arduino s then
        i2c_update ard_txatt (upd ard_txatt_update) ADDR_ARDUINO (addr_data24 5)
          (txatt_word frame (log_table s ! unat data) (ard_txatt s)) s
      else wr16 tx_level (tx_level_value b data) s)"

definition ep2_boost :: "u8 list \<Rightarrow> hpsdr \<Rightarrow> hpsdr" where
  "ep2_boost frame s =
     (if has_codec s then
        i2c_update boost_data (upd boost_data_update) ADDR_CODEC (\<lambda>v. addr_data8 8 (0x14 + v)) (frame ! 2 AND 1) s
      else s)"

definition ep2_filters :: "board \<Rightarrow> u8 list \<Rightarrow> hpsdr \<Rightarrow> hpsdr" where
  "ep2_filters b frame s =
     ep2_boost frame (ep2_level b frame (ep2_alex_port frame (ep2_nucleo1 frame (ep2_misc2 frame (ep2_alex1 frame s)))))"

section \<open>Cases 20 to 23 and 28 and 29: attenuators and keyer settings\<close>

definition ep2_rx1_att :: "u8 list \<Rightarrow> hpsdr \<Rightarrow> hpsdr" where
  "ep2_rx1_att frame s =
     (let att = frame ! 4 AND 0x1f; s = s\<lparr>rx_att_data := att\<rparr>;
          s = (if has_misc s then note_change misc_0 (upd misc_0_update) mark_misc (ucast att) s else s);
          s = (if has_nucleo s then note_change nucleo_2 (upd nucleo_2_update) mark_nucleo (ucast att) s else s)
      in if has_arduino s then
           i2c_update ard_rxatt (upd ard_rxatt_update) ADDR_ARDUINO (addr_data16 6)
             ((ard_rxatt s AND 0x1f00) OR ucast att) s
         else s)"

definition ep2_rx2_att :: "u8 list \<Rightarrow> hpsdr \<Rightarrow> hpsdr" where
  "ep2_rx2_att frame s =
     (let att = frame ! 1 AND 0x1f;
          s = (if has_misc s then note_change misc_1 (upd misc_1_update) mark_misc (ucast att) s else s);
          s = (if has_nucleo s then note_change nucleo_3 (upd nucleo_3_update) mark_nucleo (ucast att) s else s);
          s = s\<lparr>cw_reversed := drop_bit 6 (frame ! 2) AND 1, cw_speed := frame ! 3 AND 63,
                cw_mode := drop_bit 6 (frame ! 3) AND 3, cw_weight := frame ! 4 AND 127,
                cw_spacing := drop_bit 7 (frame ! 4) AND 1\<rparr>
      in if has_arduino s then
           i2c_update ard_rxatt (upd ard_rxatt_update) ADDR_ARDUINO (addr_data16 6)
             ((ard_rxatt s AND 0x1f) OR push_bit 8 (ucast att)) s
         else s)"

definition ep2_tx_rx_att :: "u8 list \<Rightarrow> hpsdr \<Rightarrow> hpsdr" where
  "ep2_tx_rx_att frame s =
     (if has_arduino s then
        i2c_update ard_txatt (upd ard_txatt_update) ADDR_ARDUINO (addr_data24 5)
          ((ard_txatt s AND 0x0003003f) OR push_bit 8 (ucast (frame ! 3 AND 0x1f))) s
      else s)"

section \<open>Cases 30 to 33: keyer and sidetone\<close>

definition ep2_keyer :: "u8 list \<Rightarrow> hpsdr \<Rightarrow> hpsdr" where
  "ep2_keyer frame s =
     (let s = s\<lparr>cw_int_data := frame ! 1 AND 1, dac_level_data := frame ! 2, cw_delay := frame ! 3\<rparr>
      in if has_codec s then wr16 dac_level (ucast (frame ! 2) * 64) s else s)"

definition sidetone_increment :: "u32 \<Rightarrow> u32" where
  "sidetone_increment freq = phase_inc 48000 (unat freq)"

definition ep2_hang :: "u8 list \<Rightarrow> hpsdr \<Rightarrow> hpsdr" where
  "ep2_hang frame s =
     (let s = s\<lparr>cw_hang := push_bit 2 (ucast (frame ! 1)) OR ucast (frame ! 2 AND 3)\<rparr>
      in if has_codec s then
           wr32 dac_freq (sidetone_increment (push_bit 4 (ucast (frame ! 3)) OR ucast (frame ! 4))) s
         else s)"

definition process_ep2 :: "board \<Rightarrow> u8 list \<Rightarrow> hpsdr \<Rightarrow> hpsdr" where
  "process_ep2 b frame s =
     (let c = frame ! 0 in
      if c = 0 \<or> c = 1 then ep2_general b frame s
      else if c = 2 \<or> c = 3 then ep2_tx_freq b frame s
      else if c = 4 \<or> c = 5 then ep2_rx0_freq b frame s
      else if c = 6 \<or> c = 7 then ep2_rx1_freq b frame s
      else if c = 8 \<or> c = 9 then ep2_rx2_freq b frame s
      else if c = 18 \<or> c = 19 then ep2_filters b frame s
      else if c = 20 \<or> c = 21 then ep2_rx1_att frame s
      else if c = 22 \<or> c = 23 then ep2_rx2_att frame s
      else if c = 28 \<or> c = 29 then ep2_tx_rx_att frame s
      else if c = 30 \<or> c = 31 then ep2_keyer frame s
      else if c = 32 \<or> c = 33 then ep2_hang frame s
      else s)"

named_theorems ep2_defs "the parts of the frame handler"

lemmas [ep2_defs] = ep2_sync_def ep2_pins_def ep2_rate_def ep2_alex0_def ep2_pene_def ep2_nucleo0_def
  ep2_dac0_def ep2_ocant_def ep2_general_def ep2_tx_freq_def ep2_rx0_freq_def ep2_rx1_freq_def
  ep2_rx2_freq_def ep2_second_band_def ep2_alex1_def ep2_misc2_def ep2_nucleo1_def ep2_alex_port_def
  ep2_level_def ep2_boost_def ep2_filters_def ep2_rx1_att_def ep2_rx2_att_def ep2_tx_rx_att_def
  ep2_keyer_def ep2_hang_def note_change_def reset_rx_los_def freq_changed_def tell_arduino_def

end
