(* ===== verification/Hpsdr_invariants.thy ===== *)
theory Hpsdr_invariants
  imports Hpsdr_ep2
begin

unbundle bit_operations_syntax

text \<open>
  What every command of \<open>process_ep2\<close> keeps: the remembered I2C values agree with the devices, the
  settings stay in their ranges, synchronised receivers share their phase increment; and what the
  frequency commands load into the oscillators.
\<close>

section \<open>Remembered values stay true\<close>

text \<open>Everything the remembered values and their devices depend on.\<close>

lemma tracks_fields [simp]:
  "i2c_tracks (s\<lparr>receivers := x1\<rparr>) = i2c_tracks s" "i2c_tracks (s\<lparr>rx_sync_data := x2\<rparr>) = i2c_tracks s"
  "i2c_tracks (s\<lparr>tx_eer_data := x3\<rparr>) = i2c_tracks s" "i2c_tracks (s\<lparr>ep_rate := x4\<rparr>) = i2c_tracks s"
  "i2c_tracks (s\<lparr>freq0 := x5\<rparr>) = i2c_tracks s" "i2c_tracks (s\<lparr>freq1 := x5\<rparr>) = i2c_tracks s"
  "i2c_tracks (s\<lparr>freq2 := x5\<rparr>) = i2c_tracks s" "i2c_tracks (s\<lparr>rx_att_data := x6\<rparr>) = i2c_tracks s"
  "i2c_tracks (alex_0_update f s) = i2c_tracks s" "i2c_tracks (alex_1_update f s) = i2c_tracks s"
  "i2c_tracks (misc_0_update f s) = i2c_tracks s" "i2c_tracks (misc_1_update f s) = i2c_tracks s"
  "i2c_tracks (misc_2_update f s) = i2c_tracks s" "i2c_tracks (nucleo_0_update g s) = i2c_tracks s"
  "i2c_tracks (nucleo_1_update g s) = i2c_tracks s" "i2c_tracks (nucleo_2_update g s) = i2c_tracks s"
  "i2c_tracks (nucleo_3_update g s) = i2c_tracks s" "i2c_tracks (alex_update_update h s) = i2c_tracks s"
  "i2c_tracks (misc_update_update h s) = i2c_tracks s" "i2c_tracks (nucleo_update_update h s) = i2c_tracks s"
  by (simp_all add: i2c_tracks_def tracks_defs)

lemma tracks_keyer_fields [simp]:
  fixes s :: hpsdr
  shows "i2c_tracks (s\<lparr>icom_band := x\<rparr>) = i2c_tracks s" "i2c_tracks (s\<lparr>dac_level_data := x\<rparr>) = i2c_tracks s"
    "i2c_tracks (s\<lparr>cw_int_data := x\<rparr>) = i2c_tracks s" "i2c_tracks (s\<lparr>cw_reversed := x\<rparr>) = i2c_tracks s"
    "i2c_tracks (s\<lparr>cw_speed := x\<rparr>) = i2c_tracks s" "i2c_tracks (s\<lparr>cw_mode := x\<rparr>) = i2c_tracks s"
    "i2c_tracks (s\<lparr>cw_weight := x\<rparr>) = i2c_tracks s" "i2c_tracks (s\<lparr>cw_spacing := x\<rparr>) = i2c_tracks s"
    "i2c_tracks (s\<lparr>cw_delay := x\<rparr>) = i2c_tracks s" "i2c_tracks (s\<lparr>cw_hang := y\<rparr>) = i2c_tracks s"
  by (simp_all add: i2c_tracks_def tracks_defs)

lemma tracks_store [simp]: "i2c_tracks (store off bs s) = i2c_tracks s"
  by (simp add: i2c_tracks_def tracks_defs store_def)

lemma tracks_wr [simp]:
  "i2c_tracks (wr8 off v8 s) = i2c_tracks s" "i2c_tracks (wr16 off v16 s) = i2c_tracks s"
  "i2c_tracks (wr32 off v32 s) = i2c_tracks s"
  by (simp_all add: wr_defs)

lemma tracks_no_i2c [simp]:
  "i2c_tracks (emit (Uart bs) s) = i2c_tracks s" "i2c_tracks (emit (Port p w) s) = i2c_tracks s"
  "i2c_tracks (emit (Sleep n) s) = i2c_tracks s" "i2c_tracks (emit (Send bs) s) = i2c_tracks s"
  by (simp_all add: i2c_tracks_def tracks_defs emit_def)

lemmas get_send [simp] = pene.get_send alex.get_send level.get_send misc.get_send drive.get_send dac0.get_send
  nucleo.get_send frx1.get_send frx2.get_send ftx.get_send ocant.get_send txatt.get_send rxatt.get_send boost.get_send

lemma nucleo_send [simp]: "nucleo_lo (i2c_send a bs s) = nucleo_lo s" "nucleo_hi (i2c_send a bs s) = nucleo_hi s"
  by (simp_all add: i2c_send_def emit_def)

text \<open>A write to one device, preceded by its remembered value, leaves the others alone.\<close>

lemma tracks_update:
  assumes "i2c_tracks s"
  shows
    "i2c_tracks (i2c_update pene_data (upd pene_data_update) ADDR_PENE (addr_data16 2) v_pene s)"
    "i2c_tracks (i2c_update alex_port_data (upd alex_port_data_update) ADDR_ALEX (addr_data16 2) v_alex s)"
    "i2c_tracks (i2c_update level_data (upd level_data_update) ADDR_LEVEL (addr_data16 2) v_level s)"
    "i2c_tracks (i2c_update misc_data (upd misc_data_update) ADDR_MISC (addr_data16 2) v_misc s)"
    "i2c_tracks (i2c_update drive_data (upd drive_data_update) ADDR_DRIVE (\<lambda>d. addr_data16 0xa9 (push_bit 8 d OR d)) v_drive s)"
    "i2c_tracks (i2c_update dac0_data (upd dac0_data_update) ADDR_DAC0 data16 v_dac0 s)"
    "i2c_tracks (i2c_update ard_frx1 (upd ard_frx1_update) ADDR_ARDUINO (addr_data16 1) v_frx1 s)"
    "i2c_tracks (i2c_update ard_frx2 (upd ard_frx2_update) ADDR_ARDUINO (addr_data16 2) v_frx2 s)"
    "i2c_tracks (i2c_update ard_ftx (upd ard_ftx_update) ADDR_ARDUINO (addr_data16 3) v_ftx s)"
    "i2c_tracks (i2c_update ard_ocant (upd ard_ocant_update) ADDR_ARDUINO (addr_data24 4) v_ocant s)"
    "i2c_tracks (i2c_update ard_txatt (upd ard_txatt_update) ADDR_ARDUINO (addr_data24 5) v_txatt s)"
    "i2c_tracks (i2c_update ard_rxatt (upd ard_rxatt_update) ADDR_ARDUINO (addr_data16 6) v_rxatt s)"
    "i2c_tracks (i2c_update boost_data (upd boost_data_update) ADDR_CODEC (\<lambda>v. addr_data8 8 (0x14 + v)) v_boost s)"
    "i2c_tracks (i2c_update (\<lambda>s. (nucleo_lo s, nucleo_hi s)) (\<lambda>(lo, hi) s. s\<lparr>nucleo_lo := lo, nucleo_hi := hi\<rparr>)
       ADDR_NUCLEO (\<lambda>(lo, hi). data40 lo hi) v_nucleo s)"
  using assms unfolding i2c_tracks_def tracks_defs i2c_update_def
  by (simp_all add: i2c_addresses addr_data16_def addr_data24_def addr_data8_def split: prod.split) ((rule impI, simp)+)


interpretation t8: undisturbed "wr8 off" "i2c_tracks :: hpsdr \<Rightarrow> bool" for off by unfold_locales simp

lemma tracks_parts:
  assumes "i2c_tracks s"
  shows "i2c_tracks (reset_rx_los s)" "i2c_tracks (freq_changed s)" "i2c_tracks (icom_write s)"
    "i2c_tracks (ep2_pene frame s)" "i2c_tracks (ep2_dac0 frame s)" "i2c_tracks (ep2_ocant frame s)"
    "i2c_tracks (ep2_alex_port frame s)" "i2c_tracks (ep2_level b frame s)" "i2c_tracks (ep2_boost frame s)"
    "i2c_tracks (ep2_tx_rx_att frame s)"
    "i2c_tracks (tell_arduino ard_ftx (upd ard_ftx_update) 3 freq s)"
    "i2c_tracks (tell_arduino ard_frx1 (upd ard_frx1_update) 1 freq s)"
    "i2c_tracks (tell_arduino ard_frx2 (upd ard_frx2_update) 2 freq s)"
  using assms
  by (simp_all add: ep2_defs icom_write_def Let_def t8.obs_clear t8.obs_set tracks_update)

lemma tracks_settings:
  assumes "i2c_tracks s"
  shows "i2c_tracks (ep2_sync frame s)" "i2c_tracks (ep2_pins frame s)" "i2c_tracks (ep2_rate b frame s)"
    "i2c_tracks (ep2_alex0 frame s)" "i2c_tracks (ep2_nucleo0 frame s)" "i2c_tracks (ep2_alex1 frame s)"
    "i2c_tracks (ep2_misc2 frame s)" "i2c_tracks (ep2_nucleo1 frame s)"
    "i2c_tracks (ep2_rx1_att frame s)" "i2c_tracks (ep2_rx2_att frame s)" "i2c_tracks (ep2_keyer frame s)"
    "i2c_tracks (ep2_hang frame s)"
  using assms
  by (simp_all add: ep2_defs Let_def t8.obs_clear t8.obs_set tracks_update)

lemma tracks_frequencies:
  assumes "i2c_tracks s"
  shows "i2c_tracks (ep2_tx_freq b frame s)" "i2c_tracks (ep2_rx0_freq b frame s)"
    "i2c_tracks (ep2_rx1_freq b frame s)" "i2c_tracks (ep2_rx2_freq b frame s)"
  using assms
  by (simp_all add: ep2_tx_freq_def ep2_rx0_freq_def ep2_rx1_freq_def ep2_rx2_freq_def ep2_second_band_def
      Let_def tracks_parts)

text \<open>Every command leaves each remembered value equal to what its device was told last, or at the
  value the server started with.\<close>

lemma process_ep2_tracks:
  assumes "i2c_tracks s"
  shows "i2c_tracks (process_ep2 b frame s)"
  using assms
  by (simp add: process_ep2_def Let_def ep2_general_def ep2_filters_def tracks_frequencies tracks_parts tracks_settings)

lemma process_ep2_tracks_witness:
  "i2c_tracks (process_ep2 board_125 [18, 200, 0, 0xff, 0x13] ((hpsdr_globals (\<lambda>_. 0))\<lparr>has_level := True\<rparr>))"
  by (rule process_ep2_tracks) (simp add: i2c_tracks_def tracks_defs hpsdr_globals_def)

section \<open>Ranges of the settings\<close>

text \<open>The values each setting can take, as its command masks it.\<close>

definition settings_ok :: "hpsdr \<Rightarrow> bool" where
  "settings_ok s \<longleftrightarrow>
     1 \<le> receivers s \<and> receivers s \<le> 8 \<and> ep_rate s \<le> 3 \<and> rx_sync_data s \<le> 1 \<and> tx_eer_data s \<le> 1 \<and>
     freq0 s \<le> freq_max \<and> freq1 s \<le> freq_max \<and> freq2 s \<le> freq_max \<and>
     rx_att_data s < 32 \<and> misc_0 s < 32 \<and> misc_1 s < 32 \<and> misc_2 s < 4 \<and> nucleo_ok s \<and>
     cw_int_data s \<le> 1 \<and> cw_reversed s \<le> 1 \<and> cw_speed s \<le> 63 \<and> cw_mode s \<le> 3 \<and> cw_weight s \<le> 127 \<and>
     cw_spacing s \<le> 1 \<and> cw_hang s < 1024"

lemma settings_store [simp]: "settings_ok (store off bs s) = settings_ok s" "settings_ok (emit e s) = settings_ok s"
  by (simp_all add: settings_ok_def nucleo_ok_def store_def emit_def)

lemma settings_wr [simp]:
  "settings_ok (wr8 off v8 s) = settings_ok s" "settings_ok (wr16 off v16 s) = settings_ok s"
  "settings_ok (wr32 off v32 s) = settings_ok s"
  by (simp_all add: wr_defs)

interpretation s8: undisturbed "wr8 off" settings_ok for off by unfold_locales simp

lemma settings_i2c [simp]:
  "settings_ok (i2c_update pene_data (upd pene_data_update) a_pene b_pene v_pene s) = settings_ok s"
  "settings_ok (i2c_update alex_port_data (upd alex_port_data_update) a_alex b_alex v_alex s) = settings_ok s"
  "settings_ok (i2c_update level_data (upd level_data_update) a_level b_level v_level s) = settings_ok s"
  "settings_ok (i2c_update misc_data (upd misc_data_update) a_misc b_misc v_misc s) = settings_ok s"
  "settings_ok (i2c_update drive_data (upd drive_data_update) a_drive b_drive v_drive s) = settings_ok s"
  "settings_ok (i2c_update dac0_data (upd dac0_data_update) a_dac0 b_dac0 v_dac0 s) = settings_ok s"
  "settings_ok (i2c_update ard_frx1 (upd ard_frx1_update) a_frx1 b_frx1 v_frx1 s) = settings_ok s"
  "settings_ok (i2c_update ard_frx2 (upd ard_frx2_update) a_frx2 b_frx2 v_frx2 s) = settings_ok s"
  "settings_ok (i2c_update ard_ftx (upd ard_ftx_update) a_ftx b_ftx v_ftx s) = settings_ok s"
  "settings_ok (i2c_update ard_ocant (upd ard_ocant_update) a_ocant b_ocant v_ocant s) = settings_ok s"
  "settings_ok (i2c_update ard_txatt (upd ard_txatt_update) a_txatt b_txatt v_txatt s) = settings_ok s"
  "settings_ok (i2c_update ard_rxatt (upd ard_rxatt_update) a_rxatt b_rxatt v_rxatt s) = settings_ok s"
  "settings_ok (i2c_update boost_data (upd boost_data_update) a_boost b_boost v_boost s) = settings_ok s"
  "settings_ok (i2c_update g (\<lambda>(lo, hi) s. s\<lparr>nucleo_lo := lo, nucleo_hi := hi\<rparr>) a b v s) = settings_ok s"
  by (simp_all add: i2c_update_def i2c_send_def split: prod.split) (simp_all add: settings_ok_def nucleo_ok_def)

lemma settings_marks [simp]:
  "settings_ok (alex_update_update f s) = settings_ok s" "settings_ok (misc_update_update f s) = settings_ok s"
  "settings_ok (nucleo_update_update f s) = settings_ok s" "settings_ok (alex_0_update g s) = settings_ok s"
  "settings_ok (alex_1_update g s) = settings_ok s" "settings_ok (s\<lparr>icom_band := x\<rparr>) = settings_ok s"
  by (simp_all add: settings_ok_def nucleo_ok_def)

lemma bits_less:
  fixes w :: "'a::len word"
  assumes "\<And>n. bit w n \<Longrightarrow> n < k" and "k < LENGTH('a)"
  shows "w < 2 ^ k"
proof -
  have "take_bit k w = w"
    using assms(1) by (intro bit_word_eqI) (auto simp: bit_take_bit_iff)
  then show ?thesis
    using and_mask_less' [OF assms(2), of w] by (simp add: take_bit_eq_mask)
qed

lemma and_bounds:
  fixes w :: "'a::len word"
  shows "m < n \<Longrightarrow> w AND m < n" "m \<le> n \<Longrightarrow> w AND m \<le> n"
  using word_and_le1 [of w m] by auto

lemma bit_masks:
  "bit (0x1f :: int) n \<longleftrightarrow> n < 5" "bit (3 :: int) n \<longleftrightarrow> n < 2" "bit (7 :: int) n \<longleftrightarrow> n < 3"
  using bit_mask_iff [of 5 n, where 'a = int] bit_mask_iff [of 2 n, where 'a = int] bit_mask_iff [of 3 n, where 'a = int]
  by (auto simp: mask_numeral)

lemma bit_powers: "bit (0x80 :: int) n \<longleftrightarrow> n = 7" "bit (0x20 :: int) n \<longleftrightarrow> n = 5"
  using bit_push_bit_iff [of 7 "1 :: int" n] bit_push_bit_iff [of 5 "1 :: int" n] by (auto simp: bit_1_iff)

lemma field_bounds:
  fixes f g :: u8 and h :: u16
  shows "ucast (f AND 0x1f) < (32 :: u16)" "ucast (f AND 0x1f) < (2 ^ 5 :: u32)"
    "ucast (drop_bit 6 (f AND 0x80) OR drop_bit 5 (f AND 0x20)) < (4 :: u16)"
    "ucast (drop_bit 5 (f AND 0xe0)) < (2 ^ 3 :: u32)" "(ucast h :: u32) < 2 ^ 16"
    "drop_bit 6 f AND 3 \<le> 3" "1 \<le> (drop_bit 3 f AND 7) + 1" "(drop_bit 3 f AND 7) + 1 \<le> 8"
    "ucast (drop_bit 7 f AND 1) \<le> (1 :: u16)"
    "push_bit 2 (ucast f) OR ucast (g AND 3) < (1024 :: u16)"
proof -
  have "ucast (f AND 0x1f) < (2 ^ 5 :: u16)"
    by (rule bits_less) (auto simp: bit_simps bit_masks)
  then show "ucast (f AND 0x1f) < (32 :: u16)"
    by simp
  show "ucast (f AND 0x1f) < (2 ^ 5 :: u32)"
    by (rule bits_less) (auto simp: bit_simps bit_masks)
  have "ucast (drop_bit 6 (f AND 0x80) OR drop_bit 5 (f AND 0x20)) < (2 ^ 2 :: u16)"
    by (rule bits_less) (auto simp: bit_simps bit_powers dest!: bit_imp_le_length)
  then show "ucast (drop_bit 6 (f AND 0x80) OR drop_bit 5 (f AND 0x20)) < (4 :: u16)"
    by simp
  show "ucast (drop_bit 5 (f AND 0xe0)) < (2 ^ 3 :: u32)"
    by (rule bits_less) (auto simp: bit_simps dest: bit_imp_le_length)
  show "(ucast h :: u32) < 2 ^ 16"
    by (rule bits_less) (auto simp: bit_simps dest: bit_imp_le_length)
  show "drop_bit 6 f AND 3 \<le> 3"
    by (simp add: and_bounds)
  have le7: "unat (drop_bit 3 f AND 7) \<le> 7"
    using word_and_le1 [of "drop_bit 3 f" 7] by (simp add: word_le_nat_alt)
  then have "unat ((drop_bit 3 f AND 7) + 1) = unat (drop_bit 3 f AND 7) + 1"
    by (simp add: unat_word_ariths)
  with le7 show "1 \<le> (drop_bit 3 f AND 7) + 1" and "(drop_bit 3 f AND 7) + 1 \<le> 8"
    by (simp_all add: word_le_nat_alt)
  have "ucast (drop_bit 7 f AND 1) < (2 ^ 1 :: u16)"
    by (rule bits_less) (auto simp: bit_simps bit_masks)
  then show "ucast (drop_bit 7 f AND 1) \<le> (1 :: u16)"
    by (simp add: word_le_nat_alt word_less_nat_alt)
  have "push_bit 2 (ucast f) OR ucast (g AND 3) < (2 ^ 10 :: u16)"
    by (rule bits_less) (auto simp: bit_simps bit_masks dest: bit_imp_le_length)
  then show "push_bit 2 (ucast f) OR ucast (g AND 3) < (1024 :: u16)"
    by simp
qed

lemma settings_icom: "settings_ok s \<Longrightarrow> settings_ok (icom_write s)"
  by (simp add: icom_write_def Let_def)

lemma settings_outputs:
  assumes "settings_ok s"
  shows "settings_ok (reset_rx_los s)" "settings_ok (freq_changed s)"
    "settings_ok (ep2_pins frame s)" "settings_ok (ep2_pene frame s)" "settings_ok (ep2_dac0 frame s)"
    "settings_ok (ep2_ocant frame s)" "settings_ok (ep2_alex0 frame s)" "settings_ok (ep2_alex1 frame s)"
    "settings_ok (ep2_alex_port frame s)" "settings_ok (ep2_level b frame s)" "settings_ok (ep2_boost frame s)"
    "settings_ok (ep2_tx_rx_att frame s)"
    "settings_ok (tell_arduino ard_ftx (upd ard_ftx_update) k freq s)"
    "settings_ok (tell_arduino ard_frx1 (upd ard_frx1_update) k freq s)"
    "settings_ok (tell_arduino ard_frx2 (upd ard_frx2_update) k freq s)"
  using assms by (simp_all add: ep2_defs Let_def s8.obs_clear s8.obs_set)

lemma freq_ok_iff: "freq_ok freq \<longleftrightarrow> freq \<le> freq_max"
  by (simp add: freq_ok_def freq_min_def not_less)

lemma settings_freq:
  assumes "settings_ok s" and "freq_ok freq"
  shows "settings_ok (s\<lparr>freq0 := freq\<rparr>)" "settings_ok (s\<lparr>freq1 := freq\<rparr>)" "settings_ok (s\<lparr>freq2 := freq\<rparr>)"
  using assms by (simp_all add: settings_ok_def nucleo_ok_def freq_ok_iff)

lemma settings_frequencies:
  assumes "settings_ok s"
  shows "settings_ok (ep2_tx_freq b frame s)" "settings_ok (ep2_rx0_freq b frame s)"
    "settings_ok (ep2_rx1_freq b frame s)" "settings_ok (ep2_rx2_freq b frame s)"
  using assms
  by (simp_all add: ep2_tx_freq_def ep2_rx0_freq_def ep2_rx1_freq_def ep2_rx2_freq_def ep2_second_band_def
      Let_def settings_outputs settings_icom settings_freq)

lemma settings_rx_sync:
  assumes "settings_ok s" and "v \<le> 1" shows "settings_ok (s\<lparr>rx_sync_data := v\<rparr>)"
  using assms by (simp add: settings_ok_def nucleo_ok_def)

lemma settings_nucleo:
  assumes "settings_ok s"
  shows "v < 2 ^ 16 \<Longrightarrow> settings_ok (s\<lparr>nucleo_0 := v\<rparr>)" "v < 2 ^ 3 \<Longrightarrow> settings_ok (s\<lparr>nucleo_1 := v\<rparr>)"
    "v < 2 ^ 5 \<Longrightarrow> settings_ok (s\<lparr>nucleo_2 := v\<rparr>)" "v < 2 ^ 5 \<Longrightarrow> settings_ok (s\<lparr>nucleo_3 := v\<rparr>)"
  using assms by (simp_all add: settings_ok_def nucleo_ok_def)

lemma settings_misc:
  assumes "settings_ok s"
  shows "v < 32 \<Longrightarrow> settings_ok (s\<lparr>misc_0 := v\<rparr>)" "v < 32 \<Longrightarrow> settings_ok (s\<lparr>misc_1 := v\<rparr>)"
    "v < 4 \<Longrightarrow> settings_ok (s\<lparr>misc_2 := v\<rparr>)"
  using assms by (simp_all add: settings_ok_def nucleo_ok_def)

lemma settings_keyer:
  assumes "settings_ok s"
  shows "settings_ok (s\<lparr>cw_reversed := drop_bit 6 f2 AND 1, cw_speed := f3 AND 63, cw_mode := drop_bit 6 f3 AND 3,
      cw_weight := f4 AND 127, cw_spacing := drop_bit 7 f4 AND 1\<rparr>)"
    "settings_ok (s\<lparr>cw_int_data := f1 AND 1, dac_level_data := f2, cw_delay := f3\<rparr>)"
    "settings_ok (s\<lparr>cw_hang := push_bit 2 (ucast f1) OR ucast (f2 AND 3)\<rparr>)"
    "settings_ok (s\<lparr>rx_att_data := f4 AND 0x1f\<rparr>)" "settings_ok (s\<lparr>ep_rate := f1 AND 3\<rparr>)"
    "settings_ok (s\<lparr>tx_eer_data := f2 AND 1\<rparr>)"
    "settings_ok (s\<lparr>receivers := (drop_bit 3 f4 AND 7) + 1\<rparr>)"
  using assms and_bounds(1) [of "0x1f" 32 f4] by (simp_all add: settings_ok_def nucleo_ok_def and_bounds field_bounds)

lemma settings_parts:
  assumes "settings_ok s"
  shows "settings_ok (ep2_sync frame s)" "settings_ok (ep2_rate b frame s)" "settings_ok (ep2_nucleo0 frame s)"
    "settings_ok (ep2_misc2 frame s)" "settings_ok (ep2_nucleo1 frame s)"
    "settings_ok (ep2_rx1_att frame s)" "settings_ok (ep2_rx2_att frame s)"
    "settings_ok (ep2_keyer frame s)" "settings_ok (ep2_hang frame s)"
  using assms
  by (simp_all only: ep2_sync_def ep2_rate_def ep2_nucleo0_def ep2_misc2_def ep2_nucleo1_def ep2_rx1_att_def
      ep2_rx2_att_def ep2_keyer_def ep2_hang_def note_change_def Let_def settings_wr settings_i2c settings_marks
      settings_keyer settings_misc settings_nucleo settings_rx_sync field_bounds settings_outputs if_split
      simp_thms)

text \<open>Every setting stays in its range, whatever the host sends.\<close>

lemma process_ep2_settings:
  assumes "settings_ok s"
  shows "settings_ok (process_ep2 b frame s)"
  using assms
  by (simp add: process_ep2_def Let_def ep2_general_def ep2_filters_def settings_frequencies settings_parts settings_outputs)

lemma process_ep2_settings_witness:
  "settings_ok (process_ep2 board_125 [0, 2, 0xff, 0xff, 0xff] (hpsdr_globals (\<lambda>_. 0)))"
  by (rule process_ep2_settings) (simp add: settings_ok_def nucleo_ok_def hpsdr_globals_def freq_max_def)

section \<open>Registers a command leaves alone\<close>

lemma regs_i2c [simp]:
  "regs (i2c_update pene_data (upd pene_data_update) a_pene b_pene v_pene s) = regs s"
  "regs (i2c_update alex_port_data (upd alex_port_data_update) a_alex b_alex v_alex s) = regs s"
  "regs (i2c_update level_data (upd level_data_update) a_level b_level v_level s) = regs s"
  "regs (i2c_update misc_data (upd misc_data_update) a_misc b_misc v_misc s) = regs s"
  "regs (i2c_update drive_data (upd drive_data_update) a_drive b_drive v_drive s) = regs s"
  "regs (i2c_update dac0_data (upd dac0_data_update) a_dac0 b_dac0 v_dac0 s) = regs s"
  "regs (i2c_update ard_frx1 (upd ard_frx1_update) a_frx1 b_frx1 v_frx1 s) = regs s"
  "regs (i2c_update ard_frx2 (upd ard_frx2_update) a_frx2 b_frx2 v_frx2 s) = regs s"
  "regs (i2c_update ard_ftx (upd ard_ftx_update) a_ftx b_ftx v_ftx s) = regs s"
  "regs (i2c_update ard_ocant (upd ard_ocant_update) a_ocant b_ocant v_ocant s) = regs s"
  "regs (i2c_update ard_txatt (upd ard_txatt_update) a_txatt b_txatt v_txatt s) = regs s"
  "regs (i2c_update ard_rxatt (upd ard_rxatt_update) a_rxatt b_rxatt v_rxatt s) = regs s"
  "regs (i2c_update boost_data (upd boost_data_update) a_boost b_boost v_boost s) = regs s"
  by (simp_all add: i2c_update_def i2c_send_def)

lemma rd_regs: "regs s = regs t \<Longrightarrow> rd8 off s = rd8 off t \<and> rd16 off s = rd16 off t \<and> rd32 off s = rd32 off t"
  by (simp add: rd_defs)

lemma regs_outputs [simp]:
  "regs (freq_changed s) = regs s" "regs (icom_write s) = regs s"
  "regs (tell_arduino ard_ftx (upd ard_ftx_update) k freq s) = regs s"
  "regs (tell_arduino ard_frx1 (upd ard_frx1_update) k freq s) = regs s"
  "regs (tell_arduino ard_frx2 (upd ard_frx2_update) k freq s) = regs s"
  "regs (ep2_second_band freq s) = regs s"
  "regs (ep2_pene frame s) = regs s" "regs (ep2_nucleo0 frame s) = regs s" "regs (ep2_dac0 frame s) = regs s"
  "regs (ep2_ocant frame s) = regs s" "regs (ep2_alex0 frame s) = regs s"
  by (simp_all add: ep2_defs icom_write_def Let_def)

lemma rd32_outputs [simp]:
  "rd32 off (freq_changed s) = rd32 off s" "rd32 off (icom_write s) = rd32 off s"
  "rd32 off (tell_arduino ard_ftx (upd ard_ftx_update) k freq s) = rd32 off s"
  "rd32 off (tell_arduino ard_frx1 (upd ard_frx1_update) k freq s) = rd32 off s"
  "rd32 off (tell_arduino ard_frx2 (upd ard_frx2_update) k freq s) = rd32 off s"
  "rd32 off (ep2_second_band freq s) = rd32 off s"
  "rd32 off (s\<lparr>freq0 := f\<rparr>) = rd32 off s" "rd32 off (s\<lparr>freq1 := f\<rparr>) = rd32 off s" "rd32 off (s\<lparr>freq2 := f\<rparr>) = rd32 off s"
  by (simp_all add: rd32_def)

lemma rd32_reset_rx_los [simp]: "2 \<le> off \<Longrightarrow> rd32 off (reset_rx_los s) = rd32 off s"
  by (simp add: reset_rx_los_def reg_set_def reg_clear_def)

lemma freqs_outputs [simp]:
  "freq0 (tell_arduino ard_ftx (upd ard_ftx_update) k freq (freq_changed s)) = freq0 s"
  "freq1 (tell_arduino ard_frx1 (upd ard_frx1_update) k freq (freq_changed s)) = freq1 s"
  "freq2 (tell_arduino ard_frx2 (upd ard_frx2_update) k freq (freq_changed s)) = freq2 s"
  "freq0 (icom_write s) = freq0 s" "freq1 (reset_rx_los s) = freq1 s"
  by (simp_all add: tell_arduino_def freq_changed_def icom_write_def reset_rx_los_def reg_set_def reg_clear_def
      i2c_update_def i2c_send_def emit_def wr_defs store_def Let_def)

section \<open>Frequencies\<close>

text \<open>The exact increments: \<open>round(freq * 2 ^ 30 / CLK)\<close>, for 125 MHz and 122.88 MHz in lowest terms.\<close>

lemma increment_125: "clk b = clk_125 \<Longrightarrow> freq_ok f \<Longrightarrow> increment b f = word_of_nat ((unat f * 2 ^ 25 + 1953125) div 3906250)"
  unfolding increment_def by (simp only: phase_inc_125 freq_ok_iff freq_max_def word_le_nat_alt) (simp add: phase_inc_125)

lemma increment_122: "clk b = clk_122 \<Longrightarrow> freq_ok f \<Longrightarrow> increment b f = word_of_nat ((unat f * 2 ^ 15 + 1875) div 3750)"
  unfolding increment_def by (simp only: freq_ok_iff freq_max_def word_le_nat_alt) (simp add: phase_inc_122)

lemma freq_fields [simp]:
  "freq0 (wr32 off v s) = freq0 s" "freq1 (wr32 off v s) = freq1 s" "freq2 (wr32 off v s) = freq2 s"
  "rx_sync_data (wr32 off v s) = rx_sync_data s"
  by (simp_all add: wr_defs store_def)

lemma ep2_tx_freq_ok:
  assumes "freq_ok (frame_freq frame)"
  shows "rd32 tx_freq (ep2_tx_freq b frame s) = increment b (frame_freq frame)"
    "freq0 (ep2_tx_freq b frame s) = frame_freq frame"
  using assms by (simp_all add: ep2_tx_freq_def Let_def)

lemma ep2_rx0_freq_ok:
  assumes "freq_ok (frame_freq frame)"
  shows "rd32 rx_freq0 (ep2_rx0_freq b frame s) = increment b (frame_freq frame)"
    "rx_sync_data s \<noteq> 0 \<Longrightarrow> rd32 rx_freq1 (ep2_rx0_freq b frame s) = increment b (frame_freq frame)"
    "freq1 (ep2_rx0_freq b frame s) = frame_freq frame"
  using assms by (simp_all add: ep2_rx0_freq_def Let_def)

lemma ep2_rx12_freq_ok:
  assumes "freq_ok (frame_freq frame)"
  shows "rx_sync_data s = 0 \<Longrightarrow> rd32 rx_freq1 (ep2_rx1_freq b frame s) = increment b (frame_freq frame)"
    "rd32 rx_freq2 (ep2_rx2_freq b frame s) = increment b (frame_freq frame)"
  using assms by (simp_all add: ep2_rx1_freq_def ep2_rx2_freq_def Let_def)

text \<open>A frequency command within the limit loads the addressed oscillator of the 125 MHz board with
  the nearest phase increment, exactly as in integer arithmetic, and remembers the frequency; synchronised
  receivers are loaded together.\<close>

lemma freq_commands:
  assumes "frame_freq frame \<le> freq_max" and "clk b = clk_125"
  shows "let f = frame_freq frame; inc = word_of_nat ((unat f * 2 ^ 25 + 1953125) div 3906250);
             s' = process_ep2 b frame s in
    (frame ! 0 \<in> {2, 3} \<longrightarrow> rd32 tx_freq s' = inc \<and> freq0 s' = f) \<and>
    (frame ! 0 \<in> {4, 5} \<longrightarrow> rd32 rx_freq0 s' = inc \<and> freq1 s' = f \<and> (rx_sync_data s \<noteq> 0 \<longrightarrow> rd32 rx_freq1 s' = inc)) \<and>
    (frame ! 0 \<in> {6, 7} \<and> rx_sync_data s = 0 \<longrightarrow> rd32 rx_freq1 s' = inc) \<and>
    (frame ! 0 \<in> {8, 9} \<longrightarrow> rd32 rx_freq2 s' = inc)"
proof -
  have ok: "freq_ok (frame_freq frame)"
    using assms(1) by (simp add: freq_ok_iff)
  show ?thesis
    using ep2_tx_freq_ok [OF ok] ep2_rx0_freq_ok [OF ok] ep2_rx12_freq_ok [OF ok] increment_125 [OF assms(2) ok]
    by (auto simp: process_ep2_def Let_def)
qed

lemma freq_commands_witness:
  "rd32 tx_freq (process_ep2 board_125 [2, 0, 0x6c, 0xcb, 0xd0] (hpsdr_globals (\<lambda>_. 0))) = 61246783"
  using freq_commands [of "[2, 0, 0x6c, 0xcb, 0xd0]" board_125 "hpsdr_globals (\<lambda>_. 0)"]
  by (simp add: board_125_def frame_freq_def be32_at_def join32_def join16_def freq_max_def Let_def)

text \<open>A frequency above 61.44 MHz is ignored: nothing changes and nothing is sent.\<close>

lemma freq_too_high:
  assumes "freq_max < frame_freq frame" and "frame ! 0 \<in> {2, 3, 4, 5, 6, 7, 8, 9}"
  shows "process_ep2 b frame s = s"
proof -
  have "\<not> freq_ok (frame_freq frame)"
    using assms(1) by (simp add: freq_ok_iff not_le)
  with assms(2) show ?thesis
    by (auto simp: process_ep2_def ep2_tx_freq_def ep2_rx0_freq_def ep2_rx1_freq_def ep2_rx2_freq_def Let_def)
qed

lemma freq_too_high_witness: "process_ep2 board_122 [4, 0xff, 0, 0, 0] (hpsdr_globals (\<lambda>_. 0)) = hpsdr_globals (\<lambda>_. 0)"
  by (rule freq_too_high) (simp_all add: frame_freq_def be32_at_def join32_def join16_def freq_max_def)

text \<open>Synchronised receivers share their phase increment.\<close>

definition synced :: "hpsdr \<Rightarrow> bool" where
  "synced s \<longleftrightarrow> (rx_sync_data s \<noteq> 0 \<longrightarrow> rd32 rx_freq1 s = rd32 rx_freq0 s)"

lemma sync_outputs [simp]:
  "rx_sync_data (freq_changed s) = rx_sync_data s" "rx_sync_data (icom_write s) = rx_sync_data s"
  "rx_sync_data (tell_arduino ard_ftx (upd ard_ftx_update) k freq s) = rx_sync_data s"
  "rx_sync_data (tell_arduino ard_frx1 (upd ard_frx1_update) k freq s) = rx_sync_data s"
  "rx_sync_data (tell_arduino ard_frx2 (upd ard_frx2_update) k freq s) = rx_sync_data s"
  "rx_sync_data (ep2_second_band freq s) = rx_sync_data s" "rx_sync_data (reset_rx_los s) = rx_sync_data s"
  by (simp_all add: ep2_defs icom_write_def Let_def reg_set_def reg_clear_def i2c_update_def i2c_send_def emit_def
      wr_defs store_def)

lemma synced_i2c [simp]:
  "synced (i2c_update pene_data (upd pene_data_update) a_pene b_pene v_pene s) = synced s"
  "synced (i2c_update alex_port_data (upd alex_port_data_update) a_alex b_alex v_alex s) = synced s"
  "synced (i2c_update level_data (upd level_data_update) a_level b_level v_level s) = synced s"
  "synced (i2c_update misc_data (upd misc_data_update) a_misc b_misc v_misc s) = synced s"
  "synced (i2c_update drive_data (upd drive_data_update) a_drive b_drive v_drive s) = synced s"
  "synced (i2c_update dac0_data (upd dac0_data_update) a_dac0 b_dac0 v_dac0 s) = synced s"
  "synced (i2c_update ard_frx1 (upd ard_frx1_update) a_frx1 b_frx1 v_frx1 s) = synced s"
  "synced (i2c_update ard_frx2 (upd ard_frx2_update) a_frx2 b_frx2 v_frx2 s) = synced s"
  "synced (i2c_update ard_ftx (upd ard_ftx_update) a_ftx b_ftx v_ftx s) = synced s"
  "synced (i2c_update ard_ocant (upd ard_ocant_update) a_ocant b_ocant v_ocant s) = synced s"
  "synced (i2c_update ard_txatt (upd ard_txatt_update) a_txatt b_txatt v_txatt s) = synced s"
  "synced (i2c_update ard_rxatt (upd ard_rxatt_update) a_rxatt b_rxatt v_rxatt s) = synced s"
  "synced (i2c_update boost_data (upd boost_data_update) a_boost b_boost v_boost s) = synced s"
  by (simp_all add: synced_def rd32_def i2c_update_def i2c_send_def emit_def)

lemma synced_fields [simp]:
  "synced (s\<lparr>receivers := x\<rparr>) = synced s" "synced (s\<lparr>tx_eer_data := x\<rparr>) = synced s" "synced (s\<lparr>ep_rate := x\<rparr>) = synced s"
  "synced (s\<lparr>rx_att_data := x\<rparr>) = synced s" "synced (alex_0_update g s) = synced s" "synced (alex_1_update g s) = synced s"
  "synced (misc_0_update g s) = synced s" "synced (misc_1_update g s) = synced s" "synced (misc_2_update g s) = synced s"
  "synced (nucleo_0_update h s) = synced s" "synced (nucleo_1_update h s) = synced s" "synced (nucleo_2_update h s) = synced s"
  "synced (nucleo_3_update h s) = synced s" "synced (alex_update_update k s) = synced s"
  "synced (misc_update_update k s) = synced s" "synced (nucleo_update_update k s) = synced s"
  "synced (s\<lparr>cw_int_data := x\<rparr>) = synced s" "synced (s\<lparr>dac_level_data := x\<rparr>) = synced s" "synced (s\<lparr>cw_delay := x\<rparr>) = synced s"
  "synced (s\<lparr>cw_reversed := x\<rparr>) = synced s" "synced (s\<lparr>cw_speed := x\<rparr>) = synced s" "synced (s\<lparr>cw_mode := x\<rparr>) = synced s"
  "synced (s\<lparr>cw_weight := x\<rparr>) = synced s" "synced (s\<lparr>cw_spacing := x\<rparr>) = synced s" "synced (s\<lparr>cw_hang := y\<rparr>) = synced s"
  by (simp_all add: synced_def rd32_def)

lemma synced_wr [simp]:
  "off < 8 \<or> 16 \<le> off \<Longrightarrow> synced (wr8 off v8 s) = synced s"
  "off < 7 \<or> 16 \<le> off \<Longrightarrow> synced (wr16 off v16 s) = synced s"
  "off < 5 \<or> 16 \<le> off \<Longrightarrow> synced (wr32 off v32 s) = synced s"
proof -
  have s: "rx_sync_data (wr8 off v8 s) = rx_sync_data s" "rx_sync_data (wr16 off v16 s) = rx_sync_data s"
      "rx_sync_data (wr32 off v32 s) = rx_sync_data s"
    by (simp_all add: wr_defs store_def)
  show "off < 8 \<or> 16 \<le> off \<Longrightarrow> synced (wr8 off v8 s) = synced s"
    "off < 7 \<or> 16 \<le> off \<Longrightarrow> synced (wr16 off v16 s) = synced s"
    "off < 5 \<or> 16 \<le> off \<Longrightarrow> synced (wr32 off v32 s) = synced s"
    by (auto simp: synced_def s)
qed

lemma synced_parts:
  assumes "synced s"
  shows "synced (ep2_sync frame s)" "synced (ep2_pins frame s)" "synced (ep2_rate b frame s)" "synced (ep2_alex0 frame s)"
    "synced (ep2_pene frame s)" "synced (ep2_nucleo0 frame s)" "synced (ep2_dac0 frame s)" "synced (ep2_ocant frame s)"
    "synced (ep2_alex1 frame s)" "synced (ep2_misc2 frame s)" "synced (ep2_nucleo1 frame s)" "synced (ep2_alex_port frame s)"
    "synced (ep2_level b frame s)" "synced (ep2_boost frame s)" "synced (ep2_rx1_att frame s)" "synced (ep2_rx2_att frame s)"
    "synced (ep2_tx_rx_att frame s)" "synced (ep2_keyer frame s)" "synced (ep2_hang frame s)"
proof -
  have los: "synced (reset_rx_los s) = synced s" for s
    by (simp add: reset_rx_los_def reg_set_def reg_clear_def)
  have eq: "synced (s\<lparr>rx_sync_data := v\<rparr>)" if "v = 0" for v s
    by (simp add: synced_def that)
  have copied: "synced (wr32 rx_freq1 (rd32 rx_freq0 s) s)" for s
    by (simp add: synced_def)
  show "synced (ep2_sync frame s)"
    using assms by (simp add: ep2_sync_def Let_def los eq copied)
  show "synced (ep2_pins frame s)" "synced (ep2_rate b frame s)" "synced (ep2_alex0 frame s)"
    "synced (ep2_pene frame s)" "synced (ep2_nucleo0 frame s)" "synced (ep2_dac0 frame s)" "synced (ep2_ocant frame s)"
    "synced (ep2_alex1 frame s)" "synced (ep2_misc2 frame s)" "synced (ep2_nucleo1 frame s)" "synced (ep2_alex_port frame s)"
    "synced (ep2_level b frame s)" "synced (ep2_boost frame s)" "synced (ep2_rx1_att frame s)" "synced (ep2_rx2_att frame s)"
    "synced (ep2_tx_rx_att frame s)" "synced (ep2_keyer frame s)" "synced (ep2_hang frame s)"
    using assms by (simp_all add: ep2_defs Let_def)
qed

lemma synced_frequencies:
  assumes "synced s"
  shows "synced (ep2_tx_freq b frame s)" "synced (ep2_rx0_freq b frame s)" "synced (ep2_rx1_freq b frame s)"
    "synced (ep2_rx2_freq b frame s)"
proof -
  have out: "synced (s\<lparr>freq0 := f\<rparr>) = synced s" "synced (s\<lparr>freq1 := f\<rparr>) = synced s" "synced (s\<lparr>freq2 := f\<rparr>) = synced s"
      "synced (freq_changed s) = synced s" "synced (icom_write s) = synced s"
      "synced (tell_arduino ard_ftx (upd ard_ftx_update) k f s) = synced s"
      "synced (tell_arduino ard_frx1 (upd ard_frx1_update) k f s) = synced s"
      "synced (tell_arduino ard_frx2 (upd ard_frx2_update) k f s) = synced s"
      "synced (reset_rx_los s) = synced s" for f k s
    by (simp_all add: synced_def)
  show "synced (ep2_tx_freq b frame s)" "synced (ep2_rx0_freq b frame s)" "synced (ep2_rx1_freq b frame s)"
    "synced (ep2_rx2_freq b frame s)"
    using assms
    by (simp_all add: ep2_tx_freq_def ep2_rx0_freq_def ep2_rx1_freq_def ep2_rx2_freq_def ep2_second_band_def Let_def out)
       (simp_all add: synced_def)
qed

text \<open>Once the host has synchronised the receivers, every command leaves both with the same phase increment.\<close>

lemma process_ep2_synced:
  assumes "synced s"
  shows "synced (process_ep2 b frame s)"
  using assms by (simp add: process_ep2_def Let_def ep2_general_def ep2_filters_def synced_parts synced_frequencies)

lemma process_ep2_synced_witness:
  "synced (process_ep2 board_125 [0, 0, 0, 0, 0x80] (hpsdr_globals (\<lambda>a. of_nat a)))"
  by (rule process_ep2_synced) (simp add: synced_def hpsdr_globals_def)

end
