(* ===== verification/Hpsdr_outputs.thy ===== *)
theory Hpsdr_outputs
  imports Hpsdr_invariants
begin

unbundle bit_operations_syntax

text \<open>
  What the commands put on the outputs: the GPIO pins, the gain DAC, the words for the Arduino
  sketch, the drive level and its logarithmic table.
\<close>

section \<open>GPIO pins\<close>

lemma rd8_pins:
  assumes "frame ! 0 \<in> {0, 1}"
  shows "rd8 gpio_out (process_ep2 b frame s) = rd8 gpio_out (ep2_pins frame (ep2_sync frame s))"
proof -
  have "rd8 gpio_out (process_ep2 b frame s) = rd8 gpio_out (ep2_rate b frame (ep2_pins frame (ep2_sync frame s)))"
    using assms by (auto simp: process_ep2_def ep2_general_def Let_def rd8_def)
  also have "\<dots> = rd8 gpio_out (ep2_pins frame (ep2_sync frame s))"
    by (simp add: ep2_rate_def Let_def) (simp add: rd8_def)
  finally show ?thesis .
qed

lemma sync_pins: "gpio_in (ep2_sync frame s) = gpio_in s" "rx_att_data (ep2_sync frame s) = rx_att_data s"
  by (simp_all add: ep2_sync_def reset_rx_los_def reg_set_def reg_clear_def wr_defs store_def Let_def)

lemma pins_word:
  fixes f0 f2 f3 preamp :: u8
  assumes "g = push_bit 3 (f2 AND 0x1e) OR push_bit 2 (f3 AND 3) OR push_bit 1 preamp OR (f0 AND 1)"
    and "preamp = flag p"
  shows "bit g 0 = bit f0 0" "bit g 1 = p" "bit g 2 = bit f3 0" "bit g 3 = bit f3 1" "bit g 4 = bit f2 1"
    "bit g 5 = bit f2 2" "bit g 6 = bit f2 3" "bit g 7 = bit f2 4"
  unfolding assms bit_or_iff bit_push_bit_iff bit_and_iff by (simp_all add: bit_1_iff split: if_splits)

lemma preamp_flag:
  "(if ptt OR (gpio AND 1) \<noteq> 0 then 0 else drop_bit 2 (f3 AND 4) OR flag r) =
     (flag (\<not> (ptt OR (gpio AND 1) \<noteq> 0) \<and> (bit f3 2 \<or> r)) :: u8)"
proof -
  have "bit (4 :: int) n \<longleftrightarrow> n = 2" for n
    using bit_push_bit_iff [of 2 "1 :: int" n] by (auto simp: bit_1_iff)
  then have "drop_bit 2 (f3 AND 4) = (flag (bit f3 2) :: u8)"
    by (intro bit_word_eqI) (auto simp: bit_simps numeral_2_eq_2)
  then show ?thesis by auto
qed

text \<open>A general command sets the pins: push-to-talk, the preamplifier, which is never on while
  transmitting, two attenuator bits and four open-collector outputs.\<close>

lemma pins:
  assumes "frame ! 0 \<in> {0, 1}"
  shows "let g = rd8 gpio_out (process_ep2 b frame s); ptt = frame ! 0 = 1 in
    (bit g 0 \<longleftrightarrow> ptt) \<and>
    (bit g 1 \<longleftrightarrow> \<not> ptt \<and> \<not> bit (gpio_in s) 0 \<and> (bit (frame ! 3) 2 \<or> rx_att_data s = 0)) \<and>
    (bit g 2 \<longleftrightarrow> bit (frame ! 3) 0) \<and> (bit g 3 \<longleftrightarrow> bit (frame ! 3) 1) \<and>
    (bit g 4 \<longleftrightarrow> bit (frame ! 2) 1) \<and> (bit g 5 \<longleftrightarrow> bit (frame ! 2) 2) \<and>
    (bit g 6 \<longleftrightarrow> bit (frame ! 2) 3) \<and> (bit g 7 \<longleftrightarrow> bit (frame ! 2) 4)"
proof -
  have g: "rd8 gpio_out (process_ep2 b frame s) =
      push_bit 3 (frame ! 2 AND 0x1e) OR push_bit 2 (frame ! 3 AND 3) OR
      push_bit 1 (flag (\<not> ((frame ! 0 AND 1) OR (gpio_in s AND 1) \<noteq> 0) \<and> (bit (frame ! 3) 2 \<or> rx_att_data s = 0))) OR
      (frame ! 0 AND 1)"
    unfolding rd8_pins [OF assms] by (simp only: ep2_pins_def Let_def rd_wr_same sync_pins preamp_flag)
  have "((frame ! 0 AND 1) OR (gpio_in s AND 1) \<noteq> 0) = (frame ! 0 = 1 \<or> bit (gpio_in s) 0)"
    using assms by (auto simp: or_eq_0_iff and_one_eq bit_0 even_iff_mod_2_eq_zero odd_iff_mod_2_eq_one)
  moreover have "bit (frame ! 0) 0 = (frame ! 0 = 1)"
    using assms by auto
  ultimately show ?thesis
    using pins_word [OF g refl] by (simp add: Let_def)
qed

lemma pins_witness: "bit (rd8 gpio_out (process_ep2 board_125 [1, 0, 0x1e, 4, 0] (hpsdr_globals (\<lambda>_. 0)))) 7"
  using pins [of "[1, 0, 0x1e, 4, 0]" board_125 "hpsdr_globals (\<lambda>_. 0)"] by (simp add: Let_def)

section \<open>The gain DAC\<close>

lemma dac0_wrap:
  assumes "n \<le> 61"
  shows "unat (ucast (4065 - of_nat (n * 4095 div 61) :: u32) :: u16) = (if n \<le> 60 then 4065 - n * 4095 div 61 else 65506)"
proof (cases "n \<le> 60")
  case True
  then have q: "n * 4095 div 61 \<le> 4065"
    using div_le_mono [of "n * 4095" "60 * 4095" 61] by simp
  have d: "4065 - of_nat (n * 4095 div 61) = (of_nat (4065 - n * 4095 div 61) :: u32)"
    using of_nat_diff [OF q, where 'a = u32] by simp
  have "unat (ucast (of_nat m :: u32) :: u16) = m" if "m \<le> 4065" for m
    using that by (simp add: unsigned_of_nat unat_of_nat take_bit_nat_eq_self)
  from this [OF diff_le_self] show ?thesis
    by (simp only: d True if_True)
next
  case False
  with assms have "n = 61" by simp
  then show ?thesis by simp
qed

text \<open>The word for the gain DAC falls linearly with the attenuation, except at the largest attenuation,
  31 + 30 dB, where the subtraction wraps around: the word exceeds the 12 bits of the DAC and sets its
  power-down bits.\<close>

lemma dac0_words:
  assumes "rx_att < 32" and "att < 4"
  shows "let n = unat rx_att + 10 * unat att in
    unat (dac0_word rx_att att) = (if n \<le> 60 then 4065 - n * 4095 div 61 else 65506)"
proof -
  have r: "unat rx_att < 32" "unat att < 4"
    using assms by (simp_all add: word_less_nat_alt)
  define n where "n = unat rx_att + 10 * unat att"
  have n: "n \<le> 61"
    using r by (simp add: n_def)
  have data: "ucast rx_att + 10 * ucast att = (of_nat n :: u16)"
    unfolding word_unat_eq_iff by (use r in \<open>simp add: n_def unat_word_ariths unat_of_nat unat_ucast_up\<close>)
  have q: "(ucast (of_nat n :: u16) * 4095 :: u32) div 61 = of_nat (n * 4095 div 61)"
    unfolding word_unat_eq_iff by (use n in \<open>simp add: unat_div unat_word_ariths unat_of_nat unat_ucast_up\<close>)
  have "unat (dac0_word rx_att att) = unat (ucast (4065 - of_nat (n * 4095 div 61) :: u32) :: u16)"
    by (simp only: dac0_word_def Let_def data q)
  also have "\<dots> = (if n \<le> 60 then 4065 - n * 4095 div 61 else 65506)"
    using dac0_wrap [OF n] .
  finally show ?thesis
    by (simp add: n_def Let_def)
qed

lemma dac0_words_witness: "unat (dac0_word 31 3) = 65506 \<and> unat (dac0_word 20 1) = 2052"
  using dac0_words [of 31 3] dac0_words [of 20 1] by (simp add: Let_def)

section \<open>Arduino words\<close>

text \<open>A frame sent while transmitting replaces the transmit fields of the word, seven open-collector
  bits and the antenna, and leaves the receive fields; a receive frame replaces its own fields and
  leaves those. The separating bit 7 receives the lowest bit of the frame's byte, which belongs to no field.\<close>

lemma ocant_fields:
  "let new = ocant_word frame old in
   (if frame ! 0 AND 1 \<noteq> 0 then
      take_bit 7 new = ucast (drop_bit 1 (frame ! 2)) \<and> take_bit 2 (drop_bit 16 new) = ucast (frame ! 4 AND 3) \<and>
      take_bit 7 (drop_bit 8 new) = take_bit 7 (drop_bit 8 old) \<and> take_bit 3 (drop_bit 20 new) = take_bit 3 (drop_bit 20 old)
    else
      take_bit 7 (drop_bit 8 new) = ucast (drop_bit 1 (frame ! 2)) \<and> take_bit 7 new = take_bit 7 old \<and>
      take_bit 2 (drop_bit 16 new) = take_bit 2 (drop_bit 16 old) \<and> (bit new 7 \<longleftrightarrow> bit (frame ! 2) 0))"
proof -
  have l: "bit (127 :: int) n \<longleftrightarrow> n < 7" for n
    using bit_mask_iff [of 7 n, where 'a = int] by (simp add: mask_numeral)
  have m: "bit (0x00fc7f00 :: int) n \<longleftrightarrow> 8 \<le> n \<and> n < 15 \<or> 18 \<le> n \<and> n < 24"
      "bit (0x0003007f :: int) n \<longleftrightarrow> n < 7 \<or> 16 \<le> n \<and> n < 18" for n
  proof -
    have e: "(0x00fc7f00 :: int) = push_bit 8 (mask 7) OR push_bit 18 (mask 6)"
      "(0x0003007f :: int) = mask 7 OR push_bit 16 (mask 2)"
      by (simp_all add: mask_numeral)
    show "bit (0x00fc7f00 :: int) n \<longleftrightarrow> 8 \<le> n \<and> n < 15 \<or> 18 \<le> n \<and> n < 24"
      "bit (0x0003007f :: int) n \<longleftrightarrow> n < 7 \<or> 16 \<le> n \<and> n < 18"
      unfolding e by (auto simp: bit_simps)
  qed
  show ?thesis
    unfolding ocant_word_def Let_def if_distrib [of "take_bit _"]
    by (cases "frame ! 0 AND 1 = 0"; simp only: simp_thms if_True if_False; intro conjI; (rule bit_word_eqI)?)
       (auto simp: bit_simps l m bit_masks dest: bit_imp_le_length)
qed

section \<open>Drive level\<close>

text \<open>With the factor \<open>m / 25\<close> rounded to a \<open>double\<close>, the rounded product is exactly that of integers:
  \<open>n * m / 25 + 1 / 2\<close> is never an integer.\<close>

lemma level_exact:
  assumes "n \<le> 255" and "m \<le> 2 ^ 16"
  shows "\<lfloor>dadd (dmul (of_nat n) (fl 53 (of_nat m / 25))) (1 / 2)\<rfloor> = int ((2 * n * m + 25) div 50)"
proof -
  let ?y = "dadd (dmul (of_nat n) (fl 53 (of_nat m / 25))) (1 / 2) :: rat"
  have x: "of_nat m / 25 * of_nat n + 1 / 2 = (of_int (int (2 * n * m + 25)) / of_int 50 :: rat)"
    by (simp add: field_simps)
  have "m * n \<le> 2 ^ 16 * 255"
    using assms by (intro mult_le_mono)
  then have "of_nat (m * n) \<le> (of_nat (2 ^ 16 * 255) :: rat)"
    by (rule of_nat_mono)
  then have "of_nat m * of_nat n \<le> (2 ^ 16 * 255 :: rat)"
    by simp
  then have "4 * (of_nat m / 25 * of_nat n + 1) / 2 ^ 53 < (1 / of_int 50 :: rat)"
    by simp
  moreover have "\<bar>?y - (of_nat m / 25 * of_nat n + 1 / 2)\<bar> \<le> 4 * (of_nat m / 25 * of_nat n + 1) / 2 ^ 53"
    using double.scaled_half_error [of "of_nat m / 25" "of_nat n"] by (simp add: dadd_def dmul_def mult.commute)
  ultimately have near: "\<bar>?y - of_int (int (2 * n * m + 25)) / of_int 50\<bar> < 1 / of_int 50"
    unfolding x by (rule le_less_trans [rotated])
  have "int (2 * k + 25) mod 50 \<noteq> 0" for k
    by presburger
  from this [of "n * m"] have "int (2 * n * m + 25) mod 50 \<noteq> 0"
    by (simp add: mult.assoc)
  from floor_near_fraction [OF _ this near] show ?thesis
    by (simp add: zdiv_int)
qed

text \<open>The drive level of both boards is the scaled value rounded to the nearest integer, and never
  leaves the range of the signed 16-bit register.\<close>

lemma tx_levels:
  fixes d :: u8
  shows "unat (tx_level_value board_125 (ucast d)) = (2 * unat d * 3148 + 25) div 50 \<and>
    unat (tx_level_value board_122 (ucast d)) = (2 * unat d * 2148 + 25) div 50 \<and>
    unat (tx_level_value board_125 (ucast d)) < 2 ^ 15 \<and> unat (tx_level_value board_122 (ucast d)) < 2 ^ 15"
proof -
  have d: "unat d \<le> 255"
    using unat_lt [of d] by simp
  have v: "tx_level_value board_125 (ucast d) = of_nat ((2 * unat d * 3148 + 25) div 50)"
    "tx_level_value board_122 (ucast d) = of_nat ((2 * unat d * 2148 + 25) div 50)"
    using level_exact [OF d, of 3148] level_exact [OF d, of 2148]
    by (simp_all add: tx_level_value_def board_125_def board_122_def unat_ucast_up)
  have b: "(2 * unat d * 3148 + 25) div 50 \<le> 32110" "(2 * unat d * 2148 + 25) div 50 \<le> 32110"
    using d by (auto intro: div_le_mono [of _ "32110 * 50" 50, simplified])
  then show ?thesis
    unfolding v by (simp add: unat_of_nat_small)
qed

section \<open>The drive table\<close>

lemma fl_1: "fl 53 1 = 1"
  by code_simp

lemma drive_ratio:
  assumes "1 \<le> i" and "i \<le> 255"
  shows "0 < ddiv (of_nat i) 255 \<and> ddiv (of_nat i) 255 \<le> 1"
proof (cases "i = 255")
  case True
  then show ?thesis by (simp add: ddiv_def fl_1)
next
  case False
  with assms have "of_nat 1 \<le> (of_nat i :: rat)" and "of_nat i \<le> (of_nat 254 :: rat)"
    by (simp_all only: of_nat_le_iff)
  then have x: "1 / 255 \<le> (of_nat i / 255 :: rat)" "of_nat i / 255 \<le> (254 / 255 :: rat)"
    by (simp_all add: divide_right_mono)
  have "\<bar>ddiv (of_nat i) 255 - of_nat i / 255\<bar> \<le> of_nat i / 255 / 2 ^ 53"
    using fl_error [of 53 "of_nat i / 255"] by (simp add: ddiv_def)
  moreover have "of_nat i / 255 / 2 ^ 53 \<le> (254 / 255 / 2 ^ 53 :: rat)"
    using x(2) by (rule divide_right_mono) simp
  moreover have "(254 / 255 / 2 ^ 53 :: rat) < 1 / 255"
    by simp
  ultimately show ?thesis
    using x by linarith
qed

text \<open>For any \<open>log10\<close> that is not positive up to 1, the table has 256 attenuations of at most 63 half
  decibels, as the sketch's six bits allow, and no drive gives the largest.\<close>

lemma log_table_bounds:
  assumes "\<And>x. 0 < x \<Longrightarrow> x \<le> 1 \<Longrightarrow> log10 x \<le> 0"
  shows "length (calc_log_lookup log10) = 256 \<and> calc_log_lookup log10 ! 0 = 63 \<and>
    (\<forall>a\<in>set (calc_log_lookup log10). a \<le> 63)"
proof -
  have entry: "(let v = log_value log10 i in if 63 < v then 63 else word_of_int \<lfloor>v\<rfloor>) \<le> (63 :: u8)"
    if "1 \<le> i" "i \<le> 255" for i
  proof (cases "63 < log_value log10 i")
    case False
    have "0 < ddiv (of_nat i) 255" and "ddiv (of_nat i) 255 \<le> 1"
      using drive_ratio [OF that] by simp_all
    then have "0 \<le> - 40 * log10 (ddiv (of_nat i) 255)"
      using assms by simp
    then have "0 \<le> log_value log10 i"
      by (simp add: log_value_def dmul_def fl_nonneg)
    then obtain k where k: "\<lfloor>log_value log10 i\<rfloor> = int k"
      by (metis nonneg_int_cases zero_le_floor)
    moreover have "\<lfloor>log_value log10 i\<rfloor> \<le> 63"
      using False by (simp add: floor_le_iff not_less)
    ultimately show ?thesis
      using False by (simp add: word_le_nat_alt unat_of_nat_small Let_def)
  qed simp
  then show ?thesis
    by (auto simp: calc_log_lookup_def)
qed

lemma log_table_bounds_witness:
  "length (calc_log_lookup (\<lambda>x. x - 1)) = 256 \<and> calc_log_lookup (\<lambda>x. x - 1) ! 100 \<le> 63"
proof -
  have t: "length (calc_log_lookup (\<lambda>x. x - 1)) = 256 \<and> calc_log_lookup (\<lambda>x. x - 1) ! 0 = 63 \<and>
    (\<forall>a\<in>set (calc_log_lookup (\<lambda>x. x - 1)). a \<le> 63)"
    by (rule log_table_bounds) simp
  then have "calc_log_lookup (\<lambda>x. x - 1) ! 100 \<in> set (calc_log_lookup (\<lambda>x. x - 1))"
    by (intro nth_mem) simp
  with t show ?thesis by blast
qed

end
