(* ===== verification/Hpsdr_common.thy ===== *)
theory Hpsdr_common
  imports Mmio Clib "HOL-Library.Monad_Syntax"
begin

unbundle bit_operations_syntax

text \<open>
  What the HPSDR transceiver and the HPSDR receiver share: the selector arguments, waiting, copies between
  byte arrays that fail outside them, and the layout of the datagrams sent to the host. The locale
  \<open>tiling\<close> is what a loop promises that fills one region of an array per turn.
\<close>

section \<open>Arguments\<close>

text \<open>Selectors, 1 or 2 each, gathered into the bits of \<open>chan\<close>; anything else ends the program.\<close>

fun parse_selectors :: "nat \<Rightarrow> string list \<Rightarrow> u8 \<Rightarrow> u8 option" where
  "parse_selectors i [] chan = Some chan"
| "parse_selectors i (a # as) chan =
     (case parse_range 1 2 a of None \<Rightarrow> None
      | Some number \<Rightarrow> parse_selectors (i + 1) as (chan OR push_bit i (word_of_int (number - 1))))"

section \<open>Waiting\<close>

text \<open>\<open>while(c) usleep(1000);\<close>. What the FPGA and the other threads change during the sleep is \<open>env\<close>.\<close>

partial_function (option) sleep_while :: "('s machine_scheme \<Rightarrow> bool) \<Rightarrow> ('s machine_scheme \<Rightarrow> 's machine_scheme) \<Rightarrow>
    's machine_scheme \<Rightarrow> 's machine_scheme option" where
  "sleep_while c env s = (if c s then sleep_while c env (env (emit (Sleep 1000) s)) else Some s)"

text \<open>An invariant of the sleeps holds after them.\<close>

lemma sleep_while_invariant:
  assumes "sleep_while c env s = Some t" and "I s"
    and "\<And>s. I s \<Longrightarrow> c s \<Longrightarrow> I (env (emit (Sleep 1000) s))"
  shows "I t \<and> \<not> c t"
  using assms
proof (induction rule: sleep_while.raw_induct [rotated, consumes 1, case_names step])
  case (step f c env s t)
  show ?case
    using step.IH step.hyps step.prems by (auto split: if_splits) (metis (no_types, lifting))+
qed

text \<open>The wait ends as soon as the condition fails after some number of sleeps.\<close>

lemma sleep_while_ends:
  "\<not> c (((\<lambda>s. env (emit (Sleep 1000) s)) ^^ n) s) \<Longrightarrow> \<exists>t. sleep_while c env s = Some t"
proof (induction n arbitrary: s)
  case 0
  then show ?case by (simp add: sleep_while.simps)
next
  case (Suc n)
  show ?case
  proof (cases "c s")
    case True
    have "\<not> c (((\<lambda>s. env (emit (Sleep 1000) s)) ^^ n) (env (emit (Sleep 1000) s)))"
      using Suc.prems unfolding funpow_Suc_right by simp
    from Suc.IH [OF this] True show ?thesis
      by (simp add: sleep_while.simps)
  qed (simp add: sleep_while.simps)
qed

section \<open>The layout of the datagrams\<close>

definition ep6_id :: "u8 list" where "ep6_id = [0xef, 0xfe, 1, 6]"

text \<open>\<open>size\<close> and \<open>n\<close>: the bytes of a sample of all receivers, the samples of a frame.\<close>

definition sample_bytes :: "nat \<Rightarrow> nat" where "sample_bytes r = r * 6 + 2"
definition frame_samples :: "nat \<Rightarrow> nat" where "frame_samples r = 504 div sample_bytes r"

text \<open>The headers of the frames take turns; the two frames of a datagram of 1032 bytes follow eight bytes.\<close>

definition next_header :: "nat \<Rightarrow> nat" where
  "next_header off = (if 32 \<le> off then 0 else off + 8)"

definition frame_pointer :: "nat \<Rightarrow> nat" where
  "frame_pointer i = i * 516 - i mod 2 * 4 + 8"

text \<open>\<open>*(uint32_t *)(buffer + i * 1032 + 4) = htonl(counter); ++counter;\<close>\<close>

fun number_packets :: "nat list \<Rightarrow> u32 \<Rightarrow> u8 list \<Rightarrow> (u8 list \<times> u32) option" where
  "number_packets [] c buf = Some (buf, c)"
| "number_packets (i # is) c buf = do { buf \<leftarrow> memcpy buf (i * 1032 + 4) (be32 c) 0 4; number_packets is (c + 1) buf }"

section \<open>Results of computations that can fail\<close>

definition gives :: "'a option \<Rightarrow> ('a \<Rightarrow> bool) \<Rightarrow> bool" where
  "gives m Q \<longleftrightarrow> (\<exists>x. m = Some x \<and> Q x)"

lemma gives_Some [simp]: "gives (Some x) Q = Q x"
  by (simp add: gives_def)

lemma gives_bind [simp]: "gives (Option.bind m f) Q = gives m (\<lambda>x. gives (f x) Q)"
  by (cases m) (simp_all add: gives_def)

lemma gives_mono: "gives m P \<Longrightarrow> (\<And>x. P x \<Longrightarrow> Q x) \<Longrightarrow> gives m Q"
  by (auto simp: gives_def)

definition copied :: "'a list \<Rightarrow> nat \<Rightarrow> 'a list \<Rightarrow> nat \<Rightarrow> nat \<Rightarrow> 'a list \<Rightarrow> bool" where
  "copied dst off src soff len b \<longleftrightarrow> length b = length dst \<and>
     (\<forall>q<length dst. b ! q = (if off \<le> q \<and> q < off + len then src ! (soff + (q - off)) else dst ! q))"

lemma memcpy_gives:
  assumes "soff + len \<le> length src" and "off + len \<le> length dst"
    and "\<And>b. copied dst off src soff len b \<Longrightarrow> Q b"
  shows "gives (memcpy dst off src soff len) Q"
proof -
  have "copied dst off src soff len (blit dst off (take len (drop soff src)))"
    using assms(1,2) by (auto simp: copied_def nth_blit)
  then show ?thesis
    using assms by (simp add: memcpy_def)
qed

text \<open>What a computation leaves alone.\<close>

definition only :: "nat \<Rightarrow> nat \<Rightarrow> 'a list \<Rightarrow> 'a list \<Rightarrow> bool" where
  "only a z x y \<longleftrightarrow> length y = length x \<and> (\<forall>q<length x. \<not> (a \<le> q \<and> q < z) \<longrightarrow> y ! q = x ! q)"

lemma copied_only: "copied dst off src soff len b \<Longrightarrow> a \<le> off \<Longrightarrow> off + len \<le> z \<Longrightarrow> only a z dst b"
  by (auto simp: copied_def only_def)

lemma only_refl [simp]: "only a z x x"
  by (simp add: only_def)

lemma only_chain:
  assumes "only a z x y" and "only b w y u" and "c \<le> a" and "c \<le> b" and "z \<le> v" and "w \<le> v"
  shows "only c v x u"
  using assms by (auto simp: only_def)

lemma only_length: "only a z x y \<Longrightarrow> length y = length x"
  by (simp add: only_def)

lemma only_nth: "only a z x y \<Longrightarrow> q < length x \<Longrightarrow> q < a \<or> z \<le> q \<Longrightarrow> y ! q = x ! q"
  by (auto simp: only_def)

section \<open>Loops that fill one region per turn\<close>

text \<open>The array after the turns \<open>i\<close> to \<open>e - 1\<close>: each region holds its content, other places what they held.\<close>

definition filled :: "(nat \<Rightarrow> nat) \<Rightarrow> nat \<Rightarrow> (nat \<Rightarrow> nat \<Rightarrow> 'a) \<Rightarrow> nat \<Rightarrow> nat \<Rightarrow> 'a list \<Rightarrow> 'a list \<Rightarrow> bool" where
  "filled at width content i e x b \<longleftrightarrow> length b = length x \<and>
     (\<forall>j y. i \<le> j \<and> j < e \<and> y < width \<longrightarrow> b ! (at j + y) = content j y) \<and>
     (\<forall>q<length x. (\<forall>j. i \<le> j \<and> j < e \<longrightarrow> q < at j \<or> at j + width \<le> q) \<longrightarrow> b ! q = x ! q)"

fun turns :: "(nat \<Rightarrow> 'a \<Rightarrow> 'a option) \<Rightarrow> nat list \<Rightarrow> 'a \<Rightarrow> 'a option" where
  "turns put [] x = Some x"
| "turns put (i # is) x = Option.bind (put i x) (turns put is)"

lemma turns_append: "turns put (is @ js) x = Option.bind (turns put is x) (turns put js)"
  by (induction "is" arbitrary: x) (simp_all, metis Option.bind_assoc)

locale tiling =
  fixes put :: "nat \<Rightarrow> 'a list \<Rightarrow> 'a list option" and at :: "nat \<Rightarrow> nat" and width :: nat
    and content :: "nat \<Rightarrow> nat \<Rightarrow> 'a" and fits :: "nat \<Rightarrow> bool"
  assumes apart: "at i + width \<le> at (Suc i)"
    and put: "fits i \<Longrightarrow> at i + width \<le> length x \<Longrightarrow> gives (put i x) (filled at width content i (Suc i) x)"
begin

lemma ordered: "i < j \<Longrightarrow> at i + width \<le> at j"
proof (induction j)
  case (Suc j)
  then show ?case
    using apart [of j] by (cases "i = j") auto
qed simp

lemma extend:
  assumes "filled at width content i e x b" and "filled at width content e (Suc e) b c" and "i \<le> e"
    and "at e + width \<le> length x"
  shows "filled at width content i (Suc e) x c"
proof -
  have len: "length c = length x" "length b = length x"
    using assms(1,2) by (simp_all add: filled_def)
  have keep: "c ! q = b ! q" if "q < length x" "q < at e \<or> at e + width \<le> q" for q
    using assms(2) that len by (auto simp: filled_def less_Suc_eq)
  have "c ! (at j + y) = content j y" if "i \<le> j" "j < Suc e" "y < width" for j y
  proof (cases "j = e")
    case True
    then show ?thesis
      using assms(2) that by (simp add: filled_def)
  next
    case False
    then have "at j + y < at e" "j < e"
      using ordered [of j e] that by auto
    then show ?thesis
      using keep [of "at j + y"] assms(1,4) that by (simp add: filled_def)
  qed
  moreover have "c ! q = x ! q" if "q < length x" "\<forall>j. i \<le> j \<and> j < Suc e \<longrightarrow> q < at j \<or> at j + width \<le> q" for q
    using keep [of q] assms(1,3) that by (auto simp: filled_def)
  ultimately show ?thesis
    unfolding filled_def using len by blast
qed

lemma turns_fill:
  assumes "i \<le> e" and "\<And>j. i \<le> j \<Longrightarrow> j < e \<Longrightarrow> fits j" and "\<And>j. i \<le> j \<Longrightarrow> j < e \<Longrightarrow> at j + width \<le> length x"
  shows "gives (turns put [i..<e] x) (filled at width content i e x)"
  using assms
proof (induction rule: dec_induct)
  case base
  show ?case by (auto simp: filled_def)
next
  case (step e)
  have "gives (turns put [i..<e] x) (\<lambda>b. gives (put e b) (filled at width content i (Suc e) x))"
  proof (rule gives_mono [OF step.IH])
    fix b
    assume b: "filled at width content i e x b"
    then have "at e + width \<le> length b"
      using step by (simp add: filled_def)
    from put [OF _ this] show "gives (put e b) (filled at width content i (Suc e) x)"
      using step by (auto intro: gives_mono extend [OF b])
  qed (use step in auto)
  with step show ?case
    by (simp add: turns_append)
qed

end

text \<open>A single copy fills a region.\<close>

lemma copy_fills:
  assumes "soff + width \<le> length src" and "at i + width \<le> length x" and "\<And>y. y < width \<Longrightarrow> src ! (soff + y) = content i y"
  shows "gives (memcpy x (at i) src soff width) (filled at width content i (Suc i) x)"
  using assms by (intro memcpy_gives) (auto simp: copied_def filled_def less_Suc_eq)

section \<open>Facts of the layout\<close>

definition valid_receivers :: "nat \<Rightarrow> bool" where
  "valid_receivers r \<longleftrightarrow> 1 \<le> r \<and> r \<le> 8"

definition header_ok :: "nat \<Rightarrow> bool" where
  "header_ok off \<longleftrightarrow> off \<in> {0, 8, 16, 24, 32}"

lemma valid_receivers_cases: "valid_receivers r \<Longrightarrow> r \<in> {1, 2, 3, 4, 5, 6, 7, 8}"
  by (auto simp: valid_receivers_def)

lemma frame_fits: "frame_samples r * sample_bytes r \<le> 504"
  by (simp add: frame_samples_def)

lemma next_header_ok: "header_ok off \<Longrightarrow> header_ok (next_header off)"
  by (auto simp: header_ok_def next_header_def)

lemma header_ok_funpow: "header_ok off \<Longrightarrow> header_ok ((next_header ^^ k) off)"
  by (induction k) (simp_all add: next_header_ok)

lemma frame_pointer_parity [simp]:
  "frame_pointer (2 * a) = 1032 * a + 8" "frame_pointer (Suc (2 * a)) = 1032 * a + 520"
  by (simp_all add: frame_pointer_def)

lemma frame_pointer_Suc: "frame_pointer i + 512 \<le> frame_pointer (Suc i)"
proof (cases "even i")
  case False
  then obtain a where "i = Suc (2 * a)" by (auto elim: oddE)
  then show ?thesis
    using frame_pointer_parity(1) [of "Suc a"] by simp
qed (auto elim!: evenE)

lemma between_frames:
  assumes "frame_pointer i \<le> q" and "q < frame_pointer i + 512"
  shows "8 \<le> q mod 1032"
proof -
  have "\<exists>a e. q = 1032 * a + e \<and> 8 \<le> e \<and> e < 1032"
  proof (cases "even i")
    case True
    then obtain a where "i = 2 * a" by (auto elim: evenE)
    then show ?thesis
      using assms by (intro exI [of _ a] exI [of _ "q - 1032 * a"]) auto
  next
    case False
    then obtain a where "i = Suc (2 * a)" by (auto elim: oddE)
    then show ?thesis
      using assms by (intro exI [of _ a] exI [of _ "q - 1032 * a"]) auto
  qed
  then show ?thesis by auto
qed

lemma sample_in_frame:
  assumes "j < frame_samples r"
  shows "j * sample_bytes r + sample_bytes r \<le> 504"
proof -
  have "Suc j * sample_bytes r \<le> frame_samples r * sample_bytes r"
    using assms by (intro mult_le_mono1) simp
  with frame_fits [of r] show ?thesis by simp
qed

lemma mod_between:
  fixes q :: nat
  assumes "i * k + a \<le> q" and "q < i * k + b" and "b \<le> k"
  shows "a \<le> q mod k \<and> q mod k < b"
proof -
  obtain e where "q = i * k + e"
    using assms(1) by (metis add.assoc le_Suc_ex)
  with assms show ?thesis by simp
qed

text \<open>The loop that numbers the datagrams.\<close>

definition number_put :: "u32 \<Rightarrow> nat \<Rightarrow> u8 list \<Rightarrow> u8 list option" where
  "number_put c i buf = memcpy buf (i * 1032 + 4) (be32 (c + of_nat i)) 0 4"

definition number_at :: "nat \<Rightarrow> nat" where "number_at i = i * 1032 + 4"

interpretation numbering: tiling "number_put c" number_at 4 "\<lambda>i y. be32 (c + of_nat i) ! y" "\<lambda>i. True" for c
proof
  show "number_at i + 4 \<le> number_at (Suc i)" for i
    by (simp add: number_at_def)
  show "gives (number_put c i x) (filled number_at 4 (\<lambda>i y. be32 (c + of_nat i) ! y) i (Suc i) x)"
    if "number_at i + 4 \<le> length x" for i x
    unfolding number_put_def number_at_def [symmetric] using that by (intro copy_fills) simp_all
qed

lemma number_packets_turns:
  "number_packets [i..<m] (c + of_nat i) x = map_option (\<lambda>b. (b, c + of_nat (max i m))) (turns (number_put c) [i..<m] x)"
proof (induction "m - i" arbitrary: i x)
  case (Suc t)
  then have "i < m" and IH: "number_packets [Suc i..<m] (c + of_nat (Suc i)) x =
      map_option (\<lambda>b. (b, c + of_nat (max (Suc i) m))) (turns (number_put c) [Suc i..<m] x)" for x
    by (auto simp del: of_nat_Suc)
  have s: "c + of_nat i + 1 = c + of_nat (Suc i)"
    by simp
  show ?case
    using \<open>i < m\<close> unfolding upt_conv_Cons [OF \<open>i < m\<close>] number_packets.simps turns.simps s
    by (simp add: number_put_def IH [abs_def] map_option_bind max_def comp_def fun_eq_iff del: of_nat_Suc)
qed simp

lemma number_packets_fills:
  assumes "m * 1032 \<le> length x"
  shows "gives (number_packets [0..<m] c x) (\<lambda>(b, e). e = c + of_nat m \<and>
    filled number_at 4 (\<lambda>i y. be32 (c + of_nat i) ! y) 0 m x b)"
proof -
  have "number_at j + 4 \<le> length x" if "j < m" for j
  proof -
    have "Suc j * 1032 \<le> m * 1032"
      using that by (intro mult_le_mono1) simp
    with assms show ?thesis by (simp add: number_at_def)
  qed
  then have "gives (turns (number_put c) [0..<m] x) (filled number_at 4 (\<lambda>i y. be32 (c + of_nat i) ! y) 0 m x)"
    by (intro numbering.turns_fill) simp_all
  then show ?thesis
    using number_packets_turns [of 0 m c x] by (auto simp: gives_def)
qed

end
