(* ===== verification/Hpsdr_main.thy ===== *)
theory Hpsdr_main
  imports Hpsdr_outputs Hpsdr_common
begin

unbundle bit_operations_syntax

text \<open>
  \<open>main\<close> of \<open>sdr-transceiver-hpsdr.c\<close>: the selector arguments, the search for I2C devices, the initial
  register contents, the dispatch of the datagrams received and the update of the filter outputs
  after every batch. Which devices answer, the trigonometric functions and what the other threads
  and the FPGA do while this one sleeps are parameters.
\<close>

section \<open>Arguments\<close>

text \<open>Six selectors, 1 or 2 each, gathered into the bits of \<open>chan\<close>; anything else ends the program.\<close>

definition parse_chan :: "string list \<Rightarrow> u8 option" where
  "parse_chan args = (if length args = 6 then parse_selectors 0 args 0 else None)"

section \<open>I2C devices\<close>

text \<open>\<open>sel\<close> tells which addresses \<open>ioctl\<close> accepts, \<open>ack\<close> at which the first \<open>write\<close> succeeds. A device
  is marked as found after that write and then gets the remaining ones.\<close>

definition i2c_more :: "u8 list list \<Rightarrow> hpsdr \<Rightarrow> hpsdr" where
  "i2c_more ws s = foldl (\<lambda>s w. emit (I2cWrite w) s) s ws"

definition probe :: "(u8 \<Rightarrow> bool) \<Rightarrow> (u8 \<Rightarrow> bool) \<Rightarrow> u8 \<Rightarrow> u8 list \<Rightarrow> (hpsdr \<Rightarrow> hpsdr) \<Rightarrow>
    u8 list list \<Rightarrow> hpsdr \<Rightarrow> hpsdr" where
  "probe sel ack addr bs found rest s =
     (if sel addr then
        let s = i2c_send addr bs s
        in if ack addr then i2c_more rest (found s) else s
      else s)"

definition codec_setup :: "u8 list list" where
  "codec_setup = [addr_data8 0x0c 0x51, addr_data8 0x12 0x00, addr_data8 0x04 0x6f, addr_data8 0x06 0x6f,
     addr_data8 0x08 0x14, addr_data8 0x0a 0x00, addr_data8 0x0e 0x42, addr_data8 0x12 0x01, addr_data8 0x0c 0x41]"

definition probe_all :: "(u8 \<Rightarrow> bool) \<Rightarrow> (u8 \<Rightarrow> bool) \<Rightarrow> hpsdr \<Rightarrow> hpsdr" where
  "probe_all sel ack s =
     (let s = probe sel ack ADDR_PENE (addr_data16 2 0) (upd has_pene_update True) [addr_data16 6 0] s;
          s = probe sel ack ADDR_ALEX (addr_data16 2 0) (upd has_alex_update True) [addr_data16 6 0] s;
          s = probe sel ack ADDR_LEVEL (addr_data16 2 0) (upd has_level_update True) [addr_data16 6 0] s;
          s = probe sel ack ADDR_MISC (addr_data16 2 0) (upd has_misc_update True) [addr_data16 6 0] s;
          s = probe sel ack ADDR_DRIVE (addr_data16 0xa9 0) (upd has_drive_update True) [] s;
          s = probe sel ack ADDR_DAC0 (data16 (dac0_data s)) (upd has_dac0_update True) [] s;
          s = probe sel ack ADDR_DAC1 (data16 (dac1_data s)) (upd has_dac1_update True) [] s;
          s = probe sel ack ADDR_ARDUINO (addr_data16 1 (ard_frx1 s)) (upd has_arduino_update True) [] s;
          s = probe sel ack ADDR_NUCLEO (data40 0x02100000 0) (upd has_nucleo_update True) [] s
      in probe sel ack ADDR_CODEC (addr_data8 0x1e 0) (upd has_codec_update True) codec_setup s)"

section \<open>Ramps\<close>

text \<open>The integral of a Blackman-Harris window, with \<open>float\<close> variables and \<open>double\<close> arithmetic;
  \<open>M_PI\<close> is the \<open>double\<close> nearest to the number.\<close>

definition pi_double :: rat where "pi_double = 884279719003555 / 281474976710656"

definition window :: "(rat \<Rightarrow> rat) \<Rightarrow> nat \<Rightarrow> nat \<Rightarrow> rat \<Rightarrow> rat" where
  "window cosine points i acc =
     (let a0 = fl 24 (35875 / 100000); a1 = fl 24 (48829 / 100000); a2 = fl 24 (14128 / 100000); a3 = fl 24 (1168 / 100000);
          c = (\<lambda>k. cosine (ddiv (dmul (dmul k pi_double) (of_nat i)) (of_nat points)))
      in fl 24 (dadd (dadd (dadd (dadd acc a0) (- dmul a1 (c 2))) (dmul a2 (c 4))) (- dmul a3 (c 6))))"

text \<open>\<open>ramp[0] .. ramp[size]\<close>.\<close>

definition ramp_values :: "(rat \<Rightarrow> rat) \<Rightarrow> nat \<Rightarrow> rat list" where
  "ramp_values cosine points = rev (foldl (\<lambda>rs i. window cosine points i (hd rs) # rs) [0] [1..<points + 1])"

definition ramp_table :: "(rat \<Rightarrow> rat) \<Rightarrow> nat \<Rightarrow> rat \<Rightarrow> int list" where
  "ramp_table cosine points full =
     (let ramp = ramp_values cosine points; scale = fl 24 (ddiv full (ramp ! points))
      in map (\<lambda>r. \<lfloor>dadd (fl 24 (r * scale)) (1 / 2)\<rfloor>) ramp)"

definition write_table :: "(nat \<Rightarrow> port) \<Rightarrow> int list \<Rightarrow> hpsdr \<Rightarrow> hpsdr" where
  "write_table p vs s = foldl (\<lambda>s (i, v). emit (Port (p i) (word_of_int v)) s) s (enumerate 0 vs)"

section \<open>Initial registers\<close>

definition init_tx :: "board \<Rightarrow> (rat \<Rightarrow> rat) \<Rightarrow> u8 \<Rightarrow> hpsdr \<Rightarrow> hpsdr" where
  "init_tx b cosine chan s =
     (let s = wr8 rx_sel (chan AND 15) s;
          s = wr8 tx_sel (drop_bit 4 chan AND 3) s;
          s = wr8 gpio_out 0 s;
          s = wr32 rx_freq0 (increment b 600000) s;
          s = wr32 rx_freq1 (increment b 600000) s;
          s = wr32 rx_freq2 (increment b 600000) s;
          s = wr16 rx_rate (default_rate b) s;
          s = wr32 tx_freq (increment b 600000) s;
          s = write_table TxRamp (ramp_table cosine 1001 (ramp_scale b)) s;
          s = wr16 tx_size 1001 s;
          s = wr16 tx_level (default_tx_level b) s;
          s = wr16 ps_level (default_ps_level b) s;
          s = clear8 tx_rst 16 s;
          s = set8 tx_rst 3 (clear8 tx_rst 3 s)
      in set8 lo_rst 4 (clear8 lo_rst 4 s))"

definition init_codec :: "(rat \<Rightarrow> rat) \<Rightarrow> hpsdr \<Rightarrow> hpsdr" where
  "init_codec cosine s =
     (if has_codec s then
        let s = set8 rx_rst 2 (clear8 rx_rst 2 s);
            s = clear8 rx_rst 4 s;
            s = wr32 dac_freq (sidetone_increment 600) s;
            s = write_table DacRamp (ramp_table cosine 481 32000) s;
            s = wr16 dac_size 481 s
        in wr16 dac_level 3200 s
      else set8 rx_rst 4 s)"

definition hpsdr_init :: "board \<Rightarrow> (rat \<Rightarrow> rat) \<Rightarrow> (rat \<Rightarrow> rat) \<Rightarrow> (u8 \<Rightarrow> bool) \<Rightarrow> (u8 \<Rightarrow> bool) \<Rightarrow> string list \<Rightarrow> hpsdr \<Rightarrow>
    hpsdr option" where
  "hpsdr_init b cosine log10 sel ack args s =
     (case parse_chan args of None \<Rightarrow> None
      | Some chan \<Rightarrow>
          Some (upd log_table_update (calc_log_lookup log10)
            (init_codec cosine (init_tx b cosine chan (probe_all sel ack s)))))"

section \<open>Datagrams\<close>

text \<open>The words of 63 samples of eight bytes from an offset of the datagram; the first word of a sample
  is only used for envelope elimination and restoration.\<close>

definition tx_words :: "u8 list \<Rightarrow> bool \<Rightarrow> nat \<Rightarrow> u32 list" where
  "tx_words buf eer off = concat (map (\<lambda>j. [if eer then le32_at buf (off + 8 * j) else 0, le32_at buf (off + 4 + 8 * j)]) [0..<63])"

definition ports :: "port \<Rightarrow> u32 list \<Rightarrow> hpsdr \<Rightarrow> hpsdr" where
  "ports p ws s = foldl (\<lambda>s w. emit (Port p w) s) s ws"

definition feed_tx :: "u8 list \<Rightarrow> hpsdr \<Rightarrow> hpsdr" where
  "feed_tx buf s =
     (let s = (if tx_cntr s = 0 then ports Fifo (replicate 2520 0) s else s)
      in if (rd8 gpio_out s AND 1) OR (gpio_in s AND 1) \<noteq> 0
         then ports Fifo (tx_words buf (tx_eer_data s \<noteq> 0) 528) (ports Fifo (tx_words buf (tx_eer_data s \<noteq> 0) 16) s)
         else ports Fifo (replicate 252 0) s)"

definition codec_words :: "u8 list \<Rightarrow> nat \<Rightarrow> u32 list" where
  "codec_words buf off = map (\<lambda>j. le32_at buf (off + 8 * j)) [0..<63]"

definition feed_codec :: "u8 list \<Rightarrow> hpsdr \<Rightarrow> hpsdr" where
  "feed_codec buf s =
     (let s = (if dac_cntr s = 0 then ports Codec (replicate 1260 0) s else s)
      in ports Codec (codec_words buf 528) (ports Codec (codec_words buf 16) s))"

text \<open>The case \<open>0x0201feef\<close>: samples to transmit and two command frames.\<close>

definition data_packet :: "board \<Rightarrow> (hpsdr \<Rightarrow> hpsdr) \<Rightarrow> u8 list \<Rightarrow> hpsdr \<Rightarrow> hpsdr option" where
  "data_packet b env buf s =
     (case (if tx_mux_data s = 0 then
              case sleep_while (\<lambda>s. 3844 < tx_cntr s) env s of None \<Rightarrow> None | Some s \<Rightarrow> Some (feed_tx buf s)
            else Some s) of
        None \<Rightarrow> None
      | Some s \<Rightarrow>
          (case (if has_codec s then
                   case sleep_while (\<lambda>s. 1922 < dac_cntr s) env s of None \<Rightarrow> None | Some s \<Rightarrow> Some (feed_codec buf s)
                 else Some s) of
             None \<Rightarrow> None
           | Some s \<Rightarrow> Some (process_ep2 b (drop 523 buf) (process_ep2 b (drop 11 buf) s))))"

text \<open>The case \<open>0x0002feef\<close>: discovery. \<open>mac\<close> is the hardware address.\<close>

definition discovery_reply :: "u8 list \<Rightarrow> bool \<Rightarrow> u8 list" where
  "discovery_reply mac active = [0xef, 0xfe, 2 + flag active] @ take 6 mac @ [32, 1] @ replicate 49 0"

text \<open>The cases \<open>0x0004feef\<close> and \<open>0x0104feef\<close> to \<open>0x0304feef\<close>: the receiver thread is stopped and started;
  it clears \<open>ep_active\<close> when it ends.\<close>

definition stop_receiver :: "(hpsdr \<Rightarrow> hpsdr) \<Rightarrow> hpsdr \<Rightarrow> hpsdr option" where
  "stop_receiver env s = sleep_while ep_active env (s\<lparr>ep_enable := False\<rparr>)"

definition start_receiver :: "(hpsdr \<Rightarrow> hpsdr) \<Rightarrow> hpsdr \<Rightarrow> hpsdr option" where
  "start_receiver env s =
     (case stop_receiver env s of None \<Rightarrow> None
      | Some s \<Rightarrow> Some (reset_rx_los (s\<lparr>ep_enable := True, ep_active := True, rx_sync_data := 0\<rparr>)))"

definition dispatch :: "board \<Rightarrow> (hpsdr \<Rightarrow> hpsdr) \<Rightarrow> u8 list \<Rightarrow> u8 list \<Rightarrow> hpsdr \<Rightarrow> hpsdr option" where
  "dispatch b env mac buf s =
     (let code = le32_at buf 0 in
      if code = 0x0201feef then data_packet b env buf s
      else if code = 0x0002feef then Some (emit (Send (discovery_reply mac (ep_active s))) s)
      else if code = 0x0004feef then stop_receiver env s
      else if code = 0x0104feef \<or> code = 0x0204feef \<or> code = 0x0304feef then start_receiver env s
      else Some s)"

section \<open>Filter updates\<close>

definition main_alex :: "hpsdr \<Rightarrow> hpsdr" where
  "main_alex s =
     (let s = note_change alex_0 (upd alex_0_update) mark_alex (alex_0 s OR ucast (cw_ptt s)) s
      in if alex_update s then alex_write (s\<lparr>alex_update := False\<rparr>) else s)"

definition main_misc :: "hpsdr \<Rightarrow> hpsdr" where
  "main_misc s = (if misc_update s then misc_write (s\<lparr>misc_update := False\<rparr>) else s)"

text \<open>\<open>data\<close> is a \<open>uint16_t\<close>; only its low 16 bits are compared and stored.\<close>

definition main_nucleo :: "hpsdr \<Rightarrow> hpsdr" where
  "main_nucleo s =
     (let data = ucast (nucleo_0 s OR ucast (cw_ptt s)) :: u16;
          s = note_change nucleo_0 (upd nucleo_0_update) mark_nucleo (ucast data) s
      in if nucleo_update s then nucleo_write (s\<lparr>nucleo_update := False\<rparr>) else s)"

definition main_updates :: "hpsdr \<Rightarrow> hpsdr" where
  "main_updates s = main_nucleo (main_misc (main_alex s))"

text \<open>One turn of the main loop, for the datagrams one \<open>recvmmsg\<close> returned.\<close>

fun dispatch_all :: "board \<Rightarrow> (hpsdr \<Rightarrow> hpsdr) \<Rightarrow> u8 list \<Rightarrow> u8 list list \<Rightarrow> hpsdr \<Rightarrow> hpsdr option" where
  "dispatch_all b env mac [] s = Some s"
| "dispatch_all b env mac (buf # bufs) s =
     (case dispatch b env mac buf s of None \<Rightarrow> None | Some s \<Rightarrow> dispatch_all b env mac bufs s)"

definition main_turn :: "board \<Rightarrow> (hpsdr \<Rightarrow> hpsdr) \<Rightarrow> u8 list \<Rightarrow> u8 list list \<Rightarrow> hpsdr \<Rightarrow> hpsdr option" where
  "main_turn b env mac bufs s = map_option main_updates (dispatch_all b env mac bufs s)"

end
