(* ===== verification/Hpsdr_keyer.thy ===== *)
theory Hpsdr_keyer
  imports Hpsdr_main
begin

unbundle bit_operations_syntax

text \<open>
  The keyer thread of \<open>sdr-transceiver-hpsdr.c\<close>: \<open>cw_input\<close> to \<open>handler_keyer\<close>. It samples the paddles every
  millisecond and keys the transmitter through the bits of \<open>tx_rst\<close>: 4 is the carrier, 8 the sidetone,
  16 the multiplexer, 32 push-to-talk. What the other threads and the paddles change while it sleeps is
  the parameter \<open>env\<close>. A division by a speed of zero has no defined result and is \<open>None\<close>.
\<close>

abbreviation "RF \<equiv> (4 :: u8)"
abbreviation "SIDETONE \<equiv> (8 :: u8)"
abbreviation "MUX \<equiv> (16 :: u8)"
abbreviation "PTT \<equiv> (32 :: u8)"

definition nap :: "(hpsdr \<Rightarrow> hpsdr) \<Rightarrow> nat \<Rightarrow> hpsdr \<Rightarrow> hpsdr" where
  "nap env us s = env (emit (Sleep us) s)"

definition cw_input :: "hpsdr \<Rightarrow> u32" where
  "cw_input s =
     (if cw_int_data s = 0 then 0
      else let input = ucast (drop_bit 1 (gpio_in s) AND 3) in
        if cw_reversed s \<noteq> 0 then push_bit 1 (input AND 1) OR drop_bit 1 input else input)"

section \<open>Sampling during a delay\<close>

text \<open>The body of the delay loops of \<open>cw_on\<close> and \<open>cw_signal_delay\<close>, and of \<open>cw_off\<close>.\<close>

definition sample_mode :: "(hpsdr \<Rightarrow> hpsdr) \<Rightarrow> hpsdr \<Rightarrow> hpsdr" where
  "sample_mode env s =
     (let s = nap env 1000 s; s = s\<lparr>cw_mem0 := cw_input s\<rparr>
      in if cw_mode s = 1 \<and> cw_mem0 s = 0 then s\<lparr>cw_mem1 := 0\<rparr> else s\<lparr>cw_mem1 := cw_mem1 s OR cw_mem0 s\<rparr>)"

definition sample :: "(hpsdr \<Rightarrow> hpsdr) \<Rightarrow> hpsdr \<Rightarrow> hpsdr" where
  "sample env s =
     (let s = nap env 1000 s; s = s\<lparr>cw_mem0 := cw_input s\<rparr> in s\<lparr>cw_mem1 := cw_mem1 s OR cw_mem0 s\<rparr>)"

text \<open>\<open>1200 / cw_speed\<close>, and the shorter of it and \<open>cw_delay\<close>.\<close>

definition dot_time :: "hpsdr \<Rightarrow> nat" where
  "dot_time s = 1200 div unat (cw_speed s)"

definition lead_time :: "hpsdr \<Rightarrow> nat" where
  "lead_time s = (let delay = dot_time s in if unat (cw_delay s) < delay then unat (cw_delay s) else delay)"

section \<open>Keying\<close>

definition cw_on :: "(hpsdr \<Rightarrow> hpsdr) \<Rightarrow> hpsdr \<Rightarrow> hpsdr option" where
  "cw_on env s =
     (if cw_speed s = 0 then None
      else
        let delay = lead_time s;
            s = set8 tx_rst PTT s;
            s = s\<lparr>cw_ptt := 1\<rparr>;
            s = set8 tx_rst MUX s;
            s = s\<lparr>tx_mux_data := 1\<rparr>;
            s = (if has_codec s \<and> 0 < dac_level_data s then set8 tx_rst SIDETONE s else s);
            s = (sample_mode env ^^ delay) s
        in Some (set8 tx_rst RF s))"

definition cw_off :: "(hpsdr \<Rightarrow> hpsdr) \<Rightarrow> hpsdr \<Rightarrow> hpsdr option" where
  "cw_off env s =
     (if cw_speed s = 0 then None
      else
        let delay = lead_time s;
            s = (if has_codec s then clear8 tx_rst SIDETONE s else s);
            s = (sample env ^^ delay) s;
            s = clear8 tx_rst RF s
        in Some (s\<lparr>cw_ptt_delay := if 0 < cw_hang s then uint (cw_hang s) else 10\<rparr>))"

definition cw_ptt_off :: "hpsdr \<Rightarrow> hpsdr" where
  "cw_ptt_off s =
     (let s = s\<lparr>cw_ptt_delay := cw_ptt_delay s - 1\<rparr> in
      if 0 < cw_ptt_delay s then s
      else
        let s = clear8 tx_rst PTT s;
            s = s\<lparr>cw_ptt := 0\<rparr>;
            s = set8 tx_rst 1 (clear8 tx_rst 1 s);
            s = clear8 tx_rst MUX s
        in s\<lparr>tx_mux_data := 0\<rparr>)"

text \<open>\<open>code\<close> selects a dot or, when it is 0, a dash.\<close>

definition signal_time :: "nat \<Rightarrow> hpsdr \<Rightarrow> nat" where
  "signal_time code s =
     (if code \<noteq> 0 then dot_time s else 3600 * unat (cw_weight s) div (50 * unat (cw_speed s))) - unat (cw_delay s)"

definition cw_signal_delay :: "(hpsdr \<Rightarrow> hpsdr) \<Rightarrow> nat \<Rightarrow> hpsdr \<Rightarrow> hpsdr option" where
  "cw_signal_delay env code s =
     (if cw_speed s = 0 then None else Some ((sample_mode env ^^ signal_time code s) s))"

text \<open>A pause samples the paddles and counts push-to-talk down.\<close>

definition pause :: "(hpsdr \<Rightarrow> hpsdr) \<Rightarrow> hpsdr \<Rightarrow> hpsdr" where
  "pause env s =
     (let s = nap env 1000 s;
          s = (if cw_ptt s \<noteq> 0 then cw_ptt_off s else s);
          s = s\<lparr>cw_mem0 := cw_input s\<rparr>
      in s\<lparr>cw_mem1 := cw_mem1 s OR cw_mem0 s\<rparr>)"

definition cw_space_delay :: "(hpsdr \<Rightarrow> hpsdr) \<Rightarrow> nat \<Rightarrow> hpsdr \<Rightarrow> hpsdr option" where
  "cw_space_delay env code s =
     (if cw_speed s = 0 then None
      else
        let delay = (if code \<noteq> 0 then dot_time s - unat (cw_delay s) else 2400 div unat (cw_speed s))
        in Some ((pause env ^^ delay) s))"

section \<open>The thread\<close>

text \<open>With a straight key the carrier stays on as long as the key is down.\<close>

partial_function (option) key_down :: "(hpsdr \<Rightarrow> hpsdr) \<Rightarrow> hpsdr \<Rightarrow> hpsdr option" where
  "key_down env s =
     (if cw_mem0 s AND 1 \<noteq> 0
      then let s = nap env 1000 s in key_down env (s\<lparr>cw_mem0 := cw_input s\<rparr>)
      else Some s)"

text \<open>The other contact of a straight key sends a dot.\<close>

definition single_dot :: "(hpsdr \<Rightarrow> hpsdr) \<Rightarrow> hpsdr \<Rightarrow> hpsdr option" where
  "single_dot env s =
     (case cw_on env s of None \<Rightarrow> None
      | Some s \<Rightarrow>
          if cw_speed s = 0 then None
          else
            let delay = dot_time s - unat (cw_delay s);
                s = (if 0 < delay then nap env (delay * 1000) s else s)
            in (case cw_off env s of None \<Rightarrow> None | Some s \<Rightarrow> cw_space_delay env 1 s))"

definition straight_key :: "(hpsdr \<Rightarrow> hpsdr) \<Rightarrow> hpsdr \<Rightarrow> hpsdr option" where
  "straight_key env s =
     (case cw_on env s of None \<Rightarrow> None
      | Some s \<Rightarrow> (case key_down env s of None \<Rightarrow> None | Some s \<Rightarrow> cw_off env s))"

text \<open>One element of the iambic keyer: the carrier, the pause after it, and the memory of the paddles.\<close>

definition element :: "(hpsdr \<Rightarrow> hpsdr) \<Rightarrow> nat \<Rightarrow> hpsdr \<Rightarrow> hpsdr option" where
  "element env state s =
     (let s = s\<lparr>cw_mem1 := 0\<rparr> in
      case cw_on env s of None \<Rightarrow> None
      | Some s \<Rightarrow> (case cw_signal_delay env state s of None \<Rightarrow> None
        | Some s \<Rightarrow> (case cw_off env s of None \<Rightarrow> None
          | Some s \<Rightarrow> (case cw_space_delay env 1 s of None \<Rightarrow> None
            | Some s \<Rightarrow>
                let s = s\<lparr>cw_mem1 := cw_mem1 s AND NOT (push_bit state 1)\<rparr>
                in Some (s\<lparr>cw_mem1 := cw_mem1 s OR cw_mem0 s\<rparr>)))))"

partial_function (option) iambic :: "(hpsdr \<Rightarrow> hpsdr) \<Rightarrow> nat \<Rightarrow> hpsdr \<Rightarrow> hpsdr option" where
  "iambic env state s =
     (case (if bit (cw_mem1 s) state then element env state s else Some s) of
        None \<Rightarrow> None
      | Some s \<Rightarrow>
          if cw_mem1 s \<noteq> 0 then iambic env (1 - state) s
          else if cw_spacing s \<noteq> 0 then
            (case cw_space_delay env 0 s of None \<Rightarrow> None
             | Some s \<Rightarrow> if cw_mem1 s \<noteq> 0 then iambic env 1 s else Some s)
          else Some s)"

definition keyer_turn :: "(hpsdr \<Rightarrow> hpsdr) \<Rightarrow> hpsdr \<Rightarrow> hpsdr option" where
  "keyer_turn env s =
     (let s = nap env 1000 s;
          s = (if cw_ptt s \<noteq> 0 then cw_ptt_off s else s);
          s = s\<lparr>cw_mem0 := cw_input s\<rparr>
      in if cw_mem0 s = 0 then Some s
         else if cw_mode s = 0 then
           if cw_mem0 s AND 1 \<noteq> 0 then straight_key env s else single_dot env s
         else iambic env 1 (s\<lparr>cw_mem1 := cw_mem0 s\<rparr>))"

end
