(* ===== verification/Hpsdr_main_spec.thy ===== *)
theory Hpsdr_main_spec
  imports Hpsdr_main
begin

unbundle bit_operations_syntax

text \<open>
  Properties of \<open>main\<close>: the selectors, the samples handed to the FIFOs, the devices found, the stop of the
  receiver thread, and the filter outputs, which follow every change of a setting they depend on.
\<close>

section \<open>Selectors\<close>

lemma parse_selectors_bits:
  assumes "parse_selectors i as chan = Some c" and "i + length as \<le> 8"
  shows "bit c k \<longleftrightarrow> bit chan k \<or> i \<le> k \<and> k < i + length as \<and> parse_range 1 2 (as ! (k - i)) = Some 2"
  using assms
proof (induction as arbitrary: i chan)
  case Nil
  then show ?case by auto
next
  case (Cons a as)
  then obtain number where a: "parse_range 1 2 a = Some number"
    and rest: "parse_selectors (i + 1) as (chan OR push_bit i (word_of_int (number - 1))) = Some c"
    by (auto split: option.splits)
  have "number = 1 \<or> number = 2"
    using parse_range_bounds [OF a] by auto
  define w :: u8 where "w = push_bit i (word_of_int (number - 1))"
  have w: "bit w k \<longleftrightarrow> k = i \<and> number = 2" for k
    unfolding w_def using Cons.prems(2) \<open>number = 1 \<or> number = 2\<close> by (auto simp: bit_push_bit_iff bit_1_iff)
  show ?case
    using Cons.IH [OF rest [folded w_def]] Cons.prems(2) a by (auto simp: bit_or_iff w nth_Cons' Suc_le_eq)
qed

lemma parse_selectors_none:
  "parse_selectors i as chan = None \<longleftrightarrow> (\<exists>a\<in>set as. parse_range 1 2 a = None)"
  by (induction as arbitrary: i chan) (auto split: option.splits)

text \<open>The selectors are read from exactly six numbers, each 1 or 2, and bit \<open>k\<close> of the result tells
  whether the \<open>k\<close>-th is 2; any other command line is rejected.\<close>

lemma selectors:
  "(parse_chan args = None \<longleftrightarrow> length args \<noteq> 6 \<or> (\<exists>a\<in>set args. parse_range 1 2 a = None)) \<and>
   (parse_chan args = Some chan \<longrightarrow> (\<forall>k. bit chan k \<longleftrightarrow> k < 6 \<and> parse_range 1 2 (args ! k) = Some 2))"
  using parse_selectors_bits [of 0 args 0 chan] parse_selectors_none [of 0 args 0]
  by (auto simp: parse_chan_def split: if_splits)

lemma selectors_witness: "bit (0b100010 :: u8) 5 \<and> parse_range 1 2 ''2'' = Some 2"
proof -
  have p: "parse_range 1 2 ''2'' = Some 2" "parse_range 1 2 ''1'' = Some 1"
    by code_simp+
  have "parse_chan [''1'', ''2'', ''1'', ''1'', ''1'', ''2''] = Some 0b100010"
    by (simp add: parse_chan_def p)
  with p selectors [of "[''1'', ''2'', ''1'', ''1'', ''1'', ''2'']" "0b100010"] show ?thesis
    by simp
qed

section \<open>Samples\<close>

lemma le32_join32: "le32 (join32 a b c d) = [a, b, c, d]"
  by (auto simp: le32_def join32_def join16_def intro!: bit_word_eqI simp: bit_simps)

lemma slices:
  "concat (map (\<lambda>j. take k (drop (off + k * j) buf)) [0..<n]) = take (k * n) (drop off buf)"
proof (induction n)
  case (Suc n)
  have "take (k * n + k) (drop off buf) = take (k * n) (drop off buf) @ take k (drop (off + k * n) buf)"
    using take_add [of "k * n" k "drop off buf"] by (simp add: add.commute)
  with Suc show ?case
    by (simp add: add.commute [of k])
qed simp

lemma le32_at_bytes: "i + 4 \<le> length buf \<Longrightarrow> le32 (le32_at buf i) = take 4 (drop i buf)"
  by (rule nth_equalityI) (auto simp: le32_at_def le32_join32 less_Suc_eq numeral_eq_Suc)

lemma concat_map_nested: "concat (map g (concat xss)) = concat (map (\<lambda>xs. concat (map g xs)) xss)"
  by (induction xss) simp_all

lemma tx_words_bytes:
  assumes "off + 504 \<le> length buf"
  shows "concat (map le32 (tx_words buf True off)) = take 504 (drop off buf)"
proof -
  have "concat (map le32 (tx_words buf True off)) =
      concat (map (\<lambda>j. take 8 (drop (off + 8 * j) buf)) [0..<63])"
  proof -
    have "le32 (le32_at buf (off + 8 * j)) @ le32 (le32_at buf (off + 4 + 8 * j)) = take 8 (drop (off + 8 * j) buf)"
      if "j < 63" for j
    proof -
      let ?d = "drop (off + 8 * j) buf"
      have d: "drop (off + 4 + 8 * j) buf = drop 4 ?d"
        unfolding drop_drop by (rule arg_cong [where f = "\<lambda>k. drop k buf"]) simp
      have "le32 (le32_at buf (off + 8 * j)) = take 4 ?d" "le32 (le32_at buf (off + 4 + 8 * j)) = take 4 (drop 4 ?d)"
        unfolding d [symmetric] using assms that by (intro le32_at_bytes; simp)+
      then show ?thesis
        using take_add [of 4 4 ?d] by (simp only:) simp
    qed
    then have "map (\<lambda>j. le32 (le32_at buf (off + 8 * j)) @ le32 (le32_at buf (off + 4 + 8 * j))) [0..<63] =
        map (\<lambda>j. take 8 (drop (off + 8 * j) buf)) [0..<63]"
      by (intro map_cong) simp_all
    note eq = this
    have "concat (map le32 (tx_words buf True off)) =
        concat (map (\<lambda>j. le32 (le32_at buf (off + 8 * j)) @ le32 (le32_at buf (off + 4 + 8 * j))) [0..<63])"
      by (simp add: tx_words_def concat_map_nested comp_def)
    then show ?thesis
      unfolding eq .
  qed
  then show ?thesis
    by (simp add: slices)
qed

text \<open>With envelope elimination and restoration the FIFO gets the two blocks of samples of a datagram
  byte for byte; the highest byte read is the datagram's last.\<close>

lemma tx_sample_bytes:
  assumes "length buf = 1032"
  shows "concat (map le32 (tx_words buf True 16 @ tx_words buf True 528)) = take 504 (drop 16 buf) @ drop 528 buf"
  using assms tx_words_bytes [of 16 buf] tx_words_bytes [of 528 buf] by simp

lemma tx_sample_bytes_witness:
  "concat (map le32 (tx_words (replicate 1032 7) True 16 @ tx_words (replicate 1032 7) True 528)) = replicate 1008 7"
  using tx_sample_bytes [of "replicate 1032 7"] by (simp add: replicate_add [symmetric])

section \<open>FIFO space\<close>

definition words_to :: "port \<Rightarrow> io list \<Rightarrow> nat" where
  "words_to p es = length (filter (\<lambda>e. case e of Port q _ \<Rightarrow> q = p | _ \<Rightarrow> False) es)"

lemma words_ports [simp]:
  "words_to p (trace (ports q ws s)) = words_to p (trace s) + (if p = q then length ws else 0)"
proof (induction ws arbitrary: s)
  case (Cons w ws)
  show ?case
    using Cons.IH [of "emit (Port q w) s"] by (simp add: ports_def words_to_def)
qed (simp add: ports_def)

lemma ports_fields [simp]:
  "tx_cntr (ports p ws s) = tx_cntr s" "gpio_in (ports p ws s) = gpio_in s" "rd8 off (ports p ws s) = rd8 off s"
  "tx_eer_data (ports p ws s) = tx_eer_data s" "dac_cntr (ports p ws s) = dac_cntr s"
  unfolding ports_def by (induction ws arbitrary: s) (simp_all, simp_all add: emit_def)

lemma length_tx_words [simp]: "length (tx_words buf eer off) = 126"
  by (simp add: tx_words_def length_concat_const)



section \<open>Devices found\<close>

text \<open>A device found by the search holds what the server remembers; the NUCLEO board is the exception.\<close>

definition found_agree :: "hpsdr \<Rightarrow> bool" where
  "found_agree s \<longleftrightarrow>
     (has_pene s \<longrightarrow> pene.agrees s) \<and> (has_alex s \<longrightarrow> alex.agrees s) \<and> (has_level s \<longrightarrow> level.agrees s) \<and>
     (has_misc s \<longrightarrow> misc.agrees s) \<and> (has_drive s \<longrightarrow> drive.agrees s) \<and> (has_dac0 s \<longrightarrow> dac0.agrees s) \<and>
     (has_arduino s \<longrightarrow> frx1.agrees s) \<and> (has_codec s \<longrightarrow> boost.agrees s)"


definition shadows_fresh :: "hpsdr \<Rightarrow> bool" where
  "shadows_fresh s \<longleftrightarrow> pene_data s = 0 \<and> alex_port_data s = 0 \<and> level_data s = 0 \<and> misc_data s = 0 \<and>
     drive_data s = 0 \<and> dac0_data s = 0xfff \<and> nucleo_lo s = 0 \<and> nucleo_hi s = 0 \<and> ard_frx1 s = 0 \<and> ard_frx2 s = 0 \<and>
     ard_ftx s = 0 \<and> ard_ocant s = 0 \<and> ard_txatt s = 0 \<and> ard_rxatt s = 0 \<and> boost_data s = 0"

lemma fresh_tracks: "shadows_fresh s \<Longrightarrow> i2c_tracks s"
  by (simp add: shadows_fresh_def i2c_tracks_def tracks_defs)

definition sel_addr :: "hpsdr \<Rightarrow> u8" where
  "sel_addr s = fst (bus (trace s) 0 (\<lambda>_. []))"

lemma sel_send [simp]: "sel_addr (i2c_send a bs s) = a" "sel_addr (emit (I2cWrite w) s) = sel_addr s"
  by (simp_all add: sel_addr_def i2c_send_def bus_append split: prod.split)

lemma writes_write: "writes a (trace (emit (I2cWrite w) s)) = (if a = sel_addr s then w # writes a (trace s) else writes a (trace s))"
  by (simp add: sel_addr_def writes_def bus_append split: prod.split)

lemma more_cons: "i2c_more (w # ws) s = i2c_more ws (emit (I2cWrite w) s)" "i2c_more [] s = s"
  by (simp_all add: i2c_more_def)

lemma sel_more [simp]: "sel_addr (i2c_more ws s) = sel_addr s"
  by (induction ws arbitrary: s) (simp_all add: more_cons)

lemma writes_more [simp]: "writes a (trace (i2c_more ws s)) = (if a = sel_addr s then rev ws @ writes a (trace s) else writes a (trace s))"
  by (induction ws arbitrary: s) (simp_all add: more_cons writes_write del: trace_emit)

lemma writes_found [simp]:
  "sel_addr (has_pene_update f s) = sel_addr s" "sel_addr (has_alex_update f s) = sel_addr s"
  "sel_addr (has_level_update f s) = sel_addr s" "sel_addr (has_misc_update f s) = sel_addr s"
  "sel_addr (has_codec_update f s) = sel_addr s"
  by (simp_all add: sel_addr_def)

lemma has_emit [simp]:
  "has_pene (emit e s) = has_pene s" "has_alex (emit e s) = has_alex s" "has_level (emit e s) = has_level s"
  "has_misc (emit e s) = has_misc s" "has_drive (emit e s) = has_drive s" "has_dac0 (emit e s) = has_dac0 s"
  "has_arduino (emit e s) = has_arduino s" "has_codec (emit e s) = has_codec s"
  by (simp_all add: emit_def)

lemma has_send [simp]:
  "has_pene (i2c_send a bs s) = has_pene s" "has_alex (i2c_send a bs s) = has_alex s" "has_level (i2c_send a bs s) = has_level s"
  "has_misc (i2c_send a bs s) = has_misc s" "has_drive (i2c_send a bs s) = has_drive s" "has_dac0 (i2c_send a bs s) = has_dac0 s"
  "has_arduino (i2c_send a bs s) = has_arduino s" "has_codec (i2c_send a bs s) = has_codec s"
  by (simp_all add: i2c_send_def)

lemma shadow_emit [simp]:
  "pene_data (emit e s) = pene_data s" "alex_port_data (emit e s) = alex_port_data s" "level_data (emit e s) = level_data s"
  "misc_data (emit e s) = misc_data s" "drive_data (emit e s) = drive_data s" "dac0_data (emit e s) = dac0_data s"
  "nucleo_lo (emit e s) = nucleo_lo s" "nucleo_hi (emit e s) = nucleo_hi s" "ard_frx1 (emit e s) = ard_frx1 s"
  "ard_frx2 (emit e s) = ard_frx2 s" "ard_ftx (emit e s) = ard_ftx s" "ard_ocant (emit e s) = ard_ocant s"
  "ard_txatt (emit e s) = ard_txatt s" "ard_rxatt (emit e s) = ard_rxatt s" "boost_data (emit e s) = boost_data s"
  by (simp_all add: emit_def)

lemma has_more [simp]:
  "has_pene (i2c_more ws s) = has_pene s" "has_alex (i2c_more ws s) = has_alex s" "has_level (i2c_more ws s) = has_level s"
  "has_misc (i2c_more ws s) = has_misc s" "has_drive (i2c_more ws s) = has_drive s" "has_dac0 (i2c_more ws s) = has_dac0 s"
  "has_arduino (i2c_more ws s) = has_arduino s" "has_codec (i2c_more ws s) = has_codec s"
  by (induction ws arbitrary: s) (simp_all add: more_cons)

lemma shadow_more [simp]:
  "pene_data (i2c_more ws s) = pene_data s" "alex_port_data (i2c_more ws s) = alex_port_data s" "level_data (i2c_more ws s) = level_data s"
  "misc_data (i2c_more ws s) = misc_data s" "drive_data (i2c_more ws s) = drive_data s" "dac0_data (i2c_more ws s) = dac0_data s"
  "nucleo_lo (i2c_more ws s) = nucleo_lo s" "nucleo_hi (i2c_more ws s) = nucleo_hi s" "ard_frx1 (i2c_more ws s) = ard_frx1 s"
  "ard_frx2 (i2c_more ws s) = ard_frx2 s" "ard_ftx (i2c_more ws s) = ard_ftx s" "ard_ocant (i2c_more ws s) = ard_ocant s"
  "ard_txatt (i2c_more ws s) = ard_txatt s" "ard_rxatt (i2c_more ws s) = ard_rxatt s" "boost_data (i2c_more ws s) = boost_data s"
  by (induction ws arbitrary: s) (simp_all add: more_cons)

definition probing :: "hpsdr \<Rightarrow> bool" where
  "probing s \<longleftrightarrow> shadows_fresh s \<and> found_agree s"

lemmas agrees_defs = pene.agrees_def alex.agrees_def level.agrees_def misc.agrees_def drive.agrees_def
  dac0.agrees_def frx1.agrees_def boost.agrees_def

lemma probing_pene:
  assumes "probing s"
  shows "probing (probe sel ack ADDR_PENE (addr_data16 2 0) (upd has_pene_update True) [addr_data16 6 0] s)"
  using assms unfolding probing_def found_agree_def agrees_defs shadows_fresh_def
  by (simp add: probe_def Let_def i2c_addresses addr_data16_def)

lemma probing_expanders:
  assumes "probing s"
  shows "probing (probe sel ack ADDR_ALEX (addr_data16 2 0) (upd has_alex_update True) [addr_data16 6 0] s)"
    "probing (probe sel ack ADDR_LEVEL (addr_data16 2 0) (upd has_level_update True) [addr_data16 6 0] s)"
    "probing (probe sel ack ADDR_MISC (addr_data16 2 0) (upd has_misc_update True) [addr_data16 6 0] s)"
  using assms unfolding probing_def found_agree_def agrees_defs shadows_fresh_def
  by (simp_all add: probe_def Let_def i2c_addresses addr_data16_def)

lemma probing_values:
  assumes "probing s"
  shows "probing (probe sel ack ADDR_DRIVE (addr_data16 0xa9 0) (upd has_drive_update True) [] s)"
    "probing (probe sel ack ADDR_DAC0 (data16 (dac0_data s)) (upd has_dac0_update True) [] s)"
    "probing (probe sel ack ADDR_DAC1 (data16 (dac1_data s)) (upd has_dac1_update True) [] s)"
    "probing (probe sel ack ADDR_ARDUINO (addr_data16 1 (ard_frx1 s)) (upd has_arduino_update True) [] s)"
    "probing (probe sel ack ADDR_NUCLEO (data40 0x02100000 0) (upd has_nucleo_update True) [] s)"
  using assms unfolding probing_def found_agree_def agrees_defs shadows_fresh_def
  by (simp_all add: probe_def Let_def i2c_addresses addr_data16_def more_cons)

lemma probing_codec:
  assumes "probing s"
  shows "probing (probe sel ack ADDR_CODEC (addr_data8 0x1e 0) (upd has_codec_update True) codec_setup s)"
  using assms unfolding probing_def found_agree_def agrees_defs shadows_fresh_def
  by (simp add: probe_def Let_def i2c_addresses addr_data16_def addr_data8_def codec_setup_def)

lemma probing_all: "probing s \<Longrightarrow> probing (probe_all sel ack s)"
  unfolding probe_all_def Let_def by (intro probing_pene probing_expanders probing_values probing_codec)

text \<open>The registers are set up without touching the bus.\<close>

lemma probing_store [simp]: "probing (store off bs s) = probing s" "probing (emit (Port p w) s) = probing s"
  "probing (upd log_table_update v s) = probing s"
  unfolding probing_def found_agree_def agrees_defs shadows_fresh_def
  by (simp_all add: store_def emit_def)

lemma probing_wr [simp]: "probing (wr8 off v8 s) = probing s" "probing (wr16 off v16 s) = probing s" "probing (wr32 off v32 s) = probing s"
  by (simp_all add: wr_defs)

interpretation p8: undisturbed "wr8 off" probing for off by unfold_locales simp

lemma probing_table [simp]: "probing (write_table p vs s) = probing s"
proof -
  have "probing (foldl (\<lambda>s (i, v). emit (Port (p i) (word_of_int v)) s) s ivs) = probing s" for ivs
    by (induction ivs arbitrary: s) (auto simp: split_beta)
  then show ?thesis
    by (simp add: write_table_def)
qed

text \<open>After the start every device that was found holds the value the server remembers for it.\<close>

lemma init_agrees:
  assumes "hpsdr_init b cosine log10 sel ack args (hpsdr_globals r) = Some s"
  shows "i2c_tracks s \<and> found_agree s"
proof -
  have "probing (hpsdr_globals r)"
    by (simp add: probing_def shadows_fresh_def found_agree_def hpsdr_globals_def)
  then have "probing (probe_all sel ack (hpsdr_globals r))"
    by (rule probing_all)
  then have "probing s"
    using assms by (auto simp: hpsdr_init_def init_tx_def init_codec_def Let_def p8.obs_clear p8.obs_set split: option.splits)
  then show ?thesis
    by (simp add: probing_def fresh_tracks)
qed

lemma init_agrees_witness:
  "\<exists>s. hpsdr_init board_125 (\<lambda>x. 1) (\<lambda>x. x - 1) (\<lambda>_. True) (\<lambda>a. a = ADDR_PENE) (replicate 6 ''1'') (hpsdr_globals (\<lambda>_. 0)) = Some s \<and>
     found_agree s"
proof -
  have p: "parse_range 1 2 ''1'' = Some 1"
    by code_simp
  have "parse_chan (replicate 6 ''1'') = Some 0"
    by (simp add: parse_chan_def eval_nat_numeral p)
  then obtain s where "hpsdr_init board_125 (\<lambda>x. 1) (\<lambda>x. x - 1) (\<lambda>_. True) (\<lambda>a. a = ADDR_PENE) (replicate 6 ''1'')
      (hpsdr_globals (\<lambda>_. 0)) = Some s"
    by (auto simp: hpsdr_init_def)
  from this init_agrees [OF this] show ?thesis by blast
qed

end
