(* ===== verification/Hpsdr_fresh.thy ===== *)
theory Hpsdr_fresh
  imports Hpsdr_main_spec
begin

unbundle bit_operations_syntax

text \<open>
  The filter outputs follow the settings. A command that changes a setting only marks the outputs
  that depend on it; \<open>main\<close> computes and sends them after the batch. The invariant \<open>flagged\<close> says that an
  output which is not marked is what its settings ask for, and every command keeps it.
\<close>

definition alex_current :: "hpsdr \<Rightarrow> bool" where
  "alex_current s \<longleftrightarrow> alex_rx s = alex_rx_word s \<and> alex_tx s = alex_tx_word s"

definition misc_current :: "hpsdr \<Rightarrow> bool" where
  "misc_current s \<longleftrightarrow> misc_data s = misc_word s"

definition nucleo_current :: "hpsdr \<Rightarrow> bool" where
  "nucleo_current s \<longleftrightarrow> (nucleo_lo s, nucleo_hi s) = nucleo_words s"

text \<open>Before the first update nothing was sent to ALEX; with a codec ALEX is not used.\<close>

definition flagged :: "hpsdr \<Rightarrow> bool" where
  "flagged s \<longleftrightarrow>
     (has_codec s \<or> alex_update s \<or> alex_rx s = 0 \<and> alex_tx s = 0 \<or> alex_current s) \<and>
     (has_misc s \<longrightarrow> misc_update s \<or> misc_current s) \<and>
     (has_nucleo s \<longrightarrow> nucleo_update s \<or> nucleo_current s)"

lemmas current_defs = alex_current_def misc_current_def nucleo_current_def
lemmas word_defs = alex_rx_word_def alex_hpf_def alex_preamp_def alex_tx_word_def alex_lpf_def misc_word_def nucleo_words_def

section \<open>Steps that touch no setting of a filter\<close>

text \<open>What the words and the invariant depend on.\<close>

lemma words_cong:
  "alex_0 s = alex_0 t \<Longrightarrow> alex_1 s = alex_1 t \<Longrightarrow> freq1 s = freq1 t \<Longrightarrow> freq2 s = freq2 t \<Longrightarrow>
     alex_rx_word s = alex_rx_word t"
  "alex_0 s = alex_0 t \<Longrightarrow> alex_1 s = alex_1 t \<Longrightarrow> freq0 s = freq0 t \<Longrightarrow> freq1 s = freq1 t \<Longrightarrow> freq2 s = freq2 t \<Longrightarrow>
     alex_tx_word s = alex_tx_word t"
  "freq0 s = freq0 t \<Longrightarrow> freq1 s = freq1 t \<Longrightarrow> freq2 s = freq2 t \<Longrightarrow> misc_0 s = misc_0 t \<Longrightarrow> misc_1 s = misc_1 t \<Longrightarrow>
     misc_2 s = misc_2 t \<Longrightarrow> misc_word s = misc_word t"
  "freq0 s = freq0 t \<Longrightarrow> freq1 s = freq1 t \<Longrightarrow> freq2 s = freq2 t \<Longrightarrow> nucleo_0 s = nucleo_0 t \<Longrightarrow> nucleo_1 s = nucleo_1 t \<Longrightarrow>
     nucleo_2 s = nucleo_2 t \<Longrightarrow> nucleo_3 s = nucleo_3 t \<Longrightarrow> nucleo_words s = nucleo_words t"
  by (simp_all only: word_defs)

definition filter_state :: "hpsdr \<Rightarrow> _" where
  "filter_state s = ((has_codec s, alex_update s, alex_rx s, alex_tx s, alex_0 s, alex_1 s, freq0 s, freq1 s, freq2 s),
     (has_misc s, misc_update s, misc_data s, misc_0 s, misc_1 s, misc_2 s),
     (has_nucleo s, nucleo_update s, nucleo_lo s, nucleo_hi s, nucleo_0 s, nucleo_1 s, nucleo_2 s, nucleo_3 s))"

lemma flagged_cong: "filter_state s = filter_state t \<Longrightarrow> flagged s = flagged t"
  using words_cong [of s t] by (simp add: filter_state_def flagged_def current_defs)

lemma flagged_store [simp]: "flagged (store off bs s) = flagged s" "flagged (emit e s) = flagged s"
  by (rule flagged_cong, simp add: filter_state_def store_def emit_def)+

lemma flagged_wr [simp]:
  "flagged (wr8 off v8 s) = flagged s" "flagged (wr16 off v16 s) = flagged s" "flagged (wr32 off v32 s) = flagged s"
  by (simp_all add: wr_defs)

interpretation f8: undisturbed "wr8 off" flagged for off by unfold_locales simp

lemma flagged_fields [simp]:
  "flagged (s\<lparr>receivers := x0\<rparr>) = flagged s"
  "flagged (s\<lparr>rx_sync_data := x1\<rparr>) = flagged s"
  "flagged (s\<lparr>tx_eer_data := x2\<rparr>) = flagged s"
  "flagged (s\<lparr>ep_rate := x3\<rparr>) = flagged s"
  "flagged (s\<lparr>rx_att_data := x4\<rparr>) = flagged s"
  "flagged (s\<lparr>icom_band := x5\<rparr>) = flagged s"
  "flagged (s\<lparr>dac_level_data := x6\<rparr>) = flagged s"
  "flagged (s\<lparr>cw_int_data := x7\<rparr>) = flagged s"
  "flagged (s\<lparr>cw_reversed := x8\<rparr>) = flagged s"
  "flagged (s\<lparr>cw_speed := x9\<rparr>) = flagged s"
  "flagged (s\<lparr>cw_mode := x10\<rparr>) = flagged s"
  "flagged (s\<lparr>cw_weight := x11\<rparr>) = flagged s"
  "flagged (s\<lparr>cw_spacing := x12\<rparr>) = flagged s"
  "flagged (s\<lparr>cw_delay := x13\<rparr>) = flagged s"
  "flagged (s\<lparr>cw_hang := x14\<rparr>) = flagged s"
  "flagged (s\<lparr>ep_enable := x15\<rparr>) = flagged s"
  "flagged (s\<lparr>ep_active := x16\<rparr>) = flagged s"
  "flagged (s\<lparr>log_table := x17\<rparr>) = flagged s"
  "flagged (s\<lparr>pene_data := x18\<rparr>) = flagged s"
  "flagged (s\<lparr>alex_port_data := x19\<rparr>) = flagged s"
  "flagged (s\<lparr>level_data := x20\<rparr>) = flagged s"
  "flagged (s\<lparr>drive_data := x21\<rparr>) = flagged s"
  "flagged (s\<lparr>dac0_data := x22\<rparr>) = flagged s"
  "flagged (s\<lparr>ard_frx1 := x23\<rparr>) = flagged s"
  "flagged (s\<lparr>ard_frx2 := x24\<rparr>) = flagged s"
  "flagged (s\<lparr>ard_ftx := x25\<rparr>) = flagged s"
  "flagged (s\<lparr>ard_ocant := x26\<rparr>) = flagged s"
  "flagged (s\<lparr>ard_txatt := x27\<rparr>) = flagged s"
  "flagged (s\<lparr>ard_rxatt := x28\<rparr>) = flagged s"
  "flagged (s\<lparr>boost_data := x29\<rparr>) = flagged s"
  by (rule flagged_cong, simp add: filter_state_def)+

lemma flagged_i2c [simp]:
  "flagged (i2c_update pene_data (upd pene_data_update) a_pene b_pene v_pene s) = flagged s"
  "flagged (i2c_update alex_port_data (upd alex_port_data_update) a_alex b_alex v_alex s) = flagged s"
  "flagged (i2c_update level_data (upd level_data_update) a_level b_level v_level s) = flagged s"
  "flagged (i2c_update drive_data (upd drive_data_update) a_drive b_drive v_drive s) = flagged s"
  "flagged (i2c_update dac0_data (upd dac0_data_update) a_dac0 b_dac0 v_dac0 s) = flagged s"
  "flagged (i2c_update ard_frx1 (upd ard_frx1_update) a_frx1 b_frx1 v_frx1 s) = flagged s"
  "flagged (i2c_update ard_frx2 (upd ard_frx2_update) a_frx2 b_frx2 v_frx2 s) = flagged s"
  "flagged (i2c_update ard_ftx (upd ard_ftx_update) a_ftx b_ftx v_ftx s) = flagged s"
  "flagged (i2c_update ard_ocant (upd ard_ocant_update) a_ocant b_ocant v_ocant s) = flagged s"
  "flagged (i2c_update ard_txatt (upd ard_txatt_update) a_txatt b_txatt v_txatt s) = flagged s"
  "flagged (i2c_update ard_rxatt (upd ard_rxatt_update) a_rxatt b_rxatt v_rxatt s) = flagged s"
  "flagged (i2c_update boost_data (upd boost_data_update) a_boost b_boost v_boost s) = flagged s"
  by (simp_all add: i2c_update_def i2c_send_def)

section \<open>Commands\<close>

lemma flagged_marks:
  assumes "flagged s"
  shows "flagged (mark_alex (s\<lparr>alex_0 := v\<rparr>))" "flagged (mark_alex (s\<lparr>alex_1 := v\<rparr>))"
    "flagged (mark_misc (s\<lparr>misc_0 := v\<rparr>))" "flagged (mark_misc (s\<lparr>misc_1 := v\<rparr>))" "flagged (mark_misc (s\<lparr>misc_2 := v\<rparr>))"
    "flagged (mark_nucleo (s\<lparr>nucleo_0 := w\<rparr>))" "flagged (mark_nucleo (s\<lparr>nucleo_1 := w\<rparr>))"
    "flagged (mark_nucleo (s\<lparr>nucleo_2 := w\<rparr>))" "flagged (mark_nucleo (s\<lparr>nucleo_3 := w\<rparr>))"
  using assms by (simp_all add: flagged_def current_defs) (simp_all cong: words_cong)

lemma flagged_freq_changed: "flagged (freq_changed s)"
  by (simp add: flagged_def freq_changed_def Let_def)

lemma flagged_arduino:
  "flagged (tell_arduino ard_ftx (upd ard_ftx_update) k freq s) = flagged s"
  "flagged (tell_arduino ard_frx1 (upd ard_frx1_update) k freq s) = flagged s"
  "flagged (tell_arduino ard_frx2 (upd ard_frx2_update) k freq s) = flagged s"
  by (simp_all add: tell_arduino_def)

lemma flagged_frequencies:
  assumes "flagged s"
  shows "flagged (ep2_tx_freq b frame s)" "flagged (ep2_rx0_freq b frame s)"
    "flagged (ep2_rx1_freq b frame s)" "flagged (ep2_rx2_freq b frame s)"
  using assms
  by (simp_all add: ep2_tx_freq_def ep2_rx0_freq_def ep2_rx1_freq_def ep2_rx2_freq_def ep2_second_band_def
      Let_def flagged_arduino flagged_freq_changed)

lemma flagged_settings:
  assumes "flagged s"
  shows "flagged (reset_rx_los s)" "flagged (ep2_sync frame s)" "flagged (ep2_pins frame s)" "flagged (ep2_rate b frame s)"
    "flagged (ep2_pene frame s)" "flagged (ep2_dac0 frame s)" "flagged (ep2_ocant frame s)" "flagged (ep2_alex_port frame s)"
    "flagged (ep2_level b frame s)" "flagged (ep2_boost frame s)" "flagged (ep2_tx_rx_att frame s)"
    "flagged (ep2_keyer frame s)" "flagged (ep2_hang frame s)"
  using assms by (simp_all add: ep2_defs Let_def f8.obs_clear f8.obs_set)

lemma flagged_marked:
  assumes "flagged s"
  shows "flagged (ep2_alex0 frame s)" "flagged (ep2_alex1 frame s)" "flagged (ep2_nucleo0 frame s)"
    "flagged (ep2_nucleo1 frame s)" "flagged (ep2_misc2 frame s)"
    "flagged (ep2_rx1_att frame s)" "flagged (ep2_rx2_att frame s)"
  using assms by (simp_all add: ep2_defs Let_def flagged_marks)

text \<open>No command changes a setting of the filters without marking the output that depends on it.\<close>

lemma process_ep2_flagged:
  assumes "flagged s"
  shows "flagged (process_ep2 b frame s)"
  using assms
  by (simp add: process_ep2_def Let_def ep2_general_def ep2_filters_def flagged_frequencies flagged_settings flagged_marked)

lemma process_ep2_flagged_witness:
  "flagged (process_ep2 board_125 [2, 0, 0x6c, 0xcb, 0xd0] ((hpsdr_globals (\<lambda>_. 0))\<lparr>has_codec := False\<rparr>))"
  by (rule process_ep2_flagged) (simp add: flagged_def hpsdr_globals_def)

section \<open>The update in \<open>main\<close>\<close>

text \<open>The settings the outputs are computed from, which no write changes.\<close>

definition filter_settings :: "hpsdr \<Rightarrow> _" where
  "filter_settings s = (has_codec s, has_misc s, has_nucleo s, alex_0 s, alex_1 s, freq0 s, freq1 s, freq2 s,
     misc_0 s, misc_1 s, misc_2 s, nucleo_0 s, nucleo_1 s, nucleo_2 s, nucleo_3 s)"

lemma settings_words: "filter_settings s = filter_settings t \<Longrightarrow>
    alex_rx_word s = alex_rx_word t \<and> alex_tx_word s = alex_tx_word t \<and> misc_word s = misc_word t \<and> nucleo_words s = nucleo_words t"
  using words_cong [of s t] by (simp add: filter_settings_def)

lemma writes_settings [simp]:
  "filter_settings (alex_write s) = filter_settings s" "filter_settings (misc_write s) = filter_settings s"
  "filter_settings (nucleo_write s) = filter_settings s"
  by (simp_all add: filter_settings_def alex_write_def alex_latch_def misc_write_def nucleo_write_def i2c_update_def
      i2c_send_def emit_def Let_def split: prod.split)

lemma writes_words [simp]:
  fixes s :: hpsdr
  shows "alex_rx_word (alex_write s) = alex_rx_word s" "alex_tx_word (alex_write s) = alex_tx_word s"
  "misc_word (misc_write s) = misc_word s" "nucleo_words (nucleo_write s) = nucleo_words s"
  using settings_words [of "alex_write s" s] settings_words [of "misc_write s" s] settings_words [of "nucleo_write s" s]
  by simp_all

lemma written_current:
  "\<not> has_codec s \<Longrightarrow> alex_current (alex_write s)" "misc_current (misc_write s)" "nucleo_current (nucleo_write s)"
proof -
  show "alex_current (alex_write s)" if "\<not> has_codec s"
    using that by (auto simp: alex_current_def) (auto simp: alex_write_def alex_latch_def Let_def alex_emit)
  show "misc_current (misc_write s)"
    by (simp add: misc_current_def) (simp add: misc_write_def misc.get_update)
  show "nucleo_current (nucleo_write s)"
    using nucleo.get_update [of "nucleo_words s" s]
    by (simp add: nucleo_current_def) (simp add: nucleo_write_def)
qed

text \<open>Each write leaves the other outputs alone.\<close>

lemma writes_others:
  fixes s :: hpsdr
  shows "alex_update (alex_write s) = alex_update s" "misc_update (alex_write s) = misc_update s"
    "misc_data (alex_write s) = misc_data s" "nucleo_update (alex_write s) = nucleo_update s"
    "nucleo_lo (alex_write s) = nucleo_lo s" "nucleo_hi (alex_write s) = nucleo_hi s"
    "alex_update (misc_write s) = alex_update s" "alex_rx (misc_write s) = alex_rx s" "alex_tx (misc_write s) = alex_tx s"
    "misc_update (misc_write s) = misc_update s" "nucleo_update (misc_write s) = nucleo_update s"
    "nucleo_lo (misc_write s) = nucleo_lo s" "nucleo_hi (misc_write s) = nucleo_hi s"
    "alex_update (nucleo_write s) = alex_update s" "alex_rx (nucleo_write s) = alex_rx s" "alex_tx (nucleo_write s) = alex_tx s"
    "misc_update (nucleo_write s) = misc_update s" "misc_data (nucleo_write s) = misc_data s"
    "nucleo_update (nucleo_write s) = nucleo_update s"
  by (simp_all add: alex_write_def alex_latch_def misc_write_def nucleo_write_def i2c_update_def
      i2c_send_def emit_def Let_def split: prod.split)

lemma writes_keep_found:
  fixes s :: hpsdr
  shows "has_codec (alex_write s) = has_codec s" "has_misc (alex_write s) = has_misc s" "has_nucleo (alex_write s) = has_nucleo s"
    "has_codec (misc_write s) = has_codec s" "has_misc (misc_write s) = has_misc s" "has_nucleo (misc_write s) = has_nucleo s"
    "has_codec (nucleo_write s) = has_codec s" "has_misc (nucleo_write s) = has_misc s" "has_nucleo (nucleo_write s) = has_nucleo s"
  using writes_settings [of s] by (simp_all only: filter_settings_def prod.inject)

lemma other_current:
  "misc_current (alex_write s) = misc_current s" "nucleo_current (alex_write s) = nucleo_current s"
  "alex_current (misc_write s) = alex_current s" "nucleo_current (misc_write s) = nucleo_current s"
  "alex_current (nucleo_write s) = alex_current s" "misc_current (nucleo_write s) = misc_current s"
  using settings_words [of "alex_write s" s] settings_words [of "misc_write s" s] settings_words [of "nucleo_write s" s]
  by (simp_all add: current_defs writes_others)

lemma unmark_current:
  "alex_current (alex_update_update f s) = alex_current s" "misc_current (alex_update_update f s) = misc_current s"
  "nucleo_current (alex_update_update f s) = nucleo_current s" "alex_current (misc_update_update f s) = alex_current s"
  "misc_current (misc_update_update f s) = misc_current s" "nucleo_current (misc_update_update f s) = nucleo_current s"
  "alex_current (nucleo_update_update f s) = alex_current s" "misc_current (nucleo_update_update f s) = misc_current s"
  "nucleo_current (nucleo_update_update f s) = nucleo_current s"
  by (simp_all add: current_defs cong: words_cong)

lemmas update_simps = writes_others writes_keep_found other_current unmark_current

lemma flagged_alex:
  assumes "flagged s"
  shows "flagged (main_alex s)" "\<not> alex_update (main_alex s)"
proof -
  define t where "t = note_change alex_0 (upd alex_0_update) mark_alex (alex_0 s OR ucast (cw_ptt s)) s"
  have t: "flagged t"
    using assms by (simp add: t_def note_change_def flagged_marks)
  have m: "main_alex s = (if alex_update t then alex_write (t\<lparr>alex_update := False\<rparr>) else t)"
    by (simp add: main_alex_def t_def Let_def)
  show "\<not> alex_update (main_alex s)"
    by (simp add: m writes_others)
  show "flagged (main_alex s)"
    using t written_current(1) [of "t\<lparr>alex_update := False\<rparr>"] by (auto simp: m flagged_def update_simps)
qed

lemma flagged_misc:
  assumes "flagged s"
  shows "flagged (main_misc s)" "\<not> misc_update (main_misc s)" "alex_update (main_misc s) = alex_update s"
  using assms written_current(2) [of "s\<lparr>misc_update := False\<rparr>"]
  by (auto simp: main_misc_def flagged_def update_simps)

lemma flagged_nucleo:
  assumes "flagged s"
  shows "flagged (main_nucleo s)" "\<not> nucleo_update (main_nucleo s)" "alex_update (main_nucleo s) = alex_update s"
    "misc_update (main_nucleo s) = misc_update s"
proof -
  define t where "t = note_change nucleo_0 (upd nucleo_0_update) mark_nucleo
    (ucast (ucast (nucleo_0 s OR ucast (cw_ptt s)) :: u16)) s"
  have t: "flagged t" "alex_update t = alex_update s" "misc_update t = misc_update s"
    using assms by (simp_all add: t_def note_change_def flagged_marks)
  have m: "main_nucleo s = (if nucleo_update t then nucleo_write (t\<lparr>nucleo_update := False\<rparr>) else t)"
    by (simp add: main_nucleo_def t_def Let_def)
  show "\<not> nucleo_update (main_nucleo s)" "alex_update (main_nucleo s) = alex_update s" "misc_update (main_nucleo s) = misc_update s"
    using t by (simp_all add: m writes_others)
  show "flagged (main_nucleo s)"
    using t written_current(3) [of "t\<lparr>nucleo_update := False\<rparr>"] by (auto simp: m flagged_def update_simps)
qed

text \<open>After the update that ends every turn of the main loop nothing is marked, and every output is
  what its settings ask for.\<close>

lemma updates_current:
  assumes "flagged s"
  shows "let t = main_updates s in
    (has_codec t \<or> alex_rx t = 0 \<and> alex_tx t = 0 \<or> alex_rx t = alex_rx_word t \<and> alex_tx t = alex_tx_word t) \<and>
    (has_misc t \<longrightarrow> misc_data t = misc_word t) \<and>
    (has_nucleo t \<longrightarrow> (nucleo_lo t, nucleo_hi t) = nucleo_words t) \<and> flagged t"
proof -
  note a = flagged_alex [OF assms]
  note m = flagged_misc [OF a(1)]
  note n = flagged_nucleo [OF m(1)]
  from n a(2) m show ?thesis
    by (simp add: main_updates_def Let_def flagged_def current_defs)
qed

lemma updates_current_witness:
  "misc_data (main_updates ((hpsdr_globals (\<lambda>_. 0))\<lparr>has_misc := True, freq1 := 7100000, misc_update := True\<rparr>)) =
     misc_word (main_updates ((hpsdr_globals (\<lambda>_. 0))\<lparr>has_misc := True, freq1 := 7100000, misc_update := True\<rparr>)) \<or>
   \<not> has_misc (main_updates ((hpsdr_globals (\<lambda>_. 0))\<lparr>has_misc := True, freq1 := 7100000, misc_update := True\<rparr>))"
  using updates_current [of "(hpsdr_globals (\<lambda>_. 0))\<lparr>has_misc := True, freq1 := 7100000, misc_update := True\<rparr>"]
  by (auto simp: flagged_def hpsdr_globals_def Let_def)

end

