(* ===== verification/Hpsdr_keyer_spec.thy ===== *)
theory Hpsdr_keyer_spec
  imports Hpsdr_keyer Hpsdr_fresh
begin

unbundle bit_operations_syntax

text \<open>
  Properties of the keyer: the carrier is only ever on with push-to-talk and the multiplexer on, the
  timing of the elements, the hang time of push-to-talk, and the settings for which a division by
  zero stops it.
\<close>

section \<open>What is stored to \<open>tx_rst\<close>\<close>

fun tx_rst_of :: "io \<Rightarrow> u8 option" where
  "tx_rst_of (Store off bs) = (if off = tx_rst \<and> length bs = 1 then Some (hd bs) else None)"
| "tx_rst_of e = None"

definition tx_rst_log :: "io list \<Rightarrow> u8 list" where
  "tx_rst_log es = List.map_filter tx_rst_of es"

lemma log_append [simp]: "tx_rst_log (es @ fs) = tx_rst_log es @ tx_rst_log fs"
  by (simp add: tx_rst_log_def map_filter_def)

lemma log_cons [simp]:
  "tx_rst_log (e # es) = (case tx_rst_of e of None \<Rightarrow> tx_rst_log es | Some v \<Rightarrow> v # tx_rst_log es)" "tx_rst_log [] = []"
  by (simp_all add: tx_rst_log_def map_filter_def split: option.split)

text \<open>The carrier needs push-to-talk and the multiplexer.\<close>

definition rf_safe :: "u8 \<Rightarrow> bool" where
  "rf_safe v \<longleftrightarrow> (bit v 2 \<longrightarrow> bit v 4 \<and> bit v 5)"

definition logged :: "hpsdr \<Rightarrow> bool" where
  "logged s \<longleftrightarrow> (\<forall>v\<in>set (tx_rst_log (trace s)). rf_safe v)"

definition silent :: "hpsdr \<Rightarrow> bool" where
  "silent s \<longleftrightarrow> logged s \<and> \<not> bit (rd8 tx_rst s) 2"

definition on_air :: "hpsdr \<Rightarrow> bool" where
  "on_air s \<longleftrightarrow> logged s \<and> bit (rd8 tx_rst s) 4 \<and> bit (rd8 tx_rst s) 5"

lemma key_bits:
  "bit RF n \<longleftrightarrow> n = 2" "bit SIDETONE n \<longleftrightarrow> n = 3" "bit MUX n \<longleftrightarrow> n = 4" "bit PTT n \<longleftrightarrow> n = 5" "bit (1 :: u8) n \<longleftrightarrow> n = 0"
proof -
  have b: "bit (push_bit k (1 :: u8)) n \<longleftrightarrow> n = k" if "k < 8" for k
    unfolding bit_push_bit_iff using that by (auto simp: bit_1_iff)
  show "bit RF n \<longleftrightarrow> n = 2" "bit SIDETONE n \<longleftrightarrow> n = 3" "bit MUX n \<longleftrightarrow> n = 4" "bit PTT n \<longleftrightarrow> n = 5"
    using b [of 2] b [of 3] b [of 4] b [of 5] by simp_all
  show "bit (1 :: u8) n \<longleftrightarrow> n = 0"
    by (simp add: bit_1_iff)
qed

lemma logged_set [simp]: "logged (set8 tx_rst m s) \<longleftrightarrow> logged s \<and> rf_safe (rd8 tx_rst s OR m)"
  "logged (clear8 tx_rst m s) \<longleftrightarrow> logged s \<and> rf_safe (rd8 tx_rst s AND NOT m)"
  by (auto simp: logged_def reg_set_def reg_clear_def)

lemma silent_set:
  "silent s \<Longrightarrow> \<not> bit m 2 \<Longrightarrow> silent (set8 tx_rst m s)" "silent s \<Longrightarrow> silent (clear8 tx_rst m s)"
  "on_air s \<Longrightarrow> on_air (set8 tx_rst m s)" "on_air s \<Longrightarrow> \<not> bit m 4 \<Longrightarrow> \<not> bit m 5 \<Longrightarrow> on_air (clear8 tx_rst m s)"
  by (auto simp: silent_def on_air_def rf_safe_def bit_simps)

lemma keyed_silent: "on_air s \<Longrightarrow> silent (clear8 tx_rst RF s)"
  by (auto simp: silent_def on_air_def rf_safe_def bit_or_iff bit_and_iff bit_not_iff key_bits)

lemma carrier_fields:
  "silent (s\<lparr>cw_ptt := x\<rparr>) = silent s" "silent (s\<lparr>tx_mux_data := x\<rparr>) = silent s" "silent (s\<lparr>cw_mem0 := y\<rparr>) = silent s"
  "silent (s\<lparr>cw_mem1 := y\<rparr>) = silent s" "silent (s\<lparr>cw_ptt_delay := z\<rparr>) = silent s"
  "on_air (s\<lparr>cw_ptt := x\<rparr>) = on_air s" "on_air (s\<lparr>tx_mux_data := x\<rparr>) = on_air s" "on_air (s\<lparr>cw_mem0 := y\<rparr>) = on_air s"
  "on_air (s\<lparr>cw_mem1 := y\<rparr>) = on_air s" "on_air (s\<lparr>cw_ptt_delay := z\<rparr>) = on_air s"
  by (simp_all add: silent_def on_air_def logged_def rd8_def)

section \<open>The contract with the other threads\<close>

text \<open>Nobody else stores to \<open>tx_rst\<close> once the keyer runs.\<close>

locale keyer_env =
  fixes env :: "hpsdr \<Rightarrow> hpsdr"
  assumes env_rst: "rd8 tx_rst (env s) = rd8 tx_rst s"
    and env_log: "tx_rst_log (trace (env s)) = tx_rst_log (trace s)"
begin

lemma nap_carrier: "silent (nap env n s) = silent s" "on_air (nap env n s) = on_air s"
  using env_rst [of "emit (Sleep n) s"] env_log [of "emit (Sleep n) s"]
  by (simp_all add: nap_def silent_def on_air_def logged_def)

lemma sample_carrier:
  "silent (sample env s) = silent s" "on_air (sample env s) = on_air s"
  "silent (sample_mode env s) = silent s" "on_air (sample_mode env s) = on_air s"
  by (simp_all add: sample_def sample_mode_def Let_def carrier_fields nap_carrier)

lemma samples_carrier:
  "silent ((sample env ^^ n) s) = silent s" "on_air ((sample env ^^ n) s) = on_air s"
  "silent ((sample_mode env ^^ n) s) = silent s" "on_air ((sample_mode env ^^ n) s) = on_air s"
  by (induction n) (simp_all add: sample_carrier)

text \<open>\<open>cw_on\<close> switches push-to-talk and the multiplexer before the carrier.\<close>

lemma cw_on_carrier:
  assumes "silent s" and "cw_on env s = Some t"
  shows "on_air t"
proof -
  define u where "u = set8 tx_rst MUX ((set8 tx_rst PTT s)\<lparr>cw_ptt := 1\<rparr>)"
  have "silent u"
    using assms(1) by (simp add: u_def silent_set carrier_fields key_bits)
  moreover have "bit (rd8 tx_rst u) 4" "bit (rd8 tx_rst u) 5"
    by (simp_all add: u_def bit_or_iff key_bits) (simp add: rd8_def [of _ "_\<lparr>cw_ptt := _\<rparr>"] bit_or_iff key_bits flip: rd8_def)
  ultimately have u: "on_air u"
    by (simp add: silent_def on_air_def)
  then show ?thesis
    using assms(2) by (auto simp: cw_on_def Let_def u_def [symmetric] samples_carrier carrier_fields silent_set split: if_splits)
qed

lemma cw_off_carrier: "on_air s \<Longrightarrow> cw_off env s = Some t \<Longrightarrow> silent t"
  by (auto simp: cw_off_def Let_def carrier_fields samples_carrier silent_set key_bits intro!: keyed_silent split: if_splits)

lemma ptt_off_carrier: "silent s \<Longrightarrow> silent (cw_ptt_off s)"
  by (simp add: cw_ptt_off_def Let_def carrier_fields silent_set key_bits)

lemma pause_carrier: "silent s \<Longrightarrow> silent ((pause env ^^ n) s)"
  by (induction n) (simp_all add: pause_def Let_def carrier_fields nap_carrier ptt_off_carrier)

lemma delays_carrier:
  "on_air s \<Longrightarrow> cw_signal_delay env code s = Some t \<Longrightarrow> on_air t"
  "silent s \<Longrightarrow> cw_space_delay env code s = Some t \<Longrightarrow> silent t"
  by (auto simp: cw_signal_delay_def cw_space_delay_def Let_def samples_carrier pause_carrier split: if_splits)

lemma key_down_carrier:
  assumes "key_down env s = Some t" and "on_air s"
  shows "on_air t"
  using assms keyer_env_axioms
proof (induction rule: key_down.raw_induct [rotated, consumes 1, case_names step])
  case (step f e s t)
  then show ?case
    by (auto simp: Let_def carrier_fields keyer_env.nap_carrier [OF step.prems(2)] split: if_splits)
qed

lemma element_carrier: "silent s \<Longrightarrow> element env state s = Some t \<Longrightarrow> silent t"
  by (auto simp: element_def Let_def carrier_fields split: option.splits
      dest!: cw_on_carrier [rotated] delays_carrier [rotated] cw_off_carrier [rotated])

lemma iambic_carrier:
  assumes "iambic env state s = Some t" and "silent s"
  shows "silent t"
  using assms keyer_env_axioms
proof (induction rule: iambic.raw_induct [rotated, consumes 1, case_names step])
  case (step f e state s t)
  note element = keyer_env.element_carrier [OF step.prems(2)] and space = keyer_env.delays_carrier(2) [OF step.prems(2)]
  from step show ?case
    by (auto split: if_splits option.splits) (meson element space)+
qed

lemma straight_carrier:
  "silent s \<Longrightarrow> straight_key env s = Some t \<Longrightarrow> silent t" "silent s \<Longrightarrow> single_dot env s = Some t \<Longrightarrow> silent t"
  by (auto simp: straight_key_def single_dot_def Let_def nap_carrier split: option.splits if_splits
      dest!: cw_on_carrier [rotated] key_down_carrier cw_off_carrier [rotated] delays_carrier(2) [rotated])

lemma turn_carrier: "silent s \<Longrightarrow> keyer_turn env s = Some t \<Longrightarrow> silent t"
  by (auto simp: keyer_turn_def Let_def nap_carrier ptt_off_carrier carrier_fields split: if_splits
      dest: straight_carrier [rotated] iambic_carrier)

end

section \<open>The main thread keeps the contract\<close>

definition carrier_view :: "hpsdr \<Rightarrow> u8 \<times> u8 list" where
  "carrier_view s = (regs s tx_rst, tx_rst_log (trace s))"

lemma view_wr [simp]:
  "off \<noteq> 2 \<Longrightarrow> carrier_view (wr8 off v8 s) = carrier_view s"
  "3 \<le> off \<Longrightarrow> carrier_view (wr16 off v16 s) = carrier_view s"
  "3 \<le> off \<Longrightarrow> carrier_view (wr32 off v32 s) = carrier_view s"
  by (auto simp: carrier_view_def wr_defs regs_store)

lemma view_emit [simp]: "tx_rst_of e = None \<Longrightarrow> carrier_view (emit e s) = carrier_view s"
  by (simp add: carrier_view_def)

lemma view_i2c [simp]:
  "carrier_view (i2c_update pene_data (upd pene_data_update) a_pene b_pene v_pene s) = carrier_view s"
  "carrier_view (i2c_update alex_port_data (upd alex_port_data_update) a_alex b_alex v_alex s) = carrier_view s"
  "carrier_view (i2c_update level_data (upd level_data_update) a_level b_level v_level s) = carrier_view s"
  "carrier_view (i2c_update misc_data (upd misc_data_update) a_misc b_misc v_misc s) = carrier_view s"
  "carrier_view (i2c_update drive_data (upd drive_data_update) a_drive b_drive v_drive s) = carrier_view s"
  "carrier_view (i2c_update dac0_data (upd dac0_data_update) a_dac0 b_dac0 v_dac0 s) = carrier_view s"
  "carrier_view (i2c_update ard_frx1 (upd ard_frx1_update) a_frx1 b_frx1 v_frx1 s) = carrier_view s"
  "carrier_view (i2c_update ard_frx2 (upd ard_frx2_update) a_frx2 b_frx2 v_frx2 s) = carrier_view s"
  "carrier_view (i2c_update ard_ftx (upd ard_ftx_update) a_ftx b_ftx v_ftx s) = carrier_view s"
  "carrier_view (i2c_update ard_ocant (upd ard_ocant_update) a_ocant b_ocant v_ocant s) = carrier_view s"
  "carrier_view (i2c_update ard_txatt (upd ard_txatt_update) a_txatt b_txatt v_txatt s) = carrier_view s"
  "carrier_view (i2c_update ard_rxatt (upd ard_rxatt_update) a_rxatt b_rxatt v_rxatt s) = carrier_view s"
  "carrier_view (i2c_update boost_data (upd boost_data_update) a_boost b_boost v_boost s) = carrier_view s"
  by (simp_all add: i2c_update_def i2c_send_def) (simp_all add: carrier_view_def)

lemma view_fields [simp]:
  "carrier_view (s\<lparr>receivers := x0\<rparr>) = carrier_view s"
  "carrier_view (s\<lparr>rx_sync_data := x1\<rparr>) = carrier_view s"
  "carrier_view (s\<lparr>tx_eer_data := x2\<rparr>) = carrier_view s"
  "carrier_view (s\<lparr>ep_rate := x3\<rparr>) = carrier_view s"
  "carrier_view (s\<lparr>rx_att_data := x4\<rparr>) = carrier_view s"
  "carrier_view (s\<lparr>icom_band := x5\<rparr>) = carrier_view s"
  "carrier_view (s\<lparr>dac_level_data := x6\<rparr>) = carrier_view s"
  "carrier_view (s\<lparr>cw_int_data := x7\<rparr>) = carrier_view s"
  "carrier_view (s\<lparr>cw_reversed := x8\<rparr>) = carrier_view s"
  "carrier_view (s\<lparr>cw_speed := x9\<rparr>) = carrier_view s"
  "carrier_view (s\<lparr>cw_mode := x10\<rparr>) = carrier_view s"
  "carrier_view (s\<lparr>cw_weight := x11\<rparr>) = carrier_view s"
  "carrier_view (s\<lparr>cw_spacing := x12\<rparr>) = carrier_view s"
  "carrier_view (s\<lparr>cw_delay := x13\<rparr>) = carrier_view s"
  "carrier_view (s\<lparr>cw_hang := x14\<rparr>) = carrier_view s"
  "carrier_view (s\<lparr>freq0 := x15\<rparr>) = carrier_view s"
  "carrier_view (s\<lparr>freq1 := x16\<rparr>) = carrier_view s"
  "carrier_view (s\<lparr>freq2 := x17\<rparr>) = carrier_view s"
  "carrier_view (s\<lparr>alex_0 := x18\<rparr>) = carrier_view s"
  "carrier_view (s\<lparr>alex_1 := x19\<rparr>) = carrier_view s"
  "carrier_view (s\<lparr>misc_0 := x20\<rparr>) = carrier_view s"
  "carrier_view (s\<lparr>misc_1 := x21\<rparr>) = carrier_view s"
  "carrier_view (s\<lparr>misc_2 := x22\<rparr>) = carrier_view s"
  "carrier_view (s\<lparr>nucleo_0 := x23\<rparr>) = carrier_view s"
  "carrier_view (s\<lparr>nucleo_1 := x24\<rparr>) = carrier_view s"
  "carrier_view (s\<lparr>nucleo_2 := x25\<rparr>) = carrier_view s"
  "carrier_view (s\<lparr>nucleo_3 := x26\<rparr>) = carrier_view s"
  "carrier_view (alex_update_update f s) = carrier_view s" "carrier_view (misc_update_update f s) = carrier_view s"
  "carrier_view (nucleo_update_update f s) = carrier_view s"
  by (simp_all add: carrier_view_def)

lemma view_parts [simp]:
  "carrier_view (reset_rx_los s) = carrier_view s" "carrier_view (freq_changed s) = carrier_view s"
  "carrier_view (icom_write s) = carrier_view s"
  "carrier_view (tell_arduino ard_ftx (upd ard_ftx_update) k freq s) = carrier_view s"
  "carrier_view (tell_arduino ard_frx1 (upd ard_frx1_update) k freq s) = carrier_view s"
  "carrier_view (tell_arduino ard_frx2 (upd ard_frx2_update) k freq s) = carrier_view s"
  "carrier_view (ep2_second_band freq s) = carrier_view s"
  by (simp_all add: ep2_defs icom_write_def Let_def reg_set_def reg_clear_def)

lemma view_settings [simp]:
  "carrier_view (ep2_sync frame s) = carrier_view s" "carrier_view (ep2_pins frame s) = carrier_view s"
  "carrier_view (ep2_rate b frame s) = carrier_view s" "carrier_view (ep2_alex0 frame s) = carrier_view s"
  "carrier_view (ep2_pene frame s) = carrier_view s" "carrier_view (ep2_nucleo0 frame s) = carrier_view s"
  "carrier_view (ep2_dac0 frame s) = carrier_view s" "carrier_view (ep2_ocant frame s) = carrier_view s"
  "carrier_view (ep2_alex1 frame s) = carrier_view s" "carrier_view (ep2_misc2 frame s) = carrier_view s"
  "carrier_view (ep2_nucleo1 frame s) = carrier_view s" "carrier_view (ep2_alex_port frame s) = carrier_view s"
  "carrier_view (ep2_level b frame s) = carrier_view s" "carrier_view (ep2_boost frame s) = carrier_view s"
  "carrier_view (ep2_rx1_att frame s) = carrier_view s" "carrier_view (ep2_rx2_att frame s) = carrier_view s"
  "carrier_view (ep2_tx_rx_att frame s) = carrier_view s" "carrier_view (ep2_keyer frame s) = carrier_view s"
  "carrier_view (ep2_hang frame s) = carrier_view s"
  by (simp_all add: ep2_defs Let_def del: reset_rx_los_def)

lemma view_frequencies [simp]:
  "carrier_view (ep2_tx_freq b frame s) = carrier_view s" "carrier_view (ep2_rx0_freq b frame s) = carrier_view s"
  "carrier_view (ep2_rx1_freq b frame s) = carrier_view s" "carrier_view (ep2_rx2_freq b frame s) = carrier_view s"
  by (simp_all add: ep2_tx_freq_def ep2_rx0_freq_def ep2_rx1_freq_def ep2_rx2_freq_def Let_def)

lemma process_ep2_view: "carrier_view (process_ep2 b frame s) = carrier_view s"
  by (simp add: process_ep2_def Let_def ep2_general_def ep2_filters_def)

lemma main_updates_view: "carrier_view (main_updates s) = carrier_view s"
proof -
  have "carrier_view (alex_write s) = carrier_view s" "carrier_view (misc_write s) = carrier_view s"
    "carrier_view (nucleo_write s) = carrier_view s" for s
    by (simp_all add: carrier_view_def alex_write_def alex_latch_def misc_write_def nucleo_write_def i2c_update_def
        i2c_send_def emit_def Let_def split: prod.split)
  then show ?thesis
    by (simp add: main_updates_def main_alex_def main_misc_def main_nucleo_def note_change_def Let_def)
qed

text \<open>While the keyer sleeps the main thread may handle any commands and update the filters.\<close>

definition main_activity :: "board \<Rightarrow> u8 list list \<Rightarrow> hpsdr \<Rightarrow> hpsdr" where
  "main_activity b frames s = main_updates (foldl (\<lambda>s frame. process_ep2 b frame s) s frames)"

lemma main_activity_view: "carrier_view (main_activity b frames s) = carrier_view s"
  unfolding main_activity_def main_updates_view by (induction frames arbitrary: s) (simp_all add: process_ep2_view)

interpretation keyed: keyer_env "main_activity b frames" for b frames
  using main_activity_view by unfold_locales (simp_all add: carrier_view_def rd8_def)

text \<open>C9. Starting with the carrier off, a turn of the keyer leaves it off, and every value it stores to the
  register on the way has the carrier on only together with push-to-talk and the multiplexer, for any
  behaviour of the other threads that leaves the register alone.\<close>

lemma carrier_needs_ptt:
  assumes "\<And>s. rd8 tx_rst (env s) = rd8 tx_rst s \<and> tx_rst_log (trace (env s)) = tx_rst_log (trace s)"
    and "\<forall>v\<in>set (tx_rst_log (trace s)). rf_safe v" and "\<not> bit (rd8 tx_rst s) 2" and "keyer_turn env s = Some t"
  shows "(\<forall>v\<in>set (tx_rst_log (trace t)). rf_safe v) \<and> \<not> bit (rd8 tx_rst t) 2"
proof -
  have "keyer_env env"
    using assms(1) by unfold_locales simp_all
  from keyer_env.turn_carrier [OF this _ assms(4)] assms(2,3) show ?thesis
    by (simp add: silent_def logged_def)
qed

lemma carrier_needs_ptt_witness:
  "\<exists>t. keyer_turn (\<lambda>s. if bit (rd8 tx_rst s) 2 then s\<lparr>gpio_in := 0\<rparr> else s)
      ((hpsdr_globals (\<lambda>_. 0))\<lparr>cw_int_data := 1, gpio_in := 2\<rparr>) = Some t \<and>
     tx_rst_log (trace t) \<noteq> [] \<and> list_all rf_safe (tx_rst_log (trace t)) \<and> \<not> bit (rd8 tx_rst t) 2"
proof -
  let ?env = "\<lambda>s. if bit (rd8 tx_rst s) 2 then s\<lparr>gpio_in := 0\<rparr> else s" and
    ?s = "(hpsdr_globals (\<lambda>_. 0))\<lparr>cw_int_data := 1, gpio_in := 2\<rparr>"
  obtain t where "keyer_turn ?env ?s = Some t \<and> tx_rst_log (trace t) \<noteq> []"
    by (simp add: keyer_turn_def straight_key_def cw_on_def cw_off_def key_down.simps nap_def Let_def lead_time_def
        dot_time_def cw_input_def hpsdr_globals_def reg_set_def reg_clear_def wr8_def store_def emit_def rd8_def)
  with carrier_needs_ptt [of ?env ?s t] show ?thesis
    by (auto simp: rd8_def hpsdr_globals_def list_all_iff)
qed

section \<open>Hang time\<close>

lemma rd8_keyer_fields [simp]:
  "rd8 off (s\<lparr>cw_ptt := x\<rparr>) = rd8 off s" "rd8 off (s\<lparr>tx_mux_data := x\<rparr>) = rd8 off s"
  "rd8 off (s\<lparr>cw_ptt_delay := y\<rparr>) = rd8 off s"
  by (simp_all add: rd8_def)

lemma ptt_off_fields:
  "cw_ptt (wr8 off v s) = cw_ptt s" "cw_ptt (reg_clear (rd8 off) (wr8 off) v s) = cw_ptt s" "cw_ptt (reg_set (rd8 off) (wr8 off) v s) = cw_ptt s"
  by (simp_all add: reg_set_def reg_clear_def wr8_def store_def)

lemma ptt_off_step: "1 < cw_ptt_delay s \<Longrightarrow> cw_ptt_off s = s\<lparr>cw_ptt_delay := cw_ptt_delay s - 1\<rparr>"
  by (simp add: cw_ptt_off_def)

lemma ptt_off_counts:
  assumes "int n < cw_ptt_delay s"
  shows "(cw_ptt_off ^^ n) s = s\<lparr>cw_ptt_delay := cw_ptt_delay s - int n\<rparr>"
  using assms
proof (induction n)
  case (Suc n)
  then have "(cw_ptt_off ^^ n) s = s\<lparr>cw_ptt_delay := cw_ptt_delay s - int n\<rparr>"
    by simp
  with Suc.prems show ?case
    by (simp add: ptt_off_step)
qed simp

text \<open>\<open>cw_off\<close> starts a count of \<open>cw_hang\<close> milliseconds, or of 10; push-to-talk stays on for all calls of
  the count but the last, which switches it, the multiplexer and the flags off.\<close>

lemma hang_time:
  assumes "cw_off env s = Some t" and "cw_ptt t = 1" and "bit (rd8 tx_rst t) 5"
  shows "let d = (if 0 < cw_hang t then unat (cw_hang t) else 10) in
    (\<forall>n<d. cw_ptt ((cw_ptt_off ^^ n) t) = 1 \<and> bit (rd8 tx_rst ((cw_ptt_off ^^ n) t)) 5) \<and>
    cw_ptt ((cw_ptt_off ^^ d) t) = 0 \<and> \<not> bit (rd8 tx_rst ((cw_ptt_off ^^ d) t)) 5 \<and>
    \<not> bit (rd8 tx_rst ((cw_ptt_off ^^ d) t)) 4 \<and> tx_mux_data ((cw_ptt_off ^^ d) t) = 0"
proof -
  define d where "d = (if 0 < cw_hang t then unat (cw_hang t) else 10)"
  have delay: "cw_ptt_delay t = int d"
    using assms(1) by (auto simp: d_def cw_off_def Let_def split: if_splits)
  have d: "0 < d"
    by (simp add: d_def word_less_nat_alt)
  then obtain k where k: "d = Suc k"
    by (cases d) auto
  have before: "(cw_ptt_off ^^ n) t = t\<lparr>cw_ptt_delay := int (d - n)\<rparr>" if "n < d" for n
    using ptt_off_counts [of n t] that delay by (simp add: of_nat_diff)
  have at: "(cw_ptt_off ^^ d) t = cw_ptt_off (t\<lparr>cw_ptt_delay := 1\<rparr>)"
    using before [of k] by (simp add: k)
  have off: "cw_ptt (cw_ptt_off (t\<lparr>cw_ptt_delay := 1\<rparr>)) = 0 \<and> tx_mux_data (cw_ptt_off (t\<lparr>cw_ptt_delay := 1\<rparr>)) = 0 \<and>
      \<not> bit (rd8 tx_rst (cw_ptt_off (t\<lparr>cw_ptt_delay := 1\<rparr>))) 5 \<and> \<not> bit (rd8 tx_rst (cw_ptt_off (t\<lparr>cw_ptt_delay := 1\<rparr>))) 4"
    by (simp add: cw_ptt_off_def Let_def bit_and_iff bit_or_iff bit_not_iff key_bits ptt_off_fields)
  show ?thesis
    unfolding d_def [symmetric] Let_def at using off before assms(2,3) by simp
qed

definition keyed_state :: hpsdr where
  "keyed_state = (hpsdr_globals (\<lambda>_. 0x34))\<lparr>cw_ptt := 1, cw_hang := 3\<rparr>"

lemma hang_time_witness:
  "\<exists>t. cw_off id keyed_state = Some t \<and> cw_ptt ((cw_ptt_off ^^ 2) t) = 1 \<and> cw_ptt ((cw_ptt_off ^^ 3) t) = 0"
proof -
  obtain t where t: "cw_off id keyed_state = Some t" and p: "cw_ptt t = 1" "cw_hang t = 3" "rd8 tx_rst t = 0x30"
    by (simp add: cw_off_def keyed_state_def hpsdr_globals_def lead_time_def dot_time_def Let_def reg_clear_def wr8_def
        store_def rd8_def)
  have "bit (rd8 tx_rst t) 5"
    by (simp add: p)
  from hang_time [OF t p(1) this] t show ?thesis
    by (auto simp: p Let_def)
qed

section \<open>Timing\<close>

text \<open>The milliseconds slept in a trace.\<close>

fun sleep_of :: "io \<Rightarrow> nat" where
  "sleep_of (Sleep us) = us"
| "sleep_of e = 0"

definition slept :: "hpsdr \<Rightarrow> nat" where
  "slept s = sum_list (map sleep_of (trace s))"

text \<open>Threads that do not sleep on the keyer's account and leave its settings alone while an element lasts.\<close>

locale steady_env =
  fixes env :: "hpsdr \<Rightarrow> hpsdr"
  assumes env_slept: "slept (env s) = slept s"
    and env_settings: "cw_speed (env s) = cw_speed s" "cw_delay (env s) = cw_delay s" "cw_weight (env s) = cw_weight s"
begin

definition settings :: "hpsdr \<Rightarrow> u8 \<times> u8 \<times> u8" where
  "settings s = (cw_speed s, cw_delay s, cw_weight s)"

lemma nap_time: "slept (nap env n s) = slept s + n" "settings (nap env n s) = settings s"
  by (simp_all add: nap_def env_slept settings_def env_settings) (simp_all add: slept_def emit_def)

lemma sample_time:
  "slept (sample env s) = slept s + 1000" "settings (sample env s) = settings s"
  "slept (sample_mode env s) = slept s + 1000" "settings (sample_mode env s) = settings s"
  using nap_time [of 1000 s] by (simp_all add: sample_def sample_mode_def Let_def slept_def settings_def)

lemma samples_time:
  "slept ((sample env ^^ n) s) = slept s + 1000 * n" "settings ((sample env ^^ n) s) = settings s"
  "slept ((sample_mode env ^^ n) s) = slept s + 1000 * n" "settings ((sample_mode env ^^ n) s) = settings s"
  by (induction n) (simp_all add: sample_time)

lemma rst_time:
  "slept (set8 tx_rst m s) = slept s" "slept (clear8 tx_rst m s) = slept s"
  "settings (set8 tx_rst m s) = settings s" "settings (clear8 tx_rst m s) = settings s"
  "slept (s\<lparr>cw_ptt_delay := d\<rparr>) = slept s"
  by (simp_all add: slept_def settings_def reg_set_def reg_clear_def wr8_def store_def)

lemma times_cong: "settings s = settings t \<Longrightarrow> lead_time s = lead_time t \<and> signal_time code s = signal_time code t"
  by (simp add: settings_def lead_time_def signal_time_def dot_time_def Let_def)

text \<open>The carrier is on during the delay for the element and the delay of \<open>cw_off\<close>.\<close>

lemma carrier_time:
  assumes "cw_signal_delay env code s = Some t" and "cw_off env t = Some u"
  shows "slept u = slept s + 1000 * (signal_time code s + lead_time s)"
proof -
  have t: "t = (sample_mode env ^^ signal_time code s) s"
    using assms(1) by (simp add: cw_signal_delay_def split: if_splits)
  then have st: "settings t = settings s" "slept t = slept s + 1000 * signal_time code s"
    by (simp_all add: samples_time)
  have "lead_time t = lead_time s"
    using times_cong [OF st(1)] by simp
  moreover have "slept u = slept t + 1000 * lead_time t"
    using assms(2) by (auto simp: cw_off_def Let_def samples_time rst_time split: if_splits)
  ultimately show ?thesis
    by (simp add: st)
qed

end

lemma tx_freq_settings:
  "slept (ep2_tx_freq b frame s) = slept s" "cw_speed (ep2_tx_freq b frame s) = cw_speed s"
  "cw_delay (ep2_tx_freq b frame s) = cw_delay s" "cw_weight (ep2_tx_freq b frame s) = cw_weight s"
proof -
  have "slept (tell_arduino ard_ftx (upd ard_ftx_update) k freq s) = slept s" "slept (freq_changed s) = slept s"
    "slept (icom_write s) = slept s" for k freq s
    by (simp_all add: slept_def tell_arduino_def i2c_update_def i2c_send_def emit_def freq_changed_def icom_write_def Let_def)
  then show "slept (ep2_tx_freq b frame s) = slept s"
    by (simp add: ep2_tx_freq_def Let_def) (simp add: slept_def wr32_def)
  show "cw_speed (ep2_tx_freq b frame s) = cw_speed s" "cw_delay (ep2_tx_freq b frame s) = cw_delay s"
    "cw_weight (ep2_tx_freq b frame s) = cw_weight s"
    by (simp_all add: ep2_tx_freq_def tell_arduino_def i2c_update_def i2c_send_def emit_def freq_changed_def icom_write_def
        wr_defs store_def Let_def)
qed

text \<open>Tuning the transmitter during an element does not change its length.\<close>

interpretation tuning: steady_env "ep2_tx_freq b frame" for b frame
  by unfold_locales (simp_all add: tx_freq_settings)



section \<open>A speed of zero\<close>

lemma cw_input_bits: "bit (cw_input s) n \<Longrightarrow> n < 2"
  by (auto simp: cw_input_def Let_def bit_simps bit_masks split: if_splits)

lemma cw_input_pressed: "cw_input s \<noteq> 0 \<Longrightarrow> bit (cw_input s) 0 \<or> bit (cw_input s) 1"
proof (rule ccontr)
  assume "cw_input s \<noteq> 0" and no: "\<not> (bit (cw_input s) 0 \<or> bit (cw_input s) 1)"
  have "\<not> bit (cw_input s) n" for n
    using no cw_input_bits [of s n] by (cases "n = 0 \<or> n = 1") auto
  then have "cw_input s = 0"
    by (intro bit_word_eqI) simp
  with \<open>cw_input s \<noteq> 0\<close> show False ..
qed

text \<open>A host may set a speed of zero; the next time a paddle is pressed the keyer divides by it.\<close>

lemma zero_speed:
  "cw_speed (process_ep2 b [22, f1, f2, 0x40, f4] s) = 0 \<and>
   (cw_speed (env (emit (Sleep 1000) s)) = 0 \<and> cw_input (env (emit (Sleep 1000) s)) \<noteq> 0 \<longrightarrow> keyer_turn env s = None)"
proof (intro conjI impI)
  show "cw_speed (process_ep2 b [22, f1, f2, 0x40, f4] s) = 0"
    by (simp add: process_ep2_def ep2_rx2_att_def i2c_update_def i2c_send_def emit_def note_change_def Let_def)
next
  let ?t = "env (emit (Sleep 1000) s)"
  assume z: "cw_speed ?t = 0 \<and> cw_input ?t \<noteq> 0"
  define u where "u = (if cw_ptt ?t \<noteq> 0 then cw_ptt_off ?t else ?t)"
  have u: "cw_speed u = 0" "cw_input u = cw_input ?t"
    using z by (simp_all add: u_def cw_ptt_off_def cw_input_def reg_set_def reg_clear_def wr8_def store_def Let_def)
  then have on: "cw_on env (u\<lparr>cw_mem0 := x, cw_mem1 := y\<rparr>) = None" "cw_on env (u\<lparr>cw_mem0 := x\<rparr>) = None" for x y
    by (simp_all add: cw_on_def)
  have "element env k (u\<lparr>cw_mem0 := x, cw_mem1 := y\<rparr>) = None" for k x y
    using u(1) by (simp add: element_def cw_on_def)
  then have "iambic env 1 (u\<lparr>cw_mem0 := cw_input ?t, cw_mem1 := cw_input ?t\<rparr>) = None"
    using z cw_input_pressed [of ?t]
    by (subst iambic.simps) (auto simp: iambic.simps [of env 0])
  then show "keyer_turn env s = None"
    using z u on by (simp add: keyer_turn_def nap_def Let_def u_def [symmetric] straight_key_def single_dot_def)
qed

lemma zero_speed_witness:
  "keyer_turn (\<lambda>s. s\<lparr>gpio_in := 2\<rparr>) ((hpsdr_globals (\<lambda>_. 0))\<lparr>cw_int_data := 1, cw_speed := 0\<rparr>) = None"
  using zero_speed [of board_125 0 0 0 "(hpsdr_globals (\<lambda>_. 0))\<lparr>cw_int_data := 1, cw_speed := 0\<rparr>" "\<lambda>s. s\<lparr>gpio_in := 2\<rparr>"]
  by (simp add: cw_input_def emit_def hpsdr_globals_def Let_def)

end
