(* ===== verification/Hpsdr_ep6.thy ===== *)
theory Hpsdr_ep6
  imports Hpsdr_main
begin

unbundle bit_operations_syntax

text \<open>
  The receiver thread of \<open>sdr-transceiver-hpsdr.c\<close>, \<open>handler_ep6\<close>: it waits for a block of samples in the
  FIFO, assembles up to 25 datagrams of two frames each and sends them. The local arrays have their
  lengths; a copy or an access outside an array has no result, \<open>None\<close>. \<open>receivers\<close> and \<open>rate\<close> are read
  once per block here.
\<close>

text \<open>The variables that live across blocks. \<open>rate_left\<close> is \<open>rate_counter\<close> and \<open>taken\<close> is \<open>k\<close>.\<close>

record ep6 =
  header_offset :: nat
  sequence_no :: u32
  rate_left :: int
  taken :: nat
  audio :: "u32 list"
  samples :: "u8 list"
  packets :: "u8 list"

definition ep6_header :: "u8 list" where
  "ep6_header =
    [127, 127, 127, 0, 0, 33, 17, 21,
     127, 127, 127, 8, 0, 0, 0, 0,
     127, 127, 127, 16, 0, 0, 0, 0,
     127, 127, 127, 24, 0, 0, 0, 0,
     127, 127, 127, 32, 66, 66, 66, 66]"

text \<open>The start of the thread. What the stack held in the local arrays is \<open>junk\<close>.\<close>

definition ep6_start :: "(nat \<Rightarrow> u8) \<Rightarrow> hpsdr \<Rightarrow> ep6" where
  "ep6_start junk s = \<lparr>header_offset = 0, sequence_no = 0, rate_left = 2 ^ unat (ep_rate s), taken = 0,
     audio = replicate 512 0, samples = map junk [0..<16384],
     packets = map (\<lambda>i. if i mod 1032 < 4 then ep6_id ! (i mod 1032) else junk i) [0..<25 * 1032]\<rparr>"

definition reset_rx_fifos :: "hpsdr \<Rightarrow> hpsdr" where
  "reset_rx_fifos s =
     (let s = (if has_codec s then set8 rx_rst 2 (clear8 rx_rst 2 s) else s)
      in set8 rx_rst 1 (clear8 rx_rst 1 s))"

section \<open>Sizes\<close>

text \<open>\<open>size\<close>, \<open>n\<close> and \<open>m\<close>: the bytes of a sample of all receivers, the samples of a frame and the datagrams of a block.\<close>

definition block_packets :: "nat \<Rightarrow> nat" where "block_packets r = 256 div frame_samples r"
definition block_samples :: "nat \<Rightarrow> nat" where "block_samples r = block_packets r * frame_samples r"

text \<open>An overflow discards what the FIFOs hold; then the thread waits for a block.\<close>

definition ep6_wait :: "(hpsdr \<Rightarrow> hpsdr) \<Rightarrow> hpsdr \<Rightarrow> hpsdr option" where
  "ep6_wait env s =
     (let s = (if has_codec s \<and> 1024 \<le> adc_cntr s \<or> 8192 \<le> rx_cntr s then reset_rx_fifos s else s)
      in sleep_while (\<lambda>t. unat (rx_cntr t) < block_samples (unat (receivers s)) * 16) env s)"

section \<open>Frames\<close>

text \<open>The eight bytes in front of a frame: \<open>gpio\<close> and \<open>ptt\<close> are OR-ed into the fourth, analog values take the
  places the header leaves to them.\<close>

definition analog :: "(nat \<Rightarrow> u32) \<Rightarrow> nat \<Rightarrow> u8 list" where
  "analog xadc i = (let v = ucast (drop_bit 3 (xadc i)) :: u16 in [ucast (drop_bit 8 v), ucast v])"

definition frame_header :: "nat \<Rightarrow> u8 \<Rightarrow> u8 \<Rightarrow> (nat \<Rightarrow> u32) \<Rightarrow> u8 list" where
  "frame_header off gpio ptt xadc =
     (let h = take 8 (drop off ep6_header);
          h = h[3 := h ! 3 OR ((gpio AND 7) OR ptt)]
      in if off = 8 then take 6 h @ analog xadc 24
         else if off = 16 then take 4 h @ analog xadc 16 @ analog xadc 17
         else if off = 24 then take 4 h @ analog xadc 25 @ drop 6 h
         else h)"

text \<open>One sample of all receivers: the boards deliver 32 bytes, of which those the host asked for are copied,
  and a word of audio follows if there is a codec.\<close>

definition copy_sample :: "bool \<Rightarrow> nat \<Rightarrow> u8 list \<Rightarrow> nat \<Rightarrow> u8 list \<Rightarrow> nat \<Rightarrow> u8 list option" where
  "copy_sample th bytes buf p data d =
     do {
       buf \<leftarrow> memcpy buf p data d (if 14 < bytes then 12 else bytes - 2);
       if 14 < bytes then
         if th then memcpy buf (p + 12) data (12 + d) (if 32 < bytes then 18 else bytes - 14)
         else memcpy buf (p + 12) data (18 + d) (if 26 < bytes then 12 else bytes - 14)
       else Some buf
     }"

definition copy_audio :: "nat \<Rightarrow> nat \<Rightarrow> u32 list \<Rightarrow> u8 list \<Rightarrow> nat \<Rightarrow> u8 list option" where
  "copy_audio rate k au buf p =
     (if drop_bit rate k < length au then memcpy buf (p - 2) (le32 (au ! drop_bit rate k)) 0 2 else None)"

fun copy_samples :: "bool \<Rightarrow> bool \<Rightarrow> nat \<Rightarrow> nat \<Rightarrow> u8 list \<Rightarrow> u32 list \<Rightarrow> nat \<Rightarrow> u8 list \<Rightarrow> nat \<Rightarrow> nat \<Rightarrow> nat \<Rightarrow>
    (u8 list \<times> nat \<times> nat) option" where
  "copy_samples th codec rate bytes data au 0 buf p d k = Some (buf, d, k)"
| "copy_samples th codec rate bytes data au (Suc n) buf p d k =
     do {
       buf \<leftarrow> copy_sample th bytes buf p data d;
       if codec then do {
         buf \<leftarrow> copy_audio rate k au buf (p + bytes);
         copy_samples th codec rate bytes data au n buf (p + bytes) (d + 32) (k + 1)
       } else copy_samples th codec rate bytes data au n buf (p + bytes) (d + 32) k
     }"

text \<open>One frame: its header, zeros, and the samples over them; \<open>xadc\<close> and the pins are read for each.\<close>

definition copy_frame :: "bool \<Rightarrow> hpsdr \<Rightarrow> (nat \<Rightarrow> u32) \<Rightarrow> nat \<Rightarrow> u8 list \<Rightarrow> nat \<Rightarrow> nat \<Rightarrow> ep6 \<Rightarrow>
    (u8 list \<times> nat \<times> nat) option" where
  "copy_frame th s xadc r data i d st =
     do {
       buf \<leftarrow> memcpy (packets st) (frame_pointer i) (frame_header (header_offset st) (gpio_in s) (cw_ptt s) xadc) 0 8;
       buf \<leftarrow> memcpy buf (frame_pointer i + 8) (replicate 504 0) 0 504;
       copy_samples th (has_codec s) (unat (ep_rate s)) (sample_bytes r) data (audio st) (frame_samples r)
         buf (frame_pointer i + 8) d (taken st)
     }"

fun copy_frames :: "bool \<Rightarrow> hpsdr \<Rightarrow> (nat \<Rightarrow> u32) \<Rightarrow> nat \<Rightarrow> u8 list \<Rightarrow> nat list \<Rightarrow> nat \<Rightarrow> ep6 \<Rightarrow> ep6 option" where
  "copy_frames th s xadc r data [] d st = Some st"
| "copy_frames th s xadc r data (i # is) d st =
     do {
       (buf, d, k) \<leftarrow> copy_frame th s xadc r data i d st;
       copy_frames th s xadc r data is d
         (st\<lparr>packets := buf, taken := k, header_offset := next_header (header_offset st)\<rparr>)
     }"

section \<open>Blocks\<close>

text \<open>The words of the codec's FIFO are taken once every \<open>2 ^ rate\<close> blocks: \<open>memcpy(audio, codec, m * n * 8)\<close>.\<close>

definition refresh_audio :: "hpsdr \<Rightarrow> u32 list \<Rightarrow> nat \<Rightarrow> ep6 \<Rightarrow> ep6 option" where
  "refresh_audio s codec mn st =
     (if has_codec s then
        let st = st\<lparr>rate_left := rate_left st - 1\<rparr> in
        if rate_left st = 0 then
          if mn * 2 \<le> length (audio st)
          then Some (st\<lparr>audio := take (mn * 2) codec @ drop (mn * 2) (audio st),
                 rate_left := 2 ^ unat (ep_rate s), taken := 0\<rparr>)
          else None
        else Some st
      else Some st)"

text \<open>One turn of the loop after the wait, with what the two FIFOs deliver; the first \<open>m\<close> datagrams are sent.\<close>

definition ep6_block :: "bool \<Rightarrow> hpsdr \<Rightarrow> u32 list \<Rightarrow> u8 list \<Rightarrow> (nat \<Rightarrow> u32) \<Rightarrow> ep6 \<Rightarrow> (u8 list list \<times> ep6) option" where
  "ep6_block th s codec fifo xadc st =
     (let r = unat (receivers s); m = block_packets r in
      do {
        st \<leftarrow> refresh_audio s codec (block_samples r) st;
        data \<leftarrow> memcpy (samples st) 0 fifo 0 (block_samples r * 64);
        (buf, c) \<leftarrow> number_packets [0..<m] (sequence_no st) (packets st);
        st \<leftarrow> copy_frames th s xadc r data [0..<m * 2] 0 (st\<lparr>samples := data, packets := buf, sequence_no := c\<rparr>);
        Some (map (\<lambda>i. take 1032 (drop (i * 1032) (packets st))) [0..<m], st)
      })"

section \<open>The thread\<close>

text \<open>The thread resets the FIFOs when it starts. A turn ends it when it is disabled (\<open>Inr\<close>); otherwise it waits for a
  block and sends it. The sizes come from the number of receivers before the wait.\<close>

definition ep6_enter :: "(nat \<Rightarrow> u8) \<Rightarrow> hpsdr \<Rightarrow> hpsdr \<times> ep6" where
  "ep6_enter junk s = (reset_rx_fifos s, ep6_start junk s)"

definition ep6_turn :: "bool \<Rightarrow> (hpsdr \<Rightarrow> hpsdr) \<Rightarrow> u32 list \<Rightarrow> u8 list \<Rightarrow> (nat \<Rightarrow> u32) \<Rightarrow> hpsdr \<Rightarrow> ep6 \<Rightarrow>
    ((hpsdr \<times> ep6) + hpsdr) option" where
  "ep6_turn th env codec fifo xadc s st =
     (if ep_enable s then
        do {
          t \<leftarrow> ep6_wait env s;
          (out, st) \<leftarrow> ep6_block th (t\<lparr>receivers := receivers s\<rparr>) codec fifo xadc st;
          Some (Inl (foldl (\<lambda>t dg. emit (Send dg) t) t out, st))
        }
      else Some (Inr (s\<lparr>ep_active := False\<rparr>)))"

end
