(* ===== verification/Hpsdr_samples.thy ===== *)
theory Hpsdr_samples
  imports Hpsdr_ep6
begin

unbundle bit_operations_syntax

text \<open>
  The samples the receiver thread copies: results of computations that can fail, what a copy changes
  and leaves alone, and the receivers and audio words of the samples of a frame.
\<close>

section \<open>A sample\<close>

text \<open>The board's receiver behind a receiver of the protocol, and the byte behind a byte of a sample.\<close>

definition board_receiver :: "bool \<Rightarrow> nat \<Rightarrow> nat option" where
  "board_receiver th c = (if c < (if th then 5 else 4) then Some (if th \<or> c < 2 then c else c + 1) else None)"

definition sample_byte :: "bool \<Rightarrow> u8 list \<Rightarrow> nat \<Rightarrow> nat \<Rightarrow> u8 \<Rightarrow> u8" where
  "sample_byte th data d x v = (case board_receiver th (x div 6) of Some e \<Rightarrow> data ! (d + 6 * e + x mod 6) | None \<Rightarrow> v)"

lemma sample_byte_offset:
  "sample_byte th data d x v = (if x < (if th then 30 else 24) then data ! (d + (if th \<or> x < 12 then x else x + 6)) else v)"
proof -
  have q: "x div 6 < k \<longleftrightarrow> x < 6 * k" for k
    by (metis (no_types, lifting) div_less_iff_less_mult mult.commute zero_less_numeral)
  have r: "6 * (x div 6) + x mod 6 = x"
    by simp
  show ?thesis
    using r by (simp add: sample_byte_def board_receiver_def q algebra_simps)
qed

definition valid_size :: "nat \<Rightarrow> bool" where
  "valid_size bytes \<longleftrightarrow> bytes \<in> {8, 14, 20, 26, 32, 38, 44, 50}"

lemma copy_sample_gives:
  assumes "valid_size bytes" and "p + bytes \<le> length buf" and "d + 32 \<le> length data"
  shows "gives (copy_sample th bytes buf p data d)
    (\<lambda>b. only p (p + (bytes - 2)) buf b \<and> (\<forall>x<bytes - 2. b ! (p + x) = sample_byte th data d x (buf ! (p + x))))"
proof -
  have le: "8 \<le> bytes" "bytes \<le> 50"
    using assms(1) by (auto simp: valid_size_def)
  show ?thesis
  proof (cases "14 < bytes")
    case False
    then show ?thesis
      using assms le unfolding copy_sample_def
      by (auto intro!: memcpy_gives dest: copied_only simp: copied_def only_def sample_byte_offset)
  next
    case True
    note large = this
    show ?thesis
    proof (cases th)
      case True
      then show ?thesis
        using assms le large unfolding copy_sample_def
        by (auto intro!: memcpy_gives simp: copied_def only_def sample_byte_offset)
    next
      case False
      then show ?thesis
        using assms le large unfolding copy_sample_def
        by (auto intro!: memcpy_gives simp: copied_def only_def sample_byte_offset) (simp_all add: ac_simps)
    qed
  qed
qed

lemma copy_audio_gives:
  assumes "drop_bit rate k < length au" and "2 \<le> p" and "p \<le> length buf"
  shows "gives (copy_audio rate k au buf p) (copied buf (p - 2) (le32 (au ! drop_bit rate k)) 0 2)"
  using assms by (simp add: copy_audio_def memcpy_gives)

definition sample_done :: "bool \<Rightarrow> bool \<Rightarrow> nat \<Rightarrow> nat \<Rightarrow> u8 list \<Rightarrow> u32 list \<Rightarrow> u8 list \<Rightarrow> nat \<Rightarrow> nat \<Rightarrow> nat \<Rightarrow> bool" where
  "sample_done th codec rate bytes data au b p d k \<longleftrightarrow>
     (\<forall>x<bytes - 2. b ! (p + x) = sample_byte th data d x 0) \<and>
     (\<forall>x<2. b ! (p + (bytes - 2) + x) = (if codec then le32 (au ! drop_bit rate k) ! x else 0))"

lemma sample_done_only:
  assumes "sample_done th codec rate bytes data au b p d k" and "only a z b c"
    and "p + bytes \<le> length b" and "2 \<le> bytes" and "p + bytes \<le> a \<or> z \<le> p"
  shows "sample_done th codec rate bytes data au c p d k"
proof -
  have same: "c ! (p + x) = b ! (p + x)" if "x < bytes" for x
    using that assms(2-5) by (auto intro!: only_nth)
  have "c ! (p + (bytes - 2) + x) = b ! (p + (bytes - 2) + x)" if "x < 2" for x
    using same [of "bytes - 2 + x"] that assms(4) by (simp add: add.assoc)
  with same show ?thesis
    using assms(1) by (simp add: sample_done_def)
qed

lemma copy_samples_gives:
  assumes "valid_size bytes" and "p + n * bytes \<le> length buf" and "d + 32 * n \<le> length data"
    and "codec \<longrightarrow> k + n \<le> length au * 2 ^ rate"
    and "\<forall>q. p \<le> q \<and> q < p + n * bytes \<longrightarrow> buf ! q = 0"
  shows "gives (copy_samples th codec rate bytes data au n buf p d k)
    (\<lambda>(b, d', k'). only p (p + n * bytes) buf b \<and> d' = d + 32 * n \<and> k' = (if codec then k + n else k) \<and>
       (\<forall>j<n. sample_done th codec rate bytes data au b (p + j * bytes) (d + 32 * j) (k + j)))"
  using assms
proof (induction n arbitrary: buf p d k)
  case 0
  then show ?case by simp
next
  case (Suc n)
  note ge = Suc.prems(1) [unfolded valid_size_def]
  let ?Q = "\<lambda>(b, d', k'). only p (p + Suc n * bytes) buf b \<and> d' = d + 32 * Suc n \<and>
    k' = (if codec then k + Suc n else k) \<and>
    (\<forall>j<Suc n. sample_done th codec rate bytes data au b (p + j * bytes) (d + 32 * j) (k + j))"
  have rest: "gives (copy_samples th codec rate bytes data au n b (p + bytes) (d + 32) (if codec then k + 1 else k)) ?Q"
    if b: "only p (p + bytes) buf b" and placed: "sample_done th codec rate bytes data au b p d k" for b
  proof (rule gives_mono [OF Suc.IH])
    show "\<forall>q. p + bytes \<le> q \<and> q < p + bytes + n * bytes \<longrightarrow> b ! q = 0"
      using b Suc.prems(2,5) by (auto simp: only_def)
    fix x
    assume x: "case x of (c, d', k') \<Rightarrow> only (p + bytes) (p + bytes + n * bytes) b c \<and> d' = d + 32 + 32 * n \<and>
      k' = (if codec then (if codec then k + 1 else k) + n else (if codec then k + 1 else k)) \<and>
      (\<forall>j<n. sample_done th codec rate bytes data au c (p + bytes + j * bytes) (d + 32 + 32 * j) ((if codec then k + 1 else k) + j))"
    obtain c d' k' where [simp]: "x = (c, d', k')" by (cases x)
    have c: "only (p + bytes) (p + bytes + n * bytes) b c"
      using x by simp
    have first: "sample_done th codec rate bytes data au c p d k"
      using placed c by (rule sample_done_only) (use Suc.prems(2) ge b only_length [OF b] in auto)
    have "sample_done th codec rate bytes data au c (p + j * bytes) (d + 32 * j) (k + j)" if "j < Suc n" for j
    proof (cases j)
      case (Suc i)
      then show ?thesis
        using x that by (auto simp: sample_done_def algebra_simps)
    qed (use first in simp)
    then show "?Q x"
      using x only_chain [OF b c, of p "p + Suc n * bytes"] by auto
  qed (use Suc.prems b in \<open>auto simp: only_def\<close>)
  show ?case
  proof (simp only: copy_samples.simps gives_bind, rule gives_mono [OF copy_sample_gives])
    fix b
    assume b: "only p (p + (bytes - 2)) buf b \<and> (\<forall>x<bytes - 2. b ! (p + x) = sample_byte th data d x (buf ! (p + x)))"
    then have "only p (p + bytes) buf b"
      by (auto simp: only_def)
    show "gives (if codec then copy_audio rate k au b (p + bytes) \<bind>
        (\<lambda>buf. copy_samples th codec rate bytes data au n buf (p + bytes) (d + 32) (k + 1))
      else copy_samples th codec rate bytes data au n b (p + bytes) (d + 32) k) ?Q"
    proof (cases codec)
      case True
      have k: "drop_bit rate k < length au"
        using Suc.prems(4) True by (simp add: drop_bit_eq_div div_less_iff_less_mult)
      have "gives (copy_audio rate k au b (p + bytes))
          (\<lambda>a. gives (copy_samples th codec rate bytes data au n a (p + bytes) (d + 32) (if codec then k + 1 else k)) ?Q)"
      proof (rule gives_mono [OF copy_audio_gives [OF k]])
        fix a
        assume a: "copied b (p + bytes - 2) (le32 (au ! drop_bit rate k)) 0 2 a"
        show "gives (copy_samples th codec rate bytes data au n a (p + bytes) (d + 32) (if codec then k + 1 else k)) ?Q"
        proof (rule rest)
          show "only p (p + bytes) buf a"
            using a b ge by (auto simp: copied_def only_def)
          show "sample_done th codec rate bytes data au a p d k"
            using a b ge Suc.prems(2,5) True by (auto simp: copied_def only_def sample_done_def)
        qed
      qed (use Suc.prems ge b in \<open>auto simp: only_def\<close>)
      with True show ?thesis by simp
    next
      case False
      have "sample_done th codec rate bytes data au b p d k"
        using b ge Suc.prems(2,5) False by (auto simp: only_def sample_done_def)
      from rest [OF \<open>only p (p + bytes) buf b\<close> this] False show ?thesis
        by simp
    qed
  qed (use Suc.prems in auto)
qed

end
