(* ===== verification/Hpsdr_ep6_spec.thy ===== *)
theory Hpsdr_ep6_spec
  imports Hpsdr_samples
begin

unbundle bit_operations_syntax

text \<open>
  What the receiver thread guarantees: no copy leaves an array while the rate stays, every datagram has
  its number, headers and samples at the places of the protocol, and what happens when the rate
  decreases between two blocks.
\<close>

section \<open>A block of frames\<close>

lemma valid_sizes: "valid_receivers r \<Longrightarrow> valid_size (sample_bytes r)"
  by (auto simp: valid_size_def sample_bytes_def dest!: valid_receivers_cases)

lemma frame_header_length [simp]: "header_ok off \<Longrightarrow> length (frame_header off gpio ptt xadc) = 8"
  by (auto simp: header_ok_def frame_header_def ep6_header_def analog_def Let_def)

lemma frame_pointer_bound: "i < 50 \<Longrightarrow> frame_pointer i + 512 \<le> 25800"
  by (cases "even i") (auto elim!: evenE oddE)

definition frame_done :: "bool \<Rightarrow> hpsdr \<Rightarrow> (nat \<Rightarrow> u32) \<Rightarrow> nat \<Rightarrow> u8 list \<Rightarrow> u32 list \<Rightarrow> nat \<Rightarrow> nat \<Rightarrow> nat \<Rightarrow> nat \<Rightarrow> u8 list \<Rightarrow> bool" where
  "frame_done th s xadc r data au i off d k b \<longleftrightarrow>
     (\<forall>x<8. b ! (frame_pointer i + x) = frame_header off (gpio_in s) (cw_ptt s) xadc ! x) \<and>
     (\<forall>j<frame_samples r. sample_done th (has_codec s) (unat (ep_rate s)) (sample_bytes r) data au b
        (frame_pointer i + 8 + j * sample_bytes r) (d + 32 * j) (k + j))"

lemma frame_done_only:
  assumes "frame_done th s xadc r data au i off d k b" and "only a z b c"
    and "frame_pointer i + 512 \<le> length b" and "frame_pointer i + 512 \<le> a \<or> z \<le> frame_pointer i"
  shows "frame_done th s xadc r data au i off d k c"
proof -
  have "c ! (frame_pointer i + x) = b ! (frame_pointer i + x)" if "x < 8" for x
    using that assms(2-4) by (auto intro!: only_nth)
  moreover have "sample_done th (has_codec s) (unat (ep_rate s)) (sample_bytes r) data au c
      (frame_pointer i + 8 + j * sample_bytes r) (d + 32 * j) (k + j)" if "j < frame_samples r" for j
    using assms sample_in_frame [OF that] that
    by (intro sample_done_only [OF _ assms(2)]) (auto simp: frame_done_def sample_bytes_def)
  ultimately show ?thesis
    using assms(1) by (simp add: frame_done_def)
qed

lemma copy_frame_gives:
  assumes "valid_receivers r" and "i < 50" and "length (packets st) = 25800"
    and "header_ok (header_offset st)" and "d + 32 * frame_samples r \<le> length data"
    and "has_codec s \<longrightarrow> taken st + frame_samples r \<le> length (audio st) * 2 ^ unat (ep_rate s)"
  shows "gives (copy_frame th s xadc r data i d st)
    (\<lambda>(b, d', k). only (frame_pointer i) (frame_pointer i + 512) (packets st) b \<and> d' = d + 32 * frame_samples r \<and>
       k = (if has_codec s then taken st + frame_samples r else taken st) \<and>
       frame_done th s xadc r data (audio st) i (header_offset st) d (taken st) b)"
proof -
  let ?p = "frame_pointer i" and ?n = "frame_samples r" and ?z = "sample_bytes r"
  let ?h = "frame_header (header_offset st) (gpio_in s) (cw_ptt s) xadc"
  note fit = frame_pointer_bound [OF assms(2)] frame_fits [of r]
  have h: "length ?h = 8"
    using assms(4) by simp
  show ?thesis
    unfolding copy_frame_def gives_bind
  proof (rule memcpy_gives, goal_cases)
    case (3 b1)
    then have b1: "copied (packets st) ?p ?h 0 8 b1" .
    show ?case
    proof (rule memcpy_gives, goal_cases)
      case (3 b2)
      then have b2: "copied b1 (?p + 8) (replicate 504 0) 0 504 b2" .
      have zeros: "\<forall>q. ?p + 8 \<le> q \<and> q < ?p + 8 + ?n * ?z \<longrightarrow> b2 ! q = 0"
        using b1 b2 fit assms(3) by (auto simp: copied_def)
      have len: "length b2 = 25800"
        using b1 b2 assms(3) by (simp add: copied_def)
      have before: "only ?p (?p + 512) (packets st) b2"
        using b1 b2 by (auto simp: copied_def only_def)
      have header: "b2 ! (?p + x) = ?h ! x" if "x < 8" for x
        using that b1 b2 fit assms(3) by (auto simp: copied_def)
      show ?case
      proof (rule gives_mono [OF copy_samples_gives [OF valid_sizes [OF assms(1)]]])
        fix u
        assume u: "case u of (b, d', k') \<Rightarrow> only (?p + 8) (?p + 8 + ?n * ?z) b2 b \<and> d' = d + 32 * ?n \<and>
          k' = (if has_codec s then taken st + ?n else taken st) \<and>
          (\<forall>j<?n. sample_done th (has_codec s) (unat (ep_rate s)) ?z data (audio st) b (?p + 8 + j * ?z) (d + 32 * j)
            (taken st + j))"
        obtain b d' k' where [simp]: "u = (b, d', k')" by (cases u)
        have b: "only (?p + 8) (?p + 8 + ?n * ?z) b2 b"
          using u by simp
        have "b ! (?p + x) = ?h ! x" if "x < 8" for x
          using only_nth [OF b, of "?p + x"] that header fit len by simp
        moreover have "only ?p (?p + 512) (packets st) b"
          by (rule only_chain [OF before b]) (use fit in auto)
        ultimately show "case u of (b, d', k) \<Rightarrow> only ?p (?p + 512) (packets st) b \<and> d' = d + 32 * ?n \<and>
          k = (if has_codec s then taken st + ?n else taken st) \<and>
          frame_done th s xadc r data (audio st) i (header_offset st) d (taken st) b"
          using u by (simp add: frame_done_def)
      qed (use assms fit len zeros in auto)
    qed (use b1 assms fit in \<open>auto simp: copied_def\<close>)
  qed (use assms fit h in auto)
qed

text \<open>All frames of a block: each is complete at the end, and the bytes between them are untouched.\<close>

definition after_frames :: "hpsdr \<Rightarrow> nat \<Rightarrow> nat \<Rightarrow> ep6 \<Rightarrow> u8 list \<Rightarrow> ep6" where
  "after_frames s r f st b = st\<lparr>packets := b, taken := (if has_codec s then taken st + frame_samples r * f else taken st),
     header_offset := (next_header ^^ f) (header_offset st)\<rparr>"

definition frames_done :: "bool \<Rightarrow> hpsdr \<Rightarrow> (nat \<Rightarrow> u32) \<Rightarrow> nat \<Rightarrow> u8 list \<Rightarrow> nat \<Rightarrow> nat \<Rightarrow> nat \<Rightarrow> ep6 \<Rightarrow> u8 list \<Rightarrow> bool" where
  "frames_done th s xadc r data i e d st b \<longleftrightarrow>
     only (frame_pointer i) 25800 (packets st) b \<and>
     (\<forall>q<25800. q mod 1032 < 8 \<longrightarrow> b ! q = packets st ! q) \<and>
     (\<forall>j. i \<le> j \<and> j < e \<longrightarrow> frame_done th s xadc r data (audio st) j ((next_header ^^ (j - i)) (header_offset st))
        (d + 32 * (frame_samples r * (j - i))) (taken st + (if has_codec s then frame_samples r * (j - i) else 0)) b)"

lemma frames_done_Cons:
  assumes first: "frame_done th s xadc r data (audio st) i (header_offset st) d (taken st) b"
    and b: "only (frame_pointer i) (frame_pointer i + 512) (packets st) b"
    and rest: "frames_done th s xadc r data (Suc i) e (d + 32 * frame_samples r) (after_frames s r 1 st b) c"
    and "i < e" and "e \<le> 50" and "length (packets st) = 25800"
  shows "frames_done th s xadc r data i e d st c"
proof -
  let ?st = "after_frames s r 1 st b"
  have c: "only (frame_pointer (Suc i)) 25800 b c"
    using rest by (simp add: frames_done_def after_frames_def)
  have bound: "frame_pointer i + 512 \<le> 25800" "length b = 25800"
    using assms(4-6) only_length [OF b] frame_pointer_bound [of i] by auto
  have "only (frame_pointer i) 25800 (packets st) c"
    by (rule only_chain [OF b c]) (use bound frame_pointer_Suc [of i] in auto)
  moreover have "c ! q = packets st ! q" if "q < 25800" "q mod 1032 < 8" for q
  proof -
    have "c ! q = b ! q"
      using rest that by (simp add: frames_done_def after_frames_def)
    moreover have "b ! q = packets st ! q"
      using that between_frames [of i q] assms(6)
      by (intro only_nth [OF b]) (simp, metis linorder_not_le)
    ultimately show ?thesis by simp
  qed
  moreover have "frame_done th s xadc r data (audio st) j ((next_header ^^ (j - i)) (header_offset st))
      (d + 32 * (frame_samples r * (j - i))) (taken st + (if has_codec s then frame_samples r * (j - i) else 0)) c"
    if "i \<le> j \<and> j < e" for j
  proof (cases "j = i")
    case True
    then show ?thesis
      using frame_done_only [OF first c] bound frame_pointer_Suc [of i] by simp
  next
    case False
    then have ji: "j - i = Suc (j - Suc i)" and "Suc i \<le> j"
      using that by auto
    then have "frame_done th s xadc r data (audio ?st) j ((next_header ^^ (j - Suc i)) (header_offset ?st))
        (d + 32 * frame_samples r + 32 * (frame_samples r * (j - Suc i)))
        (taken ?st + (if has_codec s then frame_samples r * (j - Suc i) else 0)) c"
      using rest that by (simp add: frames_done_def)
    then show ?thesis
      unfolding ji funpow_Suc_right by (auto simp: after_frames_def algebra_simps)
  qed
  ultimately show ?thesis
    by (simp add: frames_done_def)
qed

lemma copy_frames_gives:
  assumes "valid_receivers r" and "i \<le> e" and "e \<le> 50" and "length (packets st) = 25800" and "header_ok (header_offset st)"
    and "d + 32 * (frame_samples r * (e - i)) \<le> length data"
    and "has_codec s \<longrightarrow> taken st + frame_samples r * (e - i) \<le> length (audio st) * 2 ^ unat (ep_rate s)"
  shows "gives (copy_frames th s xadc r data [i..<e] d st)
    (\<lambda>u. \<exists>b. u = after_frames s r (e - i) st b \<and> frames_done th s xadc r data i e d st b)"
  using assms(2-)
proof (induction "e - i" arbitrary: i d st)
  case 0
  then have "i = e" by simp
  then show ?case by (simp add: frames_done_def after_frames_def) (rule exI [of _ "packets st"], auto)
next
  case (Suc t)
  let ?n = "frame_samples r"
  have lt: "i < e" and t: "t = e - Suc i" and ei: "e - i = Suc (e - Suc i)"
    using Suc.hyps(2) by auto
  have cons: "[i..<e] = i # [Suc i..<e]"
    using lt by (simp add: upt_conv_Cons)
  note room = Suc.prems(5,6) [unfolded ei mult_Suc_right]
  show ?case
    unfolding cons copy_frames.simps gives_bind
  proof (rule gives_mono [OF copy_frame_gives [OF assms(1)]])
    fix x
    assume x: "case x of (b, d', k) \<Rightarrow> only (frame_pointer i) (frame_pointer i + 512) (packets st) b \<and> d' = d + 32 * ?n \<and>
       k = (if has_codec s then taken st + ?n else taken st) \<and>
       frame_done th s xadc r data (audio st) i (header_offset st) d (taken st) b"
    obtain b where x_eq: "x = (b, d + 32 * ?n, if has_codec s then taken st + ?n else taken st)"
      and b: "only (frame_pointer i) (frame_pointer i + 512) (packets st) b"
      and first: "frame_done th s xadc r data (audio st) i (header_offset st) d (taken st) b"
      using x by (cases x) auto
    let ?st = "after_frames s r 1 st b"
    have "gives (copy_frames th s xadc r data [Suc i..<e] (d + 32 * ?n) ?st)
      (\<lambda>u. \<exists>c. u = after_frames s r (e - Suc i) ?st c \<and> frames_done th s xadc r data (Suc i) e (d + 32 * ?n) ?st c)"
      by (rule Suc.hyps(1) [OF t])
        (use lt b room Suc.prems in \<open>auto simp: only_def next_header_ok after_frames_def split: if_splits\<close>)
    then have "gives (copy_frames th s xadc r data [Suc i..<e] (d + 32 * ?n) ?st)
      (\<lambda>u. \<exists>c. u = after_frames s r (e - i) st c \<and> frames_done th s xadc r data i e d st c)"
    proof (rule gives_mono, elim exE conjE)
      fix u c
      assume u: "u = after_frames s r (e - Suc i) ?st c" and c: "frames_done th s xadc r data (Suc i) e (d + 32 * ?n) ?st c"
      have "u = after_frames s r (e - i) st c"
        unfolding ei funpow_Suc_right u after_frames_def by simp
      with frames_done_Cons [OF first b c lt] Suc.prems
      show "\<exists>c. u = after_frames s r (e - i) st c \<and> frames_done th s xadc r data i e d st c"
        by auto
    qed
    moreover have "st\<lparr>packets := b, taken := (if has_codec s then taken st + ?n else taken st),
        header_offset := next_header (header_offset st)\<rparr> = ?st"
      by (simp add: after_frames_def)
    ultimately show "gives (case x of (b, d, k) \<Rightarrow> copy_frames th s xadc r data [Suc i..<e] d
        (st\<lparr>packets := b, taken := k, header_offset := next_header (header_offset st)\<rparr>))
      (\<lambda>u. \<exists>b. u = after_frames s r (e - i) st b \<and> frames_done th s xadc r data i e d st b)"
      by (simp only: x_eq prod.case)
  qed (use lt room Suc.prems in auto)
qed

section \<open>A block\<close>

lemma block_sizes:
  assumes "valid_receivers r"
  shows "1 \<le> frame_samples r" and "1 \<le> block_packets r" and "block_packets r \<le> 25"
    and "247 \<le> block_samples r" and "block_samples r \<le> 255"
  using assms by (auto simp: block_packets_def block_samples_def frame_samples_def sample_bytes_def dest!: valid_receivers_cases)

definition numbered :: "nat \<Rightarrow> nat \<Rightarrow> u32 \<Rightarrow> u8 list \<Rightarrow> u8 list \<Rightarrow> bool" where
  "numbered i m c x b \<longleftrightarrow> only (i * 1032 + 4) 25800 x b \<and>
     (\<forall>q<25800. q mod 1032 < 4 \<or> 8 \<le> q mod 1032 \<longrightarrow> b ! q = x ! q) \<and>
     (\<forall>j. i \<le> j \<and> j < m \<longrightarrow> (\<forall>z<4. b ! (j * 1032 + 4 + z) = be32 (c + of_nat (j - i)) ! z))"

lemma number_packets_gives:
  assumes "m \<le> 25" and "length x = 25800"
  shows "gives (number_packets [0..<m] c x) (\<lambda>(b, e). e = c + of_nat m \<and> numbered 0 m c x b)"
proof (rule gives_mono [OF number_packets_fills], use assms in simp, clarify)
  fix b
  assume b: "filled number_at 4 (\<lambda>i y. be32 (c + of_nat i) ! y) 0 m x b"
  have same: "b ! q = x ! q" if "q < 25800" "q mod 1032 < 4 \<or> 8 \<le> q mod 1032" for q
  proof -
    have "q < number_at j \<or> number_at j + 4 \<le> q" for j
      using that(2) mod_between [of j 1032 4 q 8] unfolding number_at_def by linarith
    then show ?thesis
      using b that(1) assms(2) by (simp add: filled_def)
  qed
  then show "c + of_nat m = c + of_nat m \<and> numbered 0 m c x b"
    using b assms(2) same by (auto simp: filled_def numbered_def only_def number_at_def)
qed

text \<open>The state between blocks: the counter of blocks until new audio words bounds the samples taken from them.\<close>

definition ep6_ok :: "nat \<Rightarrow> ep6 \<Rightarrow> bool" where
  "ep6_ok rate st \<longleftrightarrow> length (packets st) = 25800 \<and> length (samples st) = 16384 \<and> length (audio st) = 512 \<and>
     header_ok (header_offset st) \<and> (\<forall>q<25800. q mod 1032 < 4 \<longrightarrow> packets st ! q = ep6_id ! (q mod 1032)) \<and>
     1 \<le> rate_left st \<and> rate_left st \<le> 2 ^ rate \<and> int (taken st) \<le> (2 ^ rate - rate_left st + 1) * 510"

lemma ep6_ok_mono:
  assumes "ep6_ok rate st" and "rate \<le> rate'"
  shows "ep6_ok rate' st"
proof -
  have le: "(2 :: int) ^ rate \<le> 2 ^ rate'"
    using assms(2) by (rule power_increasing) simp
  have scale: "a \<le> b \<Longrightarrow> (a - x + 1) * 510 \<le> (b - x + 1) * 510" for a b x :: int
    by simp
  show ?thesis
    using assms(1) unfolding ep6_ok_def
    by (elim conjE, intro conjI) (assumption | rule order_trans [OF _ le] order_trans [OF _ scale [OF le]])+
qed

lemma ep6_start_ok: "ep6_ok (unat (ep_rate s)) (ep6_start junk s)"
  by (auto simp: ep6_ok_def ep6_start_def header_ok_def ep6_id_def)

text \<open>What a block is given: enough words of audio and samples of the receivers.\<close>

definition block_input :: "hpsdr \<Rightarrow> u32 list \<Rightarrow> u8 list \<Rightarrow> bool" where
  "block_input s codec fifo \<longleftrightarrow> valid_receivers (unat (receivers s)) \<and>
     2 * block_samples (unat (receivers s)) \<le> length codec \<and> 64 * block_samples (unat (receivers s)) \<le> length fifo"

definition new_audio :: "hpsdr \<Rightarrow> ep6 \<Rightarrow> bool" where
  "new_audio s st \<longleftrightarrow> has_codec s \<and> rate_left st = 1"

lemma refresh_audio_gives:
  assumes "ep6_ok rate st" and "rate \<le> unat (ep_rate s)" and "block_input s codec fifo"
  shows "gives (refresh_audio s codec (block_samples (unat (receivers s))) st)
    (\<lambda>u. u = st\<lparr>audio := audio u, rate_left := rate_left u, taken := taken u\<rparr> \<and> length (audio u) = 512 \<and>
       taken u = (if new_audio s st then 0 else taken st) \<and>
       1 \<le> rate_left u \<and> rate_left u \<le> 2 ^ unat (ep_rate s) \<and>
       (has_codec s \<longrightarrow> int (taken u) \<le> (2 ^ unat (ep_rate s) - rate_left u) * 510) \<and>
       (\<not> has_codec s \<longrightarrow> u = st) \<and> (has_codec s \<longrightarrow> rate_left u = (if rate_left st = 1 then 2 ^ unat (ep_rate s) else rate_left st - 1)))"
proof -
  have "ep6_ok (unat (ep_rate s)) st"
    using assms(1,2) by (rule ep6_ok_mono)
  moreover have "block_samples (unat (receivers s)) \<le> 255"
    using assms(3) block_sizes(5) by (simp add: block_input_def)
  ultimately show ?thesis
    using assms(3) by (auto simp: refresh_audio_def ep6_ok_def new_audio_def block_input_def Let_def algebra_simps)
qed

text \<open>What one sample and one datagram carry: \<open>i\<close> is the datagram, \<open>f\<close> the frame in it, \<open>u\<close> the state with the
  audio words of this block.\<close>

definition datagram_header :: "ep6 \<Rightarrow> nat \<Rightarrow> u8 list \<Rightarrow> bool" where
  "datagram_header st i dg \<longleftrightarrow> length dg = 1032 \<and>
     (\<forall>x<4. dg ! x = ep6_id ! x) \<and> (\<forall>x<4. dg ! (4 + x) = be32 (sequence_no st + of_nat i) ! x)"

definition frame_carries :: "bool \<Rightarrow> hpsdr \<Rightarrow> u8 list \<Rightarrow> (nat \<Rightarrow> u32) \<Rightarrow> ep6 \<Rightarrow> ep6 \<Rightarrow> nat \<Rightarrow> nat \<Rightarrow> u8 list \<Rightarrow> bool" where
  "frame_carries th s fifo xadc st u i f dg \<longleftrightarrow>
     (let r = unat (receivers s); n = frame_samples r in
      (\<forall>x<8. dg ! (8 + 512 * f + x) =
         frame_header ((next_header ^^ (2 * i + f)) (header_offset st)) (gpio_in s) (cw_ptt s) xadc ! x) \<and>
      (\<forall>j<n. sample_done th (has_codec s) (unat (ep_rate s)) (sample_bytes r) fifo (audio u) dg
         (8 + 512 * f + 8 + j * sample_bytes r) (32 * (n * (2 * i + f)) + 32 * j)
         (taken u + (if has_codec s then n * (2 * i + f) else 0) + j)))"

lemma sample_done_data:
  assumes "sample_done th codec rate bytes data au b p d k"
    and "\<And>q. q < d + 30 \<Longrightarrow> fifo ! q = data ! q"
    and "\<And>x. x < bytes \<Longrightarrow> c ! (p' + x) = b ! (p + x)" and "2 \<le> bytes"
  shows "sample_done th codec rate bytes fifo au c p' d k"
proof -
  have "c ! (p' + (bytes - 2) + x) = b ! (p + (bytes - 2) + x)" if "x < 2" for x
    using assms(3) [of "bytes - 2 + x"] that assms(4) by (simp add: add.assoc)
  moreover have "sample_byte th fifo d x 0 = sample_byte th data d x 0" for x
    by (auto simp: sample_byte_offset intro!: assms(2))
  ultimately show ?thesis
    using assms(1,3) by (simp add: sample_done_def)
qed

lemma frame_done_carries:
  assumes fd: "frame_done th s xadc r data (audio u) (2 * i + f) ((next_header ^^ (2 * i + f)) (header_offset st))
      (32 * (frame_samples r * (2 * i + f))) (taken u + (if has_codec s then frame_samples r * (2 * i + f) else 0)) b"
    and r: "r = unat (receivers s)" "valid_receivers r" and "f < 2" and "i < block_packets r"
    and data: "\<And>q. q < 64 * block_samples r \<Longrightarrow> data ! q = fifo ! q"
    and dg: "\<And>q. q < 1032 \<Longrightarrow> dg ! q = b ! (i * 1032 + q)"
  shows "frame_carries th s fifo xadc st u i f dg"
proof -
  let ?n = "frame_samples r" and ?z = "sample_bytes r"
  have p: "frame_pointer (2 * i + f) = i * 1032 + (8 + 512 * f)"
    using assms(4) frame_pointer_parity [of i] by (cases f) (auto simp: less_Suc_eq numeral_2_eq_2)
  have fewer: "?n * (2 * i + f) + ?n \<le> 2 * block_samples r"
  proof -
    have "2 * i + f + 1 \<le> 2 * block_packets r"
      using assms(4,5) by linarith
    then have "?n * (2 * i + f + 1) \<le> ?n * (2 * block_packets r)"
      by (rule mult_le_mono2)
    then show ?thesis
      by (simp add: block_samples_def algebra_simps)
  qed
  have "dg ! (8 + 512 * f + x) = frame_header ((next_header ^^ (2 * i + f)) (header_offset st)) (gpio_in s) (cw_ptt s) xadc ! x"
    if "x < 8" for x
    using fd that assms(4) by (simp add: frame_done_def p dg add.assoc)
  moreover have "sample_done th (has_codec s) (unat (ep_rate s)) ?z fifo (audio u) dg (8 + 512 * f + 8 + j * ?z)
      (32 * (?n * (2 * i + f)) + 32 * j) (taken u + (if has_codec s then ?n * (2 * i + f) else 0) + j)" if "j < ?n" for j
  proof (rule sample_done_data)
    show "sample_done th (has_codec s) (unat (ep_rate s)) ?z data (audio u) b (i * 1032 + (8 + 512 * f) + 8 + j * ?z)
        (32 * (?n * (2 * i + f)) + 32 * j) (taken u + (if has_codec s then ?n * (2 * i + f) else 0) + j)"
      using fd that by (simp add: frame_done_def p)
    show "fifo ! q = data ! q" if "q < 32 * (?n * (2 * i + f)) + 32 * j + 30" for q
      using that \<open>j < ?n\<close> fewer by (intro data [symmetric]) linarith
    show "dg ! (8 + 512 * f + 8 + j * ?z + x) = b ! (i * 1032 + (8 + 512 * f) + 8 + j * ?z + x)" if "x < ?z" for x
      using that sample_in_frame [OF \<open>j < ?n\<close>] assms(4) by (subst dg) (auto simp: add.assoc)
  qed (simp add: sample_bytes_def)
  ultimately show ?thesis
    by (simp add: frame_carries_def Let_def flip: r(1))
qed

definition block_done :: "bool \<Rightarrow> hpsdr \<Rightarrow> u8 list \<Rightarrow> (nat \<Rightarrow> u32) \<Rightarrow> ep6 \<Rightarrow> ep6 \<Rightarrow> u8 list list \<Rightarrow> ep6 \<Rightarrow> bool" where
  "block_done th s fifo xadc st u out v \<longleftrightarrow>
     (let r = unat (receivers s) in
      ep6_ok (unat (ep_rate s)) v \<and> length out = block_packets r \<and>
      sequence_no v = sequence_no st + of_nat (block_packets r) \<and> rate_left v = rate_left u \<and>
      taken v = (if has_codec s then taken u + 2 * block_samples r else taken u) \<and>
      header_offset v = (next_header ^^ (2 * block_packets r)) (header_offset st) \<and>
      (\<forall>i<block_packets r. datagram_header st i (out ! i) \<and> (\<forall>f<2. frame_carries th s fifo xadc st u i f (out ! i))))"

text \<open>From the frames in the buffer to the datagrams sent.\<close>

lemma frames_done_datagrams:
  assumes r: "r = unat (receivers s)" "valid_receivers r"
    and frames: "frames_done th s xadc r data 0 (block_packets r * 2) 0 w b"
    and w: "w = u\<lparr>samples := data, packets := b1, sequence_no := c\<rparr>" "header_offset u = header_offset st"
    and b1: "numbered 0 (block_packets r) (sequence_no st) (packets u) b1" "length (packets u) = 25800"
    and ids: "\<forall>q<25800. q mod 1032 < 4 \<longrightarrow> packets u ! q = ep6_id ! (q mod 1032)"
    and data: "\<And>q. q < 64 * block_samples r \<Longrightarrow> data ! q = fifo ! q"
    and i: "i < block_packets r"
  shows "datagram_header st i (take 1032 (drop (i * 1032) b))"
    and "f < 2 \<Longrightarrow> frame_carries th s fifo xadc st u i f (take 1032 (drop (i * 1032) b))"
proof -
  let ?dg = "take 1032 (drop (i * 1032) b)"
  have len: "length b = 25800" "length b1 = 25800"
    using frames b1 w(1) by (simp_all add: frames_done_def numbered_def only_def)
  have i25: "i < 25"
    using i block_sizes(3) [OF r(2)] by simp
  have dg: "?dg ! q = b ! (i * 1032 + q)" if "q < 1032" for q
    using that len i25 by simp
  have between: "b ! (i * 1032 + x) = b1 ! (i * 1032 + x)" if "x < 8" for x
    using frames that i25 w(1) by (simp add: frames_done_def)
  have "?dg ! x = ep6_id ! x" if "x < 4" for x
    using that b1(1) ids between [of x] i25 len by (simp add: numbered_def)
  moreover have "?dg ! (4 + x) = be32 (sequence_no st + of_nat i) ! x" if "x < 4" for x
    using that b1(1) between [of "4 + x"] i i25 len by (simp add: numbered_def add.assoc)
  ultimately show "datagram_header st i ?dg"
    using len i25 by (simp add: datagram_header_def)
  show "frame_carries th s fifo xadc st u i f ?dg" if "f < 2"
  proof (rule frame_done_carries [OF _ r that i data dg])
    have "2 * i + f < block_packets r * 2"
      using that i by linarith
    then show "frame_done th s xadc r data (audio u) (2 * i + f) ((next_header ^^ (2 * i + f)) (header_offset st))
        (32 * (frame_samples r * (2 * i + f))) (taken u + (if has_codec s then frame_samples r * (2 * i + f) else 0)) b"
      using frames w by (auto simp: frames_done_def)
  qed
qed

lemma ep6_block_gives:
  assumes ok: "ep6_ok rate st" and "rate \<le> unat (ep_rate s)" and input: "block_input s codec fifo"
  shows "gives (ep6_block th s codec fifo xadc st) (\<lambda>(out, v). \<exists>u.
    refresh_audio s codec (block_samples (unat (receivers s))) st = Some u \<and> block_done th s fifo xadc st u out v)"
proof -
  define r where "r = unat (receivers s)"
  let ?m = "block_packets r" and ?bs = "block_samples r" and ?rate = "unat (ep_rate s)"
  have r: "valid_receivers r"
    using input by (simp add: block_input_def r_def)
  note sizes = block_sizes [OF r]
  have room: "32 * (frame_samples r * (?m * 2)) = 64 * ?bs" "frame_samples r * (?m * 2) = 2 * ?bs"
    by (simp_all add: block_samples_def)
  obtain u where u: "refresh_audio s codec ?bs st = Some u"
    and same: "u = st\<lparr>audio := audio u, rate_left := rate_left u, taken := taken u\<rparr>"
    and au: "length (audio u) = 512" and left: "1 \<le> rate_left u" "rate_left u \<le> 2 ^ ?rate"
    and took: "has_codec s \<longrightarrow> int (taken u) \<le> (2 ^ ?rate - rate_left u) * 510"
    and plain: "\<not> has_codec s \<longrightarrow> u = st"
    using refresh_audio_gives [OF assms] by (auto simp: gives_def r_def)
  have shape: "length (packets u) = 25800" "length (samples u) = 16384" "header_offset u = header_offset st"
      "header_ok (header_offset st)" "sequence_no u = sequence_no st" "packets u = packets st"
    using ok arg_cong [OF same, of packets] arg_cong [OF same, of samples] arg_cong [OF same, of header_offset]
      arg_cong [OF same, of sequence_no] by (simp_all add: ep6_ok_def)
  have ids: "\<forall>q<25800. q mod 1032 < 4 \<longrightarrow> packets u ! q = ep6_id ! (q mod 1032)"
    using ok shape by (simp add: ep6_ok_def)
  have audio_room: "taken u + 2 * ?bs \<le> 512 * 2 ^ ?rate" if "has_codec s"
  proof -
    have "(2 ^ ?rate - rate_left u) * 510 + 510 \<le> 512 * (2 :: int) ^ ?rate"
      using left by (simp add: algebra_simps)
    then have "int (taken u + 2 * ?bs) \<le> int (512 * 2 ^ ?rate)"
      using took that sizes(5) by simp
    then show ?thesis
      by (simp only: of_nat_le_iff)
  qed
  show ?thesis
    unfolding ep6_block_def Let_def gives_bind r_def [symmetric]
  proof (subst u, subst gives_Some, rule memcpy_gives, goal_cases)
    case (3 data)
    then have data: "copied (samples u) 0 fifo 0 (?bs * 64) data" .
    have data_len: "length data = 16384"
      using data shape by (simp add: copied_def)
    show ?case
    proof (rule gives_mono [OF number_packets_gives])
      fix x
      assume x: "case x of (b, e) \<Rightarrow> e = sequence_no u + of_nat ?m \<and> numbered 0 ?m (sequence_no u) (packets u) b"
      obtain b1 c where x_eq: "x = (b1, c)" and c: "c = sequence_no st + of_nat ?m"
        and b1: "numbered 0 ?m (sequence_no st) (packets u) b1"
        using x shape by (cases x) simp
      let ?w = "u\<lparr>samples := data, packets := b1, sequence_no := c\<rparr>"
      have b1_len: "length b1 = 25800"
        using b1 shape by (simp add: numbered_def only_def)
      have "gives (copy_frames th s xadc r data [0..<?m * 2] 0 ?w)
        (\<lambda>v. \<exists>b. v = after_frames s r (?m * 2 - 0) ?w b \<and> frames_done th s xadc r data 0 (?m * 2) 0 ?w b)"
        by (rule copy_frames_gives) (use r sizes b1_len shape au data_len audio_room in \<open>auto simp: room\<close>)
      then have "gives (copy_frames th s xadc r data [0..<?m * 2] 0 ?w \<bind>
          (\<lambda>st. Some (map (\<lambda>i. take 1032 (drop (i * 1032) (packets st))) [0..<?m], st)))
        (\<lambda>(out, v). \<exists>u. refresh_audio s codec ?bs st = Some u \<and> block_done th s fifo xadc st u out v)"
        unfolding gives_bind
      proof (rule gives_mono, elim exE conjE)
        fix v b
        assume v: "v = after_frames s r (?m * 2 - 0) ?w b" and b: "frames_done th s xadc r data 0 (?m * 2) 0 ?w b"
        have fifo_data: "data ! q = fifo ! q" if "q < 64 * ?bs" for q
          using data that sizes(5) shape by (simp add: copied_def)
        note dgs = frames_done_datagrams [OF r_def r b refl shape(3) b1 shape(1) ids fifo_data]
        have "length b = 25800" "\<forall>q<25800. q mod 1032 < 4 \<longrightarrow> b ! q = ep6_id ! (q mod 1032)"
          using b b1 ids shape by (auto simp: frames_done_def numbered_def only_def)
        moreover have "header_ok ((next_header ^^ (?m * 2)) (header_offset st))"
          using shape(4) by (rule header_ok_funpow)
        moreover have "int (if has_codec s then taken u + 2 * ?bs else taken u) \<le> (2 ^ ?rate - rate_left u + 1) * 510"
          using took plain ep6_ok_mono [OF ok assms(2)] sizes(5) by (auto simp: ep6_ok_def)
        ultimately have "ep6_ok ?rate v"
          using data_len au left by (auto simp: ep6_ok_def v after_frames_def shape room split: if_splits)
        with u show "gives (Some (map (\<lambda>i. take 1032 (drop (i * 1032) (packets v))) [0..<?m], v))
          (\<lambda>(out, v). \<exists>u. refresh_audio s codec ?bs st = Some u \<and> block_done th s fifo xadc st u out v)"
          using dgs c by (auto simp: block_done_def v after_frames_def shape room mult.commute simp flip: r_def)
      qed
      then show "gives (case x of (buf, c) \<Rightarrow> copy_frames th s xadc r data [0..<?m * 2] 0
          (u\<lparr>samples := data, packets := buf, sequence_no := c\<rparr>) \<bind>
          (\<lambda>st. Some (map (\<lambda>i. take 1032 (drop (i * 1032) (packets st))) [0..<?m], st)))
        (\<lambda>(out, v). \<exists>u. refresh_audio s codec ?bs st = Some u \<and> block_done th s fifo xadc st u out v)"
        by (simp only: x_eq prod.case)
    qed (use sizes shape in auto)
  qed (use input sizes shape in \<open>auto simp: block_input_def r_def\<close>)
qed

end
