(* ===== verification/Hpsdr_ep6_props.thy ===== *)
theory Hpsdr_ep6_props
  imports Hpsdr_ep6_spec
begin

unbundle bit_operations_syntax

text \<open>
  The properties of the receiver thread: its copies stay inside their arrays, the datagrams have the
  numbers and headers of the protocol, the bytes of the receivers reach the places the host reads, and
  a lower rate while blocks are counted makes it read beyond the audio words.
\<close>

lemma ep6_block_ends:
  assumes "ep6_ok rate st" and "rate \<le> unat (ep_rate s)" and "block_input s codec fifo"
  obtains u out v where "ep6_block th s codec fifo xadc st = Some (out, v)" and "block_done th s fifo xadc st u out v"
    and "refresh_audio s codec (block_samples (unat (receivers s))) st = Some u"
  using ep6_block_gives [OF assms, of th xadc] by (auto simp: gives_def)

lemma ep6_block_result:
  assumes "ep6_ok rate st" and "rate \<le> unat (ep_rate s)" and "block_input s codec fifo"
    and "ep6_block th s codec fifo xadc st = Some (out, v)"
  obtains u where "block_done th s fifo xadc st u out v"
    and "refresh_audio s codec (block_samples (unat (receivers s))) st = Some u"
  using ep6_block_gives [OF assms(1-3), of th xadc] assms(4) by (auto simp: gives_def)

lemma header_of_datagram:
  assumes "datagram_header st i dg"
  shows "take 8 dg = ep6_id @ be32 (sequence_no st + of_nat i)"
proof (rule nth_equalityI)
  fix x assume "x < length (take 8 dg)"
  then have x: "x < 8" by simp
  show "take 8 dg ! x = (ep6_id @ be32 (sequence_no st + of_nat i)) ! x"
  proof (cases "x < 4")
    case True
    then show ?thesis
      using assms by (simp add: datagram_header_def nth_append) (simp add: ep6_id_def)
  next
    case False
    then have "dg ! (4 + (x - 4)) = be32 (sequence_no st + of_nat i) ! (x - 4)"
      using assms x unfolding datagram_header_def by (metis add_le_imp_le_diff less_diff_conv2 linorder_not_less numeral_Bit0)
    moreover have "length ep6_id = 4"
      by (simp add: ep6_id_def)
    ultimately show ?thesis
      using False x by (simp add: nth_append)
  qed
qed (use assms in \<open>simp add: datagram_header_def ep6_id_def be32_def le32_def\<close>)

lemma sync_bytes:
  assumes "header_ok off" and "x < 3"
  shows "frame_header off gpio ptt xadc ! x = 127"
proof -
  have "x \<in> {0, 1, 2}" using assms(2) by auto
  then show ?thesis
    using assms(1) by (auto simp: header_ok_def frame_header_def ep6_header_def Let_def nth_append)
qed

lemma take3: "3 \<le> length xs \<Longrightarrow> take 3 xs = [xs ! 0, xs ! 1, xs ! 2]"
  by (cases xs rule: list.exhaust; cases "tl xs"; cases "tl (tl xs)") auto

lemma sync_of_frame:
  assumes "frame_carries th s fifo xadc st u i f dg" and "header_ok (header_offset st)" and "length dg = 1032" and "f < 2"
  shows "take 3 (drop (8 + 512 * f) dg) = [127, 127, 127]"
proof -
  have "dg ! (8 + 512 * f + x) = 127" if "x < 3" for x
    using assms that header_ok_funpow [OF assms(2)] by (simp add: frame_carries_def Let_def sync_bytes)
  from this [of 0] this [of 1] this [of 2] show ?thesis
    using assms(3,4) by (simp add: take3)
qed

text \<open>From a valid state every block is assembled without a copy or an access outside the local arrays, and
  the next state is valid again; the rate may have increased since the last block.\<close>

theorem ep6_memory_safe:
  assumes "ep6_ok rate st" and "rate \<le> unat (ep_rate s)" and "block_input s codec fifo"
  shows "\<exists>out v. ep6_block th s codec fifo xadc st = Some (out, v) \<and> ep6_ok (unat (ep_rate s)) v"
  by (rule ep6_block_ends [OF assms]) (auto simp: block_done_def Let_def)

definition hpsdr_streaming :: hpsdr where
  "hpsdr_streaming = (hpsdr_globals (\<lambda>_. 0))\<lparr>has_codec := True, receivers := 2, ep_rate := 3\<rparr>"

lemma streaming_input: "block_input hpsdr_streaming (replicate 510 7) (replicate 16320 9)"
  by (simp add: block_input_def hpsdr_streaming_def hpsdr_globals_def valid_receivers_def
      block_samples_def block_packets_def frame_samples_def sample_bytes_def)

lemma streaming_start: "ep6_ok 3 (ep6_start (\<lambda>_. 0) hpsdr_streaming)" "3 \<le> unat (ep_rate hpsdr_streaming)"
  using ep6_start_ok [of hpsdr_streaming] by (simp_all add: hpsdr_streaming_def hpsdr_globals_def)

theorem ep6_memory_safe_witness:
  "\<exists>out v. ep6_block False hpsdr_streaming (replicate 510 7) (replicate 16320 9) (\<lambda>_. 0)
     (ep6_start (\<lambda>_. 0) hpsdr_streaming) = Some (out, v) \<and> ep6_ok (unat (ep_rate hpsdr_streaming)) v"
  by (rule ep6_memory_safe [OF streaming_start streaming_input])

text \<open>The datagrams of a block: their number, the identifier and the running number in front of each, the
  synchronisation bytes of both frames, and the numbers the next block continues with.\<close>

theorem ep6_datagrams:
  assumes "ep6_ok rate st" and "rate \<le> unat (ep_rate s)" and "block_input s codec fifo"
    and "ep6_block th s codec fifo xadc st = Some (out, v)"
  shows "length out = block_packets (unat (receivers s)) \<and> sequence_no v = sequence_no st + of_nat (length out) \<and>
    (\<forall>i<length out. length (out ! i) = 1032 \<and> take 8 (out ! i) = ep6_id @ be32 (sequence_no st + of_nat i) \<and>
      take 3 (drop 8 (out ! i)) = [127, 127, 127] \<and> take 3 (drop 520 (out ! i)) = [127, 127, 127])"
proof -
  obtain u where placed: "block_done th s fifo xadc st u out v"
    using assms by (rule ep6_block_result)
  have "header_ok (header_offset st)"
    using assms(1) by (simp add: ep6_ok_def)
  then have "length (out ! i) = 1032 \<and> take 8 (out ! i) = ep6_id @ be32 (sequence_no st + of_nat i) \<and>
      take 3 (drop 8 (out ! i)) = [127, 127, 127] \<and> take 3 (drop 520 (out ! i)) = [127, 127, 127]"
    if "i < block_packets (unat (receivers s))" for i
    using placed that header_of_datagram [of st i "out ! i"] sync_of_frame [of th s fifo xadc st u i 0 "out ! i"]
      sync_of_frame [of th s fifo xadc st u i 1 "out ! i"]
    by (simp add: block_done_def Let_def datagram_header_def)
  then show ?thesis
    using placed by (simp add: block_done_def Let_def)
qed

text \<open>C5. Every receiver the board delivers arrives in its place: byte \<open>b\<close> of receiver \<open>c\<close> in sample \<open>j\<close> of frame \<open>f\<close>
  of datagram \<open>i\<close> is the byte of the board's receiver in the sample with that position in the block; the
  receivers the board does not deliver are zero.\<close>

theorem ep6_receiver_bytes:
  assumes "ep6_ok rate st" and "rate \<le> unat (ep_rate s)" and "block_input s codec fifo"
    and "ep6_block th s codec fifo xadc st = Some (out, v)"
    and "i < length out" and "f < 2" and "j < frame_samples (unat (receivers s))"
    and "c < unat (receivers s)" and "b < 6"
  shows "out ! i ! (16 + 512 * f + j * sample_bytes (unat (receivers s)) + 6 * c + b) =
    (case board_receiver th c of None \<Rightarrow> 0
     | Some e \<Rightarrow> fifo ! (32 * (frame_samples (unat (receivers s)) * (2 * i + f) + j) + 6 * e + b))"
proof -
  obtain u where "block_done th s fifo xadc st u out v"
    using assms(1-4) by (rule ep6_block_result)
  then have "sample_done th (has_codec s) (unat (ep_rate s)) (sample_bytes (unat (receivers s))) fifo (audio u) (out ! i)
      (8 + 512 * f + 8 + j * sample_bytes (unat (receivers s)))
      (32 * (frame_samples (unat (receivers s)) * (2 * i + f)) + 32 * j)
      (taken u + (if has_codec s then frame_samples (unat (receivers s)) * (2 * i + f) else 0) + j)"
    using assms(5-7) by (auto simp: block_done_def frame_carries_def Let_def)
  moreover have "6 * c + b < sample_bytes (unat (receivers s)) - 2"
    using assms(8,9) by (simp add: sample_bytes_def)
  moreover have "(6 * c + b) div 6 = c" "(6 * c + b) mod 6 = b"
    using assms(9) by simp_all
  ultimately show ?thesis
    by (auto simp: sample_done_def sample_byte_def algebra_simps split: option.split)
qed

text \<open>Concrete blocks for the hypotheses above.\<close>

lemma streaming_block:
  obtains out v where "ep6_block False hpsdr_streaming (replicate 510 7) (replicate 16320 9) (\<lambda>_. 0)
    (ep6_start (\<lambda>_. 0) hpsdr_streaming) = Some (out, v)"
  using ep6_block_ends [OF streaming_start streaming_input] by metis

lemma streaming_sizes:
  "unat (receivers hpsdr_streaming) = 2" "sample_bytes 2 = 14" "frame_samples 2 = 36" "block_packets 2 = 7"
  by (simp_all add: hpsdr_streaming_def hpsdr_globals_def block_packets_def frame_samples_def sample_bytes_def)

theorem ep6_datagrams_witness:
  "case ep6_block False hpsdr_streaming (replicate 510 7) (replicate 16320 9) (\<lambda>_. 0)
      (ep6_start (\<lambda>_. 0) hpsdr_streaming) of None \<Rightarrow> False
   | Some (out, v) \<Rightarrow> length out = 7 \<and> sequence_no v = 7 \<and> take 8 (out ! 3) = [0xef, 0xfe, 1, 6, 0, 0, 0, 3]"
proof -
  obtain out v where b: "ep6_block False hpsdr_streaming (replicate 510 7) (replicate 16320 9) (\<lambda>_. 0)
    (ep6_start (\<lambda>_. 0) hpsdr_streaming) = Some (out, v)"
    by (rule streaming_block)
  show ?thesis
    using ep6_datagrams [OF streaming_start streaming_input b]
    by (simp add: b streaming_sizes) (simp add: ep6_start_def ep6_id_def be32_def le32_def)
qed

theorem ep6_receiver_bytes_witness:
  "case ep6_block False hpsdr_streaming (replicate 510 7) (replicate 16320 9) (\<lambda>_. 0)
      (ep6_start (\<lambda>_. 0) hpsdr_streaming) of None \<Rightarrow> False
   | Some (out, v) \<Rightarrow> out ! 3 ! (16 + 512 + 5 * 14 + 6 + 2) = 9"
proof -
  obtain out v where b: "ep6_block False hpsdr_streaming (replicate 510 7) (replicate 16320 9) (\<lambda>_. 0)
    (ep6_start (\<lambda>_. 0) hpsdr_streaming) = Some (out, v)"
    by (rule streaming_block)
  have "length out = 7"
    using ep6_block_gives [OF streaming_start streaming_input, of False "\<lambda>_. 0"] b
    by (auto simp: gives_def block_done_def streaming_sizes)
  then show ?thesis
    using ep6_receiver_bytes [OF streaming_start streaming_input b, of 3 1 5 1 2]
    by (simp add: b streaming_sizes board_receiver_def)
qed

section \<open>A lower rate\<close>

lemma copy_samples_overrun:
  "length au \<le> drop_bit rate k \<Longrightarrow> copy_samples th True rate z data au (Suc n) buf p d k = None"
  by (cases "copy_sample th z buf p data d") (simp_all add: copy_audio_def)

lemma copy_frame_overrun:
  assumes "has_codec s" and "1 \<le> frame_samples r" and "length (audio st) \<le> drop_bit (unat (ep_rate s)) (taken st)"
  shows "copy_frame th s xadc r data i d st = None"
  using assms by (cases "frame_samples r") 
    (simp_all add: copy_frame_def copy_samples_overrun Option.bind_eq_None_conv del: copy_samples.simps)

lemma ep6_block_overrun:
  assumes "has_codec s" and "valid_receivers (unat (receivers s))" and "rate_left st \<noteq> 1"
    and "length (audio st) * 2 ^ unat (ep_rate s) \<le> taken st"
  shows "ep6_block th s codec fifo xadc st = None"
proof -
  let ?r = "unat (receivers s)"
  have "[0..<block_packets ?r * 2] = 0 # [1..<block_packets ?r * 2]"
    using block_sizes(2) [OF assms(2)] by (simp add: upt_conv_Cons)
  moreover have "length (audio st) \<le> drop_bit (unat (ep_rate s)) (taken st)"
    using assms(4) by (simp add: drop_bit_eq_div less_eq_div_iff_mult_less_eq)
  ultimately show ?thesis
    using assms block_sizes(1) [OF assms(2)]
    by (simp add: ep6_block_def refresh_audio_def Let_def Option.bind_eq_None_conv copy_frame_overrun split: prod.split)
qed

text \<open>A host that lowers the rate after two blocks at 384 kSPS makes the next block read beyond the 512 words of
  audio: \<open>k\<close> counts the samples since the last refresh and is only scaled by the current rate.\<close>

theorem rate_drop_overruns:
  assumes "has_codec s" and "ep_rate s = 3" and "block_input s codec fifo"
  shows "\<exists>o1 o2 st1 st2. ep6_block th s codec fifo xadc (ep6_start junk s) = Some (o1, st1) \<and>
    ep6_block th s codec fifo xadc st1 = Some (o2, st2) \<and>
    ep6_block th (s\<lparr>ep_rate := 0\<rparr>) codec fifo xadc st2 = None"
proof -
  let ?bs = "block_samples (unat (receivers s))"
  have valid: "valid_receivers (unat (receivers s))"
    using assms(3) by (simp add: block_input_def)
  have ok: "ep6_ok 3 (ep6_start junk s)" and rate: "3 \<le> unat (ep_rate s)"
    using ep6_start_ok [of s junk] assms(2) by simp_all
  obtain o1 st1 u1 where b1: "ep6_block th s codec fifo xadc (ep6_start junk s) = Some (o1, st1)"
    and d1: "block_done th s fifo xadc (ep6_start junk s) u1 o1 st1"
    and r1: "refresh_audio s codec ?bs (ep6_start junk s) = Some u1"
    using ep6_block_ends [OF ok rate assms(3)] by metis
  have ok1: "ep6_ok 3 st1"
    using d1 assms(2) by (simp add: block_done_def Let_def)
  have c1: "rate_left st1 = 7" "taken st1 = 2 * ?bs"
    using d1 r1 assms(1,2) by (auto simp: block_done_def Let_def refresh_audio_def ep6_start_def)
  obtain o2 st2 u2 where b2: "ep6_block th s codec fifo xadc st1 = Some (o2, st2)"
    and d2: "block_done th s fifo xadc st1 u2 o2 st2"
    and r2: "refresh_audio s codec ?bs st1 = Some u2"
    using ep6_block_ends [OF ok1 rate assms(3)] by metis
  have c2: "rate_left st2 = 6" "taken st2 = 4 * ?bs" "length (audio st2) = 512"
    using d2 r2 assms(1,2) c1 by (auto simp: block_done_def Let_def refresh_audio_def ep6_ok_def)
  have "ep6_block th (s\<lparr>ep_rate := 0\<rparr>) codec fifo xadc st2 = None"
    by (rule ep6_block_overrun) (use assms(1) valid c2 block_sizes(4) [OF valid] in simp_all)
  with b1 b2 show ?thesis by blast
qed

theorem rate_drop_overruns_witness:
  "\<exists>o1 o2 st1 st2. ep6_block False hpsdr_streaming (replicate 510 7) (replicate 16320 9) (\<lambda>_. 0)
      (ep6_start (\<lambda>_. 0) hpsdr_streaming) = Some (o1, st1) \<and>
    ep6_block False hpsdr_streaming (replicate 510 7) (replicate 16320 9) (\<lambda>_. 0) st1 = Some (o2, st2) \<and>
    ep6_block False (hpsdr_streaming\<lparr>ep_rate := 0\<rparr>) (replicate 510 7) (replicate 16320 9) (\<lambda>_. 0) st2 = None"
  by (rule rate_drop_overruns [OF _ _ streaming_input]) (simp_all add: hpsdr_streaming_def hpsdr_globals_def)

end
