(* ===== verification/Hpsdr_system.thy ===== *)
theory Hpsdr_system
  imports Hpsdr_keyer_spec Hpsdr_ep6_props
begin

unbundle bit_operations_syntax

text \<open>
  The transceiver as a whole: the states \<open>main\<close> reaches from its start, with the keyer and the receiver
  thread working in between and during its sleeps. Every property of a single command becomes an
  invariant of all reachable states here.
\<close>

section \<open>What the other threads and the FPGA do\<close>

text \<open>One step of them: the FPGA changes pins and counters, a thread sleeps or sends, the receiver thread
  ends, the keyer changes its own variables, and both store to their reset registers.\<close>

inductive others :: "hpsdr \<Rightarrow> hpsdr \<Rightarrow> bool" where
  inputs: "others s (s\<lparr>gpio_in := a, tx_cntr := b, dac_cntr := c, rx_cntr := d, adc_cntr := e\<rparr>)"
| ended: "others s (s\<lparr>ep_active := False\<rparr>)"
| keyed: "others s (s\<lparr>cw_ptt := a, tx_mux_data := b, cw_mem0 := c, cw_mem1 := d, cw_ptt_delay := e\<rparr>)"
| resets: "off = rx_rst \<or> off = tx_rst \<Longrightarrow> others s (wr8 off v s)"
| sleeps: "others s (emit (Sleep n) s)"
| sends: "others s (emit (Send bs) s)"

definition surroundings :: "(hpsdr \<Rightarrow> hpsdr) \<Rightarrow> bool" where
  "surroundings env \<longleftrightarrow> (\<forall>s. others\<^sup>*\<^sup>* s (env s))"

inductive hpsdr_reachable :: "board \<Rightarrow> hpsdr \<Rightarrow> bool" for b where
  start: "hpsdr_init b cosine log10 sel ack args (hpsdr_globals r) = Some s \<Longrightarrow> hpsdr_reachable b s"
| turn: "hpsdr_reachable b s \<Longrightarrow> surroundings env \<Longrightarrow> main_turn b env mac bufs s = Some t \<Longrightarrow> hpsdr_reachable b t"
| rest: "hpsdr_reachable b s \<Longrightarrow> others\<^sup>*\<^sup>* s t \<Longrightarrow> hpsdr_reachable b t"

section \<open>The invariant\<close>

definition hpsdr_inv :: "hpsdr \<Rightarrow> bool" where
  "hpsdr_inv s \<longleftrightarrow> i2c_tracks s \<and> settings_ok s \<and> synced s \<and> flagged s"

lemma inv_inputs [simp]:
  "hpsdr_inv (s\<lparr>gpio_in := a\<rparr>) = hpsdr_inv s" "hpsdr_inv (s\<lparr>tx_cntr := c\<rparr>) = hpsdr_inv s"
  "hpsdr_inv (s\<lparr>dac_cntr := c\<rparr>) = hpsdr_inv s" "hpsdr_inv (s\<lparr>rx_cntr := c\<rparr>) = hpsdr_inv s"
  "hpsdr_inv (s\<lparr>adc_cntr := c\<rparr>) = hpsdr_inv s" "hpsdr_inv (s\<lparr>ep_active := p\<rparr>) = hpsdr_inv s"
  "hpsdr_inv (s\<lparr>ep_enable := p\<rparr>) = hpsdr_inv s"
  unfolding hpsdr_inv_def
  by (rule arg_cong2 [where f = "(\<and>)"] | rule flagged_cong
    | simp add: i2c_tracks_def tracks_defs settings_ok_def nucleo_ok_def synced_def rd32_def filter_state_def)+

lemma inv_keyer [simp]:
  "hpsdr_inv (s\<lparr>cw_ptt := a\<rparr>) = hpsdr_inv s" "hpsdr_inv (s\<lparr>tx_mux_data := a\<rparr>) = hpsdr_inv s"
  "hpsdr_inv (s\<lparr>cw_mem0 := x\<rparr>) = hpsdr_inv s" "hpsdr_inv (s\<lparr>cw_mem1 := x\<rparr>) = hpsdr_inv s"
  "hpsdr_inv (s\<lparr>cw_ptt_delay := z\<rparr>) = hpsdr_inv s"
  unfolding hpsdr_inv_def
  by (rule arg_cong2 [where f = "(\<and>)"] | rule flagged_cong
    | simp add: i2c_tracks_def tracks_defs settings_ok_def nucleo_ok_def synced_def rd32_def filter_state_def)+

lemma inv_emit [simp]:
  "hpsdr_inv (emit (Sleep n) s) = hpsdr_inv s" "hpsdr_inv (emit (Send bs) s) = hpsdr_inv s"
  "hpsdr_inv (emit (Port p w) s) = hpsdr_inv s"
  by (simp_all add: hpsdr_inv_def synced_def) (simp_all add: rd32_def emit_def)

lemma inv_wr8 [simp]: "off < 8 \<Longrightarrow> hpsdr_inv (wr8 off v s) = hpsdr_inv s"
  by (simp add: hpsdr_inv_def)

lemma inv_others: "others\<^sup>*\<^sup>* s t \<Longrightarrow> hpsdr_inv s \<Longrightarrow> hpsdr_inv t"
proof (induction rule: rtranclp_induct)
  case (step t u)
  from \<open>others t u\<close> step.IH [OF step.prems] show ?case
    by cases auto
qed

lemma inv_env: "surroundings env \<Longrightarrow> hpsdr_inv s \<Longrightarrow> hpsdr_inv (env s)"
  using inv_others by (auto simp: surroundings_def)

lemma inv_sleep: "sleep_while c env s = Some t \<Longrightarrow> surroundings env \<Longrightarrow> hpsdr_inv s \<Longrightarrow> hpsdr_inv t"
  using sleep_while_invariant [where I = hpsdr_inv] inv_env by (metis inv_emit(1))

section \<open>Datagrams keep it\<close>

lemma inv_process: "hpsdr_inv s \<Longrightarrow> hpsdr_inv (process_ep2 b frame s)"
  by (simp add: hpsdr_inv_def process_ep2_tracks process_ep2_settings process_ep2_synced process_ep2_flagged)

lemma inv_ports [simp]: "hpsdr_inv (ports p ws s) = hpsdr_inv s"
  unfolding ports_def by (induction ws arbitrary: s) simp_all

lemma inv_feed: "hpsdr_inv s \<Longrightarrow> hpsdr_inv (feed_tx buf s)" "hpsdr_inv s \<Longrightarrow> hpsdr_inv (feed_codec buf s)"
  by (simp_all add: feed_tx_def feed_codec_def Let_def)

lemma inv_data:
  assumes "data_packet b env buf s = Some t" and "surroundings env" and "hpsdr_inv s"
  shows "hpsdr_inv t"
  using assms by (auto simp: data_packet_def intro!: inv_process inv_feed split: option.splits if_splits
      dest: inv_sleep [OF _ assms(2)])

lemma inv_reset_los [simp]: "hpsdr_inv s \<Longrightarrow> hpsdr_inv (reset_rx_los s)"
  by (simp add: reset_rx_los_def reg_set_def reg_clear_def)

lemma inv_unsync: "hpsdr_inv s \<Longrightarrow> hpsdr_inv (s\<lparr>rx_sync_data := 0\<rparr>)"
  by (simp add: hpsdr_inv_def) (simp add: settings_ok_def nucleo_ok_def synced_def)

lemma inv_stop: "stop_receiver env s = Some t \<Longrightarrow> surroundings env \<Longrightarrow> hpsdr_inv s \<Longrightarrow> hpsdr_inv t"
  using inv_sleep [of ep_active env "s\<lparr>ep_enable := False\<rparr>" t] by (simp add: stop_receiver_def)

lemma inv_start: "start_receiver env s = Some t \<Longrightarrow> surroundings env \<Longrightarrow> hpsdr_inv s \<Longrightarrow> hpsdr_inv t"
  by (auto simp: start_receiver_def intro!: inv_reset_los inv_unsync split: option.splits dest: inv_stop)

lemma inv_dispatch: "dispatch b env mac buf s = Some t \<Longrightarrow> surroundings env \<Longrightarrow> hpsdr_inv s \<Longrightarrow> hpsdr_inv t"
  by (auto simp: dispatch_def Let_def split: if_splits dest: inv_data inv_start inv_stop)

lemma inv_dispatch_all: "dispatch_all b env mac bufs s = Some t \<Longrightarrow> surroundings env \<Longrightarrow> hpsdr_inv s \<Longrightarrow> hpsdr_inv t"
  by (induction bufs arbitrary: s) (auto split: option.splits dest: inv_dispatch)

section \<open>Updates keep it\<close>

lemma alex_write_regs: "rx_sync_data (alex_write s) = rx_sync_data s" "regs (alex_write s) = regs s"
  by (simp_all add: alex_write_def alex_latch_def emit_def Let_def)

lemma updates_tracks:
  fixes s :: hpsdr
  assumes "i2c_tracks s"
  shows "i2c_tracks (alex_write s)" "i2c_tracks (misc_write s)" "i2c_tracks (nucleo_write s)"
proof -
  have latch: "i2c_tracks (alex_latch alex_rx (\<lambda>v. alex_rx_update (\<lambda>_. v)) k w u) = i2c_tracks u"
    "i2c_tracks (alex_latch alex_tx (\<lambda>v. alex_tx_update (\<lambda>_. v)) k w u) = i2c_tracks u" for k w and u :: hpsdr
    by (simp_all add: alex_latch_def) (simp_all add: i2c_tracks_def tracks_defs)
  show "i2c_tracks (alex_write s)"
    using assms by (simp add: alex_write_def Let_def latch)
  show "i2c_tracks (misc_write s)" "i2c_tracks (nucleo_write s)"
    using assms by (simp_all add: misc_write_def nucleo_write_def tracks_update)
qed

lemma updates_settings:
  fixes s :: hpsdr
  shows "settings_ok (alex_write s) = settings_ok s" "settings_ok (misc_write s) = settings_ok s"
    "settings_ok (nucleo_write s) = settings_ok s"
proof -
  have latch: "settings_ok (alex_latch alex_rx (\<lambda>v. alex_rx_update (\<lambda>_. v)) k w u) = settings_ok u"
    "settings_ok (alex_latch alex_tx (\<lambda>v. alex_tx_update (\<lambda>_. v)) k w u) = settings_ok u" for k w u
    by (simp_all add: alex_latch_def) (simp_all add: settings_ok_def nucleo_ok_def)
  show "settings_ok (alex_write s) = settings_ok s"
    by (simp add: alex_write_def Let_def latch)
  show "settings_ok (misc_write s) = settings_ok s" "settings_ok (nucleo_write s) = settings_ok s"
    by (simp_all add: misc_write_def nucleo_write_def)
qed

lemma updates_synced: "synced (alex_write s) = synced s" "synced (misc_write s) = synced s" "synced (nucleo_write s) = synced s"
  by (simp_all add: synced_def rd32_def alex_write_regs) (simp_all add: misc_write_def nucleo_write_def i2c_update_def
      i2c_send_def emit_def split: prod.split)

lemma inv_updates:
  assumes "hpsdr_inv s"
  shows "hpsdr_inv (main_updates s)"
proof -
  have data: "ucast (d :: u16) < (65536 :: u32)" for d
    by (rule bits_less [where k = 16, simplified]) (auto simp: bit_simps dest: bit_imp_le_length)
  have tracks: "i2c_tracks (main_updates s)"
    using assms
    by (simp add: hpsdr_inv_def main_updates_def main_alex_def main_misc_def main_nucleo_def note_change_def Let_def updates_tracks)
  have settings: "settings_ok (s\<lparr>nucleo_0 := ucast (d :: u16)\<rparr>) = settings_ok s" if "settings_ok s" for d s
    using that data [of d] by (simp add: settings_ok_def nucleo_ok_def)
  have ranges: "settings_ok (main_updates s)"
    using assms
    by (simp add: hpsdr_inv_def main_updates_def main_alex_def main_misc_def main_nucleo_def note_change_def Let_def
        updates_settings settings)
  have "synced (main_updates s)"
    using assms
    by (simp add: hpsdr_inv_def main_updates_def main_alex_def main_misc_def main_nucleo_def note_change_def Let_def updates_synced)
  moreover have "flagged (main_updates s)"
    using updates_current [of s] assms by (simp add: hpsdr_inv_def Let_def)
  ultimately show ?thesis
    using tracks ranges by (simp add: hpsdr_inv_def)
qed

section \<open>The start establishes it\<close>

text \<open>Nothing before the main loop changes a setting or what the filters were told.\<close>

definition fresh :: "hpsdr \<Rightarrow> bool" where
  "fresh s \<longleftrightarrow> settings_ok s \<and> rx_sync_data s = 0 \<and> alex_rx s = 0 \<and> alex_tx s = 0 \<and> misc_data s = misc_word s \<and>
     (nucleo_lo s, nucleo_hi s) = nucleo_words s"

lemma fresh_start: "fresh (hpsdr_globals r)"
proof -
  have "band_code misc_freqs 0 = 0" "band_code nucleo_freqs 0 = 0"
    by (simp_all add: band_code_def misc_freqs_def nucleo_freqs_def lower_bound_def lower_bound_loop.simps Let_def)
  then show ?thesis
    by (simp add: fresh_def settings_ok_def nucleo_ok_def hpsdr_globals_def freq_max_def misc_word_def nucleo_words_def Let_def)
qed

definition fresh_view :: "hpsdr \<Rightarrow> _" where
  "fresh_view s = ((receivers s, ep_rate s, rx_sync_data s, tx_eer_data s, freq0 s, freq1 s, freq2 s, rx_att_data s),
     (misc_0 s, misc_1 s, misc_2 s, nucleo_0 s, nucleo_1 s, nucleo_2 s, nucleo_3 s),
     (cw_int_data s, cw_reversed s, cw_speed s, cw_mode s, cw_weight s, cw_spacing s, cw_hang s),
     (alex_rx s, alex_tx s, misc_data s, nucleo_lo s, nucleo_hi s))"

lemma fresh_cong: "fresh_view s = fresh_view t \<Longrightarrow> fresh s = fresh t"
  by (simp add: fresh_view_def fresh_def settings_ok_def nucleo_ok_def misc_word_def nucleo_words_def Let_def)

lemma fresh_view_simps [simp]:
  "fresh_view (emit e s) = fresh_view s" "fresh_view (store off bs s) = fresh_view s"
  "fresh_view (has_pene_update f s) = fresh_view s" "fresh_view (has_alex_update f s) = fresh_view s"
  "fresh_view (has_level_update f s) = fresh_view s" "fresh_view (has_misc_update f s) = fresh_view s"
  "fresh_view (has_drive_update f s) = fresh_view s" "fresh_view (has_dac0_update f s) = fresh_view s"
  "fresh_view (has_dac1_update f s) = fresh_view s" "fresh_view (has_arduino_update f s) = fresh_view s"
  "fresh_view (has_nucleo_update f s) = fresh_view s" "fresh_view (has_codec_update f s) = fresh_view s"
  "fresh_view (log_table_update g s) = fresh_view s"
  by (simp_all add: fresh_view_def emit_def store_def)

lemma fresh_view_steps [simp]:
  "fresh_view (i2c_send a bs s) = fresh_view s" "fresh_view (i2c_more ws s) = fresh_view s"
  "fresh_view (wr8 off v8 s) = fresh_view s" "fresh_view (wr16 off v16 s) = fresh_view s" "fresh_view (wr32 off v32 s) = fresh_view s"
proof -
  show "fresh_view (i2c_more ws s) = fresh_view s"
    by (induction ws arbitrary: s) (simp_all add: more_cons)
qed (simp_all add: i2c_send_def wr_defs)

lemma fresh_view_probe: "(\<And>s. fresh_view (found s) = fresh_view s) \<Longrightarrow> fresh_view (probe sel ack a bs found rest s) = fresh_view s"
  by (simp add: probe_def Let_def)

lemma fresh_view_probe_all [simp]: "fresh_view (probe_all sel ack s) = fresh_view s"
  by (simp add: probe_all_def Let_def fresh_view_probe)

lemma fresh_view_table [simp]: "fresh_view (write_table p vs s) = fresh_view s"
proof -
  have "fresh_view (foldl (\<lambda>s (i, v). emit (Port (p i) (word_of_int v)) s) s ivs) = fresh_view s" for ivs
    by (induction ivs arbitrary: s) (auto simp: split_beta)
  then show ?thesis
    by (simp add: write_table_def)
qed

lemma init_fresh: "hpsdr_init b cosine log10 sel ack args s = Some t \<Longrightarrow> fresh_view t = fresh_view s"
  by (auto simp: hpsdr_init_def init_tx_def init_codec_def Let_def reg_set_def reg_clear_def split: option.splits)

lemma inv_init:
  assumes "hpsdr_init b cosine log10 sel ack args (hpsdr_globals r) = Some s"
  shows "hpsdr_inv s"
proof -
  have "fresh s"
    using fresh_cong [OF init_fresh [OF assms]] fresh_start by simp
  then have "settings_ok s" "synced s" "flagged s"
    by (simp_all add: fresh_def synced_def flagged_def current_defs)
  with init_agrees [OF assms] show ?thesis
    by (simp add: hpsdr_inv_def)
qed

section \<open>Every reachable state\<close>

lemma reachable_inv: "hpsdr_reachable b s \<Longrightarrow> hpsdr_inv s"
proof (induction rule: hpsdr_reachable.induct)
  case (start cosine log10 sel ack args r s)
  then show ?case by (rule inv_init)
next
  case (turn s env mac bufs t)
  then obtain u where "dispatch_all b env mac bufs s = Some u" and "t = main_updates u"
    by (auto simp: main_turn_def)
  with turn show ?case
    using inv_dispatch_all inv_updates by blast
next
  case (rest s t)
  then show ?case
    using inv_others by blast
qed

section \<open>The threads are among the others\<close>

text \<open>Each step of the keyer and of the receiver thread extends what \<open>others\<close> can do.\<close>

lemma goes_on: "others\<^sup>*\<^sup>* s t \<Longrightarrow> others t u \<Longrightarrow> others\<^sup>*\<^sup>* s u"
  by (rule rtranclp.rtrancl_into_rtrancl)

lemma goes_fields:
  assumes "others\<^sup>*\<^sup>* s t"
  shows "others\<^sup>*\<^sup>* s (t\<lparr>cw_ptt := a\<rparr>)" "others\<^sup>*\<^sup>* s (t\<lparr>tx_mux_data := a\<rparr>)" "others\<^sup>*\<^sup>* s (t\<lparr>cw_mem0 := c\<rparr>)"
    "others\<^sup>*\<^sup>* s (t\<lparr>cw_mem1 := c\<rparr>)" "others\<^sup>*\<^sup>* s (t\<lparr>cw_ptt_delay := e\<rparr>)"
  using goes_on [OF assms others.keyed [where s = t and a = a and b = "tx_mux_data t" and c = "cw_mem0 t" and d = "cw_mem1 t" and e = "cw_ptt_delay t"]]
    goes_on [OF assms others.keyed [where s = t and a = "cw_ptt t" and b = a and c = "cw_mem0 t" and d = "cw_mem1 t" and e = "cw_ptt_delay t"]]
    goes_on [OF assms others.keyed [where s = t and a = "cw_ptt t" and b = "tx_mux_data t" and c = c and d = "cw_mem1 t" and e = "cw_ptt_delay t"]]
    goes_on [OF assms others.keyed [where s = t and a = "cw_ptt t" and b = "tx_mux_data t" and c = "cw_mem0 t" and d = c and e = "cw_ptt_delay t"]]
    goes_on [OF assms others.keyed [where s = t and a = "cw_ptt t" and b = "tx_mux_data t" and c = "cw_mem0 t" and d = "cw_mem1 t" and e = e]]
  by simp_all

lemma goes_reset:
  assumes "others\<^sup>*\<^sup>* s t" and "off = rx_rst \<or> off = tx_rst"
  shows "others\<^sup>*\<^sup>* s (set8 off m t)" "others\<^sup>*\<^sup>* s (clear8 off m t)"
  using assms others.resets goes_on unfolding reg_set_def reg_clear_def by blast+

lemma goes_env: "surroundings env \<Longrightarrow> others\<^sup>*\<^sup>* s t \<Longrightarrow> others\<^sup>*\<^sup>* s (env t)"
  by (meson surroundings_def rtranclp_trans)

lemma goes_nap: "surroundings env \<Longrightarrow> others\<^sup>*\<^sup>* s t \<Longrightarrow> others\<^sup>*\<^sup>* s (nap env n t)"
  unfolding nap_def by (rule goes_env, assumption, rule goes_on, assumption, rule others.sleeps)

lemmas goes = goes_fields goes_reset [OF _ disjI2 [OF refl]] goes_reset [OF _ disjI1 [OF refl]] goes_nap

lemma goes_funpow: "(\<And>t. others\<^sup>*\<^sup>* s t \<Longrightarrow> others\<^sup>*\<^sup>* s (f t)) \<Longrightarrow> others\<^sup>*\<^sup>* s t \<Longrightarrow> others\<^sup>*\<^sup>* s ((f ^^ n) t)"
  by (induction n) auto

lemma goes_samples:
  assumes "surroundings env" and "others\<^sup>*\<^sup>* s t"
  shows "others\<^sup>*\<^sup>* s ((sample env ^^ n) t)" "others\<^sup>*\<^sup>* s ((sample_mode env ^^ n) t)"
    "others\<^sup>*\<^sup>* s (cw_ptt_off t)" "others\<^sup>*\<^sup>* s ((pause env ^^ n) t)"
proof -
  have off: "others\<^sup>*\<^sup>* s (cw_ptt_off u)" if "others\<^sup>*\<^sup>* s u" for u
    using that by (auto simp: cw_ptt_off_def Let_def intro!: goes)
  then show "others\<^sup>*\<^sup>* s (cw_ptt_off t)"
    using assms(2) .
  show "others\<^sup>*\<^sup>* s ((sample env ^^ n) t)" "others\<^sup>*\<^sup>* s ((sample_mode env ^^ n) t)" "others\<^sup>*\<^sup>* s ((pause env ^^ n) t)"
    using assms by (auto simp: sample_def sample_mode_def pause_def Let_def intro!: goes_funpow goes off)
qed

lemma goes_keying:
  assumes "surroundings env" and "others\<^sup>*\<^sup>* s t"
  shows "cw_on env t = Some u \<Longrightarrow> others\<^sup>*\<^sup>* s u" "cw_off env t = Some u \<Longrightarrow> others\<^sup>*\<^sup>* s u"
    "cw_signal_delay env code t = Some u \<Longrightarrow> others\<^sup>*\<^sup>* s u" "cw_space_delay env code t = Some u \<Longrightarrow> others\<^sup>*\<^sup>* s u"
  using assms
  by (auto simp: cw_on_def cw_off_def cw_signal_delay_def cw_space_delay_def Let_def intro!: goes goes_samples split: if_splits)

lemma goes_key_down: "key_down env t = Some u \<Longrightarrow> surroundings env \<Longrightarrow> others\<^sup>*\<^sup>* s t \<Longrightarrow> others\<^sup>*\<^sup>* s u"
proof (induction rule: key_down.raw_induct [rotated, consumes 1, case_names step])
  case (step f env t u)
  have "others\<^sup>*\<^sup>* s (upd cw_mem0_update (cw_input (nap env 1000 t)) (nap env 1000 t))"
    using step.prems by (intro goes)
  with step show ?case
    by (auto simp: Let_def split: if_splits)
qed

lemma goes_element:
  assumes "surroundings env" and "others\<^sup>*\<^sup>* s t" and "element env state t = Some u"
  shows "others\<^sup>*\<^sup>* s u"
  using assms(2,3)
  by (auto simp: element_def Let_def split: option.splits intro!: goes dest!: goes_keying [OF assms(1), rotated])

lemma goes_iambic: "iambic env state t = Some u \<Longrightarrow> surroundings env \<Longrightarrow> others\<^sup>*\<^sup>* s t \<Longrightarrow> others\<^sup>*\<^sup>* s u"
proof (induction rule: iambic.raw_induct [rotated, consumes 1, case_names step])
  case (step f env state t u)
  note element = goes_element [OF step.prems] and space = goes_keying(4) [OF step.prems(1)]
  from step show ?case
    by (auto split: if_splits option.splits) (meson element space)+
qed

lemma keyer_among_others:
  assumes "surroundings env" and "keyer_turn env s = Some t"
  shows "others\<^sup>*\<^sup>* s t"
proof -
  have straight: "others\<^sup>*\<^sup>* s w" if "straight_key env u = Some w" "others\<^sup>*\<^sup>* s u" for u w
    using that by (auto simp: straight_key_def split: option.splits dest!: goes_keying(1,2) [OF assms(1), rotated] goes_key_down [OF _ assms(1)])
  have dot: "others\<^sup>*\<^sup>* s w" if "single_dot env u = Some w" "others\<^sup>*\<^sup>* s u" for u w
    using that by (auto simp: single_dot_def Let_def split: option.splits if_splits
        dest!: goes_keying(1,2,4) [OF assms(1), rotated])
      (meson goes_nap assms(1) rtranclp_trans)
  show ?thesis
    using assms(2)
    by (auto simp: keyer_turn_def Let_def split: if_splits
        intro!: goes goes_samples assms(1) dest!: straight dot goes_iambic [OF _ assms(1)])
qed

text \<open>So does every turn of the receiver thread.\<close>

lemma goes_sleep:
  assumes "sleep_while c env t = Some u" and "surroundings env" and "others\<^sup>*\<^sup>* s t"
  shows "others\<^sup>*\<^sup>* s u"
  using sleep_while_invariant [OF assms(1), where I = "others\<^sup>*\<^sup>* s"] assms(2,3)
  by (meson goes_env goes_on others.sleeps)

lemma goes_sends: "others\<^sup>*\<^sup>* s t \<Longrightarrow> others\<^sup>*\<^sup>* s (foldl (\<lambda>t dg. emit (Send dg) t) t dgs)"
  by (induction dgs arbitrary: t) (auto intro: goes_on others.sends)

lemma ep6_wait_others: "ep6_wait env s = Some t \<Longrightarrow> surroundings env \<Longrightarrow> others\<^sup>*\<^sup>* s t"
  unfolding ep6_wait_def reset_rx_fifos_def Let_def
  by (erule goes_sleep, assumption) (auto intro!: goes)

lemma ep6_among_others:
  assumes "surroundings env" and "ep6_turn th env codec fifo xadc s st = Some r"
  shows "others\<^sup>*\<^sup>* s (case r of Inl (t, st') \<Rightarrow> t | Inr t \<Rightarrow> t)"
proof (cases "ep_enable s")
  case True
  then obtain t out st' where "ep6_wait env s = Some t" and "r = Inl (foldl (\<lambda>t dg. emit (Send dg) t) t out, st')"
    using assms(2) by (auto simp: ep6_turn_def Option.bind_eq_Some_conv split: prod.splits)
  then show ?thesis
    using ep6_wait_others [OF _ assms(1)] goes_sends by auto
next
  case False
  then show ?thesis
    using assms(2) others.ended by (auto simp: ep6_turn_def)
qed

section \<open>Properties of all reachable states\<close>

text \<open>The states with any turns of the threads in between are reachable.\<close>

lemma reachable_threads:
  "hpsdr_reachable b s \<Longrightarrow> surroundings env \<Longrightarrow> keyer_turn env s = Some t \<Longrightarrow> hpsdr_reachable b t"
  "hpsdr_reachable b s \<Longrightarrow> surroundings env \<Longrightarrow> ep6_turn th env codec fifo xadc s st = Some (Inl (t, st')) \<Longrightarrow> hpsdr_reachable b t"
  "hpsdr_reachable b s \<Longrightarrow> surroundings env \<Longrightarrow> ep6_turn th env codec fifo xadc s st = Some (Inr t) \<Longrightarrow> hpsdr_reachable b t"
  using keyer_among_others ep6_among_others [of env th codec fifo xadc s st] by (fastforce intro: hpsdr_reachable.rest)+

lemma surroundings_id: "surroundings (\<lambda>s. s)"
  by (simp add: surroundings_def)

lemma some_turn:
  obtains s t where "hpsdr_init board_125 (\<lambda>x. 1) (\<lambda>x. x - 1) (\<lambda>_. True) (\<lambda>a. a = ADDR_PENE) (replicate 6 ''1'') (hpsdr_globals (\<lambda>_. 0)) = Some s"
    and "main_turn board_125 (\<lambda>s. s) [1, 2, 3, 4, 5, 6] [[0xef, 0xfe, 2, 0]] s = Some t"
    and "hpsdr_reachable board_125 s" and "hpsdr_reachable board_125 t"
proof -
  have p: "parse_range 1 2 ''1'' = Some 1"
    by code_simp
  have "parse_chan (replicate 6 ''1'') = Some 0"
    by (simp add: parse_chan_def eval_nat_numeral p)
  then obtain s where s: "hpsdr_init board_125 (\<lambda>x. 1) (\<lambda>x. x - 1) (\<lambda>_. True) (\<lambda>a. a = ADDR_PENE) (replicate 6 ''1'')
      (hpsdr_globals (\<lambda>_. 0)) = Some s"
    by (auto simp: hpsdr_init_def)
  obtain t where t: "main_turn board_125 (\<lambda>s. s) [1, 2, 3, 4, 5, 6] [[0xef, 0xfe, 2, 0]] s = Some t"
    by (simp add: main_turn_def dispatch_def le32_at_def join32_def join16_def Let_def)
  have "hpsdr_reachable board_125 s"
    using s by (rule hpsdr_reachable.start)
  with s t that show ?thesis
    using hpsdr_reachable.turn surroundings_id by blast
qed



text \<open>C2. In every reachable state every setting is in the range its command can express.\<close>

theorem reachable_settings:
  assumes "hpsdr_reachable b s"
  shows "settings_ok s"
  using reachable_inv [OF assms] by (simp add: hpsdr_inv_def)

theorem reachable_settings_witness: "\<exists>s. hpsdr_reachable board_125 s \<and> settings_ok s"
proof -
  obtain s t where "hpsdr_reachable board_125 t"
    by (rule some_turn)
  from this reachable_settings [OF this] show ?thesis by blast
qed

text \<open>C31. In every reachable state the phase increments of synchronised receivers are equal.\<close>

theorem reachable_synced:
  assumes "hpsdr_reachable b s"
  shows "synced s"
  using reachable_inv [OF assms] by (simp add: hpsdr_inv_def)

theorem reachable_synced_witness: "\<exists>s. hpsdr_reachable board_125 s \<and> synced s"
proof -
  obtain s t where "hpsdr_reachable board_125 t"
    by (rule some_turn)
  from this reachable_synced [OF this] show ?thesis by blast
qed



text \<open>C4. Whatever commands the host sent, the receiver thread finds a number of receivers for which it assembles its block
  without leaving an array, as long as the rate has not decreased since its last block.\<close>

theorem reachable_blocks_safe:
  assumes "hpsdr_reachable b s" and "ep6_ok rate st" and "rate \<le> unat (ep_rate s)"
    and "510 \<le> length codec" and "16320 \<le> length fifo"
  shows "\<exists>out v. ep6_block th s codec fifo xadc st = Some (out, v) \<and> ep6_ok (unat (ep_rate s)) v"
proof -
  have "1 \<le> receivers s" "receivers s \<le> 8"
    using reachable_inv [OF assms(1)] by (simp_all add: hpsdr_inv_def settings_ok_def)
  then have valid: "valid_receivers (unat (receivers s))"
    by (simp add: valid_receivers_def word_le_nat_alt)
  then have "block_input s codec fifo"
    using block_sizes(5) [OF valid] assms(4,5) by (simp add: block_input_def)
  from ep6_block_ends [OF assms(2,3) this] show ?thesis
    by (metis block_done_def)
qed

theorem reachable_blocks_safe_witness:
  "\<exists>s. hpsdr_reachable board_125 s \<and> (\<exists>out v. ep6_block False s (replicate 510 7) (replicate 16320 9) (\<lambda>_. 0)
     (ep6_start (\<lambda>_. 0) s) = Some (out, v))"
proof -
  obtain s t where "hpsdr_reachable board_125 t"
    by (rule some_turn)
  from this reachable_blocks_safe [OF this ep6_start_ok order_refl, of "replicate 510 7" "replicate 16320 9"] show ?thesis
    by (metis length_replicate order_refl)
qed

end
