(* ===== verification/Acquire.thy ===== *)
theory Acquire
  imports Mmio
begin

unbundle bit_operations_syntax

text \<open>
  The acquisition loop that the pulsed NMR server and the scanner share: until a number of samples
  has been sent, wait for the receive FIFO, send a chunk of its samples, feed the transmit FIFO. The
  readings of the fill counters, and whether \<open>send\<close> succeeds, come from outside: a turn of the loop
  has them as its input. \<open>while_turns\<close> is a C loop with one input per turn and \<open>break\<close>; the locale
  \<open>acquisition\<close> is what such a loop's body promises, and proves how many samples it sends and that it
  ends.
\<close>

section \<open>A loop with one input per turn\<close>

text \<open>
  \<open>Inl\<close> is a \<open>break\<close>, \<open>Inr\<close> the end of the body. \<open>None\<close> is a loop that is still running after the
  inputs given.
\<close>

fun while_turns :: "('q \<Rightarrow> bool) \<Rightarrow> ('i \<Rightarrow> 'q \<Rightarrow> 'q + 'q) \<Rightarrow> 'i list \<Rightarrow> 'q \<Rightarrow> 'q option" where
  "while_turns c body [] q = (if c q then None else Some q)"
| "while_turns c body (t # ts) q =
     (if c q then (case body t q of Inl q' \<Rightarrow> Some q' | Inr q' \<Rightarrow> while_turns c body ts q')
      else Some q)"

lemma while_turns_inv:
  assumes "while_turns c body ts q = Some r" and "P q"
    and "\<And>i q q'. i \<in> set ts \<Longrightarrow> c q \<Longrightarrow> P q \<Longrightarrow> body i q = Inr q' \<Longrightarrow> P q'"
    and "\<And>i q q'. i \<in> set ts \<Longrightarrow> c q \<Longrightarrow> P q \<Longrightarrow> body i q = Inl q' \<Longrightarrow> Q q'"
  shows "P r \<and> \<not> c r \<or> Q r"
  using assms
proof (induction ts arbitrary: q)
  case Nil
  then show ?case by (simp split: if_splits)
next
  case (Cons i ts)
  then show ?case
    by (simp split: if_splits sum.splits) (metis list.set_intros(2))+
qed

section \<open>Writing words to a port\<close>

definition to_port :: "port \<Rightarrow> u32 list \<Rightarrow> 'a machine_scheme \<Rightarrow> 'a machine_scheme" where
  "to_port p ws s = fold (\<lambda>w. emit (Port p w)) ws s"

lemma to_port_simps [simp]:
  "to_port p [] s = s" "to_port p (w # ws) s = to_port p ws (emit (Port p w) s)"
  by (simp_all add: to_port_def)

lemma regs_to_port [simp]: "regs (to_port p ws s) = regs s"
  by (induction ws arbitrary: s) simp_all

lemma rd_to_port [simp, reg_laws]:
  "rd8 a (to_port p ws s) = rd8 a s" "rd16 a (to_port p ws s) = rd16 a s"
  "rd32 a (to_port p ws s) = rd32 a s"
  by (simp_all add: rd_defs)

lemma trace_to_port [simp]: "trace (to_port p ws s) = trace s @ map (Port p) ws"
  by (induction ws arbitrary: s) simp_all

lemma more_to_port [simp]: "machine.more (to_port p ws s) = machine.more s"
  by (induction ws arbitrary: s) simp_all

section \<open>What went to the socket and to the FIFO\<close>

definition sent_bytes :: "io list \<Rightarrow> u8 list" where
  "sent_bytes es = concat (map (\<lambda>e. case e of Send bs \<Rightarrow> bs | _ \<Rightarrow> []) es)"

definition fifo_words :: "io list \<Rightarrow> u32 list" where
  "fifo_words es = concat (map (\<lambda>e. case e of Port p w \<Rightarrow> (if p = Fifo then [w] else []) | _ \<Rightarrow> []) es)"

lemma sent_bytes_simps [simp]:
  "sent_bytes [] = []" "sent_bytes (es @ fs) = sent_bytes es @ sent_bytes fs"
  "sent_bytes (Send bs # es) = bs @ sent_bytes es" "sent_bytes (Port p w # es) = sent_bytes es"
  "sent_bytes (Sleep n # es) = sent_bytes es" "sent_bytes (Store off bs # es) = sent_bytes es"
  by (simp_all add: sent_bytes_def)

lemma fifo_words_simps [simp]:
  "fifo_words [] = []" "fifo_words (es @ fs) = fifo_words es @ fifo_words fs"
  "fifo_words (Send bs # es) = fifo_words es" "fifo_words (Port p w # es) = (if p = Fifo then [w] else []) @ fifo_words es"
  "fifo_words (Sleep n # es) = fifo_words es" "fifo_words (Store off bs # es) = fifo_words es"
  by (simp_all add: fifo_words_def)

lemma sent_ports [simp]: "sent_bytes (map (Port p) ws) = []" "sent_bytes (map (Port p \<circ> f) xs) = []"
  by (induction ws) (induction xs; simp)+

lemma fifo_ports [simp]:
  "fifo_words (map (Port Fifo) ws) = ws" "fifo_words (map (Port Fifo \<circ> f) xs) = map f xs"
  by (induction ws) (induction xs; simp)+

text \<open>Setting and clearing bits of a register goes to neither.\<close>

lemma trace_bits8 [simp]:
  "trace (reg_clear (rd8 off) (wr8 off) m s) = trace s @ [Store off [rd8 off s AND NOT m]]"
  "trace (reg_set (rd8 off) (wr8 off) m s) = trace s @ [Store off [rd8 off s OR m]]"
  by (simp_all add: reg_clear_def reg_set_def)

section \<open>The contract of the loop's body\<close>

text \<open>
  \<open>ready i n\<close>: in this turn the FIFO holds \<open>n\<close> samples. A turn whose send fails leaves the loop.
\<close>

locale acquisition =
  fixes body :: "nat \<Rightarrow> 'i \<Rightarrow> 'q \<Rightarrow> 'q + 'q"
    and counter :: "'q \<Rightarrow> nat" and chunk :: "'q \<Rightarrow> nat"
    and ready :: "'i \<Rightarrow> nat \<Rightarrow> bool" and sent_ok :: "'i \<Rightarrow> bool"
  assumes turn: "counter q < amount \<Longrightarrow> body amount i q = Inr q' \<Longrightarrow>
      chunk q' = min (chunk q) (amount - counter q) \<and>
      counter q' = counter q + (if ready i (chunk q') then chunk q' else 0)"
    and no_break: "counter q < amount \<Longrightarrow> sent_ok i \<Longrightarrow> \<exists>q'. body amount i q = Inr q'"
begin

abbreviation loop :: "nat \<Rightarrow> 'i list \<Rightarrow> 'q \<Rightarrow> 'q option" where
  "loop amount \<equiv> while_turns (\<lambda>q. counter q < amount) (body amount)"

lemma counter_mono: "counter q < amount \<Longrightarrow> body amount i q = Inr q' \<Longrightarrow> counter q \<le> counter q' \<and> counter q' \<le> amount"
  using turn [of q amount i q'] by auto

text \<open>What every turn keeps holds at the end of a loop whose sends succeed.\<close>

lemma keeps:
  assumes "loop amount ts q = Some r" and "P q" and "list_all sent_ok ts"
    and "\<And>t q q'. t \<in> set ts \<Longrightarrow> counter q < amount \<Longrightarrow> P q \<Longrightarrow> body amount t q = Inr q' \<Longrightarrow> P q'"
  shows "P r \<and> amount \<le> counter r"
proof -
  have "P r \<and> \<not> counter r < amount \<or> False"
  proof (rule while_turns_inv [OF assms(1), where P = P and Q = "\<lambda>_. False"])
    fix t q q'
    assume "t \<in> set ts" "counter q < amount" "body amount t q = Inl q'"
    then show False using no_break [of q amount t] assms(3) by (auto simp: list_all_iff)
  qed (use assms(2,4) in blast)+
  then show ?thesis by auto
qed

text \<open>Such a loop has sent exactly the samples asked for.\<close>

lemma exact:
  assumes "loop amount ts q = Some r" and "counter q \<le> amount" and "list_all sent_ok ts"
  shows "counter r = amount"
  using keeps [where P = "\<lambda>q. counter q \<le> amount", OF assms] counter_mono by auto

text \<open>
  When the FIFO always holds a full chunk the loop ends after as many turns as there are chunks, and
  needs no more.
\<close>

lemma ends:
  assumes "0 < c" and "chunk q = c \<or> counter q = amount" and "counter q \<le> amount"
    and "amount - counter q \<le> c * length ts" and "list_all (\<lambda>i. sent_ok i \<and> (\<forall>n\<le>c. ready i n)) ts"
  shows "\<exists>r. loop amount ts q = Some r \<and> counter r = amount"
  using assms(2-5)
proof (induction ts arbitrary: q)
  case Nil
  then show ?case by auto
next
  case (Cons i ts)
  show ?case
  proof (cases "counter q < amount")
    case True
    then obtain q' where b: "body amount i q = Inr q'"
      using no_break Cons.prems(4) by fastforce
    have t: "chunk q' = min c (amount - counter q)" "counter q' = counter q + min c (amount - counter q)"
      using turn [OF True b] Cons.prems(1,4) True by auto
    then have "chunk q' = c \<or> counter q' = amount" and "counter q' \<le> amount" and "amount - counter q' \<le> c * length ts"
      using True Cons.prems(3) by auto
    then show ?thesis
      using Cons.IH [of q'] Cons.prems(4) b True by simp
  next
    case False
    then show ?thesis using Cons.prems by simp
  qed
qed

end

end
