(* ===== verification/Nmr.thy ===== *)
theory Nmr
  imports Doubles Acquire
begin

unbundle bit_operations_syntax

text \<open>
  \<open>projects/pulsed_nmr/server/pulsed-nmr.c\<close>: the pulsed NMR server. A command is a 64-bit word with
  its code in the four high bits. The host fills a table of pulses (width, then phase and level, two
  words each) and starts a sequence: the server sends the samples of the receiver and feeds the table
  to the transmitter. The file of \<open>pulsed_nmr_122_88\<close> differs in the constants of \<open>nmr_board\<close> only.

  The table is the map \<open>nmr_pulses\<close> from word indices; \<open>nmr_size\<close> is the local variable \<open>size\<close>, the
  number of its pulses. A store before the table's start has the result \<open>OutOfBounds\<close>, a sequence that
  has not ended after the turns given \<open>StillRunning\<close>.
\<close>

record nmr_board =
  nmr_clk :: rat
  nmr_freq_max :: u64
  nmr_rate_min :: u64
  nmr_rate_max :: u64
  nmr_rate_start :: u16

definition nmr_125 :: nmr_board where
  "nmr_125 = \<lparr>nmr_clk = clk_125, nmr_freq_max = 62500000, nmr_rate_min = 50, nmr_rate_max = 2500, nmr_rate_start = 250\<rparr>"

definition nmr_122 :: nmr_board where
  "nmr_122 = \<lparr>nmr_clk = clk_122, nmr_freq_max = 61440000, nmr_rate_min = 48, nmr_rate_max = 3072, nmr_rate_start = 384\<rparr>"

record nmr = machine +
  nmr_pulses :: "nat \<Rightarrow> u32"
  nmr_size :: nat
  nmr_dac :: bool

text \<open>\<open>rx_rst\<close> and \<open>tx_rst\<close> are the bytes at offsets 0 and 1.\<close>

abbreviation nrx_clear :: "u8 \<Rightarrow> nmr \<Rightarrow> nmr" where "nrx_clear \<equiv> reg_clear (rd8 0) (wr8 0)"
abbreviation nrx_set :: "u8 \<Rightarrow> nmr \<Rightarrow> nmr" where "nrx_set \<equiv> reg_set (rd8 0) (wr8 0)"
abbreviation ntx_clear :: "u8 \<Rightarrow> nmr \<Rightarrow> nmr" where "ntx_clear \<equiv> reg_clear (rd8 1) (wr8 1)"
abbreviation ntx_set :: "u8 \<Rightarrow> nmr \<Rightarrow> nmr" where "ntx_set \<equiv> reg_set (rd8 1) (wr8 1)"

section \<open>The level DAC and the registers at start\<close>

definition i2c_write_data16 :: "u16 \<Rightarrow> nmr \<Rightarrow> nmr" where
  "i2c_write_data16 d = emit (I2cWrite [ucast (drop_bit 8 d), ucast d])"

text \<open>Whether the bus can be opened, the address selected, and the first word written.\<close>

definition nmr_probe :: "bool \<Rightarrow> bool \<Rightarrow> bool \<Rightarrow> nmr \<Rightarrow> nmr" where
  "nmr_probe opened selected written s =
     (let s = s\<lparr>nmr_dac := False\<rparr> in
      if opened then
        let s = emit (I2cSelect 0x0F) s in
        if selected then
          let s = i2c_write_data16 0 s in
          if written then s\<lparr>nmr_dac := True\<rparr> else s
        else s
      else s)"

definition nmr_registers :: "nmr_board \<Rightarrow> nmr \<Rightarrow> nmr" where
  "nmr_registers b s =
     (let s = nrx_clear 1 s; s = nrx_clear 2 s; s = ntx_clear 1 s;
          s = wr32 4 (phase_inc (nmr_clk b) 19000000) s;
          s = wr16 8 (nmr_rate_start b) s;
          s = wr16 10 0 s in
      wr32 12 (phase_inc (nmr_clk b) 19000000) s)"

definition nmr_init :: "nmr_board \<Rightarrow> bool \<Rightarrow> bool \<Rightarrow> bool \<Rightarrow> nmr \<Rightarrow> nmr" where
  "nmr_init b opened selected written s =
     nmr_registers b (nmr_probe opened selected written (s\<lparr>nmr_size := 0\<rparr>))"

section \<open>Settings\<close>

definition nmr_rx_freq :: "nmr_board \<Rightarrow> u64 \<Rightarrow> nmr \<Rightarrow> nmr" where
  "nmr_rx_freq b data s = (if data > nmr_freq_max b then s else wr32 4 (phase_inc (nmr_clk b) (unat data)) s)"

definition nmr_tx_freq :: "nmr_board \<Rightarrow> u64 \<Rightarrow> nmr \<Rightarrow> nmr" where
  "nmr_tx_freq b data s = (if data > nmr_freq_max b then s else wr32 12 (phase_inc (nmr_clk b) (unat data)) s)"

definition nmr_rx_rate :: "nmr_board \<Rightarrow> u64 \<Rightarrow> nmr \<Rightarrow> nmr" where
  "nmr_rx_rate b data s = (if data < nmr_rate_min b \<or> data > nmr_rate_max b then s else wr16 8 (ucast data) s)"

definition nmr_tx_level :: "u64 \<Rightarrow> nmr \<Rightarrow> nmr" where
  "nmr_tx_level data s = (if data > 32766 then s else wr16 10 (ucast data) s)"

definition nmr_set_pin :: "u64 \<Rightarrow> nmr \<Rightarrow> nmr" where
  "nmr_set_pin data s = (if data < 1 \<or> data > 7 then s else ntx_set (push_bit (unat data) 1) s)"

definition nmr_clear_pin :: "u64 \<Rightarrow> nmr \<Rightarrow> nmr" where
  "nmr_clear_pin data s = (if data < 1 \<or> data > 7 then s else ntx_clear (push_bit (unat data) 1) s)"

definition nmr_set_dac :: "u64 \<Rightarrow> nmr \<Rightarrow> nmr" where
  "nmr_set_dac data s = (if \<not> nmr_dac s then s else i2c_write_data16 (ucast data) (emit (I2cSelect 0x0F) s))"

section \<open>The table of pulses\<close>

datatype nmr_error = OutOfBounds | StillRunning

definition nmr_clear :: "nmr \<Rightarrow> nmr" where
  "nmr_clear s = s\<lparr>nmr_size := 0\<rparr>"

text \<open>\<open>memset\<close> of the four words and \<open>memcpy\<close> of the 64-bit value over the first two.\<close>

definition nmr_add :: "u64 \<Rightarrow> nmr \<Rightarrow> nmr" where
  "nmr_add data s =
     (if nmr_size s \<ge> 1048576 then s
      else let n = nmr_size s + 1; i = (n - 1) * 4 in
        s\<lparr>nmr_size := n, nmr_pulses := (nmr_pulses s)(i := ucast data, i + 1 := ucast (drop_bit 32 data), i + 2 := 0, i + 3 := 0)\<rparr>)"

definition nmr_phase :: "u64 \<Rightarrow> nmr \<Rightarrow> nmr_error + nmr" where
  "nmr_phase data s =
     (if nmr_size s = 0 then Inl OutOfBounds
      else let i = (nmr_size s - 1) * 4 in
        Inr (s\<lparr>nmr_pulses := (nmr_pulses s)(i + 2 := ucast data, i + 3 := ucast (drop_bit 32 data))\<rparr>))"

section \<open>A sequence\<close>

text \<open>
  The local variables of the loop. \<open>run_taken\<close> counts the words read from the receive FIFO, whose
  content since its reset is the stream \<open>rx\<close>. A turn's input: the two readings of \<open>rx_cntr\<close>, whether
  \<open>send\<close> succeeds, and the successive readings of \<open>tx_cntr\<close>.
\<close>

record nmr_run =
  run_state :: nmr
  run_counter :: nat
  run_position :: nat
  run_chunk :: nat
  run_taken :: nat

record nmr_turn =
  rx_first :: u16
  rx_second :: u16
  rx_sent :: bool
  tx_levels :: "nat \<Rightarrow> u16"

definition nmr_read :: "(nat \<Rightarrow> u32) \<Rightarrow> nat \<Rightarrow> nmr_turn \<Rightarrow> nmr_run \<Rightarrow> nmr_run + nmr_run" where
  "nmr_read rx data t q =
     (let n = (if run_chunk q > data - run_counter q then data - run_counter q else run_chunk q);
          s = (if unat (rx_first t) < n * 4 then emit (Sleep 500) (run_state q) else run_state q);
          q = q\<lparr>run_chunk := n, run_state := s\<rparr> in
      if unat (rx_second t) \<ge> n * 4 then
        let buffer = map rx [run_taken q..<run_taken q + n * 4];
            q = q\<lparr>run_taken := run_taken q + n * 4\<rparr> in
        if \<not> rx_sent t then Inl q
        else Inr (q\<lparr>run_state := emit (Send (concat (map le32 buffer))) s, run_counter := run_counter q + n\<rparr>)
      else Inr q)"

text \<open>\<open>while(*tx_cntr < 16384 && position < size * 4)\<close>; the first argument counts what is left of the table.\<close>

fun nmr_feed :: "nat \<Rightarrow> (nat \<Rightarrow> u16) \<Rightarrow> nat \<Rightarrow> nmr \<Rightarrow> nat \<times> nmr" where
  "nmr_feed 0 levels position s = (position, s)"
| "nmr_feed (Suc left) levels position s =
     (if levels 0 < 16384
      then nmr_feed left (\<lambda>i. levels (i + 1)) (position + 1) (emit (Port Fifo (nmr_pulses s position)) s)
      else (position, s))"

definition nmr_turn_step :: "(nat \<Rightarrow> u32) \<Rightarrow> nat \<Rightarrow> nmr_turn \<Rightarrow> nmr_run \<Rightarrow> nmr_run + nmr_run" where
  "nmr_turn_step rx data t q =
     (case nmr_read rx data t q of Inl q \<Rightarrow> Inl q
      | Inr q \<Rightarrow>
          let (position, s) = nmr_feed (nmr_size (run_state q) * 4 - run_position q) (tx_levels t) (run_position q) (run_state q) in
          Inr (q\<lparr>run_position := position, run_state := nrx_set 2 s\<rparr>))"

definition nmr_prepare :: "nmr \<Rightarrow> nmr" where
  "nmr_prepare s =
     (let s = nrx_clear 2 s; s = nrx_set 1 (nrx_clear 1 s) in ntx_set 1 (ntx_clear 1 s))"

definition nmr_start :: "(nat \<Rightarrow> u32) \<Rightarrow> nmr_turn list \<Rightarrow> u64 \<Rightarrow> nmr \<Rightarrow> nmr_error + nmr" where
  "nmr_start rx ts data s =
     (case while_turns (\<lambda>q. run_counter q < unat data) (nmr_turn_step rx (unat data)) ts
          \<lparr>run_state = nmr_prepare s, run_counter = 0, run_position = 0, run_chunk = 2048, run_taken = 0\<rparr> of
        None \<Rightarrow> Inl StillRunning
      | Some q \<Rightarrow> Inr (ntx_clear 1 (nrx_clear 2 (nrx_clear 1 (run_state q)))))"

section \<open>The commands\<close>

definition nmr_code :: "u64 \<Rightarrow> u64" where
  "nmr_code command = drop_bit 60 command"

definition nmr_data :: "u64 \<Rightarrow> u64" where
  "nmr_data command = command AND 0xfffffffffffffff"

definition nmr_command :: "nmr_board \<Rightarrow> (nat \<Rightarrow> u32) \<Rightarrow> nmr_turn list \<Rightarrow> u64 \<Rightarrow> nmr \<Rightarrow> nmr_error + nmr" where
  "nmr_command b rx ts command s =
     (let code = nmr_code command; data = nmr_data command in
      if code = 0 then Inr (nmr_rx_freq b data s)
      else if code = 1 then Inr (nmr_tx_freq b data s)
      else if code = 2 then Inr (nmr_rx_rate b data s)
      else if code = 3 then Inr (nmr_tx_level data s)
      else if code = 4 then Inr (nmr_set_pin data s)
      else if code = 5 then Inr (nmr_clear_pin data s)
      else if code = 6 then Inr (nmr_set_dac data s)
      else if code = 7 then Inr (nmr_clear s)
      else if code = 8 then Inr (nmr_add data s)
      else if code = 9 then nmr_phase data s
      else if code = 10 then nmr_start rx ts data s
      else Inr s)"

text \<open>A batch of commands, none of which starts a sequence.\<close>

fun nmr_batch :: "nmr_board \<Rightarrow> u64 list \<Rightarrow> nmr \<Rightarrow> nmr_error + nmr" where
  "nmr_batch b [] s = Inr s"
| "nmr_batch b (c # cs) s =
     (case nmr_command b (\<lambda>_. 0) [] c s of Inl e \<Rightarrow> Inl e | Inr s' \<Rightarrow> nmr_batch b cs s')"

end
