(* ===== verification/Nmr_spec.thy ===== *)
theory Nmr_spec
  imports Nmr
begin

unbundle bit_operations_syntax

text \<open>
  Properties of the pulsed NMR server: what a sequence sends and feeds and in which state it leaves the
  board, programs of pulses loaded and played, the ranges of the settings in every reachable state.
\<close>

section \<open>What a turn of the loop does\<close>

lemma nmr_fields [simp]:
  "nmr_pulses (emit e s) = nmr_pulses s" "nmr_size (emit e s) = nmr_size s"
  "nmr_pulses (wr8 off v s) = nmr_pulses s" "nmr_size (wr8 off v s) = nmr_size s"
  by (simp_all add: emit_def wr_defs store_def)

lemma nmr_ports [simp]:
  "nmr_pulses (to_port p ws s) = nmr_pulses s" "nmr_size (to_port p ws s) = nmr_size s"
  by (induction ws arbitrary: s) simp_all

lemma nmr_bits [simp]:
  "nmr_pulses (reg_clear get (wr8 off) m s) = nmr_pulses s" "nmr_size (reg_clear get (wr8 off) m s) = nmr_size s"
  "nmr_pulses (reg_set get (wr8 off) m s) = nmr_pulses s" "nmr_size (reg_set get (wr8 off) m s) = nmr_size s"
  by (simp_all add: reg_clear_def reg_set_def)

text \<open>Feeding writes the next words of the table while the readings leave room.\<close>

lemma nmr_feed_writes:
  "\<exists>m\<le>left. nmr_feed left levels p s = (p + m, to_port Fifo (map (nmr_pulses s) [p..<p + m]) s) \<and>
     (\<forall>j<m. levels j < 16384) \<and> (m < left \<longrightarrow> 16384 \<le> levels m)"
proof (induction left arbitrary: levels p s)
  case 0
  then show ?case by simp
next
  case (Suc left)
  show ?case
  proof (cases "levels 0 < 16384")
    case True
    obtain m where "m \<le> left" and
      f: "nmr_feed left (\<lambda>i. levels (i + 1)) (p + 1) (emit (Port Fifo (nmr_pulses s p)) s) =
        (p + 1 + m, to_port Fifo (map (nmr_pulses s) [p + 1..<p + 1 + m]) (emit (Port Fifo (nmr_pulses s p)) s))" and
      l: "\<forall>j<m. levels (j + 1) < 16384" "m < left \<longrightarrow> 16384 \<le> levels (m + 1)"
      using Suc.IH [of "\<lambda>i. levels (i + 1)" "p + 1" "emit (Port Fifo (nmr_pulses s p)) s"] by auto
    have "\<forall>j<Suc m. levels j < 16384"
      using l(1) True by (auto simp: less_Suc_eq_0_disj)
    moreover have "[p..<p + Suc m] = p # [p + 1..<p + 1 + m]"
      by (simp add: upt_conv_Cons)
    ultimately show ?thesis
      using \<open>m \<le> left\<close> l(2) True f by (intro exI [of _ "Suc m"]) simp
  next
    case False
    then show ?thesis by (intro exI [of _ 0]) simp
  qed
qed

text \<open>The turn as the acquisition loop's contract sees it.\<close>

abbreviation nmr_ready :: "nmr_turn \<Rightarrow> nat \<Rightarrow> bool" where
  "nmr_ready t n \<equiv> n * 4 \<le> unat (rx_second t)"

lemma nmr_read_turn:
  assumes "nmr_read rx data t q = Inr q'"
  shows "run_chunk q' = min (run_chunk q) (data - run_counter q)"
    and "run_counter q' = run_counter q + (if nmr_ready t (run_chunk q') then run_chunk q' else 0)"
  using assms by (auto simp: nmr_read_def Let_def min_def split: if_splits)

lemma nmr_turn_reads:
  assumes "nmr_turn_step rx data t q = Inr q'"
  obtains r where "nmr_read rx data t q = Inr r"
    and "run_chunk q' = run_chunk r" "run_counter q' = run_counter r" "run_taken q' = run_taken r"
    and "(run_position q', run_state q') =
      (let (position, s) = nmr_feed (nmr_size (run_state r) * 4 - run_position r) (tx_levels t) (run_position r) (run_state r)
       in (position, nrx_set 2 s))"
  using assms by (auto simp: nmr_turn_step_def split: sum.splits prod.splits)

interpretation nmr_acq: acquisition "nmr_turn_step rx" run_counter run_chunk nmr_ready rx_sent for rx
proof
  fix q q' :: nmr_run and amount :: nat and i
  assume "nmr_turn_step rx amount i q = Inr q'"
  then obtain r where "nmr_read rx amount i q = Inr r" "run_chunk q' = run_chunk r" "run_counter q' = run_counter r"
    by (rule nmr_turn_reads)
  with nmr_read_turn [of rx amount i q r]
  show "run_chunk q' = min (run_chunk q) (amount - run_counter q) \<and>
      run_counter q' = run_counter q + (if nmr_ready i (run_chunk q') then run_chunk q' else 0)"
    by simp
next
  fix q :: nmr_run and amount :: nat and i :: nmr_turn
  assume "rx_sent i"
  then show "\<exists>q'. nmr_turn_step rx amount i q = Inr q'"
    by (simp add: nmr_turn_step_def nmr_read_def Let_def split: prod.split)
qed

section \<open>Sequences\<close>

text \<open>What the loop keeps: the samples sent and the words fed so far, in order.\<close>

definition nmr_progress :: "(nat \<Rightarrow> u32) \<Rightarrow> nmr \<Rightarrow> nmr_run \<Rightarrow> bool" where
  "nmr_progress rx s0 q \<longleftrightarrow>
     nmr_pulses (run_state q) = nmr_pulses s0 \<and> nmr_size (run_state q) = nmr_size s0 \<and>
     run_position q \<le> 4 * nmr_size s0 \<and> run_taken q = 4 * run_counter q \<and>
     (\<exists>es. trace (run_state q) = trace s0 @ es \<and> sent_bytes es = concat (map (le32 \<circ> rx) [0..<4 * run_counter q]) \<and>
       fifo_words es = map (nmr_pulses s0) [0..<run_position q])"

lemma nmr_read_effect:
  assumes "nmr_read rx data t q = Inr r"
  obtains n es where "run_counter r = run_counter q + n" "run_taken r = run_taken q + 4 * n"
    "run_position r = run_position q" "nmr_pulses (run_state r) = nmr_pulses (run_state q)"
    "nmr_size (run_state r) = nmr_size (run_state q)" "trace (run_state r) = trace (run_state q) @ es"
    "sent_bytes es = concat (map (le32 \<circ> rx) [run_taken q..<run_taken q + 4 * n])" "fifo_words es = []"
proof -
  define n where "n = (if run_chunk q > data - run_counter q then data - run_counter q else run_chunk q)"
  define sleep where "sleep = (if unat (rx_first t) < n * 4 then [Sleep 500] else [])"
  define bs where "bs = concat (map le32 (map rx [run_taken q..<run_taken q + n * 4]))"
  show ?thesis
  proof (cases "nmr_ready t n")
    case True
    with assms show ?thesis
      by (intro that [of n "sleep @ [Send bs]"])
        (auto simp: nmr_read_def Let_def n_def [symmetric] sleep_def bs_def mult.commute split: if_splits)
  next
    case False
    with assms show ?thesis
      by (intro that [of 0 sleep]) (auto simp: nmr_read_def Let_def n_def [symmetric] sleep_def split: if_splits)
  qed
qed

lemma nmr_read_progress:
  assumes "nmr_read rx data t q = Inr r" and "nmr_progress rx s0 q"
  shows "nmr_progress rx s0 r"
  using assms(1)
proof (rule nmr_read_effect)
  fix n es
  have "[0..<4 * (run_counter q + n)] = [0..<4 * run_counter q] @ [4 * run_counter q..<4 * run_counter q + 4 * n]"
    unfolding add_mult_distrib2 by (rule upt_add_eq_append) simp
  moreover assume "run_counter r = run_counter q + n" "run_taken r = run_taken q + 4 * n"
    "run_position r = run_position q" "nmr_pulses (run_state r) = nmr_pulses (run_state q)"
    "nmr_size (run_state r) = nmr_size (run_state q)" "trace (run_state r) = trace (run_state q) @ es"
    "sent_bytes es = concat (map (le32 \<circ> rx) [run_taken q..<run_taken q + 4 * n])" "fifo_words es = []"
  ultimately show ?thesis
    using assms(2) unfolding nmr_progress_def by (elim conjE exE) simp
qed

lemma nmr_step_progress:
  assumes "nmr_turn_step rx data t q = Inr q'" and "nmr_progress rx s0 q"
  shows "nmr_progress rx s0 q'"
proof -
  obtain r where r: "nmr_read rx data t q = Inr r"
    and eq: "run_chunk q' = run_chunk r" "run_counter q' = run_counter r" "run_taken q' = run_taken r"
    and f: "(run_position q', run_state q') =
      (let (position, s) = nmr_feed (nmr_size (run_state r) * 4 - run_position r) (tx_levels t) (run_position r) (run_state r)
       in (position, nrx_set 2 s))"
    using assms(1) by (rule nmr_turn_reads)
  have p: "nmr_progress rx s0 r"
    using nmr_read_progress [OF r assms(2)] .
  obtain m where m: "m \<le> nmr_size (run_state r) * 4 - run_position r"
    and w: "run_position q' = run_position r + m"
      "run_state q' = nrx_set 2 (to_port Fifo (map (nmr_pulses (run_state r)) [run_position r..<run_position r + m]) (run_state r))"
    using nmr_feed_writes [of "nmr_size (run_state r) * 4 - run_position r" "tx_levels t" "run_position r" "run_state r"] f
    by (auto simp: Let_def)
  have "[0..<run_position r + m] = [0..<run_position r] @ [run_position r..<run_position r + m]"
    by (rule upt_add_eq_append) simp
  with p m show ?thesis
    unfolding nmr_progress_def by (auto simp: eq w)
qed

text \<open>The bytes and words a computation put out.\<close>

definition nmr_new :: "nmr \<Rightarrow> nmr \<Rightarrow> io list" where
  "nmr_new s s' = drop (length (trace s)) (trace s')"

lemma nmr_start_cases:
  assumes "nmr_start rx ts data s = Inr s'"
  obtains q where "nmr_acq.loop rx (unat data) ts
      \<lparr>run_state = nmr_prepare s, run_counter = 0, run_position = 0, run_chunk = 2048, run_taken = 0\<rparr> = Some q"
    and "s' = ntx_clear 1 (nrx_clear 2 (nrx_clear 1 (run_state q)))"
  using assms by (auto simp: nmr_start_def split: option.splits)

lemma nmr_progress_start:
  "nmr_progress rx s \<lparr>run_state = nmr_prepare s, run_counter = 0, run_position = 0, run_chunk = 2048, run_taken = 0\<rparr>"
  by (simp add: nmr_progress_def nmr_prepare_def Let_def)

lemma nmr_progress_new:
  assumes "nmr_progress rx s q"
  shows "sent_bytes (nmr_new s (ntx_clear 1 (nrx_clear 2 (nrx_clear 1 (run_state q))))) = concat (map (le32 \<circ> rx) [0..<4 * run_counter q])"
    and "fifo_words (nmr_new s (ntx_clear 1 (nrx_clear 2 (nrx_clear 1 (run_state q))))) = map (nmr_pulses s) [0..<run_position q]"
  using assms by (auto simp: nmr_progress_def nmr_new_def)

text \<open>A sequence whose sends succeed sends exactly the samples the command asks for, each with its
  four words in the order of the receive FIFO, and feeds a prefix of the table, whatever the counters
  read.\<close>

lemma nmr_samples:
  assumes "nmr_start rx ts data s = Inr s'" and "list_all rx_sent ts"
  shows "sent_bytes (nmr_new s s') = concat (map (le32 \<circ> rx) [0..<4 * unat data]) \<and>
    (\<exists>m\<le>4 * nmr_size s. fifo_words (nmr_new s s') = map (nmr_pulses s) [0..<m])"
  using assms(1)
proof (rule nmr_start_cases)
  fix q
  assume l: "nmr_acq.loop rx (unat data) ts
      \<lparr>run_state = nmr_prepare s, run_counter = 0, run_position = 0, run_chunk = 2048, run_taken = 0\<rparr> = Some q"
    and s': "s' = ntx_clear 1 (nrx_clear 2 (nrx_clear 1 (run_state q)))"
  have "nmr_progress rx s q"
    using nmr_acq.keeps [where P = "nmr_progress rx s", OF l nmr_progress_start assms(2)] nmr_step_progress by blast
  moreover have "run_counter q = unat data"
    using nmr_acq.exact [OF l] assms(2) by simp
  ultimately show ?thesis
    using nmr_progress_new [of rx s q] unfolding s' by (auto simp: nmr_progress_def)
qed

text \<open>However a sequence ends, a failed send included, the receiver and both FIFOs are stopped.\<close>

lemma nmr_stops:
  assumes "nmr_start rx ts data s = Inr s'"
  shows "\<not> bit (rd8 0 s') 0 \<and> \<not> bit (rd8 0 s') 1 \<and> \<not> bit (rd8 1 s') 0"
  using assms
proof (rule nmr_start_cases)
  fix q
  assume "s' = ntx_clear 1 (nrx_clear 2 (nrx_clear 1 (run_state q)))"
  then have "rd8 0 s' = (rd8 0 (run_state q) AND NOT 1) AND NOT 2" "rd8 1 s' = rd8 1 (run_state q) AND NOT 1"
    by (simp_all add: reg_clear_def)
  then show ?thesis
    by (simp add: bit_simps)
qed

text \<open>Whatever the fill counters read and however a sequence ends, receiver and FIFOs are stopped
  afterwards; and when no send fails it has sent exactly the samples asked for, four words each in the
  order of the receive FIFO, and fed a prefix of the table.\<close>

theorem nmr_sequence_outcome:
  assumes "nmr_start rx ts data s = Inr s'"
  shows "\<not> bit (rd8 0 s') 0 \<and> \<not> bit (rd8 0 s') 1 \<and> \<not> bit (rd8 1 s') 0 \<and>
    (list_all rx_sent ts \<longrightarrow> sent_bytes (nmr_new s s') = concat (map (le32 \<circ> rx) [0..<4 * unat data]) \<and>
      (\<exists>m\<le>4 * nmr_size s. fifo_words (nmr_new s s') = map (nmr_pulses s) [0..<m]))"
  using nmr_stops [OF assms] nmr_samples [OF assms] by blast

text \<open>
  With a full chunk in the FIFO at every turn the sequence ends after \<open>data / 2048\<close> turns, rounded up,
  and with room in the transmit FIFO it has fed the whole table.
\<close>

definition nmr_steady :: "nmr_turn \<Rightarrow> bool" where
  "nmr_steady t \<longleftrightarrow> rx_sent t \<and> 8192 \<le> unat (rx_second t)"

lemma nmr_steady_ends:
  assumes "list_all nmr_steady ts" and "unat data \<le> 2048 * length ts"
  shows "\<exists>s'. nmr_start rx ts data s = Inr s'"
proof -
  have "list_all (\<lambda>i. rx_sent i \<and> (\<forall>n\<le>2048. nmr_ready i n)) ts"
    using assms(1) by (auto simp: list_all_iff nmr_steady_def)
  then have "\<exists>r. nmr_acq.loop rx (unat data) ts
      \<lparr>run_state = nmr_prepare s, run_counter = 0, run_position = 0, run_chunk = 2048, run_taken = 0\<rparr> = Some r \<and>
      run_counter r = unat data"
    using assms(2) by (intro nmr_acq.ends [of 2048]) auto
  then show ?thesis
    by (auto simp: nmr_start_def)
qed



section \<open>Programs of pulses\<close>

definition nmr_word :: "u64 \<Rightarrow> u64 \<Rightarrow> u64" where
  "nmr_word code data = push_bit 60 code OR data"

lemma nmr_decode:
  assumes "unat c < 16" and "unat d < 2 ^ 60"
  shows "nmr_code (nmr_word c d) = c" "nmr_data (nmr_word c d) = d"
proof -
  have "take_bit 60 d = d" "take_bit 4 c = c"
    using assms by (simp_all add: word_unat_eq_iff unsigned_take_bit_eq take_bit_nat_eq_self)
  then have d: "bit d n \<Longrightarrow> n < 60" and c: "bit c n \<Longrightarrow> n < 4" for n
    by (metis bit_take_bit_iff)+
  have m: "(0xfffffffffffffff :: u64) = mask 60"
    by (simp add: mask_eq_exp_minus_1)
  show "nmr_code (nmr_word c d) = c"
    unfolding nmr_code_def nmr_word_def by (rule bit_word_eqI) (auto simp: bit_simps dest: c d)
  show "nmr_data (nmr_word c d) = d"
    unfolding nmr_data_def nmr_word_def m by (rule bit_word_eqI) (auto simp: bit_simps dest: d)
qed

lemma nmr_command_word:
  assumes "unat d < 2 ^ 60"
  shows "nmr_command b rx ts (nmr_word 7 d) s = Inr (nmr_clear s)"
    "nmr_command b rx ts (nmr_word 8 d) s = Inr (nmr_add d s)"
    "nmr_command b rx ts (nmr_word 9 d) s = nmr_phase d s"
    "nmr_command b rx ts (nmr_word 10 d) s = nmr_start rx ts d s"
  using assms by (simp_all add: nmr_command_def nmr_decode)








definition nmr_idle :: nmr where
  "nmr_idle = \<lparr>regs = \<lambda>_. 0, trace = [], nmr_pulses = \<lambda>_. 0, nmr_size = 0, nmr_dac = False\<rparr>"

definition ample_turn :: nmr_turn where
  "ample_turn = \<lparr>rx_first = 9000, rx_second = 9000, rx_sent = True, tx_levels = (\<lambda>_. 0)\<rparr>"


text \<open>What the table cannot hold: a phase without a pulse is stored before the table, and when the
  table is full a further pulse is dropped but its phase overwrites the last pulse's.\<close>

theorem nmr_table_errors:
  assumes "unat w < 2 ^ 60" and "unat p < 2 ^ 60"
  shows "(nmr_size s = 0 \<longrightarrow> nmr_batch b [nmr_word 9 p] s = Inl OutOfBounds) \<and>
    (nmr_size s = 1048576 \<longrightarrow> nmr_batch b [nmr_word 8 w, nmr_word 9 p] s =
      Inr (s\<lparr>nmr_pulses := (nmr_pulses s)(4194302 := ucast p, 4194303 := ucast (drop_bit 32 p))\<rparr>))"
  using assms by (simp add: nmr_command_word nmr_phase_def nmr_add_def Let_def)

definition nmr_full :: nmr where
  "nmr_full = nmr_idle\<lparr>nmr_size := 1048576\<rparr>"

theorem nmr_table_errors_witness:
  "nmr_batch nmr_125 [nmr_word 9 7] nmr_idle = Inl OutOfBounds \<and>
   nmr_batch nmr_125 [nmr_word 8 5, nmr_word 9 7] nmr_full =
      Inr (nmr_full\<lparr>nmr_pulses := (\<lambda>_. 0)(4194302 := 7, 4194303 := 0)\<rparr>)"
  using nmr_table_errors [of 5 7 nmr_idle nmr_125] nmr_table_errors [of 5 7 nmr_full nmr_125]
  by (simp add: nmr_full_def nmr_idle_def)

section \<open>The settings of a running server\<close>

text \<open>A sequence disturbs no register but the two reset bytes.\<close>

lemma regs_bits8:
  "off < a \<Longrightarrow> regs (reg_clear (rd8 off) (wr8 off) m s) a = regs s a"
  "off < a \<Longrightarrow> regs (reg_set (rd8 off) (wr8 off) m s) a = regs s a"
  by (simp_all add: reg_clear_def reg_set_def regs_wr_out)

lemma nmr_read_regs:
  "nmr_read rx data t q = Inr r \<Longrightarrow> regs (run_state r) = regs (run_state q) \<and> nmr_size (run_state r) = nmr_size (run_state q)"
  "nmr_read rx data t q = Inl r \<Longrightarrow> regs (run_state r) = regs (run_state q) \<and> nmr_size (run_state r) = nmr_size (run_state q)"
  by (auto simp: nmr_read_def Let_def split: if_splits)

lemma nmr_turn_regs:
  assumes "nmr_turn_step rx data t q = Inr q' \<or> nmr_turn_step rx data t q = Inl q'" and "1 < a"
  shows "regs (run_state q') a = regs (run_state q) a \<and> nmr_size (run_state q') = nmr_size (run_state q)"
proof (cases "nmr_read rx data t q")
  case (Inl r)
  then show ?thesis
    using assms(1) nmr_read_regs(2) [OF Inl] by (auto simp: nmr_turn_step_def)
next
  case (Inr r)
  obtain m where "nmr_feed (nmr_size (run_state r) * 4 - run_position r) (tx_levels t) (run_position r) (run_state r) =
      (run_position r + m, to_port Fifo (map (nmr_pulses (run_state r)) [run_position r..<run_position r + m]) (run_state r))"
    using nmr_feed_writes by blast
  then show ?thesis
    using assms nmr_read_regs(1) [OF Inr] by (auto simp: nmr_turn_step_def Inr regs_bits8)
qed

lemma nmr_start_regs:
  assumes "nmr_start rx ts data s = Inr s'" and "1 < a"
  shows "regs s' a = regs s a \<and> nmr_size s' = nmr_size s"
  using assms(1)
proof (rule nmr_start_cases)
  fix q
  assume l: "nmr_acq.loop rx (unat data) ts
      \<lparr>run_state = nmr_prepare s, run_counter = 0, run_position = 0, run_chunk = 2048, run_taken = 0\<rparr> = Some q"
    and s': "s' = ntx_clear 1 (nrx_clear 2 (nrx_clear 1 (run_state q)))"
  let ?P = "\<lambda>q. regs (run_state q) a = regs s a \<and> nmr_size (run_state q) = nmr_size s"
  have "?P q \<and> \<not> run_counter q < unat data \<or> ?P q"
    using assms(2)
    by (intro while_turns_inv [OF l, where P = ?P and Q = ?P])
      (auto simp: nmr_prepare_def Let_def regs_bits8 dest!: nmr_turn_regs [OF disjI1 assms(2)] nmr_turn_regs [OF disjI2 assms(2)])
  then show ?thesis
    using assms(2) unfolding s' by (auto simp: regs_bits8)
qed

definition nmr_ok :: "nmr_board \<Rightarrow> nmr \<Rightarrow> bool" where
  "nmr_ok b s \<longleftrightarrow> nmr_size s \<le> 1048576 \<and>
     nmr_rate_min b \<le> ucast (rd16 8 s) \<and> ucast (rd16 8 s) \<le> nmr_rate_max b \<and> rd16 10 s \<le> 32766 \<and>
     rd32 4 s \<le> 2 ^ 29 \<and> rd32 12 s \<le> 2 ^ 29"

lemma nmr_ok_frame:
  assumes "\<And>a. 1 < a \<Longrightarrow> regs s' a = regs s a" and "nmr_size s' = nmr_size s" and "nmr_ok b s"
  shows "nmr_ok b s'"
  using assms by (simp add: nmr_ok_def rd16_def rd32_def)

lemma nmr_increment_bound:
  assumes "b = nmr_125 \<or> b = nmr_122" and "data \<le> nmr_freq_max b"
  shows "phase_inc (nmr_clk b) (unat data) \<le> 2 ^ 29"
  using assms(1)
proof
  assume b: "b = nmr_125"
  then have d: "unat data \<le> 62500000"
    using assms(2) by (simp add: nmr_125_def word_le_nat_alt)
  then show ?thesis
    using b phase_inc_125_le [OF d] by (simp add: nmr_125_def)
next
  assume b: "b = nmr_122"
  then have d: "unat data \<le> 61440000"
    using assms(2) by (simp add: nmr_122_def word_le_nat_alt)
  then have "(unat data * 2 ^ 15 + 1875) div 3750 \<le> 2 ^ 29"
    using div_le_mono [of "unat data * 2 ^ 15 + 1875" "61440000 * 2 ^ 15 + 1875" 3750] by simp
  then show ?thesis
    using b d phase_inc_122 [of "unat data"] by (simp add: nmr_122_def word_le_nat_alt unat_of_nat_small)
qed

lemma nmr_size_simps [simp]:
  "nmr_size (wr16 off h s) = nmr_size s" "nmr_size (wr32 off w s) = nmr_size s"
  by (simp_all add: wr_defs store_def)

lemma nmr_start_in_range:
  assumes "b = nmr_125 \<or> b = nmr_122"
  shows "nmr_ok b (nmr_init b opened selected written s)"
proof -
  have "phase_inc (nmr_clk b) 19000000 \<le> 2 ^ 29"
    using nmr_increment_bound [OF assms, of 19000000] assms by (auto simp: nmr_125_def nmr_122_def)
  moreover have "nmr_rate_min b \<le> ucast (nmr_rate_start b)" "ucast (nmr_rate_start b) \<le> nmr_rate_max b"
    using assms by (auto simp: nmr_125_def nmr_122_def)
  moreover have "nmr_size (nmr_probe opened selected written (s\<lparr>nmr_size := 0\<rparr>)) = 0"
    by (simp add: nmr_probe_def i2c_write_data16_def Let_def)
  ultimately show ?thesis
    by (simp add: nmr_ok_def nmr_init_def nmr_registers_def Let_def)
qed

lemma nmr_rate_kept:
  assumes "b = nmr_125 \<or> b = nmr_122" and "nmr_rate_min b \<le> data" "data \<le> nmr_rate_max b"
  shows "ucast (ucast data :: u16) = data"
proof -
  have "unat data \<le> 3072"
    using assms by (auto simp: nmr_125_def nmr_122_def word_le_nat_alt)
  then have "unat (ucast data :: u16) = unat data"
    by (intro unat_ucast_small) simp
  then show ?thesis
    by (simp add: word_unat_eq_iff unat_ucast_up)
qed

lemma nmr_level_kept: "data \<le> 32766 \<Longrightarrow> (ucast (data :: u64) :: u16) \<le> 32766"
  using unat_ucast_small [of data, where 'b = 16] by (simp add: word_le_nat_alt)

text \<open>Every command keeps the settings in their ranges.\<close>

lemma nmr_command_ok:
  assumes b: "b = nmr_125 \<or> b = nmr_122" and ok: "nmr_ok b s" and r: "nmr_command b rx ts c s = Inr s'"
  shows "nmr_ok b s'"
proof -
  have f: "nmr_ok b (nmr_rx_freq b d s)" "nmr_ok b (nmr_tx_freq b d s)" for d
    using ok nmr_increment_bound [OF b, of d] by (auto simp: nmr_ok_def nmr_rx_freq_def nmr_tx_freq_def)
  have e: "nmr_ok b (nmr_rx_rate b d s)" "nmr_ok b (nmr_tx_level d s)" for d
    using ok nmr_rate_kept [OF b, of d] nmr_level_kept [of d] by (auto simp: nmr_ok_def nmr_rx_rate_def nmr_tx_level_def)
  have p: "nmr_ok b (nmr_set_pin d s)" "nmr_ok b (nmr_clear_pin d s)" for d
    unfolding nmr_set_pin_def nmr_clear_pin_def
    by (auto intro: ok nmr_ok_frame [OF _ _ ok] simp: regs_bits8 simp del: One_nat_def)
  have t: "nmr_ok b (nmr_set_dac d s)" "nmr_ok b (nmr_clear s)" "nmr_ok b (nmr_add d s)" for d
    using ok by (auto simp: nmr_set_dac_def i2c_write_data16_def nmr_ok_def nmr_clear_def nmr_add_def rd_defs Let_def)
  have w: "nmr_ok b s'" if "nmr_phase d s = Inr s'" for d
    using ok that by (auto simp: nmr_phase_def nmr_ok_def rd_defs Let_def split: if_splits)
  have q: "nmr_ok b s'" if "nmr_start rx ts d s = Inr s'" for d
    using nmr_start_regs [OF that] by (intro nmr_ok_frame [OF _ _ ok]) auto
  show ?thesis
    using r f e p t w q ok by (auto simp: nmr_command_def Let_def split: if_splits)
qed

inductive nmr_reachable :: "nmr_board \<Rightarrow> nmr \<Rightarrow> bool" for b where
  start: "nmr_reachable b (nmr_init b opened selected written s)"
| command: "nmr_reachable b s \<Longrightarrow> nmr_command b rx ts c s = Inr s' \<Longrightarrow> nmr_reachable b s'"

text \<open>In every state the server of either board reaches, whatever the clients send, the sample rate,
  level, phase increments and the size of the table are in their ranges: the checks of the commands are
  enough, and no sequence disturbs them.\<close>

theorem nmr_settings_in_range:
  assumes "nmr_reachable b s" and "b = nmr_125 \<or> b = nmr_122"
  shows "nmr_size s \<le> 1048576 \<and>
     nmr_rate_min b \<le> ucast (rd16 8 s) \<and> ucast (rd16 8 s) \<le> nmr_rate_max b \<and> rd16 10 s \<le> 32766 \<and>
     rd32 4 s \<le> 2 ^ 29 \<and> rd32 12 s \<le> 2 ^ 29"
  using assms(1)
proof (fold nmr_ok_def, induction rule: nmr_reachable.induct)
  case (start opened selected written s)
  show ?case by (rule nmr_start_in_range [OF assms(2)])
next
  case (command s rx ts c s')
  then show ?case by (auto intro: nmr_command_ok [OF assms(2)])
qed

lemma nmr_reach_demo:
  "nmr_reachable nmr_122 (wr16 10 5 (nmr_init nmr_122 True True True nmr_idle))"
  by (rule nmr_reachable.command [OF nmr_reachable.start, where c = "nmr_word 3 5" and rx = "\<lambda>_. 0" and ts = "[]"])
    (simp add: nmr_command_def nmr_decode nmr_tx_level_def)

theorem nmr_settings_in_range_witness:
  "nmr_size (wr16 10 5 (nmr_init nmr_122 True True True nmr_idle)) \<le> 1048576"
  using nmr_settings_in_range [OF nmr_reach_demo] by blast

theorem nmr_sequence_outcome_witness:
  "\<exists>s'. nmr_start of_nat [ample_turn] 1 nmr_idle = Inr s' \<and> \<not> bit (rd8 0 s') 0 \<and> \<not> bit (rd8 1 s') 0 \<and>
    sent_bytes (nmr_new nmr_idle s') = concat (map (le32 \<circ> of_nat) [0..<4])"
proof -
  have "list_all nmr_steady [ample_turn]"
    by (simp add: nmr_steady_def ample_turn_def)
  then obtain s' where s': "nmr_start of_nat [ample_turn] 1 nmr_idle = Inr s'"
    using nmr_steady_ends [of "[ample_turn]" 1] by auto
  moreover have "list_all rx_sent [ample_turn]"
    by (simp add: ample_turn_def)
  ultimately show ?thesis
    using nmr_sequence_outcome [OF s'] by auto
qed

end
