(* ===== verification/Scanner.thy ===== *)
theory Scanner
  imports Acquire
begin

unbundle bit_operations_syntax

text \<open>
  \<open>projects/scanner/server/scanner.c\<close>: the server of the scanner, which steps a beam through a table of
  coordinates and samples the detectors at each of them. A command is a 32-bit word with its code in the
  four high bits. The configuration page is read and written as bytes (\<open>cfg8\<close>) and words (\<open>cfg32\<close>, the
  word with index \<open>i\<close> at offset \<open>4 * i\<close>); \<open>scan_size\<close> is the local variable \<open>size\<close>.
\<close>

record scanner = machine +
  coordinates :: "nat \<Rightarrow> u32"
  scan_size :: nat
  scan_period :: u32
  scan_pulses :: u32
  scan_shdelay :: u32
  scan_shtime :: u32

abbreviation cfg_clear :: "u8 \<Rightarrow> scanner \<Rightarrow> scanner" where "cfg_clear \<equiv> reg_clear (rd8 0) (wr8 0)"
abbreviation cfg_set :: "u8 \<Rightarrow> scanner \<Rightarrow> scanner" where "cfg_set \<equiv> reg_set (rd8 0) (wr8 0)"

section \<open>The registers at start\<close>

definition scan_init :: "scanner \<Rightarrow> scanner" where
  "scan_init s =
     (let s = s\<lparr>scan_size := 0\<rparr>;
          s = cfg_clear 1 s;
          s = wr8 1 1 s; s = wr8 2 1 s; s = wr8 3 1 s;
          s = wr8 4 (32 - 1) s;
          s = s\<lparr>scan_pulses := 2\<rparr>; s = wr8 5 (ucast (scan_pulses s - 1)) s;
          s = s\<lparr>scan_period := 25000\<rparr>;
          s = wr32 8 0 s; s = wr32 12 200 s; s = wr32 16 (scan_period s - 1) s;
          s = s\<lparr>scan_shdelay := 400\<rparr>; s = wr32 20 (scan_shdelay s) s;
          s = s\<lparr>scan_shtime := 30\<rparr>; s = wr32 24 (scan_shdelay s + scan_shtime s) s;
          s = wr32 28 (scan_period s - 1) s;
          s = wr32 32 2000 s; s = wr32 36 2001 s in
      wr32 40 2001 s)"

section \<open>Settings\<close>

definition scan_set_period :: "u32 \<Rightarrow> scanner \<Rightarrow> scanner" where
  "scan_set_period data s =
     (let s = s\<lparr>scan_period := data\<rparr>; s = wr32 16 (scan_period s - 1) s in wr32 28 (scan_period s - 1) s)"

definition scan_trigger_duration :: "u32 \<Rightarrow> scanner \<Rightarrow> scanner" where
  "scan_trigger_duration data s = wr32 12 data s"

definition scan_trigger_polarity :: "u32 \<Rightarrow> scanner \<Rightarrow> scanner" where
  "scan_trigger_polarity data s = (if data = 0 then cfg_clear 4 s else if data = 1 then cfg_set 4 s else s)"

definition scan_set_shdelay :: "u32 \<Rightarrow> scanner \<Rightarrow> scanner" where
  "scan_set_shdelay data s =
     (let s = s\<lparr>scan_shdelay := data\<rparr>; s = wr32 20 (scan_shdelay s) s in wr32 24 (scan_shdelay s + scan_shtime s) s)"

definition scan_set_shtime :: "u32 \<Rightarrow> scanner \<Rightarrow> scanner" where
  "scan_set_shtime data s =
     (let s = s\<lparr>scan_shtime := data\<rparr> in wr32 24 (scan_shdelay s + scan_shtime s) s)"

definition scan_sh_polarity :: "u32 \<Rightarrow> scanner \<Rightarrow> scanner" where
  "scan_sh_polarity data s = (if data = 0 then cfg_clear 8 s else if data = 1 then cfg_set 8 s else s)"

definition scan_acquisition_delay :: "u32 \<Rightarrow> scanner \<Rightarrow> scanner" where
  "scan_acquisition_delay data s = (let s = wr32 32 data s; s = wr32 36 (data + 1) s in wr32 40 (data + 1) s)"

definition scan_set_samples :: "u32 \<Rightarrow> scanner \<Rightarrow> scanner" where
  "scan_set_samples data s = wr8 4 (ucast (data - 1)) s"

definition scan_set_pulses :: "u32 \<Rightarrow> scanner \<Rightarrow> scanner" where
  "scan_set_pulses data s = (let s = s\<lparr>scan_pulses := data\<rparr> in wr8 5 (ucast (scan_pulses s - 1)) s)"

section \<open>The table of coordinates\<close>

definition scan_clear :: "scanner \<Rightarrow> scanner" where
  "scan_clear s = s\<lparr>scan_size := 0\<rparr>"

definition scan_add :: "u32 \<Rightarrow> scanner \<Rightarrow> scanner" where
  "scan_add data s =
     (if scan_size s \<ge> 1048576 then s
      else let s = s\<lparr>coordinates := (coordinates s)(scan_size s := push_bit 2 (data AND 0xfffc000) OR (data AND 0x3fff))\<rparr> in
        s\<lparr>scan_size := scan_size s + 1\<rparr>)"

section \<open>A scan\<close>

text \<open>
  The local variables of the loop; \<open>scan_taken\<close> counts the words read from the ADC FIFO, whose content
  since its reset is the stream \<open>rx\<close>. A turn's input: the two readings of \<open>rd_cntr\<close>, whether \<open>send\<close>
  succeeds, and the successive readings of \<open>wr_cntr\<close>.
\<close>

record scan_run =
  scan_state :: scanner
  scan_counter :: nat
  scan_position :: nat
  scan_chunk :: nat
  scan_taken :: nat

record scan_turn =
  rd_first :: u16
  rd_second :: u16
  rd_sent :: bool
  wr_levels :: "nat \<Rightarrow> u16"

definition scan_read :: "(nat \<Rightarrow> u32) \<Rightarrow> nat \<Rightarrow> scan_turn \<Rightarrow> scan_run \<Rightarrow> scan_run + scan_run" where
  "scan_read rx amount t q =
     (let n = (if scan_chunk q > amount - scan_counter q then amount - scan_counter q else scan_chunk q);
          s = (if unat (rd_first t) < n * 2 then emit (Sleep 500) (scan_state q) else scan_state q);
          q = q\<lparr>scan_chunk := n, scan_state := s\<rparr> in
      if unat (rd_second t) \<ge> n * 2 \<and> scan_counter q < amount then
        let buffer = map rx [scan_taken q..<scan_taken q + n * 2];
            q = q\<lparr>scan_taken := scan_taken q + n * 2\<rparr> in
        if \<not> rd_sent t then Inl q
        else Inr (q\<lparr>scan_state := emit (Send (concat (map le32 buffer))) s, scan_counter := scan_counter q + n\<rparr>)
      else Inr q)"

text \<open>
  \<open>while(*wr_cntr < 16384 - pulses && position < size)\<close>: the difference is that of 32-bit unsigned
  words. The first argument counts the coordinates left. Each is written \<open>pulses\<close> times.
\<close>

fun scan_feed :: "nat \<Rightarrow> (nat \<Rightarrow> u16) \<Rightarrow> nat \<Rightarrow> scanner \<Rightarrow> nat \<times> scanner" where
  "scan_feed 0 levels position s = (position, s)"
| "scan_feed (Suc left) levels position s =
     (if ucast (levels 0) < 16384 - scan_pulses s
      then scan_feed left (\<lambda>i. levels (i + 1)) (position + 1)
        (to_port Fifo (replicate (unat (scan_pulses s)) (coordinates s position)) s)
      else (position, s))"

definition scan_turn_step :: "(nat \<Rightarrow> u32) \<Rightarrow> nat \<Rightarrow> scan_turn \<Rightarrow> scan_run \<Rightarrow> scan_run + scan_run" where
  "scan_turn_step rx amount t q =
     (case scan_read rx amount t q of Inl q \<Rightarrow> Inl q
      | Inr q \<Rightarrow>
          let (position, s) = scan_feed (amount - scan_position q) (wr_levels t) (scan_position q) (scan_state q) in
          Inr (q\<lparr>scan_position := position, scan_state := cfg_set 1 s\<rparr>))"

definition scan_prepare :: "scanner \<Rightarrow> scanner" where
  "scan_prepare s = cfg_set 2 (cfg_clear 2 (cfg_clear 1 s))"

text \<open>\<open>None\<close>: the scan has not ended after the turns given.\<close>

definition scan_start :: "(nat \<Rightarrow> u32) \<Rightarrow> scan_turn list \<Rightarrow> scanner \<Rightarrow> scanner option" where
  "scan_start rx ts s =
     map_option scan_state
       (while_turns (\<lambda>q. scan_counter q < scan_size s) (scan_turn_step rx (scan_size s)) ts
         \<lparr>scan_state = scan_prepare s, scan_counter = 0, scan_position = 0, scan_chunk = 1024, scan_taken = 0\<rparr>)"

section \<open>The commands\<close>

definition scan_code :: "u32 \<Rightarrow> u32" where
  "scan_code command = drop_bit 28 command"

definition scan_data :: "u32 \<Rightarrow> u32" where
  "scan_data command = command AND 0xfffffff"

definition scan_command :: "(nat \<Rightarrow> u32) \<Rightarrow> scan_turn list \<Rightarrow> u32 \<Rightarrow> scanner \<Rightarrow> scanner option" where
  "scan_command rx ts command s =
     (let code = scan_code command; data = scan_data command in
      if code = 0 then Some (scan_set_period data s)
      else if code = 1 then Some (scan_trigger_duration data s)
      else if code = 2 then Some (scan_trigger_polarity data s)
      else if code = 3 then Some (scan_set_shdelay data s)
      else if code = 4 then Some (scan_set_shtime data s)
      else if code = 5 then Some (scan_sh_polarity data s)
      else if code = 6 then Some (scan_acquisition_delay data s)
      else if code = 7 then Some (scan_set_samples data s)
      else if code = 8 then Some (scan_set_pulses data s)
      else if code = 9 then Some (scan_clear s)
      else if code = 10 then Some (scan_add data s)
      else if code = 11 then Some (cfg_set 1 s)
      else if code = 12 then scan_start rx ts s
      else Some s)"

text \<open>When the client has left the pulse generators are stopped.\<close>

definition scan_leave :: "scanner \<Rightarrow> scanner" where
  "scan_leave s = cfg_clear 1 s"

fun scan_batch :: "u32 list \<Rightarrow> scanner \<Rightarrow> scanner option" where
  "scan_batch [] s = Some s"
| "scan_batch (c # cs) s = Option.bind (scan_command (\<lambda>_. 0) [] c s) (scan_batch cs)"

end
