(* ===== verification/Scanner_spec.thy ===== *)
theory Scanner_spec
  imports Scanner
begin

unbundle bit_operations_syntax

text \<open>
  Properties of the scanner: what a scan sends and writes, when the samples fit into the DAC FIFO, how
  the registers depend on the settings in every reachable state.
\<close>

lemma scan_fields [simp]:
  "coordinates (emit e s) = coordinates s" "scan_size (emit e s) = scan_size s" "scan_pulses (emit e s) = scan_pulses s"
  "coordinates (wr8 off v s) = coordinates s" "scan_size (wr8 off v s) = scan_size s" "scan_pulses (wr8 off v s) = scan_pulses s"
  "scan_size (wr32 off w s) = scan_size s" "scan_pulses (wr32 off w s) = scan_pulses s"
  "scan_period (wr8 off v s) = scan_period s" "scan_shdelay (wr8 off v s) = scan_shdelay s" "scan_shtime (wr8 off v s) = scan_shtime s"
  "scan_period (wr32 off w s) = scan_period s" "scan_shdelay (wr32 off w s) = scan_shdelay s" "scan_shtime (wr32 off w s) = scan_shtime s"
  by (simp_all add: emit_def wr_defs store_def)

lemma scan_ports [simp]:
  "coordinates (to_port p ws s) = coordinates s" "scan_size (to_port p ws s) = scan_size s" "scan_pulses (to_port p ws s) = scan_pulses s"
  by (induction ws arbitrary: s) simp_all

lemma scan_bits [simp]:
  "coordinates (reg_clear get (wr8 off) m s) = coordinates s" "scan_size (reg_clear get (wr8 off) m s) = scan_size s"
  "scan_pulses (reg_clear get (wr8 off) m s) = scan_pulses s"
  "coordinates (reg_set get (wr8 off) m s) = coordinates s" "scan_size (reg_set get (wr8 off) m s) = scan_size s"
  "scan_pulses (reg_set get (wr8 off) m s) = scan_pulses s"
  by (simp_all add: reg_clear_def reg_set_def)

section \<open>What a turn of the loop does\<close>

text \<open>The words of a stretch of the table: each coordinate \<open>pulses\<close> times.\<close>

definition pixels :: "scanner \<Rightarrow> nat \<Rightarrow> nat \<Rightarrow> u32 list" where
  "pixels s a b = concat (map (\<lambda>i. replicate (unat (scan_pulses s)) (coordinates s i)) [a..<b])"


definition dac_room :: "u32 \<Rightarrow> u16 \<Rightarrow> bool" where
  "dac_room p level \<longleftrightarrow> ucast level < 16384 - p"

lemma scan_feed_writes:
  "\<exists>m\<le>left. scan_feed left levels p s = (p + m, to_port Fifo (pixels s p (p + m)) s) \<and>
     (\<forall>j<m. dac_room (scan_pulses s) (levels j)) \<and> (m < left \<longrightarrow> \<not> dac_room (scan_pulses s) (levels m))"
proof (induction left arbitrary: levels p s)
  case 0
  then show ?case by (simp add: pixels_def)
next
  case (Suc left)
  show ?case
  proof (cases "dac_room (scan_pulses s) (levels 0)")
    case True
    let ?s = "to_port Fifo (replicate (unat (scan_pulses s)) (coordinates s p)) s"
    obtain m where "m \<le> left" and
      f: "scan_feed left (\<lambda>i. levels (i + 1)) (p + 1) ?s = (p + 1 + m, to_port Fifo (pixels ?s (p + 1) (p + 1 + m)) ?s)" and
      l: "\<forall>j<m. dac_room (scan_pulses s) (levels (j + 1))" "m < left \<longrightarrow> \<not> dac_room (scan_pulses s) (levels (m + 1))"
      using Suc.IH [of "\<lambda>i. levels (i + 1)" "p + 1" ?s] by auto
    have "\<forall>j<Suc m. dac_room (scan_pulses s) (levels j)"
      using l(1) True by (auto simp: less_Suc_eq_0_disj)
    moreover have "[p..<p + Suc m] = p # [p + 1..<p + 1 + m]"
      by (simp add: upt_conv_Cons)
    then have "pixels s p (p + Suc m) = replicate (unat (scan_pulses s)) (coordinates s p) @ pixels ?s (p + 1) (p + 1 + m)"
      by (simp only: pixels_def scan_ports) simp
    ultimately show ?thesis
      using \<open>m \<le> left\<close> l(2) True f
      by (intro exI [of _ "Suc m"]) (simp add: dac_room_def to_port_def)
  next
    case False
    then show ?thesis by (intro exI [of _ 0]) (simp add: pixels_def dac_room_def)
  qed
qed

abbreviation scan_ready :: "scan_turn \<Rightarrow> nat \<Rightarrow> bool" where
  "scan_ready t n \<equiv> n * 2 \<le> unat (rd_second t)"

lemma scan_read_turn:
  assumes "scan_read rx amount t q = Inr q'" and "scan_counter q < amount"
  shows "scan_chunk q' = min (scan_chunk q) (amount - scan_counter q)"
    and "scan_counter q' = scan_counter q + (if scan_ready t (scan_chunk q') then scan_chunk q' else 0)"
  using assms by (auto simp: scan_read_def Let_def min_def split: if_splits)

lemma scan_turn_reads:
  assumes "scan_turn_step rx amount t q = Inr q'"
  obtains r where "scan_read rx amount t q = Inr r"
    and "scan_chunk q' = scan_chunk r" "scan_counter q' = scan_counter r" "scan_taken q' = scan_taken r"
    and "(scan_position q', scan_state q') =
      (let (position, s) = scan_feed (amount - scan_position r) (wr_levels t) (scan_position r) (scan_state r)
       in (position, cfg_set 1 s))"
  using assms by (auto simp: scan_turn_step_def split: sum.splits prod.splits)

interpretation scan_acq: acquisition "scan_turn_step rx" scan_counter scan_chunk scan_ready rd_sent for rx
proof
  fix q q' :: scan_run and amount :: nat and i
  assume c: "scan_counter q < amount" and "scan_turn_step rx amount i q = Inr q'"
  then obtain r where "scan_read rx amount i q = Inr r" "scan_chunk q' = scan_chunk r" "scan_counter q' = scan_counter r"
    by (meson scan_turn_reads)
  with scan_read_turn [of rx amount i q r] c
  show "scan_chunk q' = min (scan_chunk q) (amount - scan_counter q) \<and>
      scan_counter q' = scan_counter q + (if scan_ready i (scan_chunk q') then scan_chunk q' else 0)"
    by simp
next
  fix q :: scan_run and amount :: nat and i :: scan_turn
  assume "rd_sent i"
  then show "\<exists>q'. scan_turn_step rx amount i q = Inr q'"
    by (simp add: scan_turn_step_def scan_read_def Let_def split: prod.split)
qed


section \<open>Scans\<close>





abbreviation scan_from :: "scanner \<Rightarrow> scan_run" where
  "scan_from s \<equiv> \<lparr>scan_state = scan_prepare s, scan_counter = 0, scan_position = 0, scan_chunk = 1024, scan_taken = 0\<rparr>"

lemma scan_start_cases:
  assumes "scan_start rx ts s = Some s'"
  obtains q where "scan_acq.loop rx (scan_size s) ts (scan_from s) = Some q" and "s' = scan_state q"
  using assms by (auto simp: scan_start_def)







section \<open>Coordinates\<close>

definition scan_word :: "u32 \<Rightarrow> u32 \<Rightarrow> u32" where
  "scan_word code data = push_bit 28 code OR data"

lemma scan_decode:
  assumes "unat c < 16" and "unat d < 2 ^ 28"
  shows "scan_code (scan_word c d) = c" "scan_data (scan_word c d) = d"
proof -
  have "take_bit 28 d = d" "take_bit 4 c = c"
    using assms by (simp_all add: word_unat_eq_iff unsigned_take_bit_eq take_bit_nat_eq_self)
  then have d: "bit d n \<Longrightarrow> n < 28" and c: "bit c n \<Longrightarrow> n < 4" for n
    by (metis bit_take_bit_iff)+
  have m: "(0xfffffff :: u32) = mask 28"
    by (simp add: mask_eq_exp_minus_1)
  show "scan_code (scan_word c d) = c"
    unfolding scan_code_def scan_word_def by (rule bit_word_eqI) (auto simp: bit_simps dest: c d)
  show "scan_data (scan_word c d) = d"
    unfolding scan_data_def scan_word_def m by (rule bit_word_eqI) (auto simp: bit_simps dest: d)
qed







definition scan_idle :: scanner where
  "scan_idle = scan_init \<lparr>regs = \<lambda>_. 0, trace = [], coordinates = \<lambda>_. 0, scan_size = 0, scan_period = 0,
     scan_pulses = 0, scan_shdelay = 0, scan_shtime = 0\<rparr>"


lemma scan_idle_pulses: "scan_pulses scan_idle = 2"
  by (simp add: scan_idle_def scan_init_def Let_def)


section \<open>The DAC FIFO\<close>

text \<open>With at most 16384 pulses for a pixel the samples of a coordinate are written only when the DAC
  FIFO, which holds 16384, has room for them. With more pulses the limit wraps around and the rest of the
  table is written whatever the FIFO holds.\<close>

theorem scan_dac_fits:
  assumes "scan_pulses s < 2 ^ 28"
  shows "\<exists>m\<le>left. scan_feed left levels p s = (p + m, to_port Fifo (pixels s p (p + m)) s) \<and>
    (if unat (scan_pulses s) \<le> 16384 then \<forall>j<m. unat (levels j) + unat (scan_pulses s) < 16384 else m = left)"
proof -
  have level: "unat (ucast l :: u32) = unat l" for l :: u16
    by (rule unat_ucast_up) simp
  obtain m where "m \<le> left" and f: "scan_feed left levels p s = (p + m, to_port Fifo (pixels s p (p + m)) s)"
    and r: "\<forall>j<m. dac_room (scan_pulses s) (levels j)" and e: "m < left \<longrightarrow> \<not> dac_room (scan_pulses s) (levels m)"
    using scan_feed_writes by blast
  show ?thesis
  proof (cases "unat (scan_pulses s) \<le> 16384")
    case True
    then have "unat (16384 - scan_pulses s) = 16384 - unat (scan_pulses s)"
      by (simp add: unat_sub word_le_nat_alt)
    then have "\<forall>j<m. unat (levels j) + unat (scan_pulses s) < 16384"
      using r by (auto simp: dac_room_def word_less_nat_alt level)
    then show ?thesis using f \<open>m \<le> left\<close> True by (intro exI [of _ m]) simp
  next
    case False
    then have "unat (16384 - scan_pulses s) = unat (16384 :: u32) + 2 ^ 32 - unat (scan_pulses s)"
      unfolding unat_sub_if_size by (simp add: word_size)
    moreover have "unat (scan_pulses s) < 2 ^ 28"
      using assms by (simp add: word_less_nat_alt)
    ultimately have "2 ^ 16 \<le> unat (16384 - scan_pulses s)"
      by simp
    then have "dac_room (scan_pulses s) l" for l
      unfolding dac_room_def word_less_nat_alt level using unat_lt [of l] by simp
    then show ?thesis using f e \<open>m \<le> left\<close> False by (intro exI [of _ m]) auto
  qed
qed

theorem scan_dac_fits_witness:
  "\<exists>m\<le>2. scan_feed 2 (\<lambda>j. if j = 0 then 10 else 16382) 0 scan_idle =
      (0 + m, to_port Fifo (pixels scan_idle 0 (0 + m)) scan_idle) \<and>
    (if unat (scan_pulses scan_idle) \<le> 16384
     then \<forall>j<m. unat (if j = 0 then 10 else 16382 :: u16) + unat (scan_pulses scan_idle) < 16384 else m = 2)"
  by (rule scan_dac_fits) (simp add: scan_idle_pulses)

section \<open>Registers and settings\<close>

text \<open>A scan disturbs no register but the first byte, and none of the settings.\<close>

definition scan_settings :: "scanner \<Rightarrow> nat \<times> u32 \<times> u32 \<times> u32 \<times> u32" where
  "scan_settings s = (scan_size s, scan_period s, scan_pulses s, scan_shdelay s, scan_shtime s)"

definition same_settings :: "scanner \<Rightarrow> scanner \<Rightarrow> bool" where
  "same_settings s s' \<longleftrightarrow> (\<forall>a>0. regs s' a = regs s a) \<and> scan_settings s' = scan_settings s"

lemma same_settings_trans: "same_settings s s' \<Longrightarrow> same_settings s' s'' \<Longrightarrow> same_settings s s''"
  by (simp add: same_settings_def)

lemma same_settings_steps [simp]:
  "same_settings s s" "same_settings s (emit e s') = same_settings s s'"
  "same_settings s (wr8 0 v s') = same_settings s s'"
  by (simp_all add: same_settings_def scan_settings_def regs_wr_out) (simp_all add: emit_def)

lemma same_settings_more [simp]:
  "same_settings s (to_port p ws s') = same_settings s s'"
  "same_settings s (cfg_clear m s') = same_settings s s'" "same_settings s (cfg_set m s') = same_settings s s'"
  by (induction ws arbitrary: s') (simp_all add: reg_clear_def reg_set_def)

lemma scan_feed_settings: "same_settings s (snd (scan_feed left levels p s))"
  using scan_feed_writes [of left levels p s] by auto

lemma scan_turn_settings:
  assumes "scan_turn_step rx amount t q = Inr q' \<or> scan_turn_step rx amount t q = Inl q'"
  shows "same_settings (scan_state q) (scan_state q')"
proof -
  have read: "same_settings (scan_state q) (scan_state r)"
    if "scan_read rx amount t q = Inr r \<or> scan_read rx amount t q = Inl r" for r
    using that by (auto simp: scan_read_def Let_def split: if_splits)
  show ?thesis
  proof (cases "scan_read rx amount t q")
    case (Inl r)
    then show ?thesis using assms read by (auto simp: scan_turn_step_def)
  next
    case (Inr r)
    then have "scan_state q' = cfg_set 1 (snd (scan_feed (amount - scan_position r) (wr_levels t) (scan_position r) (scan_state r)))"
      using assms by (auto simp: scan_turn_step_def split: prod.splits)
    then show ?thesis
      using same_settings_trans [OF read [of r] scan_feed_settings] Inr by simp
  qed
qed

lemma scan_start_settings:
  assumes "scan_start rx ts s = Some s'"
  shows "same_settings s s'"
proof -
  obtain q where l: "scan_acq.loop rx (scan_size s) ts (scan_from s) = Some q" and s': "s' = scan_state q"
    using assms by (rule scan_start_cases)
  have "same_settings s (scan_prepare s)"
    by (simp add: scan_prepare_def)
  then have "same_settings s (scan_state q) \<and> \<not> scan_counter q < scan_size s \<or> same_settings s (scan_state q)"
    by (intro while_turns_inv [OF l, where P = "\<lambda>q. same_settings s (scan_state q)" and Q = "\<lambda>q. same_settings s (scan_state q)"])
      (auto intro: same_settings_trans scan_turn_settings)
  then show ?thesis by (auto simp: s')
qed

text \<open>The registers as functions of the settings.\<close>

definition scan_timing :: "scanner \<Rightarrow> bool" where
  "scan_timing s \<longleftrightarrow> scan_size s \<le> 1048576 \<and> scan_pulses s < 2 ^ 28 \<and>
     rd8 5 s = ucast (scan_pulses s - 1) \<and>
     rd32 16 s = scan_period s - 1 \<and> rd32 28 s = scan_period s - 1 \<and>
     rd32 20 s = scan_shdelay s \<and> rd32 24 s = scan_shdelay s + scan_shtime s \<and>
     rd32 36 s = rd32 32 s + 1 \<and> rd32 40 s = rd32 32 s + 1"

lemma scan_timing_frame: "same_settings s s' \<Longrightarrow> scan_timing s \<Longrightarrow> scan_timing s'"
  by (simp add: scan_timing_def same_settings_def scan_settings_def rd_defs)

lemma scan_data_small: "scan_data c < 2 ^ 28"
proof -
  have "scan_data c \<le> 0xfffffff"
    unfolding scan_data_def by (rule word_and_le1)
  then show ?thesis
    by (rule order_le_less_trans) simp
qed

lemma scan_updates [simp]:
  "rd8 a (scan_period_update f s) = rd8 a s" "rd32 a (scan_period_update f s) = rd32 a s"
  "rd8 a (scan_pulses_update f s) = rd8 a s" "rd32 a (scan_pulses_update f s) = rd32 a s"
  "rd8 a (scan_shdelay_update f s) = rd8 a s" "rd32 a (scan_shdelay_update f s) = rd32 a s"
  "rd8 a (scan_shtime_update f s) = rd8 a s" "rd32 a (scan_shtime_update f s) = rd32 a s"
  "rd8 a (scan_size_update n s) = rd8 a s" "rd32 a (scan_size_update n s) = rd32 a s"
  "rd8 a (coordinates_update c s) = rd8 a s" "rd32 a (coordinates_update c s) = rd32 a s"
  by (simp_all add: rd_defs)

lemma scan_command_timing:
  assumes "scan_timing s" and "scan_command rx ts c s = Some s'"
  shows "scan_timing s'"
proof -
  have f: "scan_timing (cfg_set m s)" "scan_timing (cfg_clear m s)" for m
    by (rule scan_timing_frame [OF _ assms(1)]; simp)+
  have p: "scan_timing (scan_trigger_polarity d s)" "scan_timing (scan_sh_polarity d s)" for d
    using f assms(1) by (simp_all add: scan_trigger_polarity_def scan_sh_polarity_def)
  have r: "scan_timing (scan_set_period d s)" "scan_timing (scan_trigger_duration d s)" "scan_timing (scan_set_shdelay d s)"
      "scan_timing (scan_set_shtime d s)" "scan_timing (scan_acquisition_delay d s)" "scan_timing (scan_set_samples d s)"
      "scan_timing (scan_clear s)" "scan_timing (scan_add d s)" for d
    using assms(1) unfolding scan_set_period_def scan_trigger_duration_def scan_set_shdelay_def scan_set_shtime_def
      scan_acquisition_delay_def scan_set_samples_def scan_clear_def scan_add_def Let_def
    by (simp_all add: scan_timing_def)
  have q: "scan_timing (scan_set_pulses (scan_data c) s)"
    using assms(1) scan_data_small [of c] by (simp add: scan_set_pulses_def Let_def scan_timing_def)
  have t: "scan_timing s'" if "scan_start rx ts s = Some s'"
    using scan_timing_frame [OF scan_start_settings [OF that] assms(1)] .
  show ?thesis
    using assms f p r q t by (auto simp: scan_command_def Let_def split: if_splits)
qed

inductive scan_reachable :: "scanner \<Rightarrow> bool" where
  start: "scan_reachable (scan_init s)"
| command: "scan_reachable s \<Longrightarrow> scan_command rx ts c s = Some s' \<Longrightarrow> scan_reachable s'"
| leave: "scan_reachable s \<Longrightarrow> scan_reachable (scan_leave s)"

text \<open>In every state the server reaches, whatever the clients send, the registers of the three pulse
  generators are those of the settings: trigger and sample-and-hold generators share the period, the end of
  the sample-and-hold pulse is its delay plus its duration, the acquisition pulse lasts one clock, and the
  averaging register holds the low byte of the number of pulses less one.\<close>

theorem scan_registers_follow:
  assumes "scan_reachable s"
  shows "scan_size s \<le> 1048576 \<and> rd8 5 s = ucast (scan_pulses s - 1) \<and>
     rd32 16 s = scan_period s - 1 \<and> rd32 28 s = scan_period s - 1 \<and>
     rd32 20 s = scan_shdelay s \<and> rd32 24 s = scan_shdelay s + scan_shtime s \<and>
     rd32 36 s = rd32 32 s + 1 \<and> rd32 40 s = rd32 32 s + 1"
proof -
  have "scan_timing s"
    using assms
  proof induction
    case (start s)
    show ?case by (simp add: scan_timing_def scan_init_def Let_def)
  next
    case (command s rx ts c s')
    then show ?case by (auto intro: scan_command_timing)
  next
    case (leave s)
    show ?case unfolding scan_leave_def by (rule scan_timing_frame [OF _ leave.IH]) simp
  qed
  then show ?thesis by (simp add: scan_timing_def)
qed

lemma scan_demo_reachable: "scan_reachable (scan_set_pulses 257 (scan_init scan_idle))"
  by (rule scan_reachable.command [OF scan_reachable.start, where c = "scan_word 8 257" and rx = "\<lambda>_. 0" and ts = "[]"])
    (simp add: scan_command_def scan_decode)

theorem scan_registers_follow_witness:
  "rd8 5 (scan_set_pulses 257 (scan_init scan_idle)) = 0"
proof -
  have "scan_pulses (scan_set_pulses 257 (scan_init scan_idle)) = 257"
    by (simp add: scan_set_pulses_def Let_def)
  moreover have "(ucast (257 - 1 :: u32) :: u8) = 0"
    by code_simp
  ultimately show ?thesis
    using scan_registers_follow [OF scan_demo_reachable] by simp
qed

end
