(* ===== verification/Vna.thy ===== *)
theory Vna
  imports Doubles Acquire "HOL-Library.Signed_Division"
begin

unbundle bit_operations_syntax

text \<open>
  \<open>projects/vna/server/vna.c\<close>: the server of the vector network analyser. A command has its code in the
  four high bits and a signed value of 28 bits. A sweep writes one phase increment for each frequency to
  the FIFO of the design and starts a thread that averages the samples of each frequency and sends the
  averages. The file of \<open>vna_122_88\<close> differs in the constants of \<open>vna_board\<close> only. Floats are rationals
  rounded to 24 bits.
\<close>

record vna_board =
  vna_clk :: rat
  vna_freq_max :: int
  vna_samples :: u32
  vna_samples_start :: u32

definition vna_125 :: vna_board where
  "vna_125 = \<lparr>vna_clk = clk_125, vna_freq_max = 62500000, vna_samples = 2500, vna_samples_start = 50000\<rparr>"

definition vna_122 :: vna_board where
  "vna_122 = \<lparr>vna_clk = clk_122, vna_freq_max = 61440000, vna_samples = 2560, vna_samples_start = 51200\<rparr>"

text \<open>The variables of \<open>main\<close>, and the three globals a sweep hands to its thread.\<close>

record vna = machine +
  vna_start :: int
  vna_stop :: int
  vna_size :: u32
  vna_rate :: u32
  vna_corr :: int
  vna_sock :: int
  rate_thread :: u32
  size_thread :: u32

text \<open>\<open>rst\<close> is the byte at offset 0, \<open>gpio\<close> at 1, \<open>rx_size\<close> the word at 4, \<open>tx_phase\<close> two words from 8,
  \<open>tx_level\<close> two half-words from 16.\<close>

abbreviation vrst_clear :: "u8 \<Rightarrow> vna \<Rightarrow> vna" where "vrst_clear \<equiv> reg_clear (rd8 0) (wr8 0)"
abbreviation vrst_set :: "u8 \<Rightarrow> vna \<Rightarrow> vna" where "vrst_set \<equiv> reg_set (rd8 0) (wr8 0)"

definition vna_init :: "vna_board \<Rightarrow> vna \<Rightarrow> vna" where
  "vna_init b s =
     (let s = s\<lparr>vna_sock := - 1, rate_thread := 10, size_thread := 5000\<rparr>;
          s = wr32 8 0 s; s = wr32 12 0 s;
          s = wr16 16 32766 s; s = wr16 18 0 s;
          s = wr32 4 (vna_samples_start b - 1) s;
          s = s\<lparr>vna_start := 10000, vna_stop := 50000000, vna_size := 5000, vna_rate := 10, vna_corr := 0\<rparr>;
          s = vrst_clear 3 s in
      wr8 1 0 s)"

section \<open>Settings\<close>

text \<open>The value, sign-extended from 28 bits; \<open>sint\<close> reads it.\<close>

definition vna_value :: "u32 \<Rightarrow> u32" where
  "vna_value command =
     (let value = command AND 0xfffffff in
      value OR (if value AND 0x8000000 \<noteq> 0 then 0xf0000000 else 0))"

definition vna_set_start :: "vna_board \<Rightarrow> int \<Rightarrow> vna \<Rightarrow> vna" where
  "vna_set_start b v s = (if v < 0 \<or> v > vna_freq_max b then s else s\<lparr>vna_start := v\<rparr>)"

definition vna_set_stop :: "vna_board \<Rightarrow> int \<Rightarrow> vna \<Rightarrow> vna" where
  "vna_set_stop b v s = (if v < 0 \<or> v > vna_freq_max b then s else s\<lparr>vna_stop := v\<rparr>)"

definition vna_set_size :: "int \<Rightarrow> vna \<Rightarrow> vna" where
  "vna_set_size v s = (if v < 1 \<or> v > 32768 then s else s\<lparr>vna_size := word_of_int v\<rparr>)"

definition vna_set_rate :: "vna_board \<Rightarrow> int \<Rightarrow> vna \<Rightarrow> vna" where
  "vna_set_rate b v s =
     (if v < 10 \<or> v > 100000 then s
      else let s = s\<lparr>vna_rate := word_of_int v\<rparr> in wr32 4 (vna_samples b * (vna_rate s + 10) - 1) s)"

definition vna_set_corr :: "int \<Rightarrow> vna \<Rightarrow> vna" where
  "vna_set_corr v s = (if v < - 100000 \<or> v > 100000 then s else s\<lparr>vna_corr := v\<rparr>)"

definition vna_set_phase :: "nat \<Rightarrow> int \<Rightarrow> vna \<Rightarrow> vna" where
  "vna_set_phase i v s = (if v < 0 \<or> v > 360 then s else wr32 (8 + 4 * i) (phase_inc 360 (nat v)) s)"

definition vna_set_level :: "nat \<Rightarrow> int \<Rightarrow> vna \<Rightarrow> vna" where
  "vna_set_level i v s = (if v < - 32766 \<or> v > 32766 then s else wr16 (16 + 2 * i) (word_of_int v) s)"

definition vna_set_gpio :: "int \<Rightarrow> vna \<Rightarrow> vna" where
  "vna_set_gpio v s = (if v < 0 \<or> v > 255 then s else wr8 1 (word_of_int v) s)"

section \<open>A sweep\<close>

text \<open>The frequency of a point, in 64-bit arithmetic with C's truncating division, stored to 32 bits;
  then \<open>freq *= (1.0 + 1.0e-9 * corr)\<close> in doubles, truncated.\<close>

definition sweep_freq :: "int \<Rightarrow> int \<Rightarrow> u32 \<Rightarrow> nat \<Rightarrow> u32" where
  "sweep_freq start stop n i =
     word_of_int (if i > 0 then start + (stop - start) * int i sdiv (uint (n - 1)) else start)"

definition corrected :: "int \<Rightarrow> u32 \<Rightarrow> u32" where
  "corrected corr freq =
     word_of_int \<lfloor>dmul (of_nat (unat freq)) (dadd 1 (dmul (fl 53 (1 / 1000000000)) (of_int corr)))\<rfloor>"

definition sweep_word :: "vna_board \<Rightarrow> vna \<Rightarrow> nat \<Rightarrow> u32" where
  "sweep_word b s i =
     phase_inc (vna_clk b) (unat (corrected (vna_corr s) (sweep_freq (vna_start s) (vna_stop s) (vna_size s) i)))"

definition vna_sweep :: "vna_board \<Rightarrow> int \<Rightarrow> vna \<Rightarrow> vna" where
  "vna_sweep b sock s =
     (let s = vrst_clear 3 s; s = vrst_set 2 s;
          s = s\<lparr>rate_thread := vna_rate s, size_thread := vna_size s, vna_sock := sock\<rparr>;
          s = to_port Fifo (map (sweep_word b s) [0..<unat (vna_size s)]) s in
      vrst_set 1 s)"

definition vna_cancel :: "vna \<Rightarrow> vna" where
  "vna_cancel s = (vrst_clear 3 s)\<lparr>vna_sock := - 1\<rparr>"

section \<open>The commands\<close>

text \<open>The first component says that a thread is created.\<close>

definition vna_command :: "vna_board \<Rightarrow> int \<Rightarrow> u32 \<Rightarrow> vna \<Rightarrow> bool \<times> vna" where
  "vna_command b sock command s =
     (let v = sint (vna_value command); code = drop_bit 28 command in
      if code = 0 then (False, vna_set_start b v s)
      else if code = 1 then (False, vna_set_stop b v s)
      else if code = 2 then (False, vna_set_size v s)
      else if code = 3 then (False, vna_set_rate b v s)
      else if code = 4 then (False, vna_set_corr v s)
      else if code = 5 then (False, vna_set_phase 0 v s)
      else if code = 6 then (False, vna_set_phase 1 v s)
      else if code = 7 then (False, vna_set_level 0 v s)
      else if code = 8 then (False, vna_set_level 1 v s)
      else if code = 9 then (False, vna_set_gpio v s)
      else if code = 10 then (True, vna_sweep b sock s)
      else if code = 11 then (False, vna_cancel s)
      else (False, s))"

definition vna_leave :: "vna \<Rightarrow> vna" where
  "vna_leave s = (let s = vrst_clear 3 s; s = wr8 1 0 s in s\<lparr>vna_sock := - 1\<rparr>)"

section \<open>The reader thread\<close>

definition fadd :: "rat \<Rightarrow> rat \<Rightarrow> rat" where "fadd a b = fl 24 (a + b)"
definition fdiv :: "rat \<Rightarrow> rat \<Rightarrow> rat" where "fdiv a b = fl 24 (a / b)"

text \<open>
  The local variables of \<open>read_handler\<close>; \<open>vr_sent\<close> is what it has sent. A turn's input: what
  \<open>sock_thread\<close> and \<open>rx_cntr\<close> read, the four floats the FIFO delivers, whether \<open>send\<close> succeeds.
\<close>

record vna_reader =
  vr_rate :: u32
  vr_size :: u32
  vr_i :: nat
  vr_cntr :: nat
  vr_buffer :: "nat \<Rightarrow> rat"
  vr_sent :: "rat list list"

record vna_turn =
  vt_sock :: int
  vt_level :: u16
  vt_words :: "nat \<Rightarrow> rat"
  vt_ok :: bool

definition reader_points :: "vna_reader \<Rightarrow> nat" where
  "reader_points r = unat (vr_size r * (vr_rate r + 10))"

definition reader_start :: "u32 \<Rightarrow> u32 \<Rightarrow> (nat \<Rightarrow> rat) \<Rightarrow> vna_reader" where
  "reader_start rate n junk =
     \<lparr>vr_rate = rate, vr_size = n, vr_i = 0, vr_cntr = 0, vr_buffer = junk, vr_sent = []\<rparr>"

definition reader_turn :: "vna_turn \<Rightarrow> vna_reader \<Rightarrow> vna_reader + vna_reader" where
  "reader_turn t r =
     (if vt_sock t < 0 then Inl r
      else if unat (vt_level t) < 4 then Inr r
      else
        let buffer = (if vr_i r < 11 then vt_words t else (\<lambda>j. fadd (vr_buffer r j) (vt_words t j)));
            r = r\<lparr>vr_buffer := buffer, vr_i := vr_i r + 1, vr_cntr := vr_cntr r + 1\<rparr> in
        if vr_i r < unat (vr_rate r + 10) then Inr r
        else
          let buffer = (\<lambda>j. fdiv (vr_buffer r j) (fl 24 (of_nat (unat (vr_rate r)))));
              r = r\<lparr>vr_i := 0, vr_buffer := buffer\<rparr> in
          if \<not> vt_ok t then Inl r
          else Inr (r\<lparr>vr_sent := vr_sent r @ [map buffer [0..<4]]\<rparr>))"

definition read_handler :: "vna_turn list \<Rightarrow> vna_reader \<Rightarrow> vna_reader option" where
  "read_handler ts r = while_turns (\<lambda>q. vr_cntr q < reader_points r) reader_turn ts r"

section \<open>The threads together\<close>

datatype reader_phase = Created | Reading vna_reader

record vna_system =
  vs_state :: vna
  vs_client :: "int option"
  vs_readers :: "reader_phase list"

inductive vna_step :: "vna_board \<Rightarrow> vna_system \<Rightarrow> vna_system \<Rightarrow> bool" for b where
  accept: "vs_client t = None \<Longrightarrow> 0 \<le> sock \<Longrightarrow> vna_step b t (t\<lparr>vs_client := Some sock\<rparr>)"
| command: "vs_client t = Some sock \<Longrightarrow> vna_command b sock c (vs_state t) = (created, s) \<Longrightarrow>
    vna_step b t (t\<lparr>vs_state := s, vs_readers := vs_readers t @ (if created then [Created] else [])\<rparr>)"
| disconnect: "vs_client t = Some sock \<Longrightarrow>
    vna_step b t (t\<lparr>vs_state := vna_leave (vs_state t), vs_client := None\<rparr>)"
| begin_reader: "vs_readers t = ps @ Created # qs \<Longrightarrow>
    r = reader_start (rate_thread (vs_state t)) (size_thread (vs_state t)) junk \<Longrightarrow>
    vna_step b t (t\<lparr>vs_readers := ps @ Reading r # qs\<rparr>)"
| read: "vs_readers t = ps @ Reading r # qs \<Longrightarrow> vr_cntr r < reader_points r \<Longrightarrow>
    vt_sock i = vna_sock (vs_state t) \<Longrightarrow> reader_turn i r = Inr r' \<Longrightarrow>
    vna_step b t (t\<lparr>vs_readers := ps @ Reading r' # qs\<rparr>)"
| end_reader: "vs_readers t = ps @ Reading r # qs \<Longrightarrow>
    \<not> vr_cntr r < reader_points r \<or> (vt_sock i = vna_sock (vs_state t) \<and> reader_turn i r = Inl r') \<Longrightarrow>
    vna_step b t (t\<lparr>vs_readers := ps @ qs\<rparr>)"

inductive vna_reachable :: "vna_board \<Rightarrow> vna_system \<Rightarrow> bool" for b where
  start: "vna_reachable b \<lparr>vs_state = vna_init b s, vs_client = None, vs_readers = []\<rparr>"
| step: "vna_reachable b t \<Longrightarrow> vna_step b t t' \<Longrightarrow> vna_reachable b t'"

end
