(* ===== verification/Vna_spec.thy ===== *)
theory Vna_spec
  imports Vna
begin

unbundle bit_operations_syntax

text \<open>
  Properties of the network analyser's server: the values of its commands, the frequencies of a sweep,
  the averages the reader thread sends, the settings in every reachable state, and the readers that
  survive a cancelled sweep.
\<close>

section \<open>Commands\<close>

lemma vna_value_signed: "vna_value c = signed_take_bit 27 c"
proof -
  have m: "(0xfffffff :: u32) = mask 28" "(0x8000000 :: u32) = 2 ^ 27" "(0xf0000000 :: u32) = push_bit 28 (mask 4)"
    by (simp_all add: mask_eq_exp_minus_1)
  have "bit (c AND mask 28) 27 \<longleftrightarrow> bit c 27"
    by (simp add: bit_simps)
  then have v: "vna_value c = (c AND mask 28) OR (if bit c 27 then push_bit 28 (mask 4) else 0)"
    unfolding vna_value_def m Let_def and_exp_eq_0_iff_not_bit not_not by simp
  show ?thesis
  proof (rule bit_word_eqI)
    fix n
    show "bit (vna_value c) n \<longleftrightarrow> bit (signed_take_bit 27 c) n" if "n < LENGTH(32)"
      using that unfolding v by (cases n "27 :: nat" rule: linorder_cases) (auto simp: bit_simps)
  qed
qed

definition vna_word :: "u32 \<Rightarrow> int \<Rightarrow> u32" where
  "vna_word code v = push_bit 28 code OR (word_of_int v AND 0xfffffff)"

lemma vna_decode:
  assumes "unat c < 16"
  shows "drop_bit 28 (vna_word c v) = c"
    and "- (2 ^ 27) \<le> v \<Longrightarrow> v < 2 ^ 27 \<Longrightarrow> sint (vna_value (vna_word c v)) = v"
proof -
  have "take_bit 4 c = c"
    using assms by (simp add: word_unat_eq_iff unsigned_take_bit_eq take_bit_nat_eq_self)
  then have c: "bit c n \<Longrightarrow> n < 4" for n
    by (metis bit_take_bit_iff)
  have m: "(0xfffffff :: u32) = mask 28"
    by (simp add: mask_eq_exp_minus_1)
  show "drop_bit 28 (vna_word c v) = c"
    unfolding vna_word_def m by (rule bit_word_eqI) (auto simp: bit_simps dest: c)
  assume v: "- (2 ^ 27) \<le> v" "v < 2 ^ 27"
  have "signed_take_bit 27 (vna_word c v) = (signed_take_bit 27 (word_of_int v) :: u32)"
    unfolding vna_word_def m by (rule bit_word_eqI) (auto simp: bit_simps min_def)
  also have "\<dots> = word_of_int (signed_take_bit 27 v)"
    by (rule bit_word_eqI) (auto simp: bit_simps min_def)
  also have "signed_take_bit 27 v = v"
    using v by (intro signed_take_bit_int_eq_self) simp_all
  finally show "sint (vna_value (vna_word c v)) = v"
    using v by (simp add: vna_value_signed signed_take_bit_int_eq_self signed_of_int)
qed

section \<open>The frequencies of a sweep\<close>

text \<open>C's division by a positive number leaves less than the divisor, whatever the sign of the dividend.\<close>

lemma sdiv_near:
  fixes a d :: int
  assumes "0 < d"
  shows "\<bar>(a sdiv d) * d - a\<bar> < d"
    and "0 \<le> a \<Longrightarrow> a sdiv d = a div d" and "a \<le> 0 \<Longrightarrow> a sdiv d = - (- a div d)"
proof -
  show p: "0 \<le> a \<Longrightarrow> a sdiv d = a div d" and n: "a \<le> 0 \<Longrightarrow> a sdiv d = - (- a div d)"
    using assms by (auto simp: signed_divide_int_def sgn_if)
  have "\<bar>(b div d) * d - b\<bar> < d" for b
    using assms pos_mod_bound [OF assms, of b] pos_mod_sign [OF assms, of b] minus_mod_eq_div_mult [of b d] by linarith
  from this [of a] this [of "- a"] show "\<bar>(a sdiv d) * d - a\<bar> < d"
    using p n by (cases "0 \<le> a") (auto simp: abs_minus_commute)
qed

text \<open>The settings' ranges, for a board whose frequencies are at most 62.5 MHz.\<close>

definition vna_ranges :: "vna_board \<Rightarrow> vna \<Rightarrow> bool" where
  "vna_ranges b s \<longleftrightarrow> 0 \<le> vna_start s \<and> vna_start s \<le> vna_freq_max b \<and> 0 \<le> vna_stop s \<and> vna_stop s \<le> vna_freq_max b \<and>
     1 \<le> unat (vna_size s) \<and> unat (vna_size s) \<le> 32768 \<and> 10 \<le> unat (vna_rate s) \<and> unat (vna_rate s) \<le> 100000 \<and>
     - 100000 \<le> vna_corr s \<and> vna_corr s \<le> 100000"

lemma scaled_between:
  fixes d k n :: int
  assumes "0 < n" and "0 \<le> k" and "k \<le> n" and "0 \<le> d"
  shows "0 \<le> d * k div n" and "d * k div n \<le> d"
proof -
  show "0 \<le> d * k div n"
    using assms by (intro pos_imp_zdiv_nonneg_iff [THEN iffD2]) simp_all
  have "d * k div n \<le> d * n div n"
    using assms by (intro zdiv_mono1 mult_left_mono) simp_all
  then show "d * k div n \<le> d"
    using assms(1) by simp
qed

lemma sweep_freq_value:
  assumes "0 \<le> start" "start \<le> 62500000" "0 \<le> stop" "stop \<le> 62500000"
    and "i < unat n"
  shows "int (unat (sweep_freq start stop n i)) =
      (if i > 0 then start + (stop - start) * int i sdiv (int (unat n) - 1) else start)"
    and "min start stop \<le> int (unat (sweep_freq start stop n i))"
    and "int (unat (sweep_freq start stop n i)) \<le> max start stop"
proof -
  let ?f = "if i > 0 then start + (stop - start) * int i sdiv (int (unat n) - 1) else start"
  have n1: "uint (n - 1) = int (unat n) - 1" if "i > 0"
  proof -
    have "1 \<le> n"
      using assms(5) by (simp add: word_le_nat_alt)
    then have "unat (n - 1) = unat n - 1"
      using unat_sub [of 1 n] by simp
    then show ?thesis
      using assms(5) that by (simp only: uint_nat)
  qed
  have between: "min start stop \<le> ?f \<and> ?f \<le> max start stop"
  proof (cases "i > 0")
    case True
    then have pos: "0 < int (unat n) - 1" and le: "int i \<le> int (unat n) - 1"
      using assms(5) by linarith+
    show ?thesis
    proof (cases "start \<le> stop")
      case True
      then show ?thesis
        using \<open>i > 0\<close> scaled_between [OF pos _ le, of "stop - start"] sdiv_near(2) [OF pos, of "(stop - start) * int i"] by simp
    next
      case False
      then have "(stop - start) * int i \<le> 0" and "- ((stop - start) * int i) = (start - stop) * int i"
        by (simp_all add: mult_right_mono left_diff_distrib)
      then show ?thesis
        using \<open>i > 0\<close> False scaled_between [OF pos _ le, of "start - stop"] sdiv_near(3) [OF pos, of "(stop - start) * int i"] by simp
    qed
  qed simp
  then have "0 \<le> ?f" "?f < 2 ^ 32"
    using assms by (simp_all add: min_def max_def split: if_splits)
  then have "uint (word_of_int ?f :: u32) = ?f"
    by (simp add: uint_word_of_int)
  moreover have "sweep_freq start stop n i = word_of_int ?f"
    using n1 by (simp add: sweep_freq_def)
  ultimately show e: "int (unat (sweep_freq start stop n i)) = ?f"
    by (simp add: uint_nat [symmetric])
  show "min start stop \<le> int (unat (sweep_freq start stop n i))" "int (unat (sweep_freq start stop n i)) \<le> max start stop"
    unfolding e using between by blast+
qed

text \<open>The correction in doubles: what is written for a frequency differs from the exact product by at most
  one, the truncation, up to the rounding errors.\<close>

lemma correction_factor:
  fixes c :: rat
  assumes "\<bar>c\<bar> \<le> 100000"
  shows "\<bar>dadd 1 (dmul (fl 53 (1 / 1000000000)) c) - (1 + c / 1000000000)\<bar> \<le> 5 / 2 ^ 53"
proof -
  let ?a = "1 / 1000000000 :: rat"
  have ac: "\<bar>?a * c\<bar> \<le> 1 / 10000"
    using assms by (simp add: abs_mult)
  have "\<bar>(fl 53 ?a - ?a) * c\<bar> \<le> \<bar>?a\<bar> / 2 ^ 53 * 100000"
    unfolding abs_mult using fl_error [of 53 ?a] assms by (intro mult_mono) simp_all
  then have "\<bar>fl 53 ?a * c - ?a * c\<bar> \<le> 1 / 2 ^ 53"
    by (simp add: left_diff_distrib)
  then have "\<bar>dmul (fl 53 ?a) c - ?a * c\<bar> \<le> 1 / 2 ^ 53 + (1 / 10000 + 1 / 2 ^ 53) / 2 ^ 53"
    unfolding dmul_def by (rule double.rnd_within [OF _ ac])
  then have "\<bar>(1 + dmul (fl 53 ?a) c) - (1 + ?a * c)\<bar> \<le> 2 / 2 ^ 53"
    by simp
  moreover have "\<bar>1 + ?a * c\<bar> \<le> 2"
    using ac by (simp add: abs_le_iff)
  ultimately have "\<bar>dadd 1 (dmul (fl 53 ?a) c) - (1 + ?a * c)\<bar> \<le> 2 / 2 ^ 53 + (2 + 2 / 2 ^ 53) / 2 ^ 53"
    unfolding dadd_def by (rule double.rnd_within)
  then show ?thesis by simp
qed

lemma correction_error:
  fixes f c :: rat
  assumes "0 \<le> f" "f \<le> 62500000" and "\<bar>c\<bar> \<le> 100000"
  shows "\<bar>dmul f (dadd 1 (dmul (fl 53 (1 / 1000000000)) c)) - f * (1 + c / 1000000000)\<bar> \<le> 1 / 1000000"
    and "0 \<le> dmul f (dadd 1 (dmul (fl 53 (1 / 1000000000)) c))"
proof -
  define g where "g = dadd 1 (dmul (fl 53 (1 / 1000000000)) c)"
  define h where "h = 1 + c / 1000000000"
  have g: "\<bar>g - h\<bar> \<le> 5 / 2 ^ 53"
    unfolding g_def h_def by (rule correction_factor [OF assms(3)])
  have h: "1 - 1 / 10000 \<le> h" "h \<le> 1 + 1 / 10000"
    unfolding h_def using assms(3) by (simp_all add: abs_le_iff)
  have "\<bar>f * (g - h)\<bar> \<le> 62500000 * (5 / 2 ^ 53)"
    unfolding abs_mult using assms(1,2) g by (intro mult_mono) simp_all
  then have "\<bar>f * g - f * h\<bar> \<le> 312500000 / 2 ^ 53"
    by (simp add: right_diff_distrib)
  moreover have "\<bar>f * h\<bar> \<le> 62500000 * 2"
    unfolding abs_mult using assms(1,2) h by (intro mult_mono) simp_all
  ultimately have "\<bar>dmul f g - f * h\<bar> \<le> 312500000 / 2 ^ 53 + (62500000 * 2 + 312500000 / 2 ^ 53) / 2 ^ 53"
    unfolding dmul_def by (rule double.rnd_within)
  then show "\<bar>dmul f g - f * h\<bar> \<le> 1 / 1000000"
    by simp
  have "0 \<le> g"
    using abs_le_D2 [OF g] h by simp
  then show "0 \<le> dmul f g"
    unfolding dmul_def using assms(1) by (intro fl_nonneg mult_nonneg_nonneg)
qed

lemma corrected_near:
  assumes "unat f \<le> 62500000" and "\<bar>c\<bar> \<le> 100000"
  shows "\<bar>of_nat (unat (corrected c f)) - of_nat (unat f) * (1 + of_int c / 1000000000)\<bar> \<le> (1 + 1 / 1000000 :: rat)"
proof -
  let ?x = "of_nat (unat f) :: rat" and ?c = "of_int c :: rat"
  define y where "y = dmul ?x (dadd 1 (dmul (fl 53 (1 / 1000000000)) ?c))"
  define e where "e = ?x * (1 + ?c / 1000000000)"
  have "(of_nat (unat f) :: rat) \<le> of_nat 62500000"
    using assms(1) by (rule of_nat_mono)
  then have x: "0 \<le> ?x" "?x \<le> 62500000"
    by (simp_all only: of_nat_0_le_iff of_nat_numeral)
  have c: "\<bar>?c\<bar> \<le> 100000"
    using assms(2) by (metis of_int_abs of_int_le_iff of_int_numeral)
  have near: "\<bar>y - e\<bar> \<le> 1 / 1000000" and y: "0 \<le> y"
    unfolding y_def e_def by (rule correction_error [OF x c])+
  have "e \<le> 62500000 * 2"
    unfolding e_def using x c by (intro mult_mono) (simp_all add: abs_le_iff)
  then have "y < 2 ^ 32"
    using abs_le_D1 [OF near] by simp
  then have "\<lfloor>y\<rfloor> < 2 ^ 32" "0 \<le> \<lfloor>y\<rfloor>"
    using y by (simp_all add: floor_less_iff)
  then have "int (unat (corrected c f)) = \<lfloor>y\<rfloor>"
    unfolding corrected_def y_def [symmetric] by (simp add: uint_word_of_int)
  then have "of_nat (unat (corrected c f)) = (of_int \<lfloor>y\<rfloor> :: rat)"
    by (metis of_int_of_nat_eq)
  then show ?thesis
    using near floor_correct [of y] unfolding e_def [symmetric] by linarith
qed

lemma corrected_0: "corrected 0 f = f"
proof -
  have "uint f < 2 ^ 32"
    using unsigned_less [of f] by simp
  then have "fl 53 (of_int (uint f)) = (of_int (uint f) :: rat)"
    by (intro fl_int) simp_all
  moreover have "fl 53 (1 :: rat) = 1"
    using fl_int [of 1 53] by simp
  moreover have "\<lfloor>of_int (uint f) :: rat\<rfloor> = uint f"
    by (rule floor_of_int)
  ultimately show ?thesis
    by (simp add: corrected_def dmul_def dadd_def)
qed

text \<open>The exact frequency of a point of a sweep, and how far the written one is from it.\<close>

definition ideal_freq :: "vna \<Rightarrow> nat \<Rightarrow> rat" where
  "ideal_freq s i =
     (of_int (vna_start s) + of_int (vna_stop s - vna_start s) * of_nat i / (of_nat (unat (vna_size s)) - 1)) *
     (1 + of_int (vna_corr s) / 1000000000)"

definition written_freq :: "vna \<Rightarrow> nat \<Rightarrow> nat" where
  "written_freq s i = unat (corrected (vna_corr s) (sweep_freq (vna_start s) (vna_stop s) (vna_size s) i))"

lemma sweep_freq_near:
  assumes "0 \<le> start" "start \<le> 62500000" "0 \<le> stop" "stop \<le> 62500000" and "i < unat n"
  shows "\<bar>of_nat (unat (sweep_freq start stop n i)) -
    (of_int start + of_int (stop - start) * of_nat i / (of_nat (unat n) - 1))\<bar> \<le> (1 :: rat)"
proof (cases "i > 0")
  case True
  define d where "d = int (unat n) - 1"
  define a where "a = (stop - start) * int i"
  have d: "0 < d"
    using True assms(5) unfolding d_def by linarith
  have f: "of_nat (unat (sweep_freq start stop n i)) = (of_int (start + a sdiv d) :: rat)"
    using sweep_freq_value(1) [OF assms] True unfolding a_def d_def by (metis of_int_of_nat_eq)
  have "\<bar>(a sdiv d) * d - a\<bar> \<le> d"
    using sdiv_near(1) [OF d, of a] by simp
  then have "\<bar>of_int (a sdiv d) * of_int d - of_int a\<bar> \<le> (of_int d :: rat)"
    by (metis of_int_abs of_int_diff of_int_le_iff of_int_mult)
  then have "\<bar>of_int (a sdiv d) - of_int a / of_int d\<bar> * of_int d \<le> (1 :: rat) * of_int d"
    using d by (simp add: abs_mult_pos left_diff_distrib)
  then have "\<bar>of_int (a sdiv d) - of_int a / of_int d\<bar> \<le> (1 :: rat)"
    using d by (simp only: mult_le_cancel_right_pos of_int_0_less_iff)
  moreover have "of_int (stop - start) * of_nat i / (of_nat (unat n) - 1) = (of_int a / of_int d :: rat)"
    by (simp add: a_def d_def)
  ultimately show ?thesis
    unfolding f by simp
next
  case False
  have "of_nat (unat (sweep_freq start stop n i)) = (of_int start :: rat)"
    using sweep_freq_value(1) [OF assms] False by (metis of_int_of_nat_eq)
  with False show ?thesis by simp
qed

lemma written_near:
  assumes "vna_ranges b s" and "vna_freq_max b \<le> 62500000" and "i < unat (vna_size s)"
  shows "\<bar>of_nat (written_freq s i) - ideal_freq s i\<bar> \<le> 5 / 2"
proof -
  have r: "0 \<le> vna_start s" "vna_start s \<le> 62500000" "0 \<le> vna_stop s" "vna_stop s \<le> 62500000" "\<bar>vna_corr s\<bar> \<le> 100000"
    using assms(1,2) by (auto simp: vna_ranges_def)
  define f where "f = sweep_freq (vna_start s) (vna_stop s) (vna_size s) i"
  define x where "x = of_int (vna_start s) + of_int (vna_stop s - vna_start s) * of_nat i / (of_nat (unat (vna_size s)) - 1 :: rat)"
  define h where "h = 1 + of_int (vna_corr s) / (1000000000 :: rat)"
  have "\<bar>of_int (vna_corr s)\<bar> \<le> (100000 :: rat)"
    using r(5) by (metis of_int_abs of_int_le_iff of_int_numeral)
  then have h: "0 \<le> h" "h \<le> 11 / 10"
    unfolding h_def by (simp_all add: abs_le_iff)
  have "\<bar>of_nat (unat f) - x\<bar> * h \<le> 1 * h"
    unfolding f_def x_def using sweep_freq_near [OF r(1-4) assms(3)] h(1) by (rule mult_right_mono)
  then have "\<bar>of_nat (unat f) * h - x * h\<bar> \<le> h"
    using h(1) by (simp add: abs_mult_pos left_diff_distrib)
  moreover have "unat f \<le> 62500000"
    using sweep_freq_value(3) [OF r(1-4) assms(3)] r unfolding f_def by linarith
  then have "\<bar>of_nat (written_freq s i) - of_nat (unat f) * h\<bar> \<le> 1 + 1 / 1000000"
    unfolding written_freq_def f_def [symmetric] h_def by (rule corrected_near [OF _ r(5)])
  ultimately show ?thesis
    unfolding ideal_freq_def x_def [symmetric] h_def [symmetric] using h by linarith
qed

lemma vna_fields [simp]:
  "vna_start (wr8 off v s) = vna_start s" "vna_stop (wr8 off v s) = vna_stop s" "vna_size (wr8 off v s) = vna_size s"
  "vna_corr (wr8 off v s) = vna_corr s" "vna_rate (wr8 off v s) = vna_rate s"
  "rate_thread (wr8 off v s) = rate_thread s" "size_thread (wr8 off v s) = size_thread s" "vna_sock (wr8 off v s) = vna_sock s"
  "vna_start (emit e s) = vna_start s" "vna_stop (emit e s) = vna_stop s" "vna_size (emit e s) = vna_size s"
  "vna_corr (emit e s) = vna_corr s" "vna_rate (emit e s) = vna_rate s"
  "rate_thread (emit e s) = rate_thread s" "size_thread (emit e s) = size_thread s" "vna_sock (emit e s) = vna_sock s"
  by (simp_all add: wr_defs store_def emit_def)

lemma vna_ports [simp]:
  "vna_start (to_port p ws s) = vna_start s" "vna_stop (to_port p ws s) = vna_stop s" "vna_size (to_port p ws s) = vna_size s"
  "vna_corr (to_port p ws s) = vna_corr s" "vna_rate (to_port p ws s) = vna_rate s"
  "rate_thread (to_port p ws s) = rate_thread s" "size_thread (to_port p ws s) = size_thread s" "vna_sock (to_port p ws s) = vna_sock s"
  by (induction ws arbitrary: s) simp_all

lemma vna_bits [simp]:
  "vna_start (vrst_clear m s) = vna_start s" "vna_stop (vrst_clear m s) = vna_stop s" "vna_size (vrst_clear m s) = vna_size s"
  "vna_corr (vrst_clear m s) = vna_corr s" "vna_rate (vrst_clear m s) = vna_rate s"
  "rate_thread (vrst_clear m s) = rate_thread s" "size_thread (vrst_clear m s) = size_thread s"
  "vna_start (vrst_set m s) = vna_start s" "vna_stop (vrst_set m s) = vna_stop s" "vna_size (vrst_set m s) = vna_size s"
  "vna_corr (vrst_set m s) = vna_corr s" "vna_rate (vrst_set m s) = vna_rate s"
  "rate_thread (vrst_set m s) = rate_thread s" "size_thread (vrst_set m s) = size_thread s" "vna_sock (vrst_set m s) = vna_sock s"
  by (simp_all add: reg_clear_def reg_set_def)

lemma written_freq_exact:
  assumes "vna_ranges b s" and "vna_freq_max b \<le> 62500000" and "vna_corr s = 0"
  shows "int (written_freq s 0) = vna_start s"
    and "1 < unat (vna_size s) \<Longrightarrow> int (written_freq s (unat (vna_size s) - 1)) = vna_stop s"
    and "vna_start s \<le> vna_stop s \<Longrightarrow> i \<le> j \<Longrightarrow> j < unat (vna_size s) \<Longrightarrow> written_freq s i \<le> written_freq s j"
proof -
  have r: "0 \<le> vna_start s" "vna_start s \<le> 62500000" "0 \<le> vna_stop s" "vna_stop s \<le> 62500000" "0 < unat (vna_size s)"
    using assms(1,2) by (auto simp: vna_ranges_def)
  define m where "m = unat (vna_size s)"
  have v: "int (written_freq s i) = (if i > 0 then vna_start s + (vna_stop s - vna_start s) * int i sdiv (int m - 1) else vna_start s)"
    if "i < m" for i
    using sweep_freq_value(1) [OF r(1-4)] that unfolding written_freq_def assms(3) corrected_0 m_def by blast
  show "int (written_freq s 0) = vna_start s"
    using v [of 0] r(5) unfolding m_def by simp
  show "int (written_freq s (unat (vna_size s) - 1)) = vna_stop s" if "1 < unat (vna_size s)"
  proof -
    have d: "0 < int m - 1" "int (m - 1) = int m - 1"
      using that unfolding m_def by linarith+
    have "(vna_stop s - vna_start s) * (int m - 1) sdiv (int m - 1) = vna_stop s - vna_start s"
      using sdiv_near(2,3) [OF d(1), of "(vna_stop s - vna_start s) * (int m - 1)"] d(1)
      by (cases "0 \<le> vna_stop s - vna_start s") (simp_all add: mult_nonpos_nonneg flip: mult_minus_left)
    then show ?thesis
      using v [of "m - 1"] that d(2) unfolding m_def [symmetric] by simp
  qed
  show "written_freq s i \<le> written_freq s j" if "vna_start s \<le> vna_stop s" "i \<le> j" "j < unat (vna_size s)"
  proof (cases "j = 0")
    case False
    then have d: "0 < int m - 1"
      using that(3) unfolding m_def by linarith
    have k: "(vna_stop s - vna_start s) * int k sdiv (int m - 1) = (vna_stop s - vna_start s) * int k div (int m - 1)" for k
      using that(1) by (intro sdiv_near(2) [OF d]) simp
    have "0 \<le> (vna_stop s - vna_start s) * int j div (int m - 1)"
      using that(1) d by (simp add: pos_imp_zdiv_nonneg_iff)
    moreover have "(vna_stop s - vna_start s) * int i div (int m - 1) \<le> (vna_stop s - vna_start s) * int j div (int m - 1)"
      using that(1,2) d by (intro zdiv_mono1 mult_left_mono) simp_all
    ultimately have "int (written_freq s i) \<le> int (written_freq s j)"
      using v [of i] v [of j] that(2,3) False unfolding k m_def [symmetric] by simp
    then show ?thesis by simp
  qed (use that(2) in simp)
qed

text \<open>What a computation wrote to the FIFO.\<close>

definition vna_new :: "vna \<Rightarrow> vna \<Rightarrow> u32 list" where
  "vna_new s s' = fifo_words (drop (length (trace s)) (trace s'))"

lemma vna_sweep_writes:
  "vna_new s (vna_sweep b sock s) = map (\<lambda>i. phase_inc (vna_clk b) (written_freq s i)) [0..<unat (vna_size s)]"
proof -
  have w: "sweep_word b s' i = phase_inc (vna_clk b) (written_freq s i)"
    if "vna_start s' = vna_start s" "vna_stop s' = vna_stop s" "vna_size s' = vna_size s" "vna_corr s' = vna_corr s" for s' i
    using that by (simp add: sweep_word_def written_freq_def)
  show ?thesis
    by (simp add: vna_new_def vna_sweep_def Let_def w)
qed

text \<open>C14. A sweep writes one phase increment for each point, of a frequency within 2.5 Hz of the exact one,
  correction included; without correction the first is the start and the last the stop frequency, and an
  upward sweep does not go back.\<close>

theorem sweep_frequencies:
  assumes "vna_ranges b s" and "b = vna_125 \<or> b = vna_122"
  shows "vna_new s (vna_sweep b sock s) = map (\<lambda>i. phase_inc (vna_clk b) (written_freq s i)) [0..<unat (vna_size s)] \<and>
    (i < unat (vna_size s) \<longrightarrow> \<bar>of_nat (written_freq s i) - ideal_freq s i\<bar> \<le> 5 / 2) \<and>
    (vna_corr s = 0 \<longrightarrow> int (written_freq s 0) = vna_start s \<and>
      (1 < unat (vna_size s) \<longrightarrow> int (written_freq s (unat (vna_size s) - 1)) = vna_stop s) \<and>
      (vna_start s \<le> vna_stop s \<and> i \<le> j \<and> j < unat (vna_size s) \<longrightarrow> written_freq s i \<le> written_freq s j))"
proof -
  have "vna_freq_max b \<le> 62500000"
    using assms(2) by (auto simp: vna_125_def vna_122_def)
  then show ?thesis
    using vna_sweep_writes written_near [OF assms(1)] written_freq_exact [OF assms(1)] by blast
qed

definition vna_idle :: vna where
  "vna_idle = \<lparr>regs = \<lambda>_. 0, trace = [], vna_start = 1000, vna_stop = 1010, vna_size = 4, vna_rate = 10, vna_corr = 0,
     vna_sock = - 1, rate_thread = 10, size_thread = 5000\<rparr>"

theorem sweep_frequencies_witness:
  "vna_new vna_idle (vna_sweep vna_125 5 vna_idle) = map (\<lambda>i. phase_inc clk_125 (written_freq vna_idle i)) [0..<4] \<and>
    \<bar>of_nat (written_freq vna_idle 2) - ideal_freq vna_idle 2\<bar> \<le> 5 / 2 \<and>
    int (written_freq vna_idle 0) = 1000 \<and> int (written_freq vna_idle 3) = 1010"
  using sweep_frequencies [of vna_125 vna_idle 5 2 3]
  by (simp add: vna_ranges_def vna_idle_def vna_125_def)

section \<open>The averages of the reader thread\<close>

text \<open>
  The average of a block of \<open>rate + 10\<close> samples: the first ten are discarded, the rest are added up in
  order and divided by \<open>rate\<close>.
\<close>

definition partial_sum :: "(nat \<Rightarrow> rat) list \<Rightarrow> nat \<Rightarrow> rat" where
  "partial_sum ws j = foldl (\<lambda>a w. fadd a (w j)) ((ws ! min 10 (length ws - 1)) j) (drop 11 ws)"

definition average :: "u32 \<Rightarrow> (nat \<Rightarrow> rat) list \<Rightarrow> rat list" where
  "average rate ws = map (\<lambda>j. fdiv (partial_sum ws j) (fl 24 (of_nat (unat rate)))) [0..<4]"

lemma partial_sum_snoc:
  "partial_sum (ws @ [w]) = (if length ws < 11 then w else (\<lambda>j. fadd (partial_sum ws j) (w j)))"
  by (auto simp: partial_sum_def fun_eq_iff nth_append min_def not_less)

text \<open>What a reader has read: complete blocks, whose averages are sent, and the beginning of a block.\<close>

definition has_read :: "nat \<Rightarrow> (nat \<Rightarrow> rat) list list \<Rightarrow> (nat \<Rightarrow> rat) list \<Rightarrow> vna_reader \<Rightarrow> bool" where
  "has_read L blocks ws r \<longleftrightarrow> unat (vr_rate r + 10) = L \<and> list_all (\<lambda>ws. length ws = L) blocks \<and> length ws < L \<and>
     vr_i r = length ws \<and> vr_cntr r = L * length blocks + length ws \<and>
     vr_sent r = map (average (vr_rate r)) blocks \<and> (ws \<noteq> [] \<longrightarrow> vr_buffer r = partial_sum ws)"

lemma reader_turn_reads:
  assumes "has_read L blocks ws r" and "0 \<le> vt_sock t" and "vt_ok t"
  obtains r' where "reader_turn t r = Inr r'" "vr_size r' = vr_size r" "vr_rate r' = vr_rate r"
    and "\<not> 4 \<le> unat (vt_level t) \<Longrightarrow> r' = r"
    and "4 \<le> unat (vt_level t) \<Longrightarrow> length ws + 1 < L \<Longrightarrow> has_read L blocks (ws @ [vt_words t]) r'"
    and "4 \<le> unat (vt_level t) \<Longrightarrow> length ws + 1 = L \<Longrightarrow> has_read L (blocks @ [ws @ [vt_words t]]) [] r'"
proof -
  define buffer where "buffer = (if vr_i r < 11 then vt_words t else (\<lambda>j. fadd (vr_buffer r j) (vt_words t j)))"
  have b: "buffer = partial_sum (ws @ [vt_words t])"
    using assms(1) by (auto simp: buffer_def has_read_def partial_sum_snoc)
  have "\<exists>r'. reader_turn t r = Inr r'"
    using assms(2,3) by (simp add: reader_turn_def Let_def)
  then obtain r' where r': "reader_turn t r = Inr r'"
    by blast
  have e: "length ws + 1 \<le> L"
    using assms(1) by (simp add: has_read_def)
  show ?thesis
  proof (rule that [OF r'])
    show "vr_size r' = vr_size r" "vr_rate r' = vr_rate r" and "\<not> 4 \<le> unat (vt_level t) \<Longrightarrow> r' = r"
      using r' assms(2) by (auto simp: reader_turn_def Let_def split: if_splits)
    show "has_read L blocks (ws @ [vt_words t]) r'" if "4 \<le> unat (vt_level t)" "length ws + 1 < L"
      using r' that assms b unfolding reader_turn_def buffer_def [symmetric]
      by (auto simp: has_read_def Let_def split: if_splits)
    show "has_read L (blocks @ [ws @ [vt_words t]]) [] r'" if "4 \<le> unat (vt_level t)" "length ws + 1 = L"
      using r' that assms b unfolding reader_turn_def buffer_def [symmetric]
      by (auto simp: has_read_def Let_def average_def split: if_splits)
  qed
qed

text \<open>The reader as an acquisition of single samples.\<close>

interpretation reader_acq: acquisition "\<lambda>_. reader_turn" vr_cntr "\<lambda>_. 1" "\<lambda>t n. 4 \<le> unat (vt_level t)"
    "\<lambda>t. 0 \<le> vt_sock t \<and> vt_ok t"
proof
  fix q q' :: vna_reader and amount :: nat and t
  assume "vr_cntr q < amount" "reader_turn t q = Inr q'"
  then show "1 = min 1 (amount - vr_cntr q) \<and> vr_cntr q' = vr_cntr q + (if 4 \<le> unat (vt_level t) then 1 else 0)"
    by (auto simp: reader_turn_def Let_def split: if_splits)
next
  fix q :: vna_reader and t :: vna_turn
  assume "0 \<le> vt_sock t \<and> vt_ok t"
  then show "\<exists>q'. reader_turn t q = Inr q'"
    by (simp add: reader_turn_def Let_def)
qed

text \<open>The samples of the turns in which the FIFO holds one.\<close>

definition delivered :: "vna_turn list \<Rightarrow> (nat \<Rightarrow> rat) list" where
  "delivered ts = map vt_words (filter (\<lambda>t. 4 \<le> unat (vt_level t)) ts)"

lemma delivered_simps [simp]:
  "delivered [] = []" "delivered (t # ts) = (if 4 \<le> unat (vt_level t) then vt_words t # delivered ts else delivered ts)"
  by (simp_all add: delivered_def)

lemma reader_run:
  assumes "reader_acq.loop n ts r = Some r'" and "has_read L blocks ws r" and "vr_cntr r \<le> n"
    and "list_all (\<lambda>t. 0 \<le> vt_sock t \<and> vt_ok t) ts"
  shows "\<exists>blocks' ws'. has_read L blocks' ws' r' \<and> vr_rate r' = vr_rate r \<and> vr_cntr r' = n \<and>
    concat blocks' @ ws' = concat blocks @ ws @ take (n - vr_cntr r) (delivered ts)"
  using assms
proof (induction ts arbitrary: r blocks ws)
  case Nil
  then show ?case by (auto split: if_splits)
next
  case (Cons t ts)
  show ?case
  proof (cases "vr_cntr r < n")
    case False
    then have "r' = r" "vr_cntr r = n"
      using Cons.prems(1,3) by simp_all
    then show ?thesis
      using Cons.prems(2) by auto
  next
    case True
    have ok: "0 \<le> vt_sock t" "vt_ok t" "list_all (\<lambda>t. 0 \<le> vt_sock t \<and> vt_ok t) ts"
      using Cons.prems(4) by simp_all
    obtain q where q: "reader_turn t r = Inr q" "vr_rate q = vr_rate r" "\<not> 4 \<le> unat (vt_level t) \<Longrightarrow> q = r"
      and part: "4 \<le> unat (vt_level t) \<Longrightarrow> length ws + 1 < L \<Longrightarrow> has_read L blocks (ws @ [vt_words t]) q"
      and full: "4 \<le> unat (vt_level t) \<Longrightarrow> length ws + 1 = L \<Longrightarrow> has_read L (blocks @ [ws @ [vt_words t]]) [] q"
      using reader_turn_reads [OF Cons.prems(2) ok(1,2)] by metis
    have l: "reader_acq.loop n ts q = Some r'"
      using Cons.prems(1) True q(1) by simp
    show ?thesis
    proof (cases "4 \<le> unat (vt_level t)")
      case False
      then show ?thesis
        using Cons.IH [OF l _ _ ok(3)] Cons.prems(2,3) q(3) by simp
    next
      case lv: True
      have c: "vr_cntr q = vr_cntr r + 1" "n - vr_cntr r = Suc (n - vr_cntr q)" "vr_cntr q \<le> n"
        using reader_acq.turn [OF True q(1)] lv True by simp_all
      have "length ws + 1 < L \<or> length ws + 1 = L"
        using Cons.prems(2) by (auto simp: has_read_def)
      then obtain blocks' ws' where h: "has_read L blocks' ws' q" "concat blocks' @ ws' = concat blocks @ ws @ [vt_words t]"
        using part [OF lv] full [OF lv] by fastforce
      show ?thesis
        using Cons.IH [OF l h(1) c(3) ok(3)] h(2) c(2) lv q(2) append_assoc [of "concat blocks'" ws']
        by (auto simp del: append_assoc simp flip: append_assoc) (metis append.assoc append_Cons append_Nil)
    qed
  qed
qed

lemma reader_points_value:
  fixes n rate :: u32
  assumes "unat n \<le> 32768" and "unat rate \<le> 100000"
  shows "unat (rate + 10) = unat rate + 10" and "unat (n * (rate + 10)) = unat n * (unat rate + 10)"
proof -
  show r: "unat (rate + 10) = unat rate + 10"
    using assms(2) by (simp add: unat_word_ariths)
  have "unat n * (unat rate + 10) \<le> 32768 * 100010"
    using assms by (intro mult_mono) simp_all
  then show "unat (n * (rate + 10)) = unat n * (unat rate + 10)"
    by (simp add: unat_word_ariths(2) r)
qed

text \<open>C13. A reader whose socket stays open takes exactly \<open>size * (rate + 10)\<close> samples and sends, for each
  point in turn, the average of its block of \<open>rate + 10\<close> samples without the first ten; when as many turns
  find a sample it does end. The product does not overflow.\<close>

theorem reader_averages:
  assumes "1 \<le> unat n" "unat n \<le> 32768" and "10 \<le> unat rate" "unat rate \<le> 100000"
    and "list_all (\<lambda>t. 0 \<le> vt_sock t \<and> vt_ok t) ts"
  shows "(\<forall>r'. read_handler ts (reader_start rate n junk) = Some r' \<longrightarrow>
      (\<exists>blocks. vr_sent r' = map (average rate) blocks \<and> length blocks = unat n \<and>
        list_all (\<lambda>ws. length ws = unat rate + 10) blocks \<and>
        concat blocks = take (unat n * (unat rate + 10)) (delivered ts))) \<and>
    (list_all (\<lambda>t. 4 \<le> unat (vt_level t)) ts \<and> unat n * (unat rate + 10) \<le> length ts \<longrightarrow>
      (\<exists>r'. read_handler ts (reader_start rate n junk) = Some r'))"
proof (intro conjI allI impI)
  let ?L = "unat rate + 10" and ?r = "reader_start rate n junk"
  note val = reader_points_value [OF assms(2,4)]
  have p: "reader_points ?r = unat n * ?L"
    by (simp add: reader_points_def reader_start_def val)
  have h: "has_read ?L [] [] ?r"
    by (simp add: has_read_def reader_start_def val)
  show "\<exists>blocks. vr_sent r' = map (average rate) blocks \<and> length blocks = unat n \<and>
        list_all (\<lambda>ws. length ws = ?L) blocks \<and> concat blocks = take (unat n * ?L) (delivered ts)"
    if run: "read_handler ts ?r = Some r'" for r'
  proof -
    have "reader_acq.loop (unat n * ?L) ts ?r = Some r'"
      using run p by (simp add: read_handler_def)
    from reader_run [OF this h _ assms(5)]
    obtain blocks ws where b: "has_read ?L blocks ws r'" "vr_rate r' = rate" "vr_cntr r' = unat n * ?L"
        "concat blocks @ ws = take (unat n * ?L) (delivered ts)"
      by (auto simp: reader_start_def)
    then have "length ws = (unat n * ?L) mod ?L" and "length blocks = (unat n * ?L) div ?L"
      unfolding has_read_def by (metis mod_mult_self2 add.commute mod_less, metis div_mult_self2 add.commute div_less add_0 gr_implies_not0 less_nat_zero_code)
    then have "ws = []" "length blocks = unat n"
      by simp_all
    then show ?thesis
      using b by (auto simp: has_read_def)
  qed
  show "\<exists>r'. read_handler ts ?r = Some r'"
    if t: "list_all (\<lambda>t. 4 \<le> unat (vt_level t)) ts \<and> unat n * ?L \<le> length ts"
  proof -
    have "list_all (\<lambda>t. (0 \<le> vt_sock t \<and> vt_ok t) \<and> (\<forall>k\<le>1. 4 \<le> unat (vt_level t))) ts"
      using t assms(5) by (auto simp: list_all_iff)
    then have "\<exists>r'. reader_acq.loop (unat n * ?L) ts ?r = Some r' \<and> vr_cntr r' = unat n * ?L"
      using t by (intro reader_acq.ends [of 1]) (auto simp: reader_start_def list_all_iff)
    then show ?thesis
      by (auto simp: read_handler_def p)
  qed
qed

definition sample_turn :: "rat \<Rightarrow> vna_turn" where
  "sample_turn x = \<lparr>vt_sock = 5, vt_level = 4, vt_words = (\<lambda>j. x), vt_ok = True\<rparr>"

theorem reader_averages_witness:
  "(\<exists>r'. read_handler (map (sample_turn \<circ> of_nat) [0..<20]) (reader_start 10 1 (\<lambda>_. 0)) = Some r') \<and>
   average 10 (map (\<lambda>i j. of_nat i) [0..<20]) = [29 / 2, 29 / 2, 29 / 2, 29 / 2]"
proof
  show "\<exists>r'. read_handler (map (sample_turn \<circ> of_nat) [0..<20]) (reader_start 10 1 (\<lambda>_. 0)) = Some r'"
    using reader_averages [of 1 10 "map (sample_turn \<circ> of_nat) [0..<20]" "\<lambda>_. 0"]
    by (simp add: sample_turn_def list_all_iff)
  show "average 10 (map (\<lambda>i j. of_nat i) [0..<20]) = [29 / 2, 29 / 2, 29 / 2, 29 / 2]"
    by code_simp
qed

section \<open>The settings in every reachable state\<close>

definition rates_ok :: "u32 \<Rightarrow> u32 \<Rightarrow> bool" where
  "rates_ok n rate \<longleftrightarrow> 1 \<le> unat n \<and> unat n \<le> 32768 \<and> 10 \<le> unat rate \<and> unat rate \<le> 100000"

definition vna_ok :: "vna_board \<Rightarrow> vna \<Rightarrow> bool" where
  "vna_ok b s \<longleftrightarrow> vna_ranges b s \<and> rates_ok (size_thread s) (rate_thread s) \<and>
     rd32 4 s = vna_samples b * (vna_rate s + 10) - 1 \<and> rd32 8 s \<le> 2 ^ 30 \<and> rd32 12 s \<le> 2 ^ 30 \<and>
     \<bar>sint (rd16 16 s)\<bar> \<le> 32766 \<and> \<bar>sint (rd16 18 s)\<bar> \<le> 32766"

definition reader_ok :: "vna_reader \<Rightarrow> bool" where
  "reader_ok r \<longleftrightarrow> rates_ok (vr_size r) (vr_rate r) \<and> vr_i r < unat (vr_rate r) + 10 \<and>
     vr_cntr r \<le> unat (vr_size r) * (unat (vr_rate r) + 10)"

lemma vna_ok_frame:
  assumes "vna_ok b s" and "\<And>a. 1 < a \<Longrightarrow> regs s' a = regs s a" and "vna_ranges b s' = vna_ranges b s"
    and "vna_rate s' = vna_rate s" and "size_thread s' = size_thread s" "rate_thread s' = rate_thread s"
  shows "vna_ok b s'"
  using assms by (simp add: vna_ok_def rd16_def rd32_def)

lemma phase_bound:
  assumes "f \<le> 360"
  shows "phase_inc 360 f \<le> 2 ^ 30"
proof -
  have "of_nat f \<le> (of_nat 360 :: rat)"
    using assms by (rule of_nat_mono)
  then have "phase_inc 360 f = word_of_nat ((2 * f * 2 ^ 27 + 45) div (2 * 45))"
    using phase_inc_fraction [of 360 45 "2 ^ 27" f] by simp
  moreover have "(2 * f * 2 ^ 27 + 45) div 90 \<le> (2 * 360 * 2 ^ 27 + 45) div 90"
    using assms by (intro div_le_mono) simp
  ultimately show ?thesis
    by (simp add: word_le_nat_alt unat_of_nat_small)
qed

lemma vna_updates [simp]:
  "rd8 a (vna_start_update f s) = rd8 a s" "rd16 a (vna_start_update f s) = rd16 a s" "rd32 a (vna_start_update f s) = rd32 a s"
  "rd16 a (vna_stop_update f s) = rd16 a s" "rd32 a (vna_stop_update f s) = rd32 a s"
  "rd16 a (vna_size_update g s) = rd16 a s" "rd32 a (vna_size_update g s) = rd32 a s"
  "rd16 a (vna_rate_update g s) = rd16 a s" "rd32 a (vna_rate_update g s) = rd32 a s"
  "rd16 a (vna_corr_update f s) = rd16 a s" "rd32 a (vna_corr_update f s) = rd32 a s"
  by (simp_all add: rd_defs)

lemma vna_wr_fields [simp]:
  "vna_start (wr32 off v s) = vna_start s" "vna_stop (wr32 off v s) = vna_stop s" "vna_size (wr32 off v s) = vna_size s"
  "vna_corr (wr32 off v s) = vna_corr s" "vna_rate (wr32 off v s) = vna_rate s"
  "rate_thread (wr32 off v s) = rate_thread s" "size_thread (wr32 off v s) = size_thread s"
  "vna_start (wr16 off h s) = vna_start s" "vna_stop (wr16 off h s) = vna_stop s" "vna_size (wr16 off h s) = vna_size s"
  "vna_corr (wr16 off h s) = vna_corr s" "vna_rate (wr16 off h s) = vna_rate s"
  "rate_thread (wr16 off h s) = rate_thread s" "size_thread (wr16 off h s) = size_thread s"
  by (simp_all add: wr_defs store_def)

lemma word_in_range:
  assumes "int lo \<le> v" and "v \<le> int hi" and "hi < 2 ^ 32"
  shows "lo \<le> unat (word_of_int v :: u32) \<and> unat (word_of_int v :: u32) \<le> hi"
proof -
  have "unat (word_of_int v :: u32) = nat v"
    using assms by (simp add: unsigned_of_int take_bit_int_eq_self)
  then show ?thesis
    using assms(1,2) by linarith
qed

lemma signed_in_range:
  assumes "- 32766 \<le> v" and "v \<le> 32766"
  shows "\<bar>sint (word_of_int v :: u16)\<bar> \<le> 32766"
  using assms by (simp add: signed_of_int signed_take_bit_int_eq_self)

lemma vna_regs_bits:
  "1 < a \<Longrightarrow> regs (vrst_clear m s) a = regs s a" "1 < a \<Longrightarrow> regs (vrst_set m s) a = regs s a"
  by (simp_all add: reg_clear_def reg_set_def regs_wr_out)

lemma vna_settings_ok:
  assumes "vna_ok b s"
  shows "vna_ok b (vna_set_start b v s)" "vna_ok b (vna_set_stop b v s)" "vna_ok b (vna_set_size v s)"
    "vna_ok b (vna_set_rate b v s)" "vna_ok b (vna_set_corr v s)"
    "vna_ok b (vna_set_phase 0 v s)" "vna_ok b (vna_set_phase 1 v s)"
    "vna_ok b (vna_set_level 0 v s)" "vna_ok b (vna_set_level 1 v s)" "vna_ok b (vna_set_gpio v s)"
  using assms word_in_range [of 1 v 32768] word_in_range [of 10 v 100000] phase_bound [of "nat v"] signed_in_range [of v]
  by (auto simp: vna_ok_def vna_ranges_def vna_set_start_def vna_set_stop_def vna_set_size_def vna_set_rate_def
      vna_set_corr_def vna_set_phase_def vna_set_level_def vna_set_gpio_def Let_def)

lemma vna_control_ok:
  assumes "vna_ok b s"
  shows "vna_ok b (vna_sweep b sock s)" "vna_ok b (vna_cancel s)" "vna_ok b (vna_leave s)"
proof -
  have r: "rates_ok (vna_size s) (vna_rate s)"
    using assms by (simp add: vna_ok_def vna_ranges_def rates_ok_def)
  then have "vna_ok b (s\<lparr>rate_thread := vna_rate s, size_thread := vna_size s\<rparr>)"
    using assms by (simp add: vna_ok_def vna_ranges_def rd16_def rd32_def)
  then show "vna_ok b (vna_sweep b sock s)"
    by (rule vna_ok_frame) (simp_all add: vna_sweep_def Let_def vna_regs_bits vna_ranges_def)
  show "vna_ok b (vna_cancel s)" "vna_ok b (vna_leave s)"
    by (rule vna_ok_frame [OF assms];
        simp add: vna_cancel_def vna_leave_def Let_def vna_regs_bits vna_ranges_def regs_wr_out)+
qed

lemma vna_command_ok:
  assumes "vna_ok b s"
  shows "vna_ok b (snd (vna_command b sock c s))"
  using vna_settings_ok [OF assms] vna_control_ok [OF assms] assms by (simp add: vna_command_def Let_def)

lemma vna_init_ok: "b = vna_125 \<or> b = vna_122 \<Longrightarrow> vna_ok b (vna_init b s)"
  by (auto simp: vna_ok_def vna_ranges_def rates_ok_def vna_init_def vna_125_def vna_122_def Let_def reg_clear_def)

lemma reader_turn_ok:
  assumes "reader_ok r" and "vr_cntr r < reader_points r" and "reader_turn t r = Inr r'"
  shows "reader_ok r'"
proof -
  have v: "unat (vr_rate r + 10) = unat (vr_rate r) + 10" "reader_points r = unat (vr_size r) * (unat (vr_rate r) + 10)"
    using assms(1) reader_points_value [of "vr_size r" "vr_rate r"] by (auto simp: reader_ok_def rates_ok_def reader_points_def)
  show ?thesis
    using assms by (auto simp: reader_turn_def Let_def reader_ok_def v split: if_splits)
qed

definition readers_ok :: "vna_system \<Rightarrow> bool" where
  "readers_ok t \<longleftrightarrow> (\<forall>r. Reading r \<in> set (vs_readers t) \<longrightarrow> reader_ok r)"

lemma vna_step_ok:
  assumes "vna_step b t t'" and "vna_ok b (vs_state t)" and "readers_ok t"
  shows "vna_ok b (vs_state t') \<and> readers_ok t'"
  using assms(1)
proof (cases rule: vna_step.cases)
  case (command sock c created s)
  then show ?thesis
    using assms(2,3) vna_command_ok [OF assms(2), of sock c] by (auto simp: readers_ok_def)
next
  case (begin_reader ps qs r junk)
  have "reader_ok r"
    using assms(2) begin_reader(3) by (simp add: reader_ok_def reader_start_def vna_ok_def)
  with begin_reader assms(2,3) show ?thesis by (auto simp: readers_ok_def)
next
  case (read ps r qs i r')
  have "reader_ok r"
    using assms(3) read(2) by (simp add: readers_ok_def)
  then have "reader_ok r'"
    using read(3,5) by (rule reader_turn_ok)
  with read assms(2,3) show ?thesis by (auto simp: readers_ok_def)
qed (use assms(2,3) vna_control_ok(3) in \<open>auto simp: readers_ok_def\<close>)

text \<open>In every state the server of either board reaches, with any number of readers, the settings are in
  their ranges, the number of samples per point follows the rate, phases and levels fit their registers, and
  no reader runs past its block or takes more samples than its sweep has, a product below \<open>2 ^ 32\<close>.\<close>

theorem vna_reachable_settings:
  assumes "vna_reachable b t" and "b = vna_125 \<or> b = vna_122"
  shows "vna_ok b (vs_state t) \<and>
    list_all (\<lambda>p. case p of Created \<Rightarrow> True
      | Reading r \<Rightarrow> vr_i r < unat (vr_rate r) + 10 \<and> vr_cntr r \<le> unat (vr_size r) * (unat (vr_rate r) + 10) \<and>
          reader_points r = unat (vr_size r) * (unat (vr_rate r) + 10)) (vs_readers t)"
proof -
  have "vna_ok b (vs_state t) \<and> readers_ok t"
    using assms(1)
  proof induction
    case (start s)
    then show ?case using vna_init_ok [OF assms(2)] by (simp add: readers_ok_def)
  next
    case (step t t')
    then show ?case using vna_step_ok by blast
  qed
  then show ?thesis
    using reader_points_value
    by (auto simp: list_all_iff readers_ok_def reader_ok_def rates_ok_def reader_points_def split: reader_phase.split)
qed

lemma vna_commanded:
  assumes "vna_reachable b \<lparr>vs_state = s, vs_client = Some sock, vs_readers = rs\<rparr>"
    and "vna_command b sock c s = (created, s')"
  shows "vna_reachable b \<lparr>vs_state = s', vs_client = Some sock, vs_readers = rs @ (if created then [Created] else [])\<rparr>"
proof -
  have "vna_step b \<lparr>vs_state = s, vs_client = Some sock, vs_readers = rs\<rparr>
      \<lparr>vs_state = s', vs_client = Some sock, vs_readers = rs @ (if created then [Created] else [])\<rparr>"
    using vna_step.command [of "\<lparr>vs_state = s, vs_client = Some sock, vs_readers = rs\<rparr>" sock b c created s'] assms(2) by simp
  then show ?thesis
    by (rule vna_reachable.step [OF assms(1)])
qed

text \<open>A client has connected, set the rate to 20 and started a sweep, whose reader runs.\<close>

definition demo_sweep :: vna where
  "demo_sweep = vna_sweep vna_125 5 (vna_set_rate vna_125 20 (vna_init vna_125 vna_idle))"

definition demo_system :: vna_system where
  "demo_system = \<lparr>vs_state = demo_sweep, vs_client = Some 5,
     vs_readers = [Reading (reader_start (rate_thread demo_sweep) (size_thread demo_sweep) (\<lambda>_. 0))]\<rparr>"

lemma demo_reachable: "vna_reachable vna_125 demo_system"
proof -
  let ?s = "vna_init vna_125 vna_idle"
  let ?t0 = "\<lparr>vs_state = ?s, vs_client = None, vs_readers = []\<rparr>"
  have "vna_step vna_125 ?t0 (?t0\<lparr>vs_client := Some 5\<rparr>)"
    by (rule vna_step.accept) simp_all
  then have 1: "vna_reachable vna_125 \<lparr>vs_state = ?s, vs_client = Some 5, vs_readers = []\<rparr>"
    using vna_reachable.step [OF vna_reachable.start] by simp
  have "vna_command vna_125 5 (vna_word 3 20) ?s = (False, vna_set_rate vna_125 20 ?s)"
    by (simp add: vna_command_def vna_decode Let_def)
  from vna_commanded [OF 1 this]
  have 2: "vna_reachable vna_125 \<lparr>vs_state = vna_set_rate vna_125 20 ?s, vs_client = Some 5, vs_readers = []\<rparr>"
    by simp
  have "vna_command vna_125 5 (vna_word 10 0) (vna_set_rate vna_125 20 ?s) = (True, demo_sweep)"
    by (simp add: vna_command_def vna_decode Let_def demo_sweep_def)
  from vna_commanded [OF 2 this]
  have 3: "vna_reachable vna_125 \<lparr>vs_state = demo_sweep, vs_client = Some 5, vs_readers = [Created]\<rparr>"
    by simp
  have "vna_step vna_125 \<lparr>vs_state = demo_sweep, vs_client = Some 5, vs_readers = [Created]\<rparr> demo_system"
    using vna_step.begin_reader [of "\<lparr>vs_state = demo_sweep, vs_client = Some 5, vs_readers = [Created]\<rparr>" "[]" "[]"
        "reader_start (rate_thread demo_sweep) (size_thread demo_sweep) (\<lambda>_. 0)" "\<lambda>_. 0" vna_125]
    by (simp add: demo_system_def)
  then show ?thesis
    by (rule vna_reachable.step [OF 3])
qed

theorem vna_reachable_settings_witness:
  "vna_ok vna_125 demo_sweep"
  using vna_reachable_settings [OF demo_reachable] by (simp add: demo_system_def)

text \<open>A cancelled reader that has not looked at the socket survives: when the client cancels a sweep and
  starts another before the reader wakes up, both readers share the FIFO and the socket.\<close>

theorem cancelled_reader_survives:
  assumes "vna_reachable b t" and "vs_client t = Some sock"
  shows "\<exists>t'. vna_reachable b t' \<and> vs_state t' = vna_sweep b sock (vna_cancel (vs_state t)) \<and>
    vna_sock (vs_state t') = sock \<and> vs_readers t' = vs_readers t @ [Created]"
proof -
  define s where "s = vs_state t"
  have t: "t = \<lparr>vs_state = s, vs_client = Some sock, vs_readers = vs_readers t\<rparr>"
    using assms(2) by (simp add: s_def)
  have c: "vna_command b sock (vna_word 11 0) s = (False, vna_cancel s)"
    by (simp add: vna_command_def vna_decode Let_def)
  have w: "vna_command b sock (vna_word 10 0) (vna_cancel s) = (True, vna_sweep b sock (vna_cancel s))"
    by (simp add: vna_command_def vna_decode Let_def)
  have "vna_reachable b \<lparr>vs_state = vna_cancel s, vs_client = Some sock, vs_readers = vs_readers t\<rparr>"
    using vna_commanded [OF _ c, of "vs_readers t"] assms(1) t by simp
  from vna_commanded [OF this w]
  have "vna_reachable b \<lparr>vs_state = vna_sweep b sock (vna_cancel s), vs_client = Some sock, vs_readers = vs_readers t @ [Created]\<rparr>"
    by simp
  moreover have "vna_sock (vna_sweep b sock s) = sock" for s
    by (simp add: vna_sweep_def Let_def)
  ultimately show ?thesis
    unfolding s_def by - (intro exI conjI, assumption, simp_all)
qed

theorem cancelled_reader_survives_witness:
  "\<exists>t' r. vna_reachable vna_125 t' \<and> vna_sock (vs_state t') = 5 \<and> vs_readers t' = [Reading r, Created]"
proof -
  have "vs_client demo_system = Some 5"
    by (simp add: demo_system_def)
  from cancelled_reader_survives [OF demo_reachable this] show ?thesis
    by (auto simp: demo_system_def)
qed

end
