(* ===== verification/Four_jobs.thy ===== *)
theory Four_jobs
  imports Acquire
begin

text \<open>
  What \<open>projects/sdr_transceiver/server/sdr-transceiver.c\<close> and
  \<open>projects/sdr_transceiver_wide/server/sdr-transceiver-wide.c\<close> share: \<open>main\<close> reads the number of a job
  from a new connection, enters the socket in \<open>sock_thread\<close> and creates the thread of that job, the control
  or the data of the receiver or of the transmitter. A program is the record of its handlers. The locale
  states what the handlers promise, and proves that a job has one thread and that registers are at their
  defaults while no control thread runs.
\<close>

record sdr = machine +
  sdr_sock :: "nat \<Rightarrow> int"

text \<open>The jobs are numbered 0 (receiver control), 1 (receiver data), 2 and 3 (transmitter). A thread is
  created, runs with its socket and its buffer, or has left its loop.\<close>

datatype sdr_pc = Fresh | Running int "u8 list" | Closing

record sdr_system =
  ss_state :: sdr
  ss_threads :: "(nat \<times> sdr_pc) list"

text \<open>
  The handlers: registers at start, what a handler does before and after its loop, the body of the loop of
  the control handlers for a command, and a turn of the data handlers. The arguments of a turn are the
  readings of the counter, the words or bytes that arrive, and whether \<open>send\<close> succeeds; \<open>Inl\<close> leaves the
  loop, \<open>None\<close> waits for ever. Last the size of the data handlers' buffers in bytes.
\<close>

record sdr_program =
  prog_init :: "sdr \<Rightarrow> sdr"
  prog_start :: "nat \<Rightarrow> sdr \<Rightarrow> sdr"
  prog_end :: "nat \<Rightarrow> sdr \<Rightarrow> sdr"
  prog_rx_command :: "u32 \<Rightarrow> sdr \<Rightarrow> sdr"
  prog_tx_command :: "u32 \<Rightarrow> sdr \<Rightarrow> sdr"
  prog_rx_turn :: "u16 \<Rightarrow> u16 list \<Rightarrow> u32 list \<Rightarrow> bool \<Rightarrow> sdr \<Rightarrow> (sdr + sdr) option"
  prog_tx_turn :: "u16 list \<Rightarrow> u16 \<Rightarrow> u8 list \<Rightarrow> u8 list \<Rightarrow> sdr \<Rightarrow> (sdr + u8 list \<times> sdr) option"
  prog_buffer :: nat

text \<open>The body of \<open>main\<close>'s loop: whether the socket of a new connection for a job is accepted.\<close>

definition sdr_accept :: "nat \<Rightarrow> int \<Rightarrow> sdr \<Rightarrow> sdr option" where
  "sdr_accept k sock s =
     (if k > 3 \<or> sdr_sock s k > - 1 then None else Some (s\<lparr>sdr_sock := (sdr_sock s)(k := sock)\<rparr>))"

inductive sdr_step :: "sdr_program \<Rightarrow> sdr_system \<Rightarrow> sdr_system \<Rightarrow> bool" for p where
  accept: "0 \<le> sock \<Longrightarrow> sdr_accept k sock (ss_state t) = Some s \<Longrightarrow>
    sdr_step p t (t\<lparr>ss_state := s, ss_threads := ss_threads t @ [(k, Fresh)]\<rparr>)"
| begin_job: "ss_threads t = ps @ (k, Fresh) # qs \<Longrightarrow> length junk = prog_buffer p \<Longrightarrow>
    sdr_step p t (t\<lparr>ss_state := prog_start p k (ss_state t),
      ss_threads := ps @ (k, Running (sdr_sock (ss_state t) k) junk) # qs\<rparr>)"
| rx_command: "(0, Running sock buf) \<in> set (ss_threads t) \<Longrightarrow>
    sdr_step p t (t\<lparr>ss_state := prog_rx_command p c (ss_state t)\<rparr>)"
| tx_command: "(2, Running sock buf) \<in> set (ss_threads t) \<Longrightarrow>
    sdr_step p t (t\<lparr>ss_state := prog_tx_command p c (ss_state t)\<rparr>)"
| rx_data: "(1, Running sock buf) \<in> set (ss_threads t) \<Longrightarrow>
    prog_rx_turn p level waits block True (ss_state t) = Some (Inr s) \<Longrightarrow>
    sdr_step p t (t\<lparr>ss_state := s\<rparr>)"
| tx_data: "ss_threads t = ps @ (3, Running sock buf) # qs \<Longrightarrow>
    prog_tx_turn p waits level received buf (ss_state t) = Some (Inr (buf', s)) \<Longrightarrow>
    sdr_step p t (t\<lparr>ss_state := s, ss_threads := ps @ (3, Running sock buf') # qs\<rparr>)"
| end_control: "ss_threads t = ps @ (k, Running sock buf) # qs \<Longrightarrow> k = 0 \<or> k = 2 \<Longrightarrow>
    sdr_step p t (t\<lparr>ss_state := prog_end p k (ss_state t), ss_threads := ps @ (k, Closing) # qs\<rparr>)"
| end_rx_data: "ss_threads t = ps @ (1, Running sock buf) # qs \<Longrightarrow>
    prog_rx_turn p level waits block False (ss_state t) = Some (Inl s) \<Longrightarrow>
    sdr_step p t (t\<lparr>ss_state := prog_end p 1 s, ss_threads := ps @ (1, Closing) # qs\<rparr>)"
| end_tx_data: "ss_threads t = ps @ (3, Running sock buf) # qs \<Longrightarrow>
    prog_tx_turn p waits level [] buf (ss_state t) = Some (Inl s) \<Longrightarrow>
    sdr_step p t (t\<lparr>ss_state := prog_end p 3 s, ss_threads := ps @ (3, Closing) # qs\<rparr>)"
| release: "ss_threads t = ps @ (k, Closing) # qs \<Longrightarrow>
    sdr_step p t (t\<lparr>ss_state := (ss_state t)\<lparr>sdr_sock := (sdr_sock (ss_state t))(k := - 1)\<rparr>, ss_threads := ps @ qs\<rparr>)"

inductive sdr_reachable :: "sdr_program \<Rightarrow> sdr_system \<Rightarrow> bool" for p where
  start: "sdr_reachable p \<lparr>ss_state = prog_init p s, ss_threads = []\<rparr>"
| step: "sdr_reachable p t \<Longrightarrow> sdr_step p t t' \<Longrightarrow> sdr_reachable p t'"

section \<open>Parts of the data handlers\<close>

text \<open>\<open>while(c(reading)) usleep(500);\<close> on the successive readings of a counter. \<open>None\<close>: still waiting.\<close>

fun wait_while :: "(u16 \<Rightarrow> bool) \<Rightarrow> u16 list \<Rightarrow> sdr \<Rightarrow> sdr option" where
  "wait_while c [] s = None"
| "wait_while c (l # ls) s = (if c l then wait_while c ls (emit (Sleep 500) s) else Some s)"

text \<open>The 32-bit words of a buffer of bytes, as \<open>memcpy\<close> stores them to the FIFO.\<close>

definition words_of :: "u8 list \<Rightarrow> u32 list" where
  "words_of bs = map (\<lambda>i. le32_at bs (4 * i)) [0..<length bs div 4]"

section \<open>Slots\<close>

lemma sdr_sock_simps [simp]:
  "sdr_sock (wr8 off v s) = sdr_sock s" "sdr_sock (wr16 off h s) = sdr_sock s" "sdr_sock (wr32 off w s) = sdr_sock s"
  "sdr_sock (emit e s) = sdr_sock s"
  by (simp_all add: wr_defs store_def emit_def)

lemma sdr_sock_ports [simp]: "sdr_sock (to_port q ws s) = sdr_sock s"
  by (induction ws arbitrary: s) simp_all

lemma sdr_sock_pulse [simp]: "sdr_sock (pulse (rd8 off) (wr8 off) m s) = sdr_sock s"
  by (simp add: pulse_def reg_set_def reg_clear_def)

text \<open>The data handlers write no register but the resets at offsets 0 and 1.\<close>

definition rst_only :: "sdr \<Rightarrow> sdr \<Rightarrow> bool" where
  "rst_only s s' \<longleftrightarrow> sdr_sock s' = sdr_sock s \<and> (\<forall>a\<ge>2. regs s' a = regs s a)"

lemma rst_only_refl [simp]: "rst_only s s"
  by (simp add: rst_only_def)

lemma rst_only_rd:
  assumes "rst_only s s'" and "2 \<le> off"
  shows "rd8 off s' = rd8 off s" "rd16 off s' = rd16 off s" "rd32 off s' = rd32 off s"
  using assms by (simp_all add: rst_only_def rd_defs)

lemma rst_only_ops [simp]:
  "rst_only s (emit e s') = rst_only s s'" "rst_only s (to_port q ws s') = rst_only s s'"
  "rst_only s (pulse (rd8 0) (wr8 0) m s') = rst_only s s'" "rst_only s (pulse (rd8 (Suc 0)) (wr8 (Suc 0)) m s') = rst_only s s'"
  "rst_only (emit e s) s' = rst_only s s'"
  "rst_only (pulse (rd8 0) (wr8 0) m s) s' = rst_only s s'" "rst_only (pulse (rd8 (Suc 0)) (wr8 (Suc 0)) m s) s' = rst_only s s'"
  by (simp_all add: rst_only_def) (auto simp: pulse_def reg_set_def reg_clear_def wr8_def regs_store)

lemma wait_while_rst:
  "wait_while c ls s = Some s' \<Longrightarrow> rst_only s s' \<and> (\<exists>es. trace s' = trace s @ es \<and> fifo_words es = [])"
proof (induction c ls s rule: wait_while.induct)
  case (2 c l ls s)
  show ?case
  proof (cases "c l")
    case True
    then obtain es where "trace s' = trace (emit (Sleep 500) s) @ es" "fifo_words es = []" "rst_only (emit (Sleep 500) s) s'"
      using 2 by auto
    then show ?thesis
      by auto
  qed (use 2(2) in simp)
qed simp

definition active :: "nat \<Rightarrow> sdr_system \<Rightarrow> bool" where
  "active k t \<longleftrightarrow> (\<exists>sock buf. (k, Running sock buf) \<in> set (ss_threads t))"

lemma keyed: "(k, pc) \<in> A \<Longrightarrow> k \<in> fst ` A"
  by force

lemma active_replaced:
  "active j (t\<lparr>ss_state := s, ss_threads := ps @ (k, pc') # qs\<rparr>) \<longleftrightarrow>
     (j = k \<and> (\<exists>sock buf. pc' = Running sock buf)) \<or> (\<exists>sock buf. (j, Running sock buf) \<in> set ps \<union> set qs)"
  by (auto simp: active_def)

lemma active_split:
  assumes "ss_threads t = ps @ (k, pc) # qs" and "j \<noteq> k"
  shows "active j t \<longleftrightarrow> (\<exists>sock buf. (j, Running sock buf) \<in> set ps \<union> set qs)"
  using assms by (auto simp: active_def)

text \<open>A thread of a job serves the socket in the slot of the job.\<close>

definition slots_inv :: "nat \<Rightarrow> sdr_system \<Rightarrow> bool" where
  "slots_inv n t \<longleftrightarrow> distinct (map fst (ss_threads t)) \<and>
     (\<forall>k. sdr_sock (ss_state t) k > - 1 \<longleftrightarrow> k \<in> fst ` set (ss_threads t)) \<and>
     (\<forall>k \<in> fst ` set (ss_threads t). k \<le> 3) \<and>
     (\<forall>k sock buf. (k, Running sock buf) \<in> set (ss_threads t) \<longrightarrow> sock = sdr_sock (ss_state t) k \<and> length buf = n)"

lemma slots_running:
  "slots_inv n t \<Longrightarrow> (k, Running sock buf) \<in> set (ss_threads t) \<Longrightarrow> sock = sdr_sock (ss_state t) k \<and> length buf = n"
  by (simp add: slots_inv_def)

lemma slots_replaced:
  assumes "slots_inv n t" and "ss_threads t = ps @ (k, pc) # qs" and "sdr_sock s = sdr_sock (ss_state t)"
    and "\<And>sock buf. pc' = Running sock buf \<Longrightarrow> sock = sdr_sock (ss_state t) k \<and> length buf = n"
  shows "slots_inv n (t\<lparr>ss_state := s, ss_threads := ps @ (k, pc') # qs\<rparr>)"
proof -
  have "fst ` set (ps @ (k, pc') # qs) = fst ` set (ss_threads t)" "map fst (ps @ (k, pc') # qs) = map fst (ss_threads t)"
    by (simp_all add: assms(2))
  then show ?thesis
    using assms unfolding slots_inv_def by (auto split: sdr_pc.splits)
qed

lemma slots_released:
  assumes "slots_inv n t" and th: "ss_threads t = ps @ (k, Closing) # qs"
  shows "slots_inv n (t\<lparr>ss_state := (ss_state t)\<lparr>sdr_sock := (sdr_sock (ss_state t))(k := - 1)\<rparr>, ss_threads := ps @ qs\<rparr>)"
proof -
  define s where "s = (ss_state t)\<lparr>sdr_sock := (sdr_sock (ss_state t))(k := - 1)\<rparr>"
  have sock: "sdr_sock s = (sdr_sock (ss_state t))(k := - 1)"
    by (simp add: s_def)
  have k: "k \<notin> fst ` set ps" "k \<notin> fst ` set qs"
    using assms(1) by (auto simp: slots_inv_def th)
  have "\<forall>j. sdr_sock s j > - 1 \<longleftrightarrow> j \<in> fst ` set (ps @ qs)"
    using assms(1) k by (auto simp: slots_inv_def th sock)
  moreover have "sock = sdr_sock s j \<and> length buf = n" if "(j, Running sock buf) \<in> set (ps @ qs)" for j sock buf
  proof -
    have "j \<noteq> k" "(j, Running sock buf) \<in> set (ss_threads t)"
      using that k keyed by (fastforce simp: th)+
    then show ?thesis
      using slots_running [OF assms(1)] by (simp add: sock)
  qed
  ultimately show ?thesis
    using assms(1) unfolding slots_inv_def s_def [symmetric] by (simp add: th)
qed

lemma slots_accepted:
  assumes "slots_inv n t" and "0 \<le> sock" and "sdr_accept k sock (ss_state t) = Some s"
  shows "slots_inv n (t\<lparr>ss_state := s, ss_threads := ss_threads t @ [(k, Fresh)]\<rparr>)"
proof -
  have s: "s = (ss_state t)\<lparr>sdr_sock := (sdr_sock (ss_state t))(k := sock)\<rparr>" "k \<le> 3" "\<not> sdr_sock (ss_state t) k > - 1"
    using assms(3) by (auto simp: sdr_accept_def split: if_splits)
  have k: "k \<notin> fst ` set (ss_threads t)"
    using assms(1) s(3) by (auto simp: slots_inv_def)
  have "\<forall>j. sdr_sock s j > - 1 \<longleftrightarrow> j \<in> fst ` set (ss_threads t @ [(k, Fresh)])"
    using assms(1,2) by (simp add: slots_inv_def s(1))
  moreover have "sock' = sdr_sock s j \<and> length buf = n" if "(j, Running sock' buf) \<in> set (ss_threads t)" for j sock' buf
  proof -
    have "j \<noteq> k"
      using that k keyed by fast
    then show ?thesis
      using slots_running [OF assms(1) that] by (simp add: s(1))
  qed
  ultimately show ?thesis
    using assms(1) s(2) k unfolding slots_inv_def by simp
qed

section \<open>The contract of the handlers\<close>

text \<open>\<open>rx\<close> and \<open>tx\<close> are the registers of the receiver and of the transmitter, which only the control handlers
  write, the others' steps leave alone and which do not depend on the slots.\<close>

locale four_jobs =
  fixes p :: sdr_program
    and rx :: "sdr \<Rightarrow> 'r"
    and tx :: "sdr \<Rightarrow> 't"
    and rx_default :: "'r \<Rightarrow> bool"
    and rx_fine :: "'r \<Rightarrow> bool"
    and tx_default :: "'t \<Rightarrow> bool"
    and tx_fine :: "'t \<Rightarrow> bool"
  assumes fine: "rx_default r \<Longrightarrow> rx_fine r" "tx_default q \<Longrightarrow> tx_fine q"
    and slots: "rx (s\<lparr>sdr_sock := f\<rparr>) = rx s" "tx (s\<lparr>sdr_sock := f\<rparr>) = tx s"
    and init: "rx_default (rx (prog_init p s))" "tx_default (tx (prog_init p s))" "sdr_sock (prog_init p s) k = - 1"
    and resets: "rx_default (rx (prog_start p 0 s))" "rx_default (rx (prog_end p 0 s))"
      "tx_default (tx (prog_start p 2 s))" "tx_default (tx (prog_end p 2 s))"
    and start_end: "k \<noteq> 0 \<Longrightarrow> rx (prog_start p k s) = rx s" "k \<noteq> 0 \<Longrightarrow> rx (prog_end p k s) = rx s"
      "k \<noteq> 2 \<Longrightarrow> tx (prog_start p k s) = tx s" "k \<noteq> 2 \<Longrightarrow> tx (prog_end p k s) = tx s"
      "sdr_sock (prog_start p k s) = sdr_sock s" "sdr_sock (prog_end p k s) = sdr_sock s"
    and rx_commands: "rx_fine (rx s) \<Longrightarrow> rx_fine (rx (prog_rx_command p c s))" "tx (prog_rx_command p c s) = tx s"
      "sdr_sock (prog_rx_command p c s) = sdr_sock s"
    and tx_commands: "tx_fine (tx s) \<Longrightarrow> tx_fine (tx (prog_tx_command p c s))" "rx (prog_tx_command p c s) = rx s"
      "sdr_sock (prog_tx_command p c s) = sdr_sock s"
    and rx_turns: "prog_rx_turn p level waits block ok s = Some (Inr s') \<Longrightarrow> rx s' = rx s \<and> tx s' = tx s \<and> sdr_sock s' = sdr_sock s"
      "prog_rx_turn p level waits block ok s = Some (Inl s') \<Longrightarrow> rx s' = rx s \<and> tx s' = tx s \<and> sdr_sock s' = sdr_sock s"
    and tx_turns: "prog_tx_turn p waits level received buf s = Some (Inr (buf', s')) \<Longrightarrow>
        rx s' = rx s \<and> tx s' = tx s \<and> sdr_sock s' = sdr_sock s \<and> (length buf = prog_buffer p \<longrightarrow> length buf' = prog_buffer p)"
      "prog_tx_turn p waits level received buf s = Some (Inl s') \<Longrightarrow> rx s' = rx s \<and> tx s' = tx s \<and> sdr_sock s' = sdr_sock s"
begin

definition jobs_inv :: "sdr_system \<Rightarrow> bool" where
  "jobs_inv t \<longleftrightarrow> slots_inv (prog_buffer p) t \<and>
     (active 0 t \<or> rx_default (rx (ss_state t))) \<and> (active 2 t \<or> tx_default (tx (ss_state t))) \<and>
     rx_fine (rx (ss_state t)) \<and> tx_fine (tx (ss_state t))"

text \<open>What a job does while it runs, begins or ends.\<close>

definition job_effect :: "nat \<Rightarrow> sdr \<Rightarrow> sdr \<Rightarrow> bool" where
  "job_effect k s s' \<longleftrightarrow> sdr_sock s' = sdr_sock s \<and> rx_fine (rx s') \<and> tx_fine (tx s') \<and>
     (k \<noteq> 0 \<longrightarrow> rx s' = rx s) \<and> (k \<noteq> 2 \<longrightarrow> tx s' = tx s)"

lemma job_keeps:
  assumes "rx_fine (rx s)" "tx_fine (tx s)"
  shows "job_effect k s (prog_start p k s)" "job_effect k s (prog_end p k s)"
    "job_effect 0 s (prog_rx_command p c s)" "job_effect 2 s (prog_tx_command p c s)"
    "rx s' = rx s \<Longrightarrow> tx s' = tx s \<Longrightarrow> sdr_sock s' = sdr_sock s \<Longrightarrow> job_effect k s s'"
proof -
  show "job_effect k s (prog_start p k s)" "job_effect k s (prog_end p k s)"
    using assms start_end [of k s] resets [of s] fine by (cases "k = 0"; cases "k = 2"; simp add: job_effect_def)+
qed (simp_all add: job_effect_def assms rx_commands tx_commands)

lemma effect_then:
  "job_effect k s s' \<Longrightarrow> job_effect k s' s'' \<Longrightarrow> job_effect k s s''"
  by (simp add: job_effect_def)

lemma job_step_inv:
  assumes "jobs_inv t" and th: "ss_threads t = ps @ (k, pc) # qs" and e: "job_effect k (ss_state t) s"
    and "\<And>sock buf. pc' = Running sock buf \<Longrightarrow> sock = sdr_sock (ss_state t) k \<and> length buf = prog_buffer p"
    and "k = 0 \<Longrightarrow> (\<exists>sock buf. pc' = Running sock buf) \<or> rx_default (rx s)"
    and "k = 2 \<Longrightarrow> (\<exists>sock buf. pc' = Running sock buf) \<or> tx_default (tx s)"
  shows "jobs_inv (t\<lparr>ss_state := s, ss_threads := ps @ (k, pc') # qs\<rparr>)"
proof -
  let ?t = "t\<lparr>ss_state := s, ss_threads := ps @ (k, pc') # qs\<rparr>"
  have "slots_inv (prog_buffer p) ?t"
    using assms(1) e by (intro slots_replaced [OF _ th _ assms(4)]) (auto simp: jobs_inv_def job_effect_def)
  moreover have "active 0 ?t \<or> rx_default (rx s)"
    using assms(1,5) e active_split [OF th, of 0]
    by (cases "k = 0") (auto simp: jobs_inv_def job_effect_def active_replaced)
  moreover have "active 2 ?t \<or> tx_default (tx s)"
    using assms(1,6) e active_split [OF th, of 2]
    by (cases "k = 2") (auto simp: jobs_inv_def job_effect_def active_replaced)
  ultimately show ?thesis
    using e by (simp add: jobs_inv_def job_effect_def)
qed

lemma jobs_running:
  assumes "jobs_inv t" and "(k, Running sock buf) \<in> set (ss_threads t)" and "job_effect k (ss_state t) s"
  shows "jobs_inv (t\<lparr>ss_state := s\<rparr>)"
proof -
  obtain ps qs where th: "ss_threads t = ps @ (k, Running sock buf) # qs"
    using assms(2) by (meson split_list)
  have "jobs_inv (t\<lparr>ss_state := s, ss_threads := ps @ (k, Running sock buf) # qs\<rparr>)"
    using assms(1) slots_running [OF _ assms(2)] by (intro job_step_inv [OF assms(1) th assms(3)]) (auto simp: jobs_inv_def)
  moreover have "t\<lparr>ss_state := s, ss_threads := ps @ (k, Running sock buf) # qs\<rparr> = t\<lparr>ss_state := s\<rparr>"
    using th by (cases t) simp
  ultimately show ?thesis by simp
qed

lemma jobs_release:
  assumes "jobs_inv t" and th: "ss_threads t = ps @ (k, Closing) # qs"
  shows "jobs_inv (t\<lparr>ss_state := (ss_state t)\<lparr>sdr_sock := (sdr_sock (ss_state t))(k := - 1)\<rparr>, ss_threads := ps @ qs\<rparr>)"
proof -
  have "active j (t\<lparr>ss_state := s, ss_threads := ps @ qs\<rparr>) \<longleftrightarrow> active j t" for j s
    by (auto simp: active_def th)
  then show ?thesis
    using assms(1) slots_released [OF _ th] by (simp add: jobs_inv_def slots)
qed

lemma accepted_inv:
  assumes "jobs_inv t" and "0 \<le> sock" and "sdr_accept k sock (ss_state t) = Some s"
  shows "jobs_inv (t\<lparr>ss_state := s, ss_threads := ss_threads t @ [(k, Fresh)]\<rparr>)"
proof -
  have "s = (ss_state t)\<lparr>sdr_sock := (sdr_sock (ss_state t))(k := sock)\<rparr>"
    using assms(3) by (auto simp: sdr_accept_def split: if_splits)
  then have "rx s = rx (ss_state t)" "tx s = tx (ss_state t)"
    by (simp_all add: slots)
  moreover have "active j (t\<lparr>ss_state := s, ss_threads := ss_threads t @ [(k, Fresh)]\<rparr>) \<longleftrightarrow> active j t" for j
    by (auto simp: active_def)
  ultimately show ?thesis
    using assms(1) slots_accepted [OF _ assms(2,3)] by (simp add: jobs_inv_def)
qed

lemma jobs_step:
  assumes "sdr_step p t t'" and inv: "jobs_inv t"
  shows "jobs_inv t'"
proof -
  have ok: "rx_fine (rx (ss_state t))" "tx_fine (tx (ss_state t))"
    using inv by (simp_all add: jobs_inv_def)
  have ended: "job_effect k (ss_state t) (prog_end p k s)"
    if "rx s = rx (ss_state t) \<and> tx s = tx (ss_state t) \<and> sdr_sock s = sdr_sock (ss_state t)" for k s
    using that ok by (intro effect_then [OF job_keeps(5) job_keeps(2)]) auto
  note eff = job_keeps [OF ok]
  from assms(1) show ?thesis
  proof cases
    case (accept sock k s)
    then show ?thesis using accepted_inv [OF inv] by simp
  next
    case (begin_job ps k qs junk)
    show ?thesis
      unfolding begin_job(1) using begin_job(3) by (intro job_step_inv [OF inv begin_job(2) eff(1)]) auto
  next
    case (rx_command sock buf c)
    then show ?thesis using jobs_running [OF inv _ eff(3)] by simp
  next
    case (tx_command sock buf c)
    then show ?thesis using jobs_running [OF inv _ eff(4)] by simp
  next
    case (rx_data sock buf level waits block s)
    have "job_effect 1 (ss_state t) s"
      using rx_turns(1) [OF rx_data(3)] by (intro eff(5)) auto
    then show ?thesis using jobs_running [OF inv rx_data(2)] rx_data(1) by simp
  next
    case (tx_data ps sock buf qs waits level received buf' s)
    have "(3, Running sock buf) \<in> set (ss_threads t)"
      by (simp add: tx_data(2))
    then have "sock = sdr_sock (ss_state t) 3" "length buf = prog_buffer p"
      using inv slots_running unfolding jobs_inv_def by blast+
    then show ?thesis
      unfolding tx_data(1) using tx_turns(1) [OF tx_data(3)]
      by (intro job_step_inv [OF inv tx_data(2) eff(5)]) auto
  next
    case (end_control ps k sock buf qs)
    show ?thesis
      unfolding end_control(1) using resets by (intro job_step_inv [OF inv end_control(2) eff(2)]) auto
  next
    case (end_rx_data ps sock buf qs level waits block s)
    show ?thesis
      unfolding end_rx_data(1) by (intro job_step_inv [OF inv end_rx_data(2) ended [OF rx_turns(2) [OF end_rx_data(3)]]]) auto
  next
    case (end_tx_data ps sock buf qs waits level s)
    show ?thesis
      unfolding end_tx_data(1) by (intro job_step_inv [OF inv end_tx_data(2) ended [OF tx_turns(2) [OF end_tx_data(3)]]]) auto
  next
    case (release ps k qs)
    then show ?thesis using jobs_release [OF inv] by simp
  qed
qed

lemma jobs_reachable: "sdr_reachable p t \<Longrightarrow> jobs_inv t"
proof (induction rule: sdr_reachable.induct)
  case (start s)
  then show ?case
    using init fine by (simp add: jobs_inv_def slots_inv_def)
next
  case (step t t')
  then show ?case
    using jobs_step by blast
qed

lemma one_thread_per_job:
  assumes "sdr_reachable p t"
  shows "distinct (map fst (ss_threads t)) \<and> set (map fst (ss_threads t)) \<subseteq> {..3} \<and>
    (sdr_sock (ss_state t) k > - 1 \<longleftrightarrow> k \<in> set (map fst (ss_threads t))) \<and>
    ((k, Running sock buf) \<in> set (ss_threads t) \<longrightarrow> sock = sdr_sock (ss_state t) k)"
  using jobs_reachable [OF assms] unfolding jobs_inv_def slots_inv_def set_map atMost_def by blast

lemma registers_safe:
  assumes "sdr_reachable p t"
  shows "(\<not> active 2 t \<longrightarrow> tx_default (tx (ss_state t))) \<and> (\<not> active 0 t \<longrightarrow> rx_default (rx (ss_state t))) \<and>
    rx_fine (rx (ss_state t)) \<and> tx_fine (tx (ss_state t))"
  using jobs_reachable [OF assms] unfolding jobs_inv_def by blast

end

end
