(* ===== verification/Sdr.thy ===== *)
theory Sdr
  imports Four_jobs Clib Doubles
begin

unbundle bit_operations_syntax

text \<open>
  \<open>projects/sdr_transceiver/server/sdr-transceiver.c\<close>: the handlers of the transceiver whose clients connect
  once for each of four jobs, the control and the data of the receiver and of the transmitter; \<open>main\<close> and
  the interleaving of the threads are in \<open>Four_jobs\<close>. The file of \<open>sdr_transceiver_122_88\<close> differs in the constants of \<open>sdr_board\<close> only.
\<close>

text \<open>\<open>sdr_rates\<close>: the sample rates of the codes 0, 1, 2 and so on; other codes are ignored.\<close>

record sdr_board =
  sdr_clk :: rat
  sdr_rates :: "u16 list"
  sdr_rate :: u16

definition sdr_125 :: sdr_board where
  "sdr_125 = \<lparr>sdr_clk = clk_125, sdr_rates = [3125, 1250, 625, 250, 125, 50], sdr_rate = 625\<rparr>"

definition sdr_122 :: sdr_board where
  "sdr_122 = \<lparr>sdr_clk = clk_122, sdr_rates = [2560, 1280, 640, 320, 160, 80, 40], sdr_rate = 640\<rparr>"

text \<open>The argument: which of two transceivers, with the port and the pages of its registers.\<close>

definition sdr_number :: "string list \<Rightarrow> int option" where
  "sdr_number args = (if length args = 1 then parse_range 1 2 (args ! 0) else None)"

definition sdr_port :: "int \<Rightarrow> nat" where
  "sdr_port number = (if number = 1 then 1001 else 1002)"

section \<open>Registers\<close>

text \<open>\<open>rx_rst\<close>, \<open>tx_rst\<close> and \<open>gpio\<close> are the bytes at offsets 0, 1, 2; frequency, synchronisation and rate
  of the receiver are at 4, 8 and 10, those of the transmitter at 12, 16 and 18.\<close>

definition rx_defaults :: "sdr_board \<Rightarrow> sdr \<Rightarrow> sdr" where
  "rx_defaults b s =
     (let s = wr32 4 (phase_inc (sdr_clk b) 600000) s; s = wr8 8 0 s in wr16 10 (sdr_rate b) s)"

definition tx_defaults :: "sdr_board \<Rightarrow> sdr \<Rightarrow> sdr" where
  "tx_defaults b s =
     (let s = wr32 12 (phase_inc (sdr_clk b) 600000) s; s = wr8 16 0 s in wr16 18 (sdr_rate b) s)"

definition sdr_init :: "sdr_board \<Rightarrow> sdr \<Rightarrow> sdr" where
  "sdr_init b s =
     (let s = s\<lparr>sdr_sock := (\<lambda>_. - 1)\<rparr>; s = wr8 2 0 s in tx_defaults b (rx_defaults b s))"

definition sdr_data :: "u32 \<Rightarrow> u32" where
  "sdr_data command = command AND 0xfffffff"

text \<open>The rate a code selects is stored, other codes leave the register alone.\<close>

definition select_rate :: "nat \<Rightarrow> sdr_board \<Rightarrow> u32 \<Rightarrow> sdr \<Rightarrow> sdr" where
  "select_rate off b command s =
     (let code = unat (command AND 7) in
      if code < length (sdr_rates b) then wr16 off (sdr_rates b ! code) s else s)"

section \<open>The control handlers\<close>

definition rx_ctrl_start :: "sdr_board \<Rightarrow> sdr \<Rightarrow> sdr" where
  "rx_ctrl_start b s = rx_defaults b s"

definition rx_ctrl_command :: "sdr_board \<Rightarrow> u32 \<Rightarrow> sdr \<Rightarrow> sdr" where
  "rx_ctrl_command b command s =
     (let code = drop_bit 28 command in
      if code = 0 then
        let freq = sdr_data command; s = wr32 4 (phase_inc (sdr_clk b) (unat freq)) s in
        wr8 8 (if freq > 0 then 0 else 1) s
      else if code = 1 then select_rate 10 b command s
      else s)"

definition rx_ctrl_end :: "sdr_board \<Rightarrow> sdr \<Rightarrow> sdr" where
  "rx_ctrl_end b s = rx_defaults b s"

definition tx_ctrl_start :: "sdr_board \<Rightarrow> sdr \<Rightarrow> sdr" where
  "tx_ctrl_start b s = tx_defaults b (wr8 2 0 s)"

definition tx_ctrl_command :: "sdr_board \<Rightarrow> u32 \<Rightarrow> sdr \<Rightarrow> sdr" where
  "tx_ctrl_command b command s =
     (let code = drop_bit 28 command in
      if code = 0 then
        let freq = sdr_data command; s = wr32 12 (phase_inc (sdr_clk b) (unat freq)) s in
        wr8 16 (if freq > 0 then 0 else 1) s
      else if code = 1 then select_rate 18 b command s
      else if code = 2 then wr8 2 1 s
      else if code = 3 then wr8 2 0 s
      else s)"

definition tx_ctrl_end :: "sdr_board \<Rightarrow> sdr \<Rightarrow> sdr" where
  "tx_ctrl_end b s = tx_defaults b (wr8 2 0 s)"

section \<open>The data handlers\<close>

definition rx_data_start :: "sdr \<Rightarrow> sdr" where
  "rx_data_start s = pulse (rd8 0) (wr8 0) 1 s"

text \<open>A turn: the first reading of \<open>rx_cntr\<close>, those of the waiting loop, the 4096 words the FIFO delivers,
  whether \<open>send\<close> succeeds. \<open>Inl\<close> leaves the loop.\<close>

definition rx_data_turn :: "u16 \<Rightarrow> u16 list \<Rightarrow> u32 list \<Rightarrow> bool \<Rightarrow> sdr \<Rightarrow> (sdr + sdr) option" where
  "rx_data_turn level waits block ok s =
     (let s = (if level \<ge> 8192 then pulse (rd8 0) (wr8 0) 1 s else s) in
      case wait_while (\<lambda>l. l < 4096) waits s of
        None \<Rightarrow> None
      | Some s \<Rightarrow> Some (if ok then Inr (emit (Send (concat (map le32 (take 4096 block)))) s) else Inl s))"

definition tx_data_start :: "sdr \<Rightarrow> sdr" where
  "tx_data_start s = pulse (rd8 1) (wr8 1) 1 s"

text \<open>
  A turn: the readings of \<open>tx_cntr\<close> in the waiting loop, the one after it, and the bytes \<open>recv\<close> delivers,
  at most 16384, none when the connection is closed or fails. They are stored at the start of the buffer;
  the whole buffer is written to the FIFO.
\<close>

definition tx_data_turn :: "u16 list \<Rightarrow> u16 \<Rightarrow> u8 list \<Rightarrow> u8 list \<Rightarrow> sdr \<Rightarrow> (sdr + u8 list \<times> sdr) option" where
  "tx_data_turn waits level received buffer s =
     (case wait_while (\<lambda>l. l > 4096) waits s of
        None \<Rightarrow> None
      | Some s \<Rightarrow>
          let s = (if level = 0 then to_port Fifo (replicate (2 * 2048) 0) s else s);
              received = take 16384 received in
          if received = [] then Some (Inl s)
          else let buffer = blit buffer 0 received in Some (Inr (buffer, to_port Fifo (words_of buffer) s)))"

section \<open>The four handlers\<close>

definition job_start :: "sdr_board \<Rightarrow> nat \<Rightarrow> sdr \<Rightarrow> sdr" where
  "job_start b k s =
     (if k = 0 then rx_ctrl_start b s else if k = 1 then rx_data_start s
      else if k = 2 then tx_ctrl_start b s else tx_data_start s)"

text \<open>What follows the loop, up to the release of the slot.\<close>

definition job_end :: "sdr_board \<Rightarrow> nat \<Rightarrow> sdr \<Rightarrow> sdr" where
  "job_end b k s = (if k = 0 then rx_ctrl_end b s else if k = 2 then tx_ctrl_end b s else s)"

definition sdr_handlers :: "sdr_board \<Rightarrow> sdr_program" where
  "sdr_handlers b =
     \<lparr>prog_init = sdr_init b, prog_start = job_start b, prog_end = job_end b, prog_rx_command = rx_ctrl_command b,
      prog_tx_command = tx_ctrl_command b, prog_rx_turn = rx_data_turn, prog_tx_turn = tx_data_turn, prog_buffer = 16384\<rparr>"

end
