(* ===== verification/Sdr_spec.thy ===== *)
theory Sdr_spec
  imports Sdr
begin

unbundle bit_operations_syntax

text \<open>
  Properties of the four-job transceiver: one thread for each slot, registers at their defaults while no
  control thread runs, push-to-talk off without a client, and what a turn of the transmitter's data thread
  puts into the FIFO.
\<close>

section \<open>The registers of the receiver and of the transmitter\<close>

definition rx_regs :: "sdr \<Rightarrow> u32 \<times> u8 \<times> u16" where
  "rx_regs s = (rd32 4 s, rd8 8 s, rd16 10 s)"

definition tx_regs :: "sdr \<Rightarrow> u8 \<times> u32 \<times> u8 \<times> u16" where
  "tx_regs s = (rd8 2 s, rd32 12 s, rd8 16 s, rd16 18 s)"

text \<open>The synchronisation bit is set only with a phase increment of zero, the rate is one of the table.\<close>

definition sync_rate_ok :: "sdr_board \<Rightarrow> u32 \<Rightarrow> u8 \<Rightarrow> u16 \<Rightarrow> bool" where
  "sync_rate_ok b inc sync rate \<longleftrightarrow> (sync = 0 \<or> sync = 1 \<and> inc = 0) \<and> rate \<in> set (sdr_rates b)"

definition rx_default :: "sdr_board \<Rightarrow> u32 \<times> u8 \<times> u16 \<Rightarrow> bool" where
  "rx_default b r \<longleftrightarrow> r = (phase_inc (sdr_clk b) 600000, 0, sdr_rate b)"

definition tx_default :: "sdr_board \<Rightarrow> u8 \<times> u32 \<times> u8 \<times> u16 \<Rightarrow> bool" where
  "tx_default b r \<longleftrightarrow> r = (0, phase_inc (sdr_clk b) 600000, 0, sdr_rate b)"

definition rx_fine :: "sdr_board \<Rightarrow> u32 \<times> u8 \<times> u16 \<Rightarrow> bool" where
  "rx_fine b = (\<lambda>(inc, sync, rate). sync_rate_ok b inc sync rate)"

definition tx_fine :: "sdr_board \<Rightarrow> u8 \<times> u32 \<times> u8 \<times> u16 \<Rightarrow> bool" where
  "tx_fine b = (\<lambda>(ptt, inc, sync, rate). (ptt = 0 \<or> ptt = 1) \<and> sync_rate_ok b inc sync rate)"

definition rx_idle :: "sdr_board \<Rightarrow> sdr \<Rightarrow> bool" where
  "rx_idle b s \<longleftrightarrow> rx_default b (rx_regs s)"

definition tx_idle :: "sdr_board \<Rightarrow> sdr \<Rightarrow> bool" where
  "tx_idle b s \<longleftrightarrow> tx_default b (tx_regs s)"

definition rx_ok :: "sdr_board \<Rightarrow> sdr \<Rightarrow> bool" where
  "rx_ok b s \<longleftrightarrow> rx_fine b (rx_regs s)"

definition tx_ok :: "sdr_board \<Rightarrow> sdr \<Rightarrow> bool" where
  "tx_ok b s \<longleftrightarrow> tx_fine b (tx_regs s)"

lemmas sdr_reg_defs = rx_regs_def tx_regs_def rx_default_def tx_default_def rx_fine_def tx_fine_def sync_rate_ok_def

lemma rst_only_regs:
  assumes "rst_only s s'"
  shows "rx_regs s' = rx_regs s \<and> tx_regs s' = tx_regs s \<and> sdr_sock s' = sdr_sock s"
  using assms by (simp add: rx_regs_def tx_regs_def rst_only_rd) (simp add: rst_only_def)

lemma data_rst:
  "rst_only s (rx_data_start s)" "rst_only s (tx_data_start s)"
  "rx_data_turn level waits block ok s = Some (Inr s') \<Longrightarrow> rst_only s s'"
  "rx_data_turn level waits block ok s = Some (Inl s') \<Longrightarrow> rst_only s s'"
  "tx_data_turn ws l received buf s = Some (Inr (buf', s')) \<Longrightarrow> rst_only s s'"
  "tx_data_turn ws l received buf s = Some (Inl s') \<Longrightarrow> rst_only s s'"
  by (auto simp: rx_data_start_def tx_data_start_def rx_data_turn_def tx_data_turn_def Let_def
      split: option.splits if_splits dest!: wait_while_rst)

lemma rx_command_effects:
  "rx_fine b (rx_regs s) \<Longrightarrow> rx_fine b (rx_regs (rx_ctrl_command b c s))" "tx_regs (rx_ctrl_command b c s) = tx_regs s"
  "sdr_sock (rx_ctrl_command b c s) = sdr_sock s"
  by (auto simp: rx_ctrl_command_def select_rate_def Let_def sdr_reg_defs phase_inc_0 word_gt_0)

lemma tx_command_effects:
  "tx_fine b (tx_regs s) \<Longrightarrow> tx_fine b (tx_regs (tx_ctrl_command b c s))" "rx_regs (tx_ctrl_command b c s) = rx_regs s"
  "sdr_sock (tx_ctrl_command b c s) = sdr_sock s"
  by (auto simp: tx_ctrl_command_def select_rate_def Let_def sdr_reg_defs phase_inc_0 word_gt_0)

lemma sdr_handlers_simps [simp]:
  "prog_init (sdr_handlers b) = sdr_init b" "prog_start (sdr_handlers b) = job_start b" "prog_end (sdr_handlers b) = job_end b"
  "prog_rx_command (sdr_handlers b) = rx_ctrl_command b" "prog_tx_command (sdr_handlers b) = tx_ctrl_command b"
  "prog_rx_turn (sdr_handlers b) = rx_data_turn" "prog_tx_turn (sdr_handlers b) = tx_data_turn"
  "prog_buffer (sdr_handlers b) = 16384"
  by (simp_all add: sdr_handlers_def)

lemma defaults_effects [simp]:
  "rx_default b (rx_regs (rx_defaults b s))" "tx_regs (rx_defaults b s) = tx_regs s" "sdr_sock (rx_defaults b s) = sdr_sock s"
  "tx_default b (tx_regs (tx_defaults b (wr8 2 0 s)))" "rx_regs (tx_defaults b s) = rx_regs s" "sdr_sock (tx_defaults b s) = sdr_sock s"
  "rx_regs (wr8 2 v s) = rx_regs s"
  by (simp_all add: rx_defaults_def tx_defaults_def Let_def sdr_reg_defs)

lemma init_effects:
  "rx_default b (rx_regs (sdr_init b s))" "tx_default b (tx_regs (sdr_init b s))" "sdr_sock (sdr_init b s) k = - 1"
  by (simp_all add: sdr_init_def rx_defaults_def tx_defaults_def Let_def sdr_reg_defs)

lemma job_effects:
  "rx_default b (rx_regs (job_start b 0 s))" "rx_default b (rx_regs (job_end b 0 s))"
  "tx_default b (tx_regs (job_start b 2 s))" "tx_default b (tx_regs (job_end b 2 s))"
  "k \<noteq> 0 \<Longrightarrow> rx_regs (job_start b k s) = rx_regs s" "k \<noteq> 0 \<Longrightarrow> rx_regs (job_end b k s) = rx_regs s"
  "k \<noteq> 2 \<Longrightarrow> tx_regs (job_start b k s) = tx_regs s" "k \<noteq> 2 \<Longrightarrow> tx_regs (job_end b k s) = tx_regs s"
  "sdr_sock (job_start b k s) = sdr_sock s" "sdr_sock (job_end b k s) = sdr_sock s"
  using data_rst(1,2) [THEN rst_only_regs, of s]
  by (simp_all add: job_start_def job_end_def rx_ctrl_start_def rx_ctrl_end_def tx_ctrl_start_def tx_ctrl_end_def)

lemma slot_effects: "rx_regs (s\<lparr>sdr_sock := f\<rparr>) = rx_regs s" "tx_regs (s\<lparr>sdr_sock := f\<rparr>) = tx_regs s"
  by (simp_all add: rx_regs_def tx_regs_def rd_defs)

lemma turn_effects:
  "tx_data_turn ws l received buf s = Some (Inr (buf', s')) \<Longrightarrow>
     rx_regs s' = rx_regs s \<and> tx_regs s' = tx_regs s \<and> sdr_sock s' = sdr_sock s \<and> (length buf = 16384 \<longrightarrow> length buf' = 16384)"
  using data_rst(5) [THEN rst_only_regs, of ws l received buf s buf' s']
  by (auto simp: tx_data_turn_def Let_def split: option.splits if_splits)

lemma default_fine:
  assumes "sdr_rate b \<in> set (sdr_rates b)"
  shows "rx_default b r \<Longrightarrow> rx_fine b r" "tx_default b q \<Longrightarrow> tx_fine b q"
  using assms by (simp_all add: sdr_reg_defs)

lemma sdr_four_jobs:
  assumes "sdr_rate b \<in> set (sdr_rates b)"
  shows "four_jobs (sdr_handlers b) rx_regs tx_regs (rx_default b) (rx_fine b) (tx_default b) (tx_fine b)"
  using turn_effects
  by unfold_locales
    (simp_all only: sdr_handlers_simps default_fine [OF assms] init_effects job_effects slot_effects
      rx_command_effects tx_command_effects data_rst(3,4,6) [THEN rst_only_regs] simp_thms, fast+)

interpretation sdr_jobs_125: four_jobs "sdr_handlers sdr_125" rx_regs tx_regs "rx_default sdr_125" "rx_fine sdr_125"
    "tx_default sdr_125" "tx_fine sdr_125"
  by (rule sdr_four_jobs) (simp add: sdr_125_def)

interpretation sdr_jobs_122: four_jobs "sdr_handlers sdr_122" rx_regs tx_regs "rx_default sdr_122" "rx_fine sdr_122"
    "tx_default sdr_122" "tx_fine sdr_122"
  by (rule sdr_four_jobs) (simp add: sdr_122_def)

section \<open>Threads and registers\<close>

text \<open>However clients connect, send and leave, each of the four jobs has a thread exactly while its slot
  is taken, and never two; a thread serves the socket of its slot.\<close>

theorem sdr_one_thread_per_job:
  assumes "sdr_reachable (sdr_handlers b) t" and "b = sdr_125 \<or> b = sdr_122"
  shows "distinct (map fst (ss_threads t)) \<and> set (map fst (ss_threads t)) \<subseteq> {..3} \<and>
    (sdr_sock (ss_state t) k > - 1 \<longleftrightarrow> k \<in> set (map fst (ss_threads t))) \<and>
    ((k, Running sock buf) \<in> set (ss_threads t) \<longrightarrow> sock = sdr_sock (ss_state t) k)"
  using assms sdr_jobs_125.one_thread_per_job sdr_jobs_122.one_thread_per_job by blast

text \<open>C36. Without a thread of the transmitter's control job in its loop push-to-talk is off and the
  transmitter is at its defaults, whatever the other jobs do, and likewise the receiver; the rates are
  always of the board's table, and a register bit for synchronisation is set only with phase increment 0.\<close>

theorem sdr_registers_safe:
  assumes "sdr_reachable (sdr_handlers b) t" and "b = sdr_125 \<or> b = sdr_122"
  shows "(\<not> active 2 t \<longrightarrow> rd8 2 (ss_state t) = 0 \<and> tx_idle b (ss_state t)) \<and>
    (\<not> active 0 t \<longrightarrow> rx_idle b (ss_state t)) \<and> rx_ok b (ss_state t) \<and> tx_ok b (ss_state t)"
proof -
  have "tx_idle b (ss_state t) \<Longrightarrow> rd8 2 (ss_state t) = 0"
    by (simp add: tx_idle_def tx_default_def tx_regs_def)
  then show ?thesis
    using assms sdr_jobs_125.registers_safe sdr_jobs_122.registers_safe
    unfolding rx_idle_def tx_idle_def rx_ok_def tx_ok_def by blast
qed

definition sdr_idle :: sdr where
  "sdr_idle = \<lparr>regs = \<lambda>_. 0, trace = [], sdr_sock = \<lambda>_. 0\<rparr>"

text \<open>A client of the transmitter's control job connects, switches push-to-talk on and leaves.\<close>

lemma sdr_demo:
  "\<exists>t buf. sdr_reachable (sdr_handlers sdr_125) t \<and> ss_threads t = [(2, Running 7 buf)] \<and> rd8 2 (ss_state t) = 1"
  "\<exists>t. sdr_reachable (sdr_handlers sdr_125) t \<and> ss_threads t = [(2, Closing)]"
proof -
  let ?s0 = "sdr_init sdr_125 sdr_idle" and ?buf = "replicate 16384 (0 :: u8)"
  define s1 where "s1 = ?s0\<lparr>sdr_sock := (sdr_sock ?s0)(2 := 7)\<rparr>"
  define s2 where "s2 = job_start sdr_125 2 s1"
  define s3 where "s3 = tx_ctrl_command sdr_125 (push_bit 28 2) s2"
  have "sdr_sock ?s0 2 = - 1"
    by (simp add: sdr_init_def rx_defaults_def tx_defaults_def Let_def)
  then have "sdr_accept 2 7 ?s0 = Some s1"
    by (simp add: sdr_accept_def s1_def)
  then have "sdr_step (sdr_handlers sdr_125) \<lparr>ss_state = ?s0, ss_threads = []\<rparr> \<lparr>ss_state = s1, ss_threads = [(2, Fresh)]\<rparr>"
    using sdr_step.accept [where t = "\<lparr>ss_state = ?s0, ss_threads = []\<rparr>" and sock = 7] by simp
  moreover have "sdr_reachable (sdr_handlers sdr_125) \<lparr>ss_state = ?s0, ss_threads = []\<rparr>"
    using sdr_reachable.start [of "sdr_handlers sdr_125"] by simp
  ultimately have r1: "sdr_reachable (sdr_handlers sdr_125) \<lparr>ss_state = s1, ss_threads = [(2, Fresh)]\<rparr>"
    using sdr_reachable.step by blast
  have "sdr_sock s1 2 = 7"
    by (simp add: s1_def)
  then have "sdr_step (sdr_handlers sdr_125) \<lparr>ss_state = s1, ss_threads = [(2, Fresh)]\<rparr> \<lparr>ss_state = s2, ss_threads = [(2, Running 7 ?buf)]\<rparr>"
    using sdr_step.begin_job [where t = "\<lparr>ss_state = s1, ss_threads = [(2, Fresh)]\<rparr>" and ps = "[]" and qs = "[]" and k = 2
        and junk = ?buf and p = "sdr_handlers sdr_125"] by (simp add: s2_def)
  note r2 = sdr_reachable.step [OF r1 this]
  have "sdr_step (sdr_handlers sdr_125) \<lparr>ss_state = s2, ss_threads = [(2, Running 7 ?buf)]\<rparr> \<lparr>ss_state = s3, ss_threads = [(2, Running 7 ?buf)]\<rparr>"
    using sdr_step.tx_command [where t = "\<lparr>ss_state = s2, ss_threads = [(2, Running 7 ?buf)]\<rparr>" and sock = 7 and buf = ?buf
        and p = "sdr_handlers sdr_125" and c = "push_bit 28 2"] by (simp add: s3_def)
  note r3 = sdr_reachable.step [OF r2 this]
  have "rd8 2 s3 = 1"
    by (simp add: s3_def tx_ctrl_command_def)
  then show "\<exists>t buf. sdr_reachable (sdr_handlers sdr_125) t \<and> ss_threads t = [(2, Running 7 buf)] \<and> rd8 2 (ss_state t) = 1"
    using r3 by (intro exI [of _ "\<lparr>ss_state = s3, ss_threads = [(2, Running 7 ?buf)]\<rparr>"] exI [of _ ?buf]) simp
  have "sdr_step (sdr_handlers sdr_125) \<lparr>ss_state = s3, ss_threads = [(2, Running 7 ?buf)]\<rparr>
      \<lparr>ss_state = job_end sdr_125 2 s3, ss_threads = [(2, Closing)]\<rparr>"
    using sdr_step.end_control [where t = "\<lparr>ss_state = s3, ss_threads = [(2, Running 7 ?buf)]\<rparr>" and ps = "[]" and qs = "[]"
        and k = 2 and sock = 7 and buf = ?buf and p = "sdr_handlers sdr_125"] by simp
  from sdr_reachable.step [OF r3 this]
  show "\<exists>t. sdr_reachable (sdr_handlers sdr_125) t \<and> ss_threads t = [(2, Closing)]"
    by (intro exI [of _ "\<lparr>ss_state = job_end sdr_125 2 s3, ss_threads = [(2, Closing)]\<rparr>"]) simp
qed

theorem sdr_one_thread_per_job_witness:
  "\<exists>t. sdr_reachable (sdr_handlers sdr_125) t \<and> sdr_sock (ss_state t) 2 = 7 \<and> \<not> sdr_sock (ss_state t) 0 > - 1"
proof -
  obtain t buf where t: "sdr_reachable (sdr_handlers sdr_125) t" "ss_threads t = [(2, Running 7 buf)]"
    using sdr_demo(1) by blast
  then show ?thesis
    using sdr_one_thread_per_job [OF t(1), of 2 7 buf] sdr_one_thread_per_job [OF t(1), of 0 7 buf] by auto
qed

theorem sdr_registers_safe_witness:
  "\<exists>t. sdr_reachable (sdr_handlers sdr_125) t \<and> ss_threads t = [(2, Closing)] \<and> rd8 2 (ss_state t) = 0 \<and> tx_idle sdr_125 (ss_state t)"
proof -
  obtain t where t: "sdr_reachable (sdr_handlers sdr_125) t" "ss_threads t = [(2, Closing)]"
    using sdr_demo(2) by blast
  then have "\<not> active 2 t"
    by (simp add: active_def)
  then show ?thesis
    using sdr_registers_safe [OF t(1)] t by auto
qed

section \<open>The transmitter's data\<close>

text \<open>A turn of the transmitter's data thread writes its whole buffer of 16384 bytes to the FIFO, however
  few bytes \<open>recv\<close> delivered: behind them the bytes of the block before are sent again. An empty FIFO gets
  as many zero words first.\<close>

theorem tx_data_stale:
  assumes "tx_data_turn waits level received buffer s = Some (Inr (buffer', s'))" and "length buffer = 16384"
  shows "buffer' = take 16384 received @ drop (length received) buffer \<and>
    fifo_words (drop (length (trace s)) (trace s')) = replicate (if level = 0 then 4096 else 0) 0 @ words_of buffer' \<and>
    length (words_of buffer') = 4096"
proof -
  obtain s1 where w: "wait_while (\<lambda>l. l > 4096) waits s = Some s1"
    and r: "take 16384 received \<noteq> []" and b: "buffer' = blit buffer 0 (take 16384 received)"
    and s': "s' = to_port Fifo (words_of buffer') (if level = 0 then to_port Fifo (replicate (2 * 2048) 0) s1 else s1)"
    using assms(1) by (auto simp: tx_data_turn_def Let_def split: option.splits if_splits)
  obtain es where "trace s1 = trace s @ es" "fifo_words es = []"
    using wait_while_rst [OF w] by blast
  then have "fifo_words (drop (length (trace s)) (trace s')) = replicate (if level = 0 then 4096 else 0) 0 @ words_of buffer'"
    unfolding s' by (cases "level = 0") (simp_all del: map_replicate)
  moreover have "buffer' = take 16384 received @ drop (length received) buffer"
    using assms(2) unfolding b blit_def by (cases "length received \<le> 16384") simp_all
  moreover have "length buffer' = 16384"
    using assms(2) unfolding b by simp
  ultimately show ?thesis
    by (simp add: words_of_def)
qed

theorem tx_data_stale_witness:
  "\<exists>buffer' s'. tx_data_turn [9000, 0] 5 [1, 2, 3, 4] (replicate 16384 7) sdr_idle = Some (Inr (buffer', s')) \<and>
    buffer' = [1, 2, 3, 4] @ replicate 16380 7 \<and> fifo_words (trace s') = words_of buffer'"
proof -
  obtain buffer' s' where t: "tx_data_turn [9000, 0] 5 [1, 2, 3, 4] (replicate 16384 7) sdr_idle = Some (Inr (buffer', s'))"
    by (simp add: tx_data_turn_def Let_def)
  have "length (replicate 16384 (7 :: u8)) = 16384"
    by simp
  from tx_data_stale [OF t this] show ?thesis
    using t by (simp add: sdr_idle_def)
qed

end
