(* ===== verification/Modf.thy ===== *)
theory Modf
  imports Doubles
begin

text \<open>
  Phase increments of the 32-bit accumulators of the receivers without a frequency limit: the fractional
  part of \<open>freq / CLK\<close>, which \<open>modf\<close> returns, scaled by \<open>0xffffffff\<close> and rounded, in C \<open>double\<close>
  arithmetic. Taking the fractional part keeps the absolute rounding error of the quotient, so the result
  is within 1/2 + 2^-15 of the exact increment.
\<close>

text \<open>The fractional part \<open>modf\<close> returns.\<close>

definition modf_part :: "rat \<Rightarrow> rat" where
  "modf_part x = (if 0 \<le> x then x - of_int \<lfloor>x\<rfloor> else x - of_int \<lceil>x\<rceil>)"

definition inc_floor :: "rat \<Rightarrow> int" where
  "inc_floor part = \<lfloor>dadd (dmul part 0xffffffff) (1 / 2)\<rfloor>"

text \<open>\<open>(uint32_t)floor(modf(freq / CLK, &integral) * 0xffffffff + 0.5)\<close>\<close>

definition modf_inc :: "rat \<Rightarrow> nat \<Rightarrow> u32" where
  "modf_inc clk freq = word_of_int (inc_floor (modf_part (ddiv (of_nat freq) clk)))"

lemma quotient_split:
  assumes "0 < c"
  shows "of_nat f / of_nat c = (of_nat (f div c) + of_nat (f mod c) / of_nat c :: rat)"
proof -
  have "(of_nat f :: rat) = of_nat c * of_nat (f div c) + of_nat (f mod c)"
    by (metis mult_div_mod_eq of_nat_add of_nat_mult)
  then have "of_nat f / of_nat c = (of_nat c * of_nat (f div c) + of_nat (f mod c)) / (of_nat c :: rat)"
    by simp
  with assms show ?thesis
    by (simp add: add_divide_distrib)
qed

lemma modf_near:
  assumes c: "100000000 \<le> c" "c \<le> 2 ^ 27" and f: "f < 2 ^ 32"
  shows "\<bar>modf_part (ddiv (of_nat f) (of_nat c)) - of_nat (f mod c) / of_nat c\<bar> \<le> 43 / 2 ^ 53"
proof -
  let ?x = "of_nat f / of_nat c :: rat" and ?y = "ddiv (of_nat f) (of_nat c)"
  have c0: "0 < c"
    using c(1) by simp
  have cr: "(100000000 :: rat) \<le> of_nat c" "(of_nat c :: rat) \<le> 2 ^ 27"
    using c by (metis of_nat_le_iff of_nat_numeral, metis of_nat_le_iff of_nat_numeral of_nat_power)
  have "of_nat f \<le> (2 ^ 32 :: rat)"
    using f by (metis less_imp_le of_nat_le_iff of_nat_numeral of_nat_power)
  then have x: "0 \<le> ?x" "?x \<le> 43"
    using cr c0 by (simp_all add: divide_le_eq)
  have near: "\<bar>?y - ?x\<bar> \<le> 43 / 2 ^ 53"
    using fl_error [of 53 ?x] x by (simp add: ddiv_def)
  have y: "0 \<le> ?y"
    using x fl_nonneg by (simp add: ddiv_def)
  note split = quotient_split [OF c0, of f]
  have "\<lfloor>?y\<rfloor> = int (f div c)"
  proof (cases "c dvd f")
    case True
    then have "?x = of_int (int (f div c))"
      using split by simp
    moreover have "f div c < 2 ^ 32"
      using f div_le_dividend [of f c] by (metis le_less_trans)
    ultimately show ?thesis
      using fl_int [of "int (f div c)" 53] by (simp add: ddiv_def)
  next
    case False
    then have "int f mod int c \<noteq> 0"
      by (metis mod_0_imp_dvd of_nat_dvd_iff)
    moreover have "43 / 2 ^ 53 < 1 / (of_nat c :: rat)"
      using cr c0 by (simp add: less_divide_eq divide_less_eq)
    ultimately show ?thesis
      using near c0 floor_near_fraction [of "int c" "int f" ?y] by (simp add: zdiv_int)
  qed
  then show ?thesis
    using near y split by (simp add: modf_part_def diff_diff_eq)
qed

lemma inc_floor_near:
  assumes near: "\<bar>p - e\<bar> \<le> 43 / 2 ^ 53" and e: "0 \<le> e" "e \<le> 1 - 1 / 2 ^ 27"
  shows "\<bar>of_int (inc_floor p) - e * 0xffffffff\<bar> \<le> 1 / 2 + 1 / 2 ^ 15" and "0 \<le> inc_floor p" and "inc_floor p < 2 ^ 32"
proof -
  let ?K = "0xffffffff :: rat"
  have ek: "0 \<le> e * ?K" "e * ?K \<le> 2 ^ 32 - 31"
    using e by simp_all
  have "p * ?K - e * ?K = (p - e) * ?K"
    by (simp only: left_diff_distrib)
  then have "\<bar>p * ?K - e * ?K\<bar> = \<bar>p - e\<bar> * ?K"
    by (simp only: abs_mult abs_numeral)
  then have "\<bar>p * ?K - e * ?K\<bar> \<le> 43 / 2 ^ 21"
    using near by simp
  from double.rnd_within [OF this, of "2 ^ 32"] ek
  have "\<bar>dmul p ?K - e * ?K\<bar> \<le> 45 / 2 ^ 21"
    by (simp add: dmul_def)
  then have "\<bar>(dmul p ?K + 1 / 2) - (e * ?K + 1 / 2)\<bar> \<le> 45 / 2 ^ 21"
    by simp
  from double.rnd_within [OF this, of "2 ^ 32"] ek
  have z: "\<bar>dadd (dmul p ?K) (1 / 2) - (e * ?K + 1 / 2)\<bar> \<le> 1 / 2 ^ 15"
    by (simp add: dadd_def)
  have fl: "of_int (inc_floor p) \<le> dadd (dmul p ?K) (1 / 2)" "dadd (dmul p ?K) (1 / 2) < of_int (inc_floor p) + 1"
    unfolding inc_floor_def by linarith+
  show "\<bar>of_int (inc_floor p) - e * ?K\<bar> \<le> 1 / 2 + 1 / 2 ^ 15"
    using z fl by linarith
  have small: "1 / 2 ^ 15 \<le> (1 / 2 :: rat)"
    by simp
  have "(- 1 :: rat) < of_int (inc_floor p)"
    using z fl ek small by linarith
  then have "of_int (- 1) < (of_int (inc_floor p) :: rat)"
    by simp
  then show "0 \<le> inc_floor p"
    by (simp only: of_int_less_iff)
  have "of_int (inc_floor p) < (2 ^ 32 :: rat)"
    using z fl ek small by linarith
  then have "of_int (inc_floor p) < (of_int (2 ^ 32) :: rat)"
    by simp
  then show "inc_floor p < 2 ^ 32"
    by (simp only: of_int_less_iff)
qed

text \<open>The exact value: the fractional part of \<open>freq / CLK\<close>, scaled to the accumulator.\<close>

definition modf_exact :: "rat \<Rightarrow> nat \<Rightarrow> rat" where
  "modf_exact clk freq = (of_nat freq / clk - of_int \<lfloor>of_nat freq / clk\<rfloor>) * (2 ^ 32 - 1)"

lemma remainder_part:
  assumes "0 < c" and "c \<le> 2 ^ 27"
  shows "0 \<le> (of_nat (f mod c) / of_nat c :: rat)" and "of_nat (f mod c) / of_nat c \<le> (1 - 1 / 2 ^ 27 :: rat)"
    and "\<not> c dvd f \<Longrightarrow> 1 / 2 ^ 27 \<le> (of_nat (f mod c) / of_nat c :: rat)"
proof -
  have cr: "(0 :: rat) < of_nat c" "(of_nat c :: rat) \<le> 2 ^ 27"
    using assms by (simp, metis of_nat_le_iff of_nat_numeral of_nat_power)
  then have c: "1 / 2 ^ 27 \<le> (1 / of_nat c :: rat)"
    by (intro divide_left_mono) simp_all
  have "f mod c < c"
    using assms(1) by simp
  then have "of_nat (f mod c) + 1 \<le> (of_nat c :: rat)"
    by (metis Suc_leI add.commute of_nat_Suc of_nat_le_iff)
  then have "of_nat (f mod c) / of_nat c \<le> (1 - 1 / of_nat c :: rat)"
    using cr by (simp add: field_simps)
  with c show "of_nat (f mod c) / of_nat c \<le> (1 - 1 / 2 ^ 27 :: rat)"
    by linarith
  show "0 \<le> (of_nat (f mod c) / of_nat c :: rat)"
    by simp
  assume "\<not> c dvd f"
  then have "1 \<le> f mod c"
    by (simp add: dvd_eq_mod_eq_0 Suc_leI)
  then have "(1 :: rat) \<le> of_nat (f mod c)"
    by simp
  then have "1 / of_nat c \<le> (of_nat (f mod c) / of_nat c :: rat)"
    by (intro divide_right_mono) simp_all
  with c show "1 / 2 ^ 27 \<le> (of_nat (f mod c) / of_nat c :: rat)"
    by linarith
qed

text \<open>The conversion to \<open>uint32_t\<close> is defined.\<close>

lemma modf_inc_range:
  assumes clk: "clk = clk_125 \<or> clk = clk_122" and f: "f < 2 ^ 32"
  shows "0 \<le> inc_floor (modf_part (ddiv (of_nat f) clk))" and "inc_floor (modf_part (ddiv (of_nat f) clk)) < 2 ^ 32"
    and "\<bar>of_int (inc_floor (modf_part (ddiv (of_nat f) clk))) - modf_exact clk f\<bar> \<le> 1 / 2 + 1 / 2 ^ 15"
proof -
  obtain c where c: "clk = of_nat c" "100000000 \<le> c" "c \<le> 2 ^ 27"
    using clk by (auto intro: that [of 125000000] that [of 122880000])
  have "0 < c"
    using c(2) by simp
  note floor = inc_floor_near [OF modf_near [OF c(2,3) f] remainder_part(1,2) [OF \<open>0 < c\<close> c(3)]]
  have "modf_exact clk f = of_nat (f mod c) / of_nat c * 0xffffffff"
    using quotient_split [of c f] c(2) by (simp add: modf_exact_def c(1) floor_divide_of_nat_eq)
  then show "0 \<le> inc_floor (modf_part (ddiv (of_nat f) clk))" and "inc_floor (modf_part (ddiv (of_nat f) clk)) < 2 ^ 32"
    and "\<bar>of_int (inc_floor (modf_part (ddiv (of_nat f) clk))) - modf_exact clk f\<bar> \<le> 1 / 2 + 1 / 2 ^ 15"
    using floor by (simp_all add: c(1))
qed

lemma modf_inc_near:
  assumes "clk = clk_125 \<or> clk = clk_122" and "f < 2 ^ 32"
  shows "\<bar>of_nat (unat (modf_inc clk f)) - modf_exact clk f\<bar> \<le> 1 / 2 + 1 / 2 ^ 15"
proof -
  note range = modf_inc_range [OF assms]
  have "uint (modf_inc clk f) = inc_floor (modf_part (ddiv (of_nat f) clk))"
    using range(1,2) by (simp add: modf_inc_def uint_word_of_int)
  then have "of_nat (unat (modf_inc clk f)) = (of_int (inc_floor (modf_part (ddiv (of_nat f) clk))) :: rat)"
    by (metis of_int_of_nat_eq unat_eq_nat_uint nat_0_le uint_nonnegative)
  with range(3) show ?thesis
    by simp
qed

text \<open>The fractional part is an odd function, like rounding.\<close>

lemma modf_part_minus: "modf_part (- x) = - modf_part x"
  by (auto simp: modf_part_def ceiling_def)

lemma modf_quotient_minus: "modf_part (ddiv (- x) clk) = - modf_part (ddiv x clk)"
  by (simp add: ddiv_def fl_minus modf_part_minus flip: minus_divide_left)

end
