(* ===== verification/Hpsdr_rx.thy ===== *)
theory Hpsdr_rx
  imports Modf Hpsdr_common
begin

unbundle bit_operations_syntax

text \<open>
  \<open>projects/sdr_receiver_hpsdr/server/sdr-receiver-hpsdr.c\<close>: eight receivers for a host that speaks the
  HPSDR protocol. \<open>main\<close> takes datagrams: commands, discovery, start and stop; \<open>handler_ep6\<close> is the
  thread that sends the samples. The file of \<open>sdr_receiver_hpsdr_122_88\<close> differs in the constants of
  \<open>rxh_board\<close>, in the network interface, its first argument, and in the pages of its registers.
\<close>

text \<open>\<open>rxh_first\<close> is the number of arguments before the selectors, \<open>rxh_data\<close> the length of \<open>data\<close> in units of
  six bytes, \<open>rxh_slots\<close> the number of datagrams, \<open>rxh_quota\<close> the samples in a block before rounding and
  \<open>rxh_full\<close> the level at which the FIFO is reset.\<close>

record rxh_board =
  rxh_clk :: rat
  rxh_rate :: u16
  rxh_rates :: "u16 list"
  rxh_first :: nat
  rxh_data :: nat
  rxh_slots :: nat
  rxh_quota :: nat
  rxh_full :: u16

definition rxh_125 :: rxh_board where
  "rxh_125 = \<lparr>rxh_clk = clk_125, rxh_rate = 1000, rxh_rates = [1000, 500, 250], rxh_first = 0,
     rxh_data = 2048, rxh_slots = 12, rxh_quota = 128, rxh_full = 1024\<rparr>"

definition rxh_122 :: rxh_board where
  "rxh_122 = \<lparr>rxh_clk = clk_122, rxh_rate = 1280, rxh_rates = [1280, 640, 320, 160], rxh_first = 1,
     rxh_data = 4096, rxh_slots = 25, rxh_quota = 256, rxh_full = 2048\<rparr>"

text \<open>The registers: \<open>rx_rst\<close>, \<open>rx_sel\<close> and \<open>rx_rate\<close> at offsets 0, 1 and 2, eight \<open>rx_freq\<close> from 4 on.\<close>

record rxh = machine +
  rxh_receivers :: nat
  rxh_enable :: bool
  rxh_active :: bool
  rxh_buffer :: "u8 list"

definition rxh_chan :: "rxh_board \<Rightarrow> string list \<Rightarrow> u8 option" where
  "rxh_chan b args = (if length args = rxh_first b + 8 then parse_selectors 0 (drop (rxh_first b) args) 0 else None)"

section \<open>Phase increments\<close>

definition rxh_default_inc :: "rxh_board \<Rightarrow> u32" where
  "rxh_default_inc b = word_of_int (inc_floor (ddiv 600000 (rxh_clk b)))"

definition rxh_inc :: "rxh_board \<Rightarrow> u32 \<Rightarrow> u32" where
  "rxh_inc b freq = modf_inc (rxh_clk b) (unat freq)"

text \<open>\<open>buf\<close> is what the stack holds in \<open>buffer\<close>.\<close>

definition rxh_init :: "rxh_board \<Rightarrow> u8 \<Rightarrow> u8 list \<Rightarrow> rxh \<Rightarrow> rxh" where
  "rxh_init b chan buf s =
     (let s = s\<lparr>rxh_receivers := 1, rxh_enable := False, rxh_active := False, rxh_buffer := buf\<rparr>;
          s = foldl (\<lambda>s i. wr32 (4 + 4 * i) (rxh_default_inc b) s) s [0..<8];
          s = wr16 2 (rxh_rate b) s in
      wr8 1 chan s)"

section \<open>Commands\<close>

definition rxh_freq :: "rxh_board \<Rightarrow> nat \<Rightarrow> u8 list \<Rightarrow> rxh \<Rightarrow> rxh" where
  "rxh_freq b i frame s = (let freq = be32_at frame 1 in wr32 (4 + 4 * i) (rxh_inc b freq) s)"

definition rxh_config :: "rxh_board \<Rightarrow> u8 list \<Rightarrow> rxh \<Rightarrow> rxh" where
  "rxh_config b frame s =
     (let s = s\<lparr>rxh_receivers := unat (drop_bit 3 (frame ! 4) AND 7) + 1\<rparr>; code = unat (frame ! 1 AND 3) in
      if code < length (rxh_rates b) then wr16 2 (rxh_rates b ! code) s else s)"

definition rxh_process :: "rxh_board \<Rightarrow> u8 list \<Rightarrow> rxh \<Rightarrow> rxh" where
  "rxh_process b frame s =
     (let c = frame ! 0 in
      if c = 0 \<or> c = 1 then rxh_config b frame s
      else if c = 4 \<or> c = 5 then rxh_freq b 0 frame s
      else if c = 6 \<or> c = 7 then rxh_freq b 1 frame s
      else if c = 8 \<or> c = 9 then rxh_freq b 2 frame s
      else if c = 10 \<or> c = 11 then rxh_freq b 3 frame s
      else if c = 12 \<or> c = 13 then rxh_freq b 4 frame s
      else if c = 14 \<or> c = 15 then rxh_freq b 5 frame s
      else if c = 16 \<or> c = 17 then rxh_freq b 6 frame s
      else if c = 36 \<or> c = 37 then rxh_freq b 7 frame s
      else s)"

section \<open>Datagrams\<close>

text \<open>Where \<open>main\<close> is: waiting for a datagram, or for the end of the thread, after which it may start another.\<close>

datatype rxh_main = Listen | Stopping bool

definition rxh_reply :: "u8 list \<Rightarrow> bool \<Rightarrow> u8 list" where
  "rxh_reply mac active = [0xef, 0xfe, 2 + (if active then 1 else 0)] @ take 6 mac @ [25, 1, 82, 95, 80, 73, 84, 65, 89, 65, 8]"

text \<open>A datagram is stored over the one before; a shorter one leaves the rest of it in the buffer.\<close>

definition rxh_datagram :: "rxh_board \<Rightarrow> u8 list \<Rightarrow> u8 list \<Rightarrow> rxh \<Rightarrow> rxh \<times> rxh_main" where
  "rxh_datagram b mac dg s =
     (let buf = blit (rxh_buffer s) 0 (take 1032 dg); s = s\<lparr>rxh_buffer := buf\<rparr>; code = le32_at buf 0 in
      if code = 0x0201feef then (rxh_process b (drop 523 buf) (rxh_process b (drop 11 buf) s), Listen)
      else if code = 0x0002feef then
        let buf = blit (blit buf 0 (replicate 60 0)) 0 (rxh_reply mac (rxh_active s)) in
        (emit (Send (take 60 buf)) (s\<lparr>rxh_buffer := buf\<rparr>), Listen)
      else if code = 0x0004feef then (s\<lparr>rxh_enable := False\<rparr>, Stopping False)
      else if code = 0x0104feef \<or> code = 0x0204feef \<or> code = 0x0304feef then (s\<lparr>rxh_enable := False\<rparr>, Stopping True)
      else (s, Listen))"

section \<open>The thread\<close>

record rxh_ep6 =
  rx_header :: nat
  rx_counter :: u32
  rx_samples :: "u8 list"
  rx_packets :: "u8 list"

definition rxh_header :: "u8 list" where
  "rxh_header =
    [127, 127, 127, 0, 0, 33, 17, 25,
     127, 127, 127, 8, 0, 0, 0, 0,
     127, 127, 127, 16, 0, 0, 0, 0,
     127, 127, 127, 24, 0, 0, 0, 0,
     127, 127, 127, 32, 66, 66, 66, 66]"

definition rxh_thread :: "rxh_board \<Rightarrow> (nat \<Rightarrow> u8) \<Rightarrow> rxh_ep6" where
  "rxh_thread b junk = \<lparr>rx_header = 0, rx_counter = 0, rx_samples = map junk [0..<6 * rxh_data b],
     rx_packets = map (\<lambda>i. if i mod 1032 < 4 then ep6_id ! (i mod 1032) else junk i) [0..<rxh_slots b * 1032]\<rparr>"

definition rxh_reset :: "rxh \<Rightarrow> rxh" where
  "rxh_reset s = pulse (rd8 0) (wr8 0) 1 s"

text \<open>\<open>m\<close>, and the reset of a FIFO that is too full.\<close>

definition rxh_packets :: "rxh_board \<Rightarrow> nat \<Rightarrow> nat" where
  "rxh_packets b r = rxh_quota b div frame_samples r"

definition rxh_drain :: "rxh_board \<Rightarrow> u16 \<Rightarrow> rxh \<Rightarrow> rxh" where
  "rxh_drain b level s = (if level \<ge> rxh_full b then rxh_reset s else s)"

text \<open>The samples of a frame: 48 bytes of eight receivers each, of which the first \<open>size - 2\<close> are copied.\<close>

fun rxh_copy :: "nat \<Rightarrow> u8 list \<Rightarrow> nat \<Rightarrow> u8 list \<Rightarrow> nat \<Rightarrow> nat \<Rightarrow> (u8 list \<times> nat) option" where
  "rxh_copy bytes data 0 buf p d = Some (buf, d)"
| "rxh_copy bytes data (Suc n) buf p d =
     do {
       buf \<leftarrow> memcpy buf p data d (bytes - 2);
       rxh_copy bytes data n buf (p + bytes) (d + 48)
     }"

text \<open>The frames, with the header offset \<open>h\<close> and the offset \<open>d\<close> in the samples.\<close>

fun rxh_frames :: "nat \<Rightarrow> u8 list \<Rightarrow> nat list \<Rightarrow> nat \<Rightarrow> nat \<Rightarrow> u8 list \<Rightarrow> (u8 list \<times> nat) option" where
  "rxh_frames r data [] h d buf = Some (buf, h)"
| "rxh_frames r data (i # is) h d buf =
     do {
       buf \<leftarrow> memcpy buf (frame_pointer i) rxh_header h 8;
       buf \<leftarrow> memcpy buf (frame_pointer i + 8) (replicate 504 0) 0 504;
       (buf, d) \<leftarrow> rxh_copy (sample_bytes r) data (frame_samples r) buf (frame_pointer i + 8) d;
       rxh_frames r data is (next_header h) d buf
     }"

text \<open>A block for \<open>r\<close> receivers from what the FIFO delivers, and the datagrams that are sent.\<close>

definition rxh_block :: "rxh_board \<Rightarrow> nat \<Rightarrow> u8 list \<Rightarrow> rxh_ep6 \<Rightarrow> (u8 list list \<times> rxh_ep6) option" where
  "rxh_block b r fifo st =
     (let m = rxh_packets b r; n = frame_samples r in
      do {
        data \<leftarrow> memcpy (rx_samples st) 0 fifo 0 (m * n * 96);
        (buf, c) \<leftarrow> number_packets [0..<m] (rx_counter st) (rx_packets st);
        (buf, h) \<leftarrow> rxh_frames r data [0..<m * 2] (rx_header st) 0 buf;
        Some (map (\<lambda>i. take 1032 (drop (i * 1032) buf)) [0..<m],
          \<lparr>rx_header = h, rx_counter = c, rx_samples = data, rx_packets = buf\<rparr>)
      })"

section \<open>Main and the thread together\<close>

text \<open>A thread is created, is about to look at \<open>enable_thread\<close>, or waits for a block of \<open>r\<close> receivers.\<close>

datatype rxh_pc = Fresh | Top rxh_ep6 | Waiting nat rxh_ep6

record rxh_system =
  rs_state :: rxh
  rs_main :: rxh_main
  rs_threads :: "rxh_pc list"

definition rxh_sends :: "u8 list list \<Rightarrow> rxh \<Rightarrow> rxh" where
  "rxh_sends out s = foldl (\<lambda>s dg. emit (Send dg) s) s out"

inductive rxh_step :: "rxh_board \<Rightarrow> u8 list \<Rightarrow> rxh_system \<Rightarrow> rxh_system \<Rightarrow> bool" for b mac where
  receive: "rs_main t = Listen \<Longrightarrow> rxh_datagram b mac dg (rs_state t) = (s, pc) \<Longrightarrow>
    rxh_step b mac t (t\<lparr>rs_state := s, rs_main := pc\<rparr>)"
| main_sleep: "rs_main t = Stopping go \<Longrightarrow> rxh_active (rs_state t) \<Longrightarrow>
    rxh_step b mac t (t\<lparr>rs_state := emit (Sleep 1000) (rs_state t)\<rparr>)"
| stopped: "rs_main t = Stopping False \<Longrightarrow> \<not> rxh_active (rs_state t) \<Longrightarrow> rxh_step b mac t (t\<lparr>rs_main := Listen\<rparr>)"
| started: "rs_main t = Stopping True \<Longrightarrow> \<not> rxh_active (rs_state t) \<Longrightarrow>
    rxh_step b mac t (t\<lparr>rs_state := (rs_state t)\<lparr>rxh_enable := True, rxh_active := True\<rparr>, rs_main := Listen,
      rs_threads := rs_threads t @ [Fresh]\<rparr>)"
| enter: "rs_threads t = ps @ Fresh # qs \<Longrightarrow>
    rxh_step b mac t (t\<lparr>rs_state := rxh_reset (rs_state t), rs_threads := ps @ Top (rxh_thread b junk) # qs\<rparr>)"
| leave: "rs_threads t = ps @ Top st # qs \<Longrightarrow> \<not> rxh_enable (rs_state t) \<Longrightarrow>
    rxh_step b mac t (t\<lparr>rs_state := (rs_state t)\<lparr>rxh_active := False\<rparr>, rs_threads := ps @ qs\<rparr>)"
| look: "rs_threads t = ps @ Top st # qs \<Longrightarrow> rxh_enable (rs_state t) \<Longrightarrow>
    rxh_step b mac t (t\<lparr>rs_state := rxh_drain b level (rs_state t),
      rs_threads := ps @ Waiting (rxh_receivers (rs_state t)) st # qs\<rparr>)"
| thread_sleep: "rs_threads t = ps @ Waiting r st # qs \<Longrightarrow> unat (level :: u16) < rxh_packets b r * frame_samples r * 2 \<Longrightarrow>
    rxh_step b mac t (t\<lparr>rs_state := emit (Sleep 1000) (rs_state t)\<rparr>)"
| block: "rs_threads t = ps @ Waiting r st # qs \<Longrightarrow> rxh_packets b r * frame_samples r * 2 \<le> unat (level :: u16) \<Longrightarrow>
    rxh_block b r fifo st = Some (out, st') \<Longrightarrow>
    rxh_step b mac t (t\<lparr>rs_state := rxh_sends out (rs_state t), rs_threads := ps @ Top st' # qs\<rparr>)"

inductive rxh_reachable :: "rxh_board \<Rightarrow> u8 list \<Rightarrow> rxh_system \<Rightarrow> bool" for b mac where
  start: "length buf = 1032 \<Longrightarrow>
    rxh_reachable b mac \<lparr>rs_state = rxh_init b chan buf s, rs_main = Listen, rs_threads = []\<rparr>"
| step: "rxh_reachable b mac t \<Longrightarrow> rxh_step b mac t t' \<Longrightarrow> rxh_reachable b mac t'"

end
