(* ===== verification/Hpsdr_rx_copy.thy ===== *)
theory Hpsdr_rx_copy
  imports Hpsdr_rx
begin

unbundle bit_operations_syntax

text \<open>
  The loops of \<open>handler_ep6\<close> of the receiver fill regions of the datagrams: the samples of a frame and the
  frames of a block are tilings, and from both follows every byte of every datagram.
\<close>

section \<open>The samples of a frame\<close>

definition copy_put :: "nat \<Rightarrow> u8 list \<Rightarrow> nat \<Rightarrow> nat \<Rightarrow> nat \<Rightarrow> u8 list \<Rightarrow> u8 list option" where
  "copy_put bytes data p d j buf = memcpy buf (p + j * bytes) data (d + 48 * j) (bytes - 2)"

definition copy_at :: "nat \<Rightarrow> nat \<Rightarrow> nat \<Rightarrow> nat" where
  "copy_at bytes p j = p + j * bytes"

definition copy_byte :: "u8 list \<Rightarrow> nat \<Rightarrow> nat \<Rightarrow> nat \<Rightarrow> u8" where
  "copy_byte data d j y = data ! (d + 48 * j + y)"

definition copy_fits :: "nat \<Rightarrow> u8 list \<Rightarrow> nat \<Rightarrow> nat \<Rightarrow> bool" where
  "copy_fits bytes data d j \<longleftrightarrow> d + 48 * j + (bytes - 2) \<le> length data"

interpretation copying: tiling "copy_put bytes data p d" "copy_at bytes p" "bytes - 2" "copy_byte data d" "copy_fits bytes data d"
  for bytes data p d
proof
  show "copy_at bytes p j + (bytes - 2) \<le> copy_at bytes p (Suc j)" for j
    by (simp add: copy_at_def)
  show "gives (copy_put bytes data p d j x) (filled (copy_at bytes p) (bytes - 2) (copy_byte data d) j (Suc j) x)"
    if "copy_fits bytes data d j" "copy_at bytes p j + (bytes - 2) \<le> length x" for j x
    using that copy_fills [of "d + 48 * j" "bytes - 2" data "copy_at bytes p" j x "copy_byte data d"]
    by (simp add: copy_put_def copy_fits_def copy_byte_def copy_at_def)
qed

lemma turns_map: "turns put (map f js) x = turns (\<lambda>j. put (f j)) js x"
  by (induction js arbitrary: x) (simp_all cong: bind_option_cong)

lemma rxh_copy_turns:
  "rxh_copy bytes data n buf p d = map_option (\<lambda>b. (b, d + 48 * n)) (turns (copy_put bytes data p d) [0..<n] buf)"
proof (induction n arbitrary: buf p d)
  case (Suc n)
  have shift: "copy_put bytes data p d (Suc j) = copy_put bytes data (p + bytes) (d + 48) j" for j
    by (simp add: copy_put_def [abs_def] algebra_simps)
  have cons: "[0..<Suc n] = 0 # map Suc [0..<n]"
    by (simp only: upt_conv_Cons [OF zero_less_Suc] map_Suc_upt)
  show ?case
    unfolding cons rxh_copy.simps turns.simps turns_map shift
    by (simp add: Suc.IH [abs_def] map_option_bind comp_def copy_put_def algebra_simps cong: bind_option_cong)
qed simp

section \<open>A frame\<close>

definition frame_byte :: "nat \<Rightarrow> u8 list \<Rightarrow> nat \<Rightarrow> nat \<Rightarrow> nat \<Rightarrow> u8" where
  "frame_byte r data h i x =
     (if x < 8 then rxh_header ! ((next_header ^^ i) h + x)
      else let j = (x - 8) div sample_bytes r; y = (x - 8) mod sample_bytes r in
        if j < frame_samples r \<and> y < 6 * r then data ! (48 * (frame_samples r * i + j) + y) else 0)"

definition frame_put :: "nat \<Rightarrow> u8 list \<Rightarrow> nat \<Rightarrow> nat \<Rightarrow> u8 list \<Rightarrow> u8 list option" where
  "frame_put r data h i buf =
     do {
       buf \<leftarrow> memcpy buf (frame_pointer i) rxh_header ((next_header ^^ i) h) 8;
       buf \<leftarrow> memcpy buf (frame_pointer i + 8) (replicate 504 0) 0 504;
       turns (copy_put (sample_bytes r) data (frame_pointer i + 8) (48 * (frame_samples r * i))) [0..<frame_samples r] buf
     }"

definition frame_fits :: "nat \<Rightarrow> u8 list \<Rightarrow> nat \<Rightarrow> nat \<Rightarrow> bool" where
  "frame_fits r data h i \<longleftrightarrow> header_ok h \<and> valid_receivers r \<and> 48 * (frame_samples r * Suc i) \<le> length data"

lemma header_room: "header_ok h \<Longrightarrow> h + 8 \<le> length rxh_header"
  by (auto simp: header_ok_def rxh_header_def)

lemma rest_is_zero:
  assumes b: "filled (copy_at z p) (z - 2) c 0 n x b" and zeros: "\<And>q. p \<le> q \<Longrightarrow> q < p + 504 \<Longrightarrow> x ! q = 0"
    and "n * z \<le> 504" and "2 < z" and "q < 504" and "p + 504 \<le> length x"
  shows "b ! (p + q) = (if q div z < n \<and> q mod z < z - 2 then c (q div z) (q mod z) else 0)"
proof (cases "q div z < n \<and> q mod z < z - 2")
  case True
  moreover have "p + q = copy_at z p (q div z) + q mod z"
    by (simp add: copy_at_def)
  ultimately show ?thesis
    using b by (simp add: filled_def)
next
  case False
  have "p + q < copy_at z p j \<or> copy_at z p j + (z - 2) \<le> p + q" if "j < n" for j
  proof (rule ccontr)
    assume "\<not> ?thesis"
    then have "j * z \<le> q" "q < j * z + (z - 2)"
      by (auto simp: copy_at_def)
    then obtain y where y: "q = j * z + y" "y < z - 2"
      by (metis add_less_cancel_left le_Suc_ex)
    then have "q div z = j" "q mod z = y"
      using assms(4) by simp_all
    with False that y show False by simp
  qed
  then have "b ! (p + q) = x ! (p + q)"
    using b assms(5,6) by (simp add: filled_def)
  then show ?thesis
    using False zeros [of "p + q"] assms(5) by auto
qed

interpretation framing: tiling "frame_put r data h" frame_pointer 512 "frame_byte r data h" "frame_fits r data h" for r data h
proof
  show "frame_pointer i + 512 \<le> frame_pointer (Suc i)" for i
    by (rule frame_pointer_Suc)
next
  fix i and x :: "u8 list"
  assume fits: "frame_fits r data h i" and room: "frame_pointer i + 512 \<le> length x"
  let ?p = "frame_pointer i" and ?h = "(next_header ^^ i) h" and ?z = "sample_bytes r" and ?n = "frame_samples r"
  have h: "?h + 8 \<le> length rxh_header"
    using fits header_ok_funpow header_room by (auto simp: frame_fits_def)
  have z: "?z = 6 * r + 2" "2 < ?z" "?z - 2 \<le> 48" "?n * ?z \<le> 504"
    using fits Hpsdr_common.frame_fits [of r] by (auto simp: frame_fits_def valid_receivers_def sample_bytes_def)
  have data: "copy_fits ?z data (48 * (?n * i)) j" if "j < ?n" for j
    using that z fits by (auto simp: copy_fits_def frame_fits_def)
  have at: "copy_at ?z (?p + 8) j + (?z - 2) \<le> ?p + 512" if "j < ?n" for j
    using sample_in_frame [OF that] by (simp add: copy_at_def)
  show "gives (frame_put r data h i x) (filled frame_pointer 512 (frame_byte r data h) i (Suc i) x)"
    unfolding frame_put_def gives_bind
  proof (rule memcpy_gives, goal_cases)
    case (3 b1)
    then have b1: "copied x ?p rxh_header ?h 8 b1" .
    show ?case
    proof (rule memcpy_gives, goal_cases)
      case (3 b2)
      then have b2: "copied b1 (?p + 8) (replicate 504 0) 0 504 b2" .
      have len: "length b2 = length x"
        using b1 b2 by (simp add: copied_def)
      show ?case
      proof (rule gives_mono [OF copying.turns_fill])
        show "copy_at ?z (?p + 8) j + (?z - 2) \<le> length b2" if "j < ?n" for j
          using at [OF that] room len by simp
        fix b
        assume b: "filled (copy_at ?z (?p + 8)) (?z - 2) (copy_byte data (48 * (?n * i))) 0 ?n b2 b"
        have zeros: "b2 ! q = 0" if "?p + 8 \<le> q" "q < ?p + 8 + 504" for q
          using b2 that room b1 by (auto simp: copied_def)
        have outside: "b ! q = b2 ! q" if "q < length x" "q < ?p + 8 \<or> ?p + 512 \<le> q" for q
        proof -
          have "q < copy_at ?z (?p + 8) j \<or> copy_at ?z (?p + 8) j + (?z - 2) \<le> q" if "j < ?n" for j
            using \<open>q < ?p + 8 \<or> ?p + 512 \<le> q\<close> at [OF that] by (auto simp: copy_at_def)
          with b that len show ?thesis
            by (simp add: filled_def)
        qed
        have "b ! (?p + y) = frame_byte r data h i y" if "y < 512" for y
        proof (cases "y < 8")
          case True
          then show ?thesis
            using outside [of "?p + y"] b1 b2 room by (auto simp: copied_def frame_byte_def)
        next
          case False
          then show ?thesis
            using rest_is_zero [OF b zeros z(4,2), of "y - 8"] that room len z(1)
            by (simp add: frame_byte_def copy_byte_def Let_def algebra_simps)
        qed
        moreover have "b ! q = x ! q" if "q < length x" "q < ?p \<or> ?p + 512 \<le> q" for q
          using outside [of q] b1 b2 that by (auto simp: copied_def)
        ultimately show "filled frame_pointer 512 (frame_byte r data h) i (Suc i) x b"
          using b len by (auto simp: filled_def less_Suc_eq)
      qed (use data in simp_all)
    qed (use b1 room in \<open>simp_all add: copied_def\<close>)
  qed (use h room in simp_all)
qed

lemma rxh_frames_turns:
  assumes "i \<le> e"
  shows "rxh_frames r data [i..<e] ((next_header ^^ i) h) (48 * (frame_samples r * i)) buf =
    map_option (\<lambda>b. (b, (next_header ^^ e) h)) (turns (frame_put r data h) [i..<e] buf)"
  using assms
proof (induction "e - i" arbitrary: i buf)
  case (Suc t)
  let ?n = "frame_samples r"
  have lt: "i < e"
    using Suc.hyps(2) by simp
  have IH: "rxh_frames r data [Suc i..<e] (next_header ((next_header ^^ i) h)) (48 * (?n * i) + 48 * ?n) b =
      map_option (\<lambda>b. (b, (next_header ^^ e) h)) (turns (frame_put r data h) [Suc i..<e] b)" for b
    using Suc.hyps(1) [of "Suc i" b] Suc.hyps(2) lt by (simp add: algebra_simps)
  show ?case
    unfolding upt_conv_Cons [OF lt] rxh_frames.simps turns.simps rxh_copy_turns frame_put_def [of r data h i buf]
    by (simp add: IH bind_map_option map_option_bind comp_def cong: bind_option_cong)
qed simp

end
