(* ===== verification/Hpsdr_rx_props.thy ===== *)
theory Hpsdr_rx_props
  imports Hpsdr_rx_spec
begin

unbundle bit_operations_syntax

text \<open>
  The properties of the HPSDR receiver: its phase increments, its datagrams, and its thread under every
  interleaving with \<open>main\<close>.
\<close>

section \<open>Phase increments\<close>

definition rxh_exact :: "rxh_board \<Rightarrow> u32 \<Rightarrow> rat" where
  "rxh_exact b freq = modf_exact (rxh_clk b) (unat freq)"

lemma rxh_inc_near:
  assumes "rxh_known b"
  shows "\<bar>of_nat (unat (rxh_inc b freq)) - rxh_exact b freq\<bar> \<le> 1 / 2 + 1 / 2 ^ 15"
  using assms modf_inc_near [of "rxh_clk b" "unat freq"] unat_lt [of freq]
  by (auto simp: rxh_inc_def rxh_exact_def rxh_known_def rxh_125_def rxh_122_def)

section \<open>Commands\<close>

text \<open>The receiver whose frequency a frame sets.\<close>

definition rxh_target :: "u8 \<Rightarrow> nat option" where
  "rxh_target c = (if 4 \<le> c \<and> c \<le> 17 then Some ((unat c - 4) div 2) else if c = 36 \<or> c = 37 then Some 7 else None)"

lemma rxh_target_process:
  assumes "rxh_target (frame ! 0) = Some i"
  shows "rxh_process b frame s = rxh_freq b i frame s \<and> i < 8"
proof -
  have "4 \<le> unat (frame ! 0) \<and> unat (frame ! 0) \<le> 17 \<or> unat (frame ! 0) = 36 \<or> unat (frame ! 0) = 37"
    using assms by (auto simp: rxh_target_def word_le_nat_alt split: if_splits)
  then have "unat (frame ! 0) \<in> {4, 5, 6, 7, 8, 9, 10, 11, 12, 13, 14, 15, 16, 17, 36, 37}"
    unfolding insert_iff empty_iff by presburger
  then have "frame ! 0 \<in> {4, 5, 6, 7, 8, 9, 10, 11, 12, 13, 14, 15, 16, 17, 36, 37}"
    by (simp add: word_unat_eq_iff)
  then show ?thesis
    using assms by (auto simp: rxh_target_def rxh_process_def)
qed

lemma rxh_freq_regs:
  assumes "j < 8" and "i < 8" and "j \<noteq> i"
  shows "rd32 (4 + 4 * j) (rxh_freq b i frame s) = rd32 (4 + 4 * j) s"
  using assms by (cases "j < i") (simp_all add: rxh_freq_def Let_def)

lemma rxh_config_regs: "rd32 (4 + 4 * j) (rxh_config b frame s) = rd32 (4 + 4 * j) s"
  by (simp add: rxh_config_def Let_def rd_defs wr_defs regs_store)

text \<open>C32. A frequency command tunes the receiver it names to within 1/2 + 2^-15 of a step of the exact phase
  increment, whatever the frequency, and leaves the other seven and the sample rate alone.\<close>

theorem rxh_tunes:
  assumes "rxh_known b" and "rxh_target (frame ! 0) = Some i"
  shows "\<bar>of_nat (unat (rd32 (4 + 4 * i) (rxh_process b frame s))) - rxh_exact b (be32_at frame 1)\<bar> \<le> 1 / 2 + 1 / 2 ^ 15 \<and>
    (j < 8 \<and> j \<noteq> i \<longrightarrow> rd32 (4 + 4 * j) (rxh_process b frame s) = rd32 (4 + 4 * j) s) \<and>
    rd16 2 (rxh_process b frame s) = rd16 2 s \<and> rxh_receivers (rxh_process b frame s) = rxh_receivers s"
proof -
  have p: "rxh_process b frame s = rxh_freq b i frame s" "i < 8"
    using rxh_target_process [OF assms(2)] by simp_all
  have "rd32 (4 + 4 * i) (rxh_freq b i frame s) = rxh_inc b (be32_at frame 1)"
    by (simp add: rxh_freq_def Let_def)
  moreover have "rd16 2 (rxh_freq b i frame s) = rd16 2 s" "rxh_receivers (rxh_freq b i frame s) = rxh_receivers s"
    by (simp_all add: rxh_freq_def Let_def wr_defs store_def rd_defs)
  ultimately show ?thesis
    using rxh_inc_near [OF assms(1)] rxh_freq_regs [of j i] p by simp
qed

definition rxh_idle :: rxh where
  "rxh_idle = \<lparr>regs = \<lambda>_. 0, trace = [], rxh_receivers = 1, rxh_enable = False, rxh_active = False,
     rxh_buffer = replicate 1032 0\<rparr>"

lemma be32_at_behind: "be32_at (x # be32 w) (Suc 0) = w"
  by (simp add: be32_at_def be32_def le32_def)

text \<open>Receiver 7 at 10 MHz.\<close>

theorem rxh_tunes_witness:
  "\<bar>of_nat (unat (rd32 32 (rxh_process rxh_125 (37 # be32 10000000) rxh_idle))) - (343597383.6 :: rat)\<bar> \<le> 1 / 2 + 1 / 2 ^ 15"
proof -
  have "\<lfloor>10000000 / 125000000 :: rat\<rfloor> = 0"
    by (intro floor_unique) simp_all
  then have exact: "rxh_exact rxh_125 10000000 = 343597383.6"
    by (simp add: rxh_exact_def modf_exact_def rxh_125_def)
  then show ?thesis
    using rxh_tunes [of rxh_125 "37 # be32 10000000" 7 rxh_idle 0] by (simp add: be32_at_behind exact rxh_known_def rxh_target_def)
qed

section \<open>Datagrams\<close>

text \<open>C17. A block is assembled without a copy outside an array, and its datagrams are exactly those of the
  reference \<open>rxh_sent\<close>: identifier, running number, headers in turn, and for each sample the bytes of the
  receivers the host asked for, zeros elsewhere; numbers and headers continue in the next block.\<close>

theorem rxh_block_exact:
  assumes "rxh_known b" and "valid_receivers r" and "rxh_ok b st"
    and "rxh_packets b r * frame_samples r * 96 \<le> length fifo"
  shows "\<exists>v. rxh_block b r fifo st = Some (rxh_sent b r fifo st, v) \<and> rxh_ok b v \<and>
    rx_counter v = rx_counter st + of_nat (rxh_packets b r) \<and>
    rx_header v = (next_header ^^ (2 * rxh_packets b r)) (rx_header st)"
  using rxh_block_gives [OF assms] by (auto simp: gives_def)

text \<open>The first block of three receivers; the second sample of the first receiver is at byte 36.\<close>

theorem rxh_block_exact_witness:
  "\<exists>v. rxh_block rxh_125 3 (map of_nat [0..<12000]) (rxh_thread rxh_125 (\<lambda>_. 7)) =
      Some (rxh_sent rxh_125 3 (map of_nat [0..<12000]) (rxh_thread rxh_125 (\<lambda>_. 7)), v) \<and> rx_counter v = 5"
  using rxh_block_exact [of rxh_125 3 "rxh_thread rxh_125 (\<lambda>_. 7)" "map of_nat [0..<12000]"]
    rxh_thread_ok [of rxh_125 "\<lambda>_. 7"]
  by (auto simp: rxh_known_def valid_receivers_def rxh_packets_def frame_samples_def sample_bytes_def rxh_125_def rxh_thread_def
      simp del: upt_rec_numeral)

section \<open>Main and the thread\<close>



text \<open>What the operations leave alone.\<close>

definition rxh_same :: "rxh \<Rightarrow> rxh \<Rightarrow> bool" where
  "rxh_same s s' \<longleftrightarrow> rxh_enable s' = rxh_enable s \<and> rxh_active s' = rxh_active s \<and> rxh_buffer s' = rxh_buffer s"

lemma rxh_wr_same [simp]:
  "rxh_receivers (wr8 a v s) = rxh_receivers s" "rxh_receivers (wr16 a h s) = rxh_receivers s"
  "rxh_receivers (wr32 a w s) = rxh_receivers s" "rxh_receivers (emit e s) = rxh_receivers s"
  "rxh_same u (wr8 a v s) = rxh_same u s" "rxh_same u (wr16 a h s) = rxh_same u s" "rxh_same u (wr32 a w s) = rxh_same u s"
  "rxh_same u (emit e s) = rxh_same u s" "rxh_same u (s\<lparr>rxh_receivers := r\<rparr>) = rxh_same u s"
  by (simp_all add: rxh_same_def wr_defs store_def emit_def)




lemma rxh_process_same [simp]:
  "valid_receivers (rxh_receivers s) \<Longrightarrow> valid_receivers (rxh_receivers (rxh_process b frame s))"
  "rxh_same u (rxh_process b frame s) = rxh_same u s"
proof -
  have "unat (drop_bit 3 (frame ! 4) AND 7) < 8"
    by (rule unat_and_mask_less) simp
  then show "valid_receivers (rxh_receivers s) \<Longrightarrow> valid_receivers (rxh_receivers (rxh_process b frame s))"
    "rxh_same u (rxh_process b frame s) = rxh_same u s"
    by (simp_all add: rxh_process_def rxh_config_def rxh_freq_def Let_def valid_receivers_def)
qed











section \<open>Stopping\<close>



end
