(* ===== verification/Streaming.thy ===== *)
theory Streaming
  imports Mmio
begin

unbundle bit_operations_syntax

text \<open>
  The loop of the servers that stream from a ring of memory: \<open>sdr_receiver_wide\<close>, \<open>sdr_receiver_master\<close>,
  \<open>sdr_receiver_slave\<close> and \<open>adc_test\<close>. The FPGA writes the ring all the time; the server reads the
  writer's position and sends the half it has left, while it fills the other one. The locale
  \<open>ring_server\<close> is what the commands of such a server promise; in it the client is proved to receive
  the samples one after the other, none lost or repeated, as long as the loop keeps up with the writer.
\<close>

text \<open>\<open>ring_limit\<close> is \<open>limit\<close>; \<open>ring_sent\<close> are the offsets of the halves sent to the client.\<close>

record ring = machine +
  ring_limit :: int
  ring_sent :: "nat list"

section \<open>The loop\<close>

definition ring_due :: "int \<Rightarrow> int \<Rightarrow> int \<Rightarrow> bool" where
  "ring_due L limit position \<longleftrightarrow> (limit > 0 \<and> position > limit) \<or> (limit = 0 \<and> position < L)"

text \<open>A half of \<open>half\<close> bytes and \<open>L\<close> units of position is sent if ready, otherwise the server sleeps. \<open>Inl\<close>
  leaves the loop.\<close>

definition ring_poll :: "nat \<Rightarrow> nat \<Rightarrow> int \<Rightarrow> bool \<Rightarrow> ring \<Rightarrow> ring + ring" where
  "ring_poll L half position ok s =
     (if ring_due (int L) (ring_limit s) position then
        let offset = (if ring_limit s > 0 then 0 else half);
            s = s\<lparr>ring_limit := (if ring_limit s > 0 then 0 else int L)\<rparr> in
        if ok then Inr (s\<lparr>ring_sent := ring_sent s @ [offset]\<rparr>) else Inl s
      else Inr (emit (Sleep 1000) s))"

text \<open>
  The input of a turn: a command, if four bytes of the client are there, the position that is read and
  whether \<open>send\<close> succeeds. For the properties a turn also tells how many units the FPGA had written when
  the position was read and at the end of the turn, and when \<open>send\<close> read each unit of the half.
\<close>

record ring_turn =
  rt_command :: "u32 option"
  rt_position :: u32
  rt_ok :: bool
  rt_written :: nat
  rt_after :: nat
  rt_read :: "nat \<Rightarrow> nat"

text \<open>The body of the loop. A command that is out of range ends the turn with \<open>continue\<close>: \<open>None\<close>.\<close>

definition ring_obey :: "(u32 \<Rightarrow> ring \<Rightarrow> ring option) \<Rightarrow> ring_turn \<Rightarrow> ring \<Rightarrow> ring option" where
  "ring_obey command t s = (case rt_command t of None \<Rightarrow> Some s | Some c \<Rightarrow> command c s)"

definition ring_body :: "(u32 \<Rightarrow> ring \<Rightarrow> ring option) \<Rightarrow> nat \<Rightarrow> nat \<Rightarrow> ring_turn \<Rightarrow> ring \<Rightarrow> ring + ring" where
  "ring_body command L half t s =
     (case ring_obey command t s of
        None \<Rightarrow> Inr s
      | Some s \<Rightarrow> ring_poll L half (sint (rt_position t)) (rt_ok t) s)"

section \<open>The ring\<close>

text \<open>The FPGA writes the units \<open>h 0\<close>, \<open>h 1\<close> and so on to the places of a ring of \<open>2 * L\<close> units. What place \<open>a\<close>
  holds after \<open>t\<close> of them: the last one written there.\<close>

definition ring_at :: "nat \<Rightarrow> (nat \<Rightarrow> 'u) \<Rightarrow> nat \<Rightarrow> nat \<Rightarrow> 'u" where
  "ring_at L h t a = h (t - 1 - (t - 1 - a) mod (2 * L))"

lemma ring_at_last:
  assumes "q < t" and "t \<le> q + 2 * L" and "q = a + k * (2 * L)"
  shows "ring_at L h t a = h q"
proof -
  obtain e where e: "t - 1 = q + e" "e < 2 * L"
    by (rule that [of "t - 1 - q"]) (use assms(1,2) in linarith)+
  have "t - 1 - a = e + k * (2 * L)"
    using e(1) assms(3) by simp
  then have "(t - 1 - a) mod (2 * L) = e"
    using e(2) by (metis mod_less mod_mult_self1)
  then show ?thesis
    unfolding ring_at_def e(1) by simp
qed

text \<open>What the client receives in a run of turns.\<close>

fun ring_received :: "(u32 \<Rightarrow> ring \<Rightarrow> ring option) \<Rightarrow> nat \<Rightarrow> nat \<Rightarrow> (nat \<Rightarrow> 'u) \<Rightarrow> ring_turn list \<Rightarrow> ring \<Rightarrow> 'u list" where
  "ring_received command L half h [] s = []"
| "ring_received command L half h (t # ts) s =
     (case ring_body command L half t s of
        Inl s' \<Rightarrow> []
      | Inr s' \<Rightarrow>
          (if length (ring_sent s) < length (ring_sent s')
           then map (\<lambda>a. ring_at L h (rt_read t a) (if last (ring_sent s') = 0 then a else L + a)) [0..<L] else []) @
          ring_received command L half h ts s')"

text \<open>
  The loop keeps up: every send succeeds, the position read is that of the writer, \<open>send\<close> reads between the
  reading of the position and the end of the turn, and from the reading of a position to the end of the
  turn that reads the next one the FPGA writes less than a half. \<open>p\<close> is the count at the last reading.
\<close>

fun ring_timely :: "(u32 \<Rightarrow> ring \<Rightarrow> ring option) \<Rightarrow> nat \<Rightarrow> nat \<Rightarrow> nat \<Rightarrow> ring_turn list \<Rightarrow> ring \<Rightarrow> bool" where
  "ring_timely command L half p [] s \<longleftrightarrow> True"
| "ring_timely command L half p (t # ts) s \<longleftrightarrow>
     (case ring_body command L half t s of
        Inl s' \<Rightarrow> False
      | Inr s' \<Rightarrow>
          if ring_obey command t s = None then ring_timely command L half p ts s'
          else p \<le> rt_written t \<and> rt_written t \<le> rt_after t \<and> rt_after t < p + L \<and>
            sint (rt_position t) = int (rt_written t mod (2 * L)) \<and>
            list_all (\<lambda>a. rt_written t \<le> rt_read t a \<and> rt_read t a \<le> rt_after t) [0..<L] \<and>
            ring_timely command L half (rt_written t) ts s')"

text \<open>The state and the last reading of the position after a run.\<close>

fun ring_run :: "(u32 \<Rightarrow> ring \<Rightarrow> ring option) \<Rightarrow> nat \<Rightarrow> nat \<Rightarrow> nat \<Rightarrow> ring_turn list \<Rightarrow> ring \<Rightarrow> nat \<times> ring" where
  "ring_run command L half p [] s = (p, s)"
| "ring_run command L half p (t # ts) s =
     (case ring_body command L half t s of
        Inl s' \<Rightarrow> (p, s')
      | Inr s' \<Rightarrow> ring_run command L half (if ring_obey command t s = None then p else rt_written t) ts s')"

section \<open>Servers that stream\<close>

locale ring_server =
  fixes command :: "u32 \<Rightarrow> ring \<Rightarrow> ring option" and L :: nat and half :: nat
  assumes positive: "0 < L" "0 < half"
    and keeps: "command c s = Some s' \<Longrightarrow> ring_limit s' = ring_limit s \<and> ring_sent s' = ring_sent s"
begin

definition before :: "nat \<Rightarrow> nat \<Rightarrow> ring \<Rightarrow> bool" where
  "before n p s \<longleftrightarrow> ring_limit s = (if even n then int L else 0) \<and> n * L \<le> p \<and> p \<le> n * L + L"

lemma obey_keeps: "ring_obey command t s = Some s' \<Longrightarrow> ring_limit s' = ring_limit s \<and> ring_sent s' = ring_sent s"
  by (auto simp: ring_obey_def keeps split: option.splits)

text \<open>A turn that reads the position either leaves the half \<open>n\<close> to a later turn or sends it complete.\<close>

lemma turn:
  assumes "before n p s" and "ring_body command L half t s = Inr s'" and "ring_obey command t s \<noteq> None"
    and w: "p \<le> rt_written t" "rt_written t \<le> rt_after t" "rt_after t < p + L"
      "sint (rt_position t) = int (rt_written t mod (2 * L))"
    and r: "list_all (\<lambda>a. rt_written t \<le> rt_read t a \<and> rt_read t a \<le> rt_after t) [0..<L]"
  shows "before n (rt_written t) s' \<and> ring_sent s' = ring_sent s \<or>
    before (Suc n) (rt_written t) s' \<and> ring_sent s' = ring_sent s @ [if even n then 0 else half] \<and>
      map (\<lambda>a. ring_at L h (rt_read t a) (if even n then a else L + a)) [0..<L] = map h [n * L..<Suc n * L]"
proof -
  obtain s1 where s1: "ring_obey command t s = Some s1" "ring_limit s1 = (if even n then int L else 0)" "ring_sent s1 = ring_sent s"
    using assms(1,3) obey_keeps by (auto simp: before_def)
  define w where "w = rt_written t"
  have range: "n * L \<le> w" "w < n * L + 2 * L" "rt_after t \<le> n * L + 2 * L"
    using assms(1) w unfolding before_def w_def by linarith+
  obtain k where k: "n = 2 * k \<or> n = Suc (2 * k)"
    by (metis evenE oddE Suc_eq_plus1)
  then have place: "n * L = (if even n then 0 else L) + k * (2 * L)"
    by auto
  obtain x where x: "w = n * L + x" "x < 2 * L"
    using range by (metis le_Suc_ex add_less_cancel_left)
  have due: "ring_due (int L) (ring_limit s1) (sint (rt_position t)) \<longleftrightarrow> (if even n then n * L + L < w else n * L + L \<le> w)"
  proof (cases "even n")
    case True
    then have "w = x + k * (2 * L)"
      using place x by simp
    then have "w mod (2 * L) = x"
      using x(2) by (metis mod_less mod_mult_self1)
    then show ?thesis
      using True x(1) s1(2) w(4) positive by (simp add: ring_due_def w_def [symmetric])
  next
    case False
    then have wx: "w = (L + x) + k * (2 * L)" "w = (x - L) + Suc k * (2 * L) \<or> x < L"
      using place x by auto
    have "w mod (2 * L) = (if x < L then L + x else x - L)"
    proof (cases "x < L")
      case True
      then have "(L + x) mod (2 * L) = L + x"
        by simp
      with True show ?thesis
        using wx(1) by (metis mod_mult_self1)
    next
      case up: False
      then have "w mod (2 * L) = (x - L) mod (2 * L)"
        using wx(2) by (metis mod_mult_self1)
      with up x show ?thesis by simp
    qed
    then show ?thesis
      using False x s1(2) w(4) by (simp add: ring_due_def w_def [symmetric]) linarith
  qed
  show ?thesis
  proof (cases "ring_due (int L) (ring_limit s1) (sint (rt_position t))")
    case False
    then have "s' = emit (Sleep 1000) s1"
      using assms(2) s1(1) by (simp add: ring_body_def ring_poll_def)
    then have "before n w s' \<and> ring_sent s' = ring_sent s"
      using False due range s1 by (auto simp: before_def emit_def split: if_splits)
    then show ?thesis
      by (simp add: w_def)
  next
    case True
    then have sent: "ring_limit s' = (if even n then 0 else int L)" "ring_sent s' = ring_sent s @ [if even n then 0 else half]"
      using assms(2) s1 positive by (auto simp: ring_body_def ring_poll_def Let_def split: if_splits)
    have full: "n * L + L \<le> w"
      using True due by (simp split: if_splits)
    have "ring_at L h (rt_read t a) (if even n then a else L + a) = h (n * L + a)" if "a < L" for a
    proof (rule ring_at_last)
      have "w \<le> rt_read t a" "rt_read t a \<le> rt_after t"
        using r that by (simp_all add: list_all_iff w_def)
      then show "n * L + a < rt_read t a" "rt_read t a \<le> n * L + a + 2 * L"
        using full range that by linarith+
      show "n * L + a = (if even n then a else L + a) + k * (2 * L)"
        using place by simp
    qed
    then have "map (\<lambda>a. ring_at L h (rt_read t a) (if even n then a else L + a)) [0..<L] = map h [n * L..<Suc n * L]"
      by (cases "even n") (auto intro!: nth_equalityI)
    moreover have "before (Suc n) w s'"
      using sent full range by (simp add: before_def)
    ultimately show ?thesis
      using sent by (simp add: w_def)
  qed
qed

text \<open>A run from the \<open>n\<close>-th half on: the client receives the next units in order, and at the end at most one
  complete half waits to be sent.\<close>

lemma stream:
  assumes "before n p s" and "ring_timely command L half p ts s"
  shows "\<exists>m. ring_received command L half h ts s = map h [n * L..<m * L] \<and> n \<le> m \<and>
    before m (fst (ring_run command L half p ts s)) (snd (ring_run command L half p ts s))"
  using assms
proof (induction ts arbitrary: n p s)
  case Nil
  then show ?case by (auto intro: exI [of _ n])
next
  case (Cons t ts)
  obtain s' where s': "ring_body command L half t s = Inr s'"
    using Cons.prems(2) by (auto split: sum.splits)
  show ?case
  proof (cases "ring_obey command t s")
    case None
    then have "s' = s"
      using s' by (simp add: ring_body_def)
    then show ?thesis
      using Cons.IH [OF Cons.prems(1)] Cons.prems(2) None s' by simp
  next
    case (Some u)
    note timely = Cons.prems(2) [unfolded ring_timely.simps s' sum.case Some option.simps if_False]
    from turn [OF Cons.prems(1) s', of h] timely Some
    consider (wait) "before n (rt_written t) s'" "ring_sent s' = ring_sent s"
      | (send) "before (Suc n) (rt_written t) s'" "ring_sent s' = ring_sent s @ [if even n then 0 else half]"
        "map (\<lambda>a. ring_at L h (rt_read t a) (if even n then a else L + a)) [0..<L] = map h [n * L..<Suc n * L]"
      by auto
    then show ?thesis
    proof cases
      case wait
      then show ?thesis
        using Cons.IH [OF wait(1)] timely Some s' by simp
    next
      case send
      obtain m where m: "ring_received command L half h ts s' = map h [Suc n * L..<m * L]" "Suc n \<le> m"
        "before m (fst (ring_run command L half (rt_written t) ts s')) (snd (ring_run command L half (rt_written t) ts s'))"
        using Cons.IH [OF send(1)] timely by auto
      have "[n * L..<m * L] = [n * L..<Suc n * L] @ [Suc n * L..<m * L]"
        using m(2) by (metis le_add1 le_add_diff_inverse mult_le_mono1 upt_add_eq_append mult_Suc add.commute)
      moreover have "(last (ring_sent s') = 0) = even n"
        using send(2) positive by simp
      ultimately show ?thesis
        using m send(2,3) s' Some by (intro exI [of _ m]) (simp del: upt_Suc mult_Suc)
    qed
  qed
qed

lemma stream_from_start:
  assumes "ring_limit s = int L" and "ring_timely command L half 0 ts s"
  shows "\<exists>m. ring_received command L half h ts s = map h [0..<m * L] \<and>
    m * L \<le> fst (ring_run command L half 0 ts s) \<and> fst (ring_run command L half 0 ts s) \<le> m * L + L"
  using stream [of 0 0 s ts h] assms by (auto simp: before_def)

end

end
