(* ===== verification/Ring_servers.thy ===== *)
theory Ring_servers
  imports Modf Streaming
begin

unbundle bit_operations_syntax

text \<open>
  The servers that stream from a ring of memory, and their commands: \<open>projects/sdr_receiver_wide\<close> with its
  variant for the 122.88 MHz board, \<open>projects/sdr_receiver_master\<close> and \<open>projects/sdr_receiver_slave\<close>,
  \<open>projects/adc_test\<close> and \<open>projects/radar_122_88\<close>. All but the last are instances of \<open>ring_server\<close>. The end of
  the program on an interrupt is left out. The bytes of the ring, the allocation of its memory and the
  sockets are the environment.
\<close>

text \<open>\<open>command >> 28\<close> and \<open>value\<close>, which is never negative.\<close>

definition ring_code :: "u32 \<Rightarrow> u32" where "ring_code command = drop_bit 28 command"
definition ring_value :: "u32 \<Rightarrow> u32" where "ring_value command = command AND 0xfffffff"

text \<open>The reset bits: both low, the second before the first high again.\<close>

definition ring_reset :: "ring \<Rightarrow> ring" where
  "ring_reset s =
     (let s = reg_clear (rd8 0) (wr8 0) 1 s; s = emit (Sleep 100) s in reg_clear (rd8 0) (wr8 0) 2 s)"

definition ring_operate :: "ring \<Rightarrow> ring" where
  "ring_operate s =
     (let s = reg_set (rd8 0) (wr8 0) 2 s; s = emit (Sleep 100) s in reg_set (rd8 0) (wr8 0) 1 s)"

section \<open>Wideband receiver\<close>

record wide_board =
  wide_clk :: rat
  wide_rate :: u16
  wide_min :: u32
  wide_max :: u32

definition wide_125 :: wide_board where
  "wide_125 = \<lparr>wide_clk = clk_125, wide_rate = 16, wide_min = 16, wide_max = 8192\<rparr>"

definition wide_122 :: wide_board where
  "wide_122 = \<lparr>wide_clk = clk_122, wide_rate = 6, wide_min = 6, wide_max = 64\<rparr>"

text \<open>\<open>rx_rst\<close> is at offset 0, \<open>rx_rate\<close> at 2, \<open>rx_addr\<close> at 4, the two \<open>rx_freq\<close> at 8 and 12.\<close>

definition wide_init :: "u32 \<Rightarrow> ring \<Rightarrow> ring" where
  "wide_init address s = wr32 4 address s"

definition wide_default_inc :: "wide_board \<Rightarrow> u32" where
  "wide_default_inc b = word_of_int (inc_floor (ddiv 10000000 (wide_clk b)))"

definition wide_idle :: "wide_board \<Rightarrow> ring \<Rightarrow> ring" where
  "wide_idle b s =
     (let s = ring_reset s; s = wr16 2 (wide_rate b) s; s = wr32 8 (wide_default_inc b) s in wr32 12 (wide_default_inc b) s)"

definition wide_accept :: "ring \<Rightarrow> ring" where
  "wide_accept s = (let s = ring_operate s in s\<lparr>ring_limit := 32 * 1024, ring_sent := []\<rparr>)"

definition wide_command :: "wide_board \<Rightarrow> u32 \<Rightarrow> ring \<Rightarrow> ring option" where
  "wide_command b command s =
     (let value = ring_value command; code = ring_code command in
      if code = 0 then if value < wide_min b \<or> value > wide_max b then None else Some (wr16 2 (ucast value) s)
      else if code = 1 then Some (wr32 8 (modf_inc (wide_clk b) (unat value)) s)
      else if code = 2 then Some (wr32 12 (modf_inc (wide_clk b) (unat value)) s)
      else Some s)"

definition wide_turn :: "wide_board \<Rightarrow> ring_turn \<Rightarrow> ring \<Rightarrow> ring + ring" where
  "wide_turn b = ring_body (wide_command b) (32 * 1024) (4096 * 1024)"

text \<open>The server waits for a client, or serves one.\<close>

inductive wide_step :: "wide_board \<Rightarrow> bool \<times> ring \<Rightarrow> bool \<times> ring \<Rightarrow> bool" for b where
  accept: "wide_step b (False, s) (True, wide_accept s)"
| turn: "wide_turn b t s = Inr s' \<Longrightarrow> wide_step b (True, s) (True, s')"
| failed: "wide_turn b t s = Inl s' \<Longrightarrow> wide_step b (True, s) (False, wide_idle b s')"
| closed: "wide_step b (True, s) (False, wide_idle b s)"

inductive wide_reachable :: "wide_board \<Rightarrow> bool \<times> ring \<Rightarrow> bool" for b where
  start: "wide_reachable b (False, wide_idle b (wide_init address s))"
| step: "wide_reachable b t \<Longrightarrow> wide_step b t t' \<Longrightarrow> wide_reachable b t'"

section \<open>Chained receivers\<close>

text \<open>The master starts and stops the boards of a chain with the first reset bit, a slave has the second only.
  \<open>freq\<close> is at offset 8, an increment and a flag for each of four oscillators, \<open>level\<close> at 40 and 42.\<close>

definition chain_default_inc :: u32 where
  "chain_default_inc = phase_inc clk_125 10000000"

definition chain_accept :: "u32 \<Rightarrow> ring \<Rightarrow> ring" where
  "chain_accept address s =
     (let s = wr16 2 20 s;
          s = wr32 4 address s;
          s = wr32 8 chain_default_inc s;
          s = wr32 12 0 s;
          s = wr32 16 chain_default_inc s;
          s = wr32 20 0 s;
          s = wr32 24 chain_default_inc s;
          s = wr32 28 0 s;
          s = wr32 32 chain_default_inc s;
          s = wr32 36 0 s;
          s = reg_set (rd8 0) (wr8 0) 2 s in
      s\<lparr>ring_limit := 32 * 1024, ring_sent := []\<rparr>)"

definition chain_tune :: "nat \<Rightarrow> u32 \<Rightarrow> ring \<Rightarrow> ring option" where
  "chain_tune off value s =
     (if value > 62500000 then None
      else let s = wr32 off (phase_inc clk_125 (unat value)) s in Some (wr32 (off + 4) (if value > 0 then 0 else 1) s))"

definition chain_level :: "nat \<Rightarrow> u32 \<Rightarrow> ring \<Rightarrow> ring option" where
  "chain_level off value s = (if value > 32766 then None else Some (wr16 off (ucast value) s))"

definition chain_command :: "bool \<Rightarrow> u32 \<Rightarrow> ring \<Rightarrow> ring option" where
  "chain_command master command s =
     (let value = ring_value command; code = ring_code command in
      if code = 0 then if value < 16 \<or> value > 8192 then None else Some (wr16 2 (ucast value) s)
      else if code = 1 then chain_tune 8 value s
      else if code = 2 then chain_tune 16 value s
      else if code = 3 then chain_tune 24 value s
      else if code = 4 then chain_tune 32 value s
      else if code = 5 then chain_level 40 value s
      else if code = 6 then chain_level 42 value s
      else if code = 7 \<and> master then Some (reg_set (rd8 0) (wr8 0) 1 s)
      else Some s)"

definition chain_turn :: "bool \<Rightarrow> ring_turn \<Rightarrow> ring \<Rightarrow> ring + ring" where
  "chain_turn master = ring_body (chain_command master) (32 * 1024) (4096 * 1024)"

definition chain_leave :: "bool \<Rightarrow> ring \<Rightarrow> ring" where
  "chain_leave master s =
     (let s = (if master then reg_clear (rd8 0) (wr8 0) 1 s else s); s = emit (Sleep 100) s in reg_clear (rd8 0) (wr8 0) 2 s)"

section \<open>Test of the converters\<close>

text \<open>No commands; the rate is fixed.\<close>

definition adc_idle :: "ring \<Rightarrow> ring" where
  "adc_idle s = (let s = ring_reset s in wr16 2 4 s)"

definition adc_accept :: "ring \<Rightarrow> ring" where
  "adc_accept s = (let s = ring_operate s in s\<lparr>ring_limit := 32 * 1024, ring_sent := []\<rparr>)"

definition adc_turn :: "ring_turn \<Rightarrow> ring \<Rightarrow> ring + ring" where
  "adc_turn t s = ring_poll (32 * 1024) (4096 * 1024) (sint (rt_position t)) (rt_ok t) s"

section \<open>Radar\<close>

text \<open>
  \<open>rx_freq\<close> is at offset 4, the addresses and sizes of the transmitted and received samples from 8 on. The
  position of the writer is a \<open>uint16_t\<close>. \<open>limit\<close> has no value before the first start. The samples to
  transmit go to memory and are left out.
\<close>

definition radar_init :: "u32 \<Rightarrow> u32 \<Rightarrow> ring \<Rightarrow> ring" where
  "radar_init page address s =
     (let s = wr32 8 address s; s = wr32 12 524287 s; s = wr32 16 (address + 16384 * page) s in wr32 20 4194303 s)"

definition radar_idle :: "ring \<Rightarrow> ring" where
  "radar_idle s = (let s = ring_reset s in wr32 4 (phase_inc clk_122 10000000) s)"

definition radar_start :: "ring \<Rightarrow> ring" where
  "radar_start s = (let s = ring_operate s in s\<lparr>ring_limit := 256 * 1024\<rparr>)"

text \<open>The case 1 goes on with case 2.\<close>

definition radar_command :: "u32 \<Rightarrow> ring \<Rightarrow> ring option" where
  "radar_command command s =
     (let value = ring_value command; code = ring_code command in
      if code = 0 then if value > 61440000 then None else Some (wr32 4 (phase_inc clk_122 (unat value)) s)
      else if code = 1 then
        if value > 67108864 then None
        else let s = wr32 12 (drop_bit 7 value - 1) s; s = wr32 20 (drop_bit 4 value - 1) s in Some (radar_start s)
      else if code = 2 then Some (radar_start s)
      else if code = 3 then Some (ring_reset s)
      else Some s)"

definition radar_turn :: "u32 option \<Rightarrow> u16 \<Rightarrow> bool \<Rightarrow> ring \<Rightarrow> ring + ring" where
  "radar_turn c position ok s =
     (case (case c of None \<Rightarrow> Some s | Some c \<Rightarrow> radar_command c s) of
        None \<Rightarrow> Inr s
      | Some s \<Rightarrow> ring_poll (256 * 1024) (32768 * 1024) (uint position) ok s)"

text \<open>The turns of a client, until \<open>send\<close> fails.\<close>

fun radar_turns :: "(u32 option \<times> u16 \<times> bool) list \<Rightarrow> ring \<Rightarrow> ring" where
  "radar_turns [] s = s"
| "radar_turns ((c, position, ok) # ts) s =
     (case radar_turn c position ok s of Inl s \<Rightarrow> s | Inr s \<Rightarrow> radar_turns ts s)"

end
