(* ===== verification/Ring_spec.thy ===== *)
theory Ring_spec
  imports Ring_servers
begin

unbundle bit_operations_syntax

text \<open>
  Properties of the servers that stream from a ring: the client receives the samples without gaps while the
  loop keeps up, the FPGA is in reset without a client, and the radar server never sends anything.
\<close>

lemma ring_simps [simp]:
  "ring_limit (wr8 a v s) = ring_limit s" "ring_limit (wr16 a h s) = ring_limit s" "ring_limit (wr32 a w s) = ring_limit s"
  "ring_limit (emit e s) = ring_limit s" "ring_sent (wr8 a v s) = ring_sent s" "ring_sent (wr16 a h s) = ring_sent s"
  "ring_sent (wr32 a w s) = ring_sent s" "ring_sent (emit e s) = ring_sent s"
  by (simp_all add: wr_defs store_def emit_def)

lemma ring_flag_simps [simp]:
  "ring_limit (reg_set (rd8 a) (wr8 a) m s) = ring_limit s" "ring_limit (reg_clear (rd8 a) (wr8 a) m s) = ring_limit s"
  "ring_sent (reg_set (rd8 a) (wr8 a) m s) = ring_sent s" "ring_sent (reg_clear (rd8 a) (wr8 a) m s) = ring_sent s"
  by (simp_all add: reg_set_def reg_clear_def)

lemma ring_reset_simps [simp]:
  "ring_limit (ring_reset s) = ring_limit s" "ring_sent (ring_reset s) = ring_sent s"
  "ring_limit (ring_operate s) = ring_limit s" "ring_sent (ring_operate s) = ring_sent s"
  by (simp_all add: ring_reset_def ring_operate_def Let_def)

lemma ring_rd_simps [simp]:
  "rd8 a (s\<lparr>ring_limit := l, ring_sent := bs\<rparr>) = rd8 a s" "rd16 a (s\<lparr>ring_limit := l, ring_sent := bs\<rparr>) = rd16 a s"
  by (simp_all add: rd_defs)

section \<open>The servers are instances\<close>

interpretation wide: ring_server "wide_command b" "32 * 1024" "4096 * 1024" for b
  by unfold_locales (auto simp: wide_command_def Let_def split: if_splits)

interpretation chain: ring_server "chain_command master" "32 * 1024" "4096 * 1024" for master
  by unfold_locales (auto simp: chain_command_def chain_tune_def chain_level_def Let_def split: if_splits)

interpretation adc: ring_server "\<lambda>c. Some" "32 * 1024" "4096 * 1024"
  by unfold_locales simp_all

lemma adc_turn_body: "adc_turn = ring_body (\<lambda>c. Some) (32 * 1024) (4096 * 1024)"
  by (simp add: fun_eq_iff adc_turn_def ring_body_def ring_obey_def split: option.split)

section \<open>Streams\<close>

text \<open>C19. A client of the wideband receiver receives the units the FPGA writes one after the other from the first
  on, none lost, repeated or overwritten while it is read, however commands and turns alternate, as long as the
  loop keeps up: from one reading of the position to the end of the turn of the next one less than half a ring
  is written. All complete halves but at most the last one have been sent.\<close>

theorem wide_streams:
  assumes "ring_timely (wide_command b) (32 * 1024) (4096 * 1024) 0 ts (wide_accept s)"
  shows "\<exists>m. ring_received (wide_command b) (32 * 1024) (4096 * 1024) h ts (wide_accept s) = map h [0..<m * (32 * 1024)] \<and>
    m * (32 * 1024) \<le> fst (ring_run (wide_command b) (32 * 1024) (4096 * 1024) 0 ts (wide_accept s)) \<and>
    fst (ring_run (wide_command b) (32 * 1024) (4096 * 1024) 0 ts (wide_accept s)) \<le> m * (32 * 1024) + 32 * 1024"
  using assms by (intro wide.stream_from_start) (simp_all add: wide_accept_def Let_def)

lemma chain_streams:
  assumes "ring_timely (chain_command master) (32 * 1024) (4096 * 1024) 0 ts (chain_accept address s)"
  shows "\<exists>m. ring_received (chain_command master) (32 * 1024) (4096 * 1024) h ts (chain_accept address s) = map h [0..<m * (32 * 1024)] \<and>
    m * (32 * 1024) \<le> fst (ring_run (chain_command master) (32 * 1024) (4096 * 1024) 0 ts (chain_accept address s)) \<and>
    fst (ring_run (chain_command master) (32 * 1024) (4096 * 1024) 0 ts (chain_accept address s)) \<le> m * (32 * 1024) + 32 * 1024"
  using assms by (intro chain.stream_from_start) (simp_all add: chain_accept_def Let_def)

lemma adc_streams:
  assumes "ring_timely (\<lambda>c. Some) (32 * 1024) (4096 * 1024) 0 ts (adc_accept s)"
  shows "\<exists>m. ring_received (\<lambda>c. Some) (32 * 1024) (4096 * 1024) h ts (adc_accept s) = map h [0..<m * (32 * 1024)]"
  using assms adc.stream_from_start [of "adc_accept s" ts h] by (auto simp: adc_accept_def Let_def)

text \<open>Two readings while the FPGA writes 30000 and 40000 units: the second one sends the first half.\<close>

definition reading :: "nat \<Rightarrow> nat \<Rightarrow> ring_turn" where
  "reading w v = \<lparr>rt_command = None, rt_position = of_nat w, rt_ok = True, rt_written = w, rt_after = v, rt_read = (\<lambda>a. w)\<rparr>"

definition ring_idle_state :: ring where
  "ring_idle_state = \<lparr>regs = \<lambda>_. 0, trace = [], ring_limit = 7, ring_sent = []\<rparr>"

theorem wide_streams_witness:
  "ring_received (wide_command wide_125) (32 * 1024) (4096 * 1024) of_nat [reading 30000 30100, reading 40000 41000]
    (wide_accept ring_idle_state) = map (of_nat :: nat \<Rightarrow> u64) [0..<32768]"
proof -
  let ?s = "wide_accept ring_idle_state" and ?c = "wide_command wide_125"
  have lim: "ring_limit ?s = 32768" "ring_sent ?s = []"
    by (simp_all add: wide_accept_def Let_def)
  have b1: "ring_body ?c (32 * 1024) (4096 * 1024) (reading 30000 30100) ?s = Inr (emit (Sleep 1000) ?s)"
    by (simp add: ring_body_def ring_obey_def reading_def ring_poll_def ring_due_def lim)
  have b2: "ring_body ?c (32 * 1024) (4096 * 1024) (reading 40000 41000) (emit (Sleep 1000) ?s) =
      Inr ((emit (Sleep 1000) ?s)\<lparr>ring_limit := 0, ring_sent := [0]\<rparr>)"
    by (simp add: ring_body_def ring_obey_def reading_def ring_poll_def ring_due_def lim Let_def)
  have timely: "ring_timely ?c (32 * 1024) (4096 * 1024) 0 [reading 30000 30100, reading 40000 41000] ?s"
    by (simp only: ring_timely.simps b1 b2 sum.case) (simp add: ring_obey_def reading_def list_all_iff)
  have run: "fst (ring_run ?c (32 * 1024) (4096 * 1024) 0 [reading 30000 30100, reading 40000 41000] ?s) = 40000"
    by (simp only: ring_run.simps b1 b2 sum.case) (simp add: ring_obey_def reading_def)
  obtain m where "ring_received ?c (32 * 1024) (4096 * 1024) of_nat [reading 30000 30100, reading 40000 41000] ?s =
      map (of_nat :: nat \<Rightarrow> u64) [0..<m * (32 * 1024)]" and "m * (32 * 1024) \<le> 40000" "40000 \<le> m * (32 * 1024) + 32 * 1024"
    using wide_streams [OF timely, of of_nat] unfolding run by blast
  moreover from this(2,3) have "m = 1"
    by linarith
  ultimately show ?thesis
    by simp
qed

section \<open>The FPGA is in reset without a client\<close>

definition wide_known :: "wide_board \<Rightarrow> bool" where
  "wide_known b \<longleftrightarrow> b = wide_125 \<or> b = wide_122"

definition wide_inv :: "wide_board \<Rightarrow> bool \<times> ring \<Rightarrow> bool" where
  "wide_inv b t \<longleftrightarrow> rd8 0 (snd t) AND 3 = (if fst t then 3 else 0) \<and>
     (\<not> fst t \<longrightarrow> rd16 2 (snd t) = wide_rate b \<and> rd32 8 (snd t) = wide_default_inc b \<and> rd32 12 (snd t) = wide_default_inc b) \<and>
     unat (wide_min b) \<le> unat (rd16 2 (snd t)) \<and> unat (rd16 2 (snd t)) \<le> unat (wide_max b)"

lemma ring_reset_regs:
  "rd8 0 (ring_reset s) AND 3 = 0" "rd8 0 (ring_operate s) AND 3 = 3"
  "0 < a \<Longrightarrow> rd16 a (ring_operate s) = rd16 a s"
  by (simp_all add: ring_reset_def ring_operate_def reg_set_def reg_clear_def Let_def and.assoc or.assoc
      bit.conj_disj_distrib2)

lemma wide_idle_inv: "wide_known b \<Longrightarrow> wide_inv b (False, wide_idle b s)"
  by (auto simp: wide_inv_def wide_idle_def Let_def ring_reset_regs wide_known_def wide_125_def wide_122_def)

lemma wide_command_inv:
  assumes "wide_inv b (True, s)" and "wide_known b" and "wide_command b c s = Some s'"
  shows "wide_inv b (True, s')"
proof -
  have max: "unat (wide_max b) < 2 ^ 16"
    using assms(2) by (auto simp: wide_known_def wide_125_def wide_122_def)
  have "unat (ucast (ring_value c) :: u16) = unat (ring_value c)" if "unat (ring_value c) \<le> unat (wide_max b)"
    using that max by (intro unat_ucast_small) simp
  then show ?thesis
    using assms(1,3) by (auto simp: wide_command_def wide_inv_def Let_def word_less_nat_alt split: if_splits)
qed

lemma wide_poll_inv:
  assumes "wide_inv b (True, s)" and "ring_poll L half position ok s = Inr s'"
  shows "wide_inv b (True, s')"
  using assms by (auto simp: ring_poll_def wide_inv_def Let_def rd_defs split: if_splits)

lemma wide_step_inv: "wide_step b t t' \<Longrightarrow> wide_inv b t \<Longrightarrow> wide_known b \<Longrightarrow> wide_inv b t'"
proof (induction rule: wide_step.induct)
  case (accept s)
  then show ?case
    by (auto simp: wide_inv_def wide_accept_def Let_def ring_reset_regs)
next
  case (turn t s s')
  obtain u where u: "ring_obey (wide_command b) t s = None \<and> s' = s \<or> ring_obey (wide_command b) t s = Some u \<and>
      ring_poll (32 * 1024) (4096 * 1024) (sint (rt_position t)) (rt_ok t) u = Inr s'"
    using turn(1) by (auto simp: wide_turn_def ring_body_def split: option.splits)
  have "wide_inv b (True, u)" if "ring_obey (wide_command b) t s = Some u"
    using that turn(2,3) wide_command_inv by (auto simp: ring_obey_def split: option.splits)
  then show ?case
    using u turn(2) wide_poll_inv by auto
qed (simp_all add: wide_idle_inv)

text \<open>Without a client the reset bits of the wideband receiver are low and its registers at their defaults;
  with one both bits are high. The sample rate is always in the range of the board.\<close>

theorem wide_reset_without_client:
  assumes "wide_reachable b (client, s)" and "b = wide_125 \<or> b = wide_122"
  shows "rd8 0 s AND 3 = (if client then 3 else 0) \<and>
    (\<not> client \<longrightarrow> rd16 2 s = wide_rate b \<and> rd32 8 s = wide_default_inc b \<and> rd32 12 s = wide_default_inc b) \<and>
    unat (wide_min b) \<le> unat (rd16 2 s) \<and> unat (rd16 2 s) \<le> unat (wide_max b)"
proof -
  have known: "wide_known b"
    using assms(2) by (simp add: wide_known_def)
  have "wide_inv b t" if "wide_reachable b t" for t
    using that by induction (auto intro: wide_idle_inv [OF known] wide_step_inv [OF _ _ known])
  from this [OF assms(1)] show ?thesis
    by (simp add: wide_inv_def)
qed

text \<open>A client connects, sets the rate to 100, and leaves.\<close>

theorem wide_reset_without_client_witness:
  "\<exists>s s'. wide_reachable wide_125 (True, s) \<and> rd16 2 s = 100 \<and> rd8 0 s AND 3 = 3 \<and>
    wide_reachable wide_125 (False, s') \<and> rd16 2 s' = 16 \<and> rd8 0 s' AND 3 = 0"
proof -
  let ?idle = "wide_idle wide_125 (wide_init 0 ring_idle_state)"
  let ?t = "(reading 0 0)\<lparr>rt_command := Some 100\<rparr>"
  let ?s = "emit (Sleep 1000) (wr16 2 100 (wide_accept ?idle))"
  have r0: "wide_reachable wide_125 (True, wide_accept ?idle)"
    by (rule wide_reachable.step [OF wide_reachable.start wide_step.accept])
  have "wide_turn wide_125 ?t (wide_accept ?idle) = Inr ?s"
    by (simp add: wide_turn_def ring_body_def ring_obey_def reading_def wide_command_def ring_value_def ring_code_def wide_125_def
        ring_poll_def ring_due_def Let_def) (simp add: wide_accept_def Let_def)
  from wide_reachable.step [OF r0 wide_step.turn [OF this]] have r: "wide_reachable wide_125 (True, ?s)" .
  have r': "wide_reachable wide_125 (False, wide_idle wide_125 ?s)"
    by (rule wide_reachable.step [OF r wide_step.closed])
  have "rd16 2 ?s = 100"
    by simp
  then show ?thesis
    using wide_reset_without_client [OF r] r r' wide_reset_without_client [OF r'] by (auto simp: wide_125_def)
qed

section \<open>The radar sends nothing\<close>

text \<open>After a start the radar server never sends samples to its client: the position is read into 16 bits, and
  the limit it has to exceed is 262144.\<close>

theorem radar_sends_nothing:
  assumes "radar_command command s = Some s1" and "ring_code command = 1 \<or> ring_code command = 2"
  shows "ring_sent (radar_turns ts s1) = ring_sent s \<and> ring_limit (radar_turns ts s1) = 262144"
proof -
  have start: "ring_limit s1 = 262144" "ring_sent s1 = ring_sent s"
    using assms by (auto simp: radar_command_def radar_start_def Let_def split: if_splits)
  have "ring_sent (radar_turns ts s) = ring_sent s \<and> ring_limit (radar_turns ts s) = 262144" if "ring_limit s = 262144" for s
    using that
  proof (induction ts arbitrary: s)
    case (Cons t ts)
    obtain c position ok where t: "t = (c, position, ok)"
      by (cases t)
    obtain u where u: "ring_limit u = 262144" "ring_sent u = ring_sent s"
      and turn: "radar_turn c position ok s = Inr s \<or> radar_turn c position ok s = ring_poll (256 * 1024) (32768 * 1024) (uint position) ok u"
    proof (cases "case c of None \<Rightarrow> Some s | Some c \<Rightarrow> radar_command c s")
      case None
      then show ?thesis
        using that [of s] Cons.prems by (simp add: radar_turn_def)
    next
      case (Some u)
      then have "ring_limit u = 262144 \<and> ring_sent u = ring_sent s"
        using Cons.prems by (auto simp: radar_command_def radar_start_def Let_def split: option.splits if_splits)
      then show ?thesis
        using that [of u] Some by (simp add: radar_turn_def)
    qed
    have "uint position < 65536"
      using uint_lt2p [of position] by simp
    then have "ring_poll (256 * 1024) (32768 * 1024) (uint position) ok u = Inr (emit (Sleep 1000) u)"
      using u by (simp add: ring_poll_def ring_due_def)
    then show ?case
      using turn u Cons.prems Cons.IH [of s] Cons.IH [of "emit (Sleep 1000) u"] by (auto simp: t)
  qed simp
  with start show ?thesis
    by simp
qed

theorem radar_sends_nothing_witness:
  "\<exists>s1. radar_command 0x20000000 ring_idle_state = Some s1 \<and>
    ring_sent (radar_turns [(None, 65535, True), (None, 40000, True), (None, 0, True)] s1) = []"
proof -
  have c: "radar_command 0x20000000 ring_idle_state = Some (radar_start ring_idle_state)"
    by (simp add: radar_command_def ring_code_def Let_def)
  have "ring_code 0x20000000 = 2"
    by (simp add: ring_code_def)
  then show ?thesis
    using radar_sends_nothing [OF c, of "[(None, 65535, True), (None, 40000, True), (None, 0, True)]"] c
    by (simp add: ring_idle_state_def)
qed

end
