(* ===== verification/Receiver.thy ===== *)
theory Receiver
  imports Modf Mmio
begin

unbundle bit_operations_syntax

text \<open>
  \<open>projects/sdr_receiver/server/sdr-receiver.c\<close>: eight receivers for one TCP client, which sends all settings
  in one structure of 40 bytes and receives the samples. The file of \<open>sdr_receiver_122_88\<close> differs in the
  constants of \<open>rcv_board\<close>, in its argument, the network interface, and in the pages of its registers. The
  end of the program on an interrupt is left out.
\<close>

record rcv_board =
  rcv_clk :: rat
  rcv_rates :: "u16 list"

definition rcv_125 :: rcv_board where
  "rcv_125 = \<lparr>rcv_clk = clk_125, rcv_rates = [1000, 500, 250, 250]\<rparr>"

definition rcv_122 :: rcv_board where
  "rcv_122 = \<lparr>rcv_clk = clk_122, rcv_rates = [1280, 640, 320, 160]\<rparr>"

text \<open>\<open>rx_rst\<close> is at offset 0, \<open>rx_sel\<close> at 1, \<open>rx_rate\<close> at 2, eight \<open>rx_freq\<close> from 4 on.\<close>

definition rcv_default_inc :: "rcv_board \<Rightarrow> u32" where
  "rcv_default_inc b = word_of_int (inc_floor (ddiv 600000 (rcv_clk b)))"

definition rcv_idle :: "rcv_board \<Rightarrow> machine \<Rightarrow> machine" where
  "rcv_idle b s =
     (let s = reg_clear (rd8 0) (wr8 0) 1 s; s = wr8 1 0 s; s = wr16 2 (rcv_rates b ! 0) s in
      foldl (\<lambda>s i. wr32 (4 + 4 * i) (rcv_default_inc b) s) s [0..<8])"

definition rcv_accept :: "machine \<Rightarrow> machine" where
  "rcv_accept s = reg_set (rd8 0) (wr8 0) 1 s"

text \<open>
  \<open>(uint32_t)floor(modf(freq / CLK, &integral) * 0xffffffff + 0.5)\<close> for a signed frequency. The conversion of
  a value outside the range of \<open>uint32_t\<close> is undefined: \<open>None\<close>.
\<close>

definition signed_inc :: "rat \<Rightarrow> int \<Rightarrow> u32 option" where
  "signed_inc clk freq =
     (let v = inc_floor (modf_part (ddiv (of_int freq) clk)) in if 0 \<le> v \<and> v < 2 ^ 32 then Some (word_of_int v) else None)"

text \<open>\<open>struct control\<close>: \<open>inps\<close>, \<open>rate\<close> and \<open>freq\<close>, 32-bit integers, least significant byte first.\<close>

fun rcv_tune :: "rcv_board \<Rightarrow> u8 list \<Rightarrow> nat list \<Rightarrow> machine \<Rightarrow> machine option" where
  "rcv_tune b ctrl [] s = Some s"
| "rcv_tune b ctrl (i # is) s =
     (case signed_inc (rcv_clk b) (sint (le32_at ctrl (8 + 4 * i))) of
        None \<Rightarrow> None
      | Some w \<Rightarrow> rcv_tune b ctrl is (wr32 (4 + 4 * i) w s))"

definition rcv_control :: "rcv_board \<Rightarrow> u8 list \<Rightarrow> machine \<Rightarrow> machine option" where
  "rcv_control b ctrl s =
     (let s = wr8 1 (ucast (le32_at ctrl 0 AND 0xff)) s;
          s = wr16 2 (rcv_rates b ! unat (le32_at ctrl 4 AND 3)) s in
      rcv_tune b ctrl [0..<8] s)"

text \<open>
  The body of the loop: the structure, if all of it has arrived, two readings of \<open>rx_cntr\<close>, the 65536 bytes
  the FIFO delivers, whether \<open>send\<close> succeeds. \<open>Inl\<close> leaves the loop, \<open>None\<close> is undefined.
\<close>

definition rcv_turn :: "rcv_board \<Rightarrow> u8 list option \<Rightarrow> u16 \<Rightarrow> u16 \<Rightarrow> u8 list \<Rightarrow> bool \<Rightarrow> machine \<Rightarrow> (machine + machine) option" where
  "rcv_turn b ctrl level1 level2 fifo ok s =
     (case (case ctrl of None \<Rightarrow> Some s | Some ctrl \<Rightarrow> rcv_control b ctrl s) of
        None \<Rightarrow> None
      | Some s \<Rightarrow>
          let s = (if level1 \<ge> 2048 then pulse (rd8 0) (wr8 0) 1 s else s) in
          if level2 \<ge> 1024 then Some (if ok then Inr (emit (Send (take 65536 fifo)) s) else Inl s)
          else Some (Inr (emit (Sleep 500) s)))"

text \<open>The server waits for a client, or serves one.\<close>

inductive rcv_step :: "rcv_board \<Rightarrow> bool \<times> machine \<Rightarrow> bool \<times> machine \<Rightarrow> bool" for b where
  accept: "rcv_step b (False, s) (True, rcv_accept s)"
| turn: "rcv_turn b ctrl l1 l2 fifo ok s = Some (Inr s') \<Longrightarrow> rcv_step b (True, s) (True, s')"
| failed: "rcv_turn b ctrl l1 l2 fifo ok s = Some (Inl s') \<Longrightarrow> rcv_step b (True, s) (False, rcv_idle b s')"
| closed: "rcv_step b (True, s) (False, rcv_idle b s)"

inductive rcv_reachable :: "rcv_board \<Rightarrow> bool \<times> machine \<Rightarrow> bool" for b where
  start: "rcv_reachable b (False, rcv_idle b s)"
| step: "rcv_reachable b t \<Longrightarrow> rcv_step b t t' \<Longrightarrow> rcv_reachable b t'"

end
