(* ===== verification/Receiver_spec.thy ===== *)
theory Receiver_spec
  imports Receiver
begin

unbundle bit_operations_syntax

text \<open>
  Properties of the receiver with one TCP client: which settings are defined at all and what they do, and the
  registers with and without a client.
\<close>

section \<open>Signed frequencies\<close>

lemma negative_floor:
  fixes p :: rat
  assumes "p \<le> - (1 / 2 ^ 28)" and "- 1 \<le> p"
  shows "inc_floor p < 0"
proof -
  have "\<bar>p * 0xffffffff\<bar> \<le> 2 ^ 32"
    using assms by simp
  from double.rnd_within [of "p * 0xffffffff" "p * 0xffffffff" 0, OF _ this]
  have "\<bar>dmul p 0xffffffff - p * 0xffffffff\<bar> \<le> 1"
    by (simp add: dmul_def)
  moreover have "p * 0xffffffff \<le> - 15"
    using assms(1) by simp
  ultimately have a: "dmul p 0xffffffff + 1 / 2 \<le> - 13"
    by linarith
  have "dmul p 0xffffffff + 1 / 2 < 0"
    using a by linarith
  then have "\<bar>dadd (dmul p 0xffffffff) (1 / 2) - (dmul p 0xffffffff + 1 / 2)\<bar> \<le> - (dmul p 0xffffffff + 1 / 2) / 2 ^ 53"
    using fl_error [of 53 "dmul p 0xffffffff + 1 / 2"] by (simp add: dadd_def)
  then have "dadd (dmul p 0xffffffff) (1 / 2) < 0"
    using a by (simp add: abs_if split: if_splits)
  then show ?thesis
    by (simp add: inc_floor_def)
qed

lemma inc_floor_0: "inc_floor 0 = 0"
proof -
  have half: "fl 53 (1 / 2) = 1 / 2"
    using fl_half_int [of 1 53] by simp
  have "\<lfloor>fl 53 (1 / 2)\<rfloor> = 0"
    unfolding half by (intro floor_unique) simp_all
  then show ?thesis
    by (simp add: inc_floor_def dmul_def dadd_def)
qed

definition rcv_known :: "rcv_board \<Rightarrow> bool" where
  "rcv_known b \<longleftrightarrow> b = rcv_125 \<or> b = rcv_122"

lemma rcv_known_clk: "rcv_known b \<Longrightarrow> rcv_clk b = clk_125 \<or> rcv_clk b = clk_122"
  by (auto simp: rcv_known_def rcv_125_def rcv_122_def)

text \<open>The clock divides the frequency.\<close>

definition whole :: "rcv_board \<Rightarrow> int \<Rightarrow> bool" where
  "whole b freq \<longleftrightarrow> \<lceil>rcv_clk b\<rceil> dvd freq"

lemma signed_inc_nonneg:
  assumes "rcv_known b" and "0 \<le> freq" and "freq < 2 ^ 32"
  shows "signed_inc (rcv_clk b) freq = Some (modf_inc (rcv_clk b) (nat freq))"
  using modf_inc_range(1,2) [OF rcv_known_clk [OF assms(1)], of "nat freq"] assms(2,3)
  by (simp add: signed_inc_def modf_inc_def Let_def nat_less_iff)

lemma signed_inc_negative:
  assumes "rcv_known b" and "freq < 0" and "- (2 ^ 32) < freq"
  shows "signed_inc (rcv_clk b) freq = (if whole b freq then Some 0 else None)"
proof -
  obtain c where c: "rcv_clk b = of_nat c" "100000000 \<le> c" "c \<le> 2 ^ 27"
    using rcv_known_clk [OF assms(1)] by (auto intro: that [of 125000000] that [of 122880000])
  define n where "n = nat (- freq)"
  have n: "freq = - int n" "n < 2 ^ 32"
    using assms(2,3) by (simp_all add: n_def)
  let ?q = "modf_part (ddiv (of_nat n) (of_nat c))"
  have "0 < c"
    using c(2) by simp
  note near = modf_near [OF c(2,3) n(2)] and rest = remainder_part [OF \<open>0 < c\<close> c(3), of n]
  have inc: "modf_part (ddiv (of_int freq) (rcv_clk b)) = - ?q"
    by (simp add: n(1) c(1) modf_quotient_minus)
  have whole: "whole b freq \<longleftrightarrow> c dvd n"
    by (simp add: whole_def c(1) n(1))
  show ?thesis
  proof (cases "c dvd n")
    case True
    then obtain k where k: "n = c * k" ..
    have "of_nat n / of_nat c = (of_int (int k) :: rat)"
      using \<open>0 < c\<close> by (simp add: k)
    moreover have "k < 2 ^ 32"
      using n(2) \<open>0 < c\<close> k by (metis le_less_trans mult.commute mult_le_mono2 nat_mult_1_right Suc_leI One_nat_def)
    ultimately have "?q = 0"
      using fl_int [of "int k" 53] by (simp add: ddiv_def modf_part_def)
    then show ?thesis
      using True whole inc by (simp add: signed_inc_def inc_floor_0)
  next
    case False
    have small: "43 / 2 ^ 53 \<le> (1 / 2 ^ 28 :: rat)" "1 / 2 ^ 27 = (1 / 2 ^ 28 + 1 / 2 ^ 28 :: rat)" "(1 / 2 ^ 28 :: rat) \<le> 1"
      by simp_all
    have "- ?q \<le> - (1 / 2 ^ 28)" "- 1 \<le> - ?q"
      using near rest(2) rest(3) [OF False] small by linarith+
    then have "inc_floor (- ?q) < 0"
      by (rule negative_floor)
    then show ?thesis
      using False whole inc by (simp add: signed_inc_def)
  qed
qed

section \<open>A control structure\<close>

text \<open>The frequencies of a structure, and the increment a defined one selects.\<close>

definition ctrl_freq :: "u8 list \<Rightarrow> nat \<Rightarrow> int" where
  "ctrl_freq ctrl i = sint (le32_at ctrl (8 + 4 * i))"

definition freq_defined :: "rcv_board \<Rightarrow> int \<Rightarrow> bool" where
  "freq_defined b freq \<longleftrightarrow> 0 \<le> freq \<or> whole b freq"

lemma ctrl_freq_range: "- (2 ^ 31) \<le> ctrl_freq ctrl i" "ctrl_freq ctrl i < 2 ^ 31"
  using sint_ge [of "le32_at ctrl (8 + 4 * i)"] sint_lt [of "le32_at ctrl (8 + 4 * i)"] by (simp_all add: ctrl_freq_def)

lemma signed_inc_ctrl:
  assumes "rcv_known b"
  shows "signed_inc (rcv_clk b) (ctrl_freq ctrl i) =
    (if freq_defined b (ctrl_freq ctrl i) then Some (modf_inc (rcv_clk b) (nat (ctrl_freq ctrl i))) else None)"
proof (cases "0 \<le> ctrl_freq ctrl i")
  case True
  then show ?thesis
    using signed_inc_nonneg [OF assms True] ctrl_freq_range(2) [of ctrl i] by (simp add: freq_defined_def)
next
  case False
  have "modf_inc (rcv_clk b) 0 = 0"
    by (simp add: modf_inc_def ddiv_def modf_part_def inc_floor_0)
  then show ?thesis
    using signed_inc_negative [OF assms, of "ctrl_freq ctrl i"] ctrl_freq_range(1) [of ctrl i] False
    by (simp add: freq_defined_def)
qed

lemma rcv_tune_result:
  assumes "rcv_known b"
  shows "rcv_tune b ctrl is s =
    (if list_all (\<lambda>i. freq_defined b (ctrl_freq ctrl i)) is
     then Some (foldl (\<lambda>s i. wr32 (4 + 4 * i) (modf_inc (rcv_clk b) (nat (ctrl_freq ctrl i))) s) s is) else None)"
  by (induction "is" arbitrary: s) (simp_all add: signed_inc_ctrl [OF assms] flip: ctrl_freq_def)

text \<open>Eight words side by side: each is read back.\<close>

lemma rd_words:
  "a < 4 \<Longrightarrow> rd8 a (foldl (\<lambda>s i. wr32 (4 + 4 * i) (f i) s) s is) = rd8 a s"
  "b + 2 \<le> 4 \<Longrightarrow> rd16 b (foldl (\<lambda>s i. wr32 (4 + 4 * i) (f i) s) s is) = rd16 b s"
  "rd32 (4 + 4 * i) (foldl (\<lambda>s i. wr32 (4 + 4 * i) (f i) s) s is) = (if i \<in> set is then f i else rd32 (4 + 4 * i) s)"
proof -
  have other: "rd32 (4 + 4 * i) (wr32 (4 + 4 * j) w s) = (if i = j then w else rd32 (4 + 4 * i) s)" for j w and s :: "'a machine_scheme"
    by (cases i j rule: linorder_cases) simp_all
  show "a < 4 \<Longrightarrow> rd8 a (foldl (\<lambda>s i. wr32 (4 + 4 * i) (f i) s) s is) = rd8 a s"
    "b + 2 \<le> 4 \<Longrightarrow> rd16 b (foldl (\<lambda>s i. wr32 (4 + 4 * i) (f i) s) s is) = rd16 b s"
    "rd32 (4 + 4 * i) (foldl (\<lambda>s i. wr32 (4 + 4 * i) (f i) s) s is) = (if i \<in> set is then f i else rd32 (4 + 4 * i) s)"
    by (induction "is" arbitrary: s) (simp_all add: other)
qed

text \<open>C39. A control structure has a defined effect exactly if each of its eight frequencies is not negative or a
  multiple of the clock: the C conversion of a negative value to \<open>uint32_t\<close> is undefined. With a defined one the
  inputs and the rate are those of the structure, and each receiver is tuned to within 1/2 + 2^-15 of a step.\<close>

theorem rcv_control_defined:
  assumes "b = rcv_125 \<or> b = rcv_122"
  shows "((\<exists>s'. rcv_control b ctrl s = Some s') \<longleftrightarrow> list_all (\<lambda>i. freq_defined b (ctrl_freq ctrl i)) [0..<8]) \<and>
    (rcv_control b ctrl s = Some s' \<longrightarrow> rd8 1 s' = ucast (le32_at ctrl 0) \<and>
      rd16 2 s' = rcv_rates b ! unat (le32_at ctrl 4 AND 3) \<and>
      (i < 8 \<longrightarrow> \<bar>of_nat (unat (rd32 (4 + 4 * i) s')) - modf_exact (rcv_clk b) (nat (ctrl_freq ctrl i))\<bar> \<le> 1 / 2 + 1 / 2 ^ 15))"
proof -
  have known: "rcv_known b"
    using assms by (simp add: rcv_known_def)
  note result = rcv_tune_result [OF known]
  have m: "(0xff :: u32) = mask 8"
    by (simp add: mask_eq_exp_minus_1)
  have inp: "(ucast (le32_at ctrl 0 AND 0xff) :: u8) = ucast (le32_at ctrl 0)"
    unfolding m by (rule bit_word_eqI) (auto simp: bit_simps)
  have "nat (ctrl_freq ctrl i) < 2 ^ 32"
    using ctrl_freq_range(2) [of ctrl i] by simp
  note near = modf_inc_near [OF rcv_known_clk [OF known] this]
  show ?thesis
    using near by (auto simp: rcv_control_def Let_def result rd_words inp simp del: upt_rec_numeral)
qed

text \<open>All receivers at 10 MHz, then the first one at -1 Hz.\<close>

definition demo_ctrl :: "u32 \<Rightarrow> u32 \<Rightarrow> u32 \<Rightarrow> u32 \<Rightarrow> u8 list" where
  "demo_ctrl inps rate freq others = le32 inps @ le32 rate @ le32 freq @ le32 others @ le32 others @ le32 others @ le32 others @ le32 others @ le32 others @ le32 others"

lemma demo_ctrl_at:
  "le32_at (demo_ctrl inps rate freq others) 0 = inps" "le32_at (demo_ctrl inps rate freq others) 4 = rate"
  "i < 8 \<Longrightarrow> le32_at (demo_ctrl inps rate freq others) (8 + 4 * i) = (if i = 0 then freq else others)"
proof -
  show "le32_at (demo_ctrl inps rate freq others) 0 = inps" "le32_at (demo_ctrl inps rate freq others) 4 = rate"
    by (simp_all add: demo_ctrl_def le32_def le32_at_def)
  assume "i < 8"
  then have "i \<in> {0, 1, 2, 3, 4, 5, 6, 7}"
    by auto
  then show "le32_at (demo_ctrl inps rate freq others) (8 + 4 * i) = (if i = 0 then freq else others)"
    by (auto simp: demo_ctrl_def le32_def le32_at_def)
qed

theorem rcv_control_defined_witness:
  "(\<exists>s'. rcv_control rcv_125 (demo_ctrl 3 1 10000000 10000000) \<lparr>regs = \<lambda>_. 0, trace = []\<rparr> = Some s' \<and> rd8 1 s' = 3 \<and> rd16 2 s' = 500) \<and>
    rcv_control rcv_125 (demo_ctrl 3 1 (- 1) 10000000) \<lparr>regs = \<lambda>_. 0, trace = []\<rparr> = None"
proof -
  let ?s = "\<lparr>regs = \<lambda>_. 0, trace = []\<rparr> :: machine"
  have "freq_defined rcv_125 (ctrl_freq (demo_ctrl 3 1 10000000 10000000) i)" if "i < 8" for i
    using that by (simp add: freq_defined_def ctrl_freq_def demo_ctrl_at)
  then have "list_all (\<lambda>i. freq_defined rcv_125 (ctrl_freq (demo_ctrl 3 1 10000000 10000000) i)) [0..<8]"
    by (simp add: list_all_iff del: upt_rec_numeral)
  then obtain s' where s': "rcv_control rcv_125 (demo_ctrl 3 1 10000000 10000000) ?s = Some s'"
    using rcv_control_defined [of rcv_125 "demo_ctrl 3 1 10000000 10000000" ?s] by blast
  then have "rd8 1 s' = 3 \<and> rd16 2 s' = 500"
    using rcv_control_defined [of rcv_125 "demo_ctrl 3 1 10000000 10000000" ?s s' 0] by (simp add: demo_ctrl_at rcv_125_def)
  moreover have "\<not> freq_defined rcv_125 (ctrl_freq (demo_ctrl 3 1 (- 1) 10000000) 0)"
    using demo_ctrl_at(3) [of 0 3 1 "- 1" 10000000] by (simp add: freq_defined_def ctrl_freq_def whole_def rcv_125_def)
  then have "\<not> list_all (\<lambda>i. freq_defined rcv_125 (ctrl_freq (demo_ctrl 3 1 (- 1) 10000000) i)) [0..<8]"
    by (auto simp: list_all_iff intro: bexI [of _ 0])
  then have "rcv_control rcv_125 (demo_ctrl 3 1 (- 1) 10000000) ?s = None"
    using rcv_control_defined [of rcv_125 "demo_ctrl 3 1 (- 1) 10000000" ?s]
    by (cases "rcv_control rcv_125 (demo_ctrl 3 1 (- 1) 10000000) ?s") blast+
  ultimately show ?thesis
    using s' by simp
qed

section \<open>The registers with and without a client\<close>

definition rcv_inv :: "rcv_board \<Rightarrow> bool \<times> machine \<Rightarrow> bool" where
  "rcv_inv b t \<longleftrightarrow> rd8 0 (snd t) AND 1 = (if fst t then 1 else 0) \<and> rd16 2 (snd t) \<in> set (rcv_rates b) \<and>
     (\<not> fst t \<longrightarrow> rd8 1 (snd t) = 0 \<and> list_all (\<lambda>i. rd32 (4 + 4 * i) (snd t) = rcv_default_inc b) [0..<8])"

lemma rate_in_table: "rcv_known b \<Longrightarrow> rcv_rates b ! unat (w AND 3 :: u32) \<in> set (rcv_rates b)"
  using unat_and_mask_less [of "3 :: u32" 4 w] by (intro nth_mem) (auto simp: rcv_known_def rcv_125_def rcv_122_def)

lemma rcv_idle_inv: "rcv_known b \<Longrightarrow> rcv_inv b (False, rcv_idle b s)"
  by (auto simp: rcv_inv_def rcv_idle_def Let_def rd_words reg_clear_def and.assoc list_all_iff rcv_known_def rcv_125_def rcv_122_def
      simp del: upt_rec_numeral)

lemma rcv_turn_inv:
  assumes known: "rcv_known b" and "rcv_inv b (True, s)" and "rcv_turn b ctrl l1 l2 fifo ok s = Some (Inr s')"
  shows "rcv_inv b (True, s')"
proof -
  obtain u where u: "(case ctrl of None \<Rightarrow> Some s | Some ctrl \<Rightarrow> rcv_control b ctrl s) = Some u"
    using assms(3) by (auto simp: rcv_turn_def split: option.splits)
  have "rcv_inv b (True, u)"
    using u assms(2) rate_in_table [OF known]
    by (auto simp: rcv_inv_def rcv_control_def Let_def rcv_tune_result [OF known] rd_words simp del: upt_rec_numeral
        split: option.splits if_splits)
  moreover have "rd8 0 (pulse (rd8 0) (wr8 0) 1 u) AND 1 = 1" "rd16 2 (pulse (rd8 0) (wr8 0) 1 u) = rd16 2 u"
    by (simp_all add: pulse_def reg_set_def reg_clear_def bit.conj_disj_distrib2)
  ultimately show ?thesis
    using assms(3) u by (auto simp: rcv_turn_def rcv_inv_def Let_def split: if_splits)
qed

lemma rcv_step_inv: "rcv_step b t t' \<Longrightarrow> rcv_inv b t \<Longrightarrow> rcv_known b \<Longrightarrow> rcv_inv b t'"
proof (induction rule: rcv_step.induct)
  case (accept s)
  then show ?case
    by (simp add: rcv_inv_def rcv_accept_def reg_set_def bit.conj_disj_distrib2)
qed (auto intro: rcv_turn_inv rcv_idle_inv)

text \<open>Without a client the receivers are in reset and all registers at their defaults; with one the reset bit is
  high, also after a FIFO overflow, and the rate is one of the table.\<close>

lemma rcv_registers:
  assumes "rcv_reachable b (client, s)" and "b = rcv_125 \<or> b = rcv_122"
  shows "rd8 0 s AND 1 = (if client then 1 else 0) \<and> rd16 2 s \<in> set (rcv_rates b) \<and>
    (\<not> client \<longrightarrow> rd8 1 s = 0 \<and> list_all (\<lambda>i. rd32 (4 + 4 * i) s = rcv_default_inc b) [0..<8])"
proof -
  have known: "rcv_known b"
    using assms(2) by (simp add: rcv_known_def)
  have "rcv_inv b t" if "rcv_reachable b t" for t
    using that by induction (auto intro: rcv_idle_inv [OF known] rcv_step_inv [OF _ _ known])
  from this [OF assms(1)] show ?thesis
    by (simp add: rcv_inv_def del: upt_rec_numeral)
qed

end
