(* ===== verification/Psk.thy ===== *)
theory Psk
  imports Clib "HOL-Library.Monad_Syntax"
begin

text \<open>
  \<open>projects/sdr_transceiver_ft8/app/upload-to-pskreporter.c\<close>: reads the signals a decoder has found from
  a file, a line each, and sends them to a server in datagrams of up to ten. The file of
  \<open>sdr_transceiver_ft8_122_88\<close> differs in the string \<open>soft\<close> only. A store outside the array \<open>buffer\<close> has no
  result. The answers of the system (\<open>fopen\<close>, \<open>socket\<close>, \<open>gethostbyname\<close>, \<open>rand\<close>, \<open>time\<close>) are the record
  \<open>psk_env\<close>.
\<close>

section \<open>Numbers and times in a line\<close>

definition read_int :: "string \<Rightarrow> (int \<times> string) option" where
  "read_int = strtol_rest 32"

text \<open>\<open>strtod\<close>: the text after the number. The value is not used.\<close>

definition significand :: "(char \<Rightarrow> bool) \<Rightarrow> string \<Rightarrow> string option" where
  "significand digit t =
     (let u = dropWhile digit t; some = (takeWhile digit t \<noteq> []) in
      case u of
        [] \<Rightarrow> if some then Some u else None
      | c # v \<Rightarrow>
          if c = CHR ''.'' then (if some \<or> takeWhile digit v \<noteq> [] then Some (dropWhile digit v) else None)
          else if some then Some u else None)"

definition exponent :: "char \<Rightarrow> string \<Rightarrow> string" where
  "exponent e u =
     (case u of [] \<Rightarrow> []
      | c # v \<Rightarrow> let w = snd (sign_of v) in
          if lower c = e \<and> takeWhile is_digit w \<noteq> [] then dropWhile is_digit w else u)"

definition nan_tail :: "string \<Rightarrow> string" where
  "nan_tail u =
     (let in_tag = (\<lambda>c. is_digit c \<or> c = CHR ''_'' \<or> 97 \<le> (of_char (lower c) :: nat) \<and> (of_char (lower c) :: nat) \<le> 122) in
      case u of [] \<Rightarrow> u
      | c # v \<Rightarrow> (case dropWhile in_tag v of [] \<Rightarrow> u
          | d # w \<Rightarrow> if c = CHR ''('' \<and> d = CHR '')'' then w else u))"

definition read_dbl :: "string \<Rightarrow> string option" where
  "read_dbl s =
     (let u = snd (sign_of (dropWhile is_space s)) in
      if has_prefix ''infinity'' u then Some (drop 8 u)
      else if has_prefix ''inf'' u then Some (drop 3 u)
      else if has_prefix ''nan'' u then Some (nan_tail (drop 3 u))
      else case (if has_prefix ''0x'' u then significand is_xdigit (drop 2 u) else None) of
        Some v \<Rightarrow> Some (exponent (CHR ''p'') v)
      | None \<Rightarrow> map_option (exponent (CHR ''e'')) (significand is_digit u))"

text \<open>\<open>strptime(s, "%y%m%d %H%M%S", &tm)\<close>: every field has one or two digits and a range.\<close>

record tm =
  tm_year :: int
  tm_mon :: int
  tm_mday :: int
  tm_hour :: int
  tm_min :: int
  tm_sec :: int

definition two_digits :: "int \<Rightarrow> int \<Rightarrow> string \<Rightarrow> (int \<times> string) option" where
  "two_digits lo hi s =
     (let ds = takeWhile is_digit (take 2 s) in
      if ds = [] \<or> digits_value ds < lo \<or> hi < digits_value ds then None else Some (digits_value ds, drop (length ds) s))"

definition read_time :: "string \<Rightarrow> (tm \<times> string) option" where
  "read_time s =
     do { (y, s) \<leftarrow> two_digits 0 99 s;
          (mo, s) \<leftarrow> two_digits 1 12 s;
          (d, s) \<leftarrow> two_digits 1 31 s;
          (h, s) \<leftarrow> two_digits 0 23 (dropWhile is_space s);
          (mi, s) \<leftarrow> two_digits 0 59 s;
          (sec, s) \<leftarrow> two_digits 0 60 s;
          Some (\<lparr>tm_year = (if y \<le> 68 then y + 100 else y), tm_mon = mo - 1, tm_mday = d, tm_hour = h, tm_min = mi, tm_sec = sec\<rparr>, s) }"

text \<open>\<open>timegm\<close>: seconds since 1970 of a time with a month from 0 to 11.\<close>

definition leap_year :: "int \<Rightarrow> bool" where
  "leap_year y \<longleftrightarrow> y mod 4 = 0 \<and> (y mod 100 \<noteq> 0 \<or> y mod 400 = 0)"

definition days_to_year :: "int \<Rightarrow> int" where
  "days_to_year y = 365 * (y - 1970) + (y - 1) div 4 - (y - 1) div 100 + (y - 1) div 400 - 477"

definition days_to_month :: "int \<Rightarrow> nat \<Rightarrow> int" where
  "days_to_month y m =
     [0, 31, 59, 90, 120, 151, 181, 212, 243, 273, 304, 334] ! m + (if leap_year y \<and> 2 \<le> m then 1 else 0)"

definition timegm :: "tm \<Rightarrow> int" where
  "timegm t =
     (let y = 1900 + tm_year t; days = days_to_year y + days_to_month y (nat (tm_mon t)) + tm_mday t - 1 in
      ((days * 24 + tm_hour t) * 60 + tm_min t) * 60 + tm_sec t)"

section \<open>A line\<close>

record spot =
  spot_call :: string
  spot_grid :: string
  spot_freq :: int
  spot_snr :: int
  spot_time :: int

text \<open>\<open>sscanf(src, "%13s %4s", call, grid)\<close>, with both strings empty before.\<close>

definition scanf_word :: "nat \<Rightarrow> string \<Rightarrow> string \<times> string" where
  "scanf_word n s =
     (let w = take n (takeWhile (\<lambda>c. \<not> is_space c) (dropWhile is_space s)) in (w, drop (length w) (dropWhile is_space s)))"

text \<open>\<open>sscanf\<close> returns 1 or 2 after a conversion and \<open>EOF\<close>, which is not 0, when there is no word: it is
  always true.\<close>

definition psk_line :: "string \<Rightarrow> spot option" where
  "psk_line line =
     do { (tm, src) \<leftarrow> read_time (takeWhile (\<lambda>c. c \<noteq> CHR 0x00) line);
          src \<leftarrow> read_dbl src;
          (snr, src) \<leftarrow> read_int src;
          src \<leftarrow> read_dbl src;
          (freq, src) \<leftarrow> read_int src;
          let (call, src) = scanf_word 13 src; (grid, src) = scanf_word 4 src in
          Some \<lparr>spot_call = call, spot_grid = grid, spot_freq = freq, spot_snr = snr, spot_time = timegm tm + 15\<rparr> }"

text \<open>The lines of the file, with at most 63 characters each.\<close>

function file_lines :: "string \<Rightarrow> string list" where
  "file_lines cs = (if cs = [] then [] else case fgets 63 cs of (line, rest) \<Rightarrow> line # file_lines rest)"
  by pat_completeness auto
termination
proof (relation "measure length")
  fix cs line rest :: string
  assume "cs \<noteq> []" and f: "(line, rest) = fgets 63 cs"
  then have "line \<noteq> []"
    using fgets_progress [of 63 cs line rest] by simp
  then show "(rest, cs) \<in> measure length"
    using fgets_conserves [OF f [symmetric]] by auto
qed simp

declare file_lines.simps [simp del]

section \<open>Writing to the buffer\<close>

text \<open>The array and the position of the pointer in it; a store moves the pointer on.\<close>

type_synonym cursor = "u8 list \<times> nat"

definition put_bytes :: "u8 list \<Rightarrow> cursor \<Rightarrow> cursor option" where
  "put_bytes bs c = (case c of (buf, p) \<Rightarrow> do { buf \<leftarrow> memcpy buf p bs 0 (length bs); Some (buf, p + length bs) })"

definition be16 :: "u16 \<Rightarrow> u8 list" where
  "be16 w = rev (le16 w)"

definition copy_char :: "string \<Rightarrow> cursor \<Rightarrow> cursor option" where
  "copy_char value c =
     (let size = (word_of_nat (length value) :: u8) in
      do { c \<leftarrow> put_bytes [size] c;
           if sint size < 0 then None else put_bytes (take (nat (sint size)) (map of_char value)) c })"

definition copy_int1 :: "int \<Rightarrow> cursor \<Rightarrow> cursor option" where
  "copy_int1 value = put_bytes [word_of_int value]"

definition copy_int2 :: "int \<Rightarrow> cursor \<Rightarrow> cursor option" where
  "copy_int2 value = put_bytes (be16 (word_of_int value))"

definition copy_int4 :: "int \<Rightarrow> cursor \<Rightarrow> cursor option" where
  "copy_int4 value = put_bytes (be32 (word_of_int value))"

text \<open>The header: the message, the template of the receiver's record, the template of the spots.\<close>

definition psk_header :: "u8 list" where
  "psk_header =
     [0x00, 0x0A, 0x00, 0x00, 0x00, 0x00, 0x00, 0x00,
      0x00, 0x00, 0x00, 0x00, 0x00, 0x00, 0x00, 0x00,
      0x00, 0x03, 0x00, 0x2C, 0x99, 0x92, 0x00, 0x04,
      0x00, 0x00,
      0x80, 0x02, 0xFF, 0xFF, 0x00, 0x00, 0x76, 0x8F,
      0x80, 0x04, 0xFF, 0xFF, 0x00, 0x00, 0x76, 0x8F,
      0x80, 0x08, 0xFF, 0xFF, 0x00, 0x00, 0x76, 0x8F,
      0x80, 0x09, 0xFF, 0xFF, 0x00, 0x00, 0x76, 0x8F,
      0x00, 0x00,
      0x00, 0x02, 0x00, 0x3C, 0x99, 0x93, 0x00, 0x07,
      0x80, 0x01, 0xFF, 0xFF, 0x00, 0x00, 0x76, 0x8F,
      0x80, 0x03, 0xFF, 0xFF, 0x00, 0x00, 0x76, 0x8F,
      0x80, 0x05, 0x00, 0x04, 0x00, 0x00, 0x76, 0x8F,
      0x80, 0x06, 0x00, 0x01, 0x00, 0x00, 0x76, 0x8F,
      0x80, 0x0A, 0xFF, 0xFF, 0x00, 0x00, 0x76, 0x8F,
      0x80, 0x0B, 0x00, 0x01, 0x00, 0x00, 0x76, 0x8F,
      0x00, 0x96, 0x00, 0x04]"

text \<open>The end of a set: padding to a multiple of four bytes, then its identifier and its length are stored at
  \<open>start\<close>. The result has the size.\<close>

definition close_set :: "nat \<Rightarrow> int \<Rightarrow> cursor \<Rightarrow> (u8 list \<times> nat) option" where
  "close_set start ident c =
     (let size = snd c - start; padding = (4 - size mod 4) mod 4; size = size + padding in
      do { (buf, p) \<leftarrow> put_bytes (replicate padding 0) c;
           c \<leftarrow> copy_int2 ident (buf, start);
           (buf, p) \<leftarrow> copy_int2 (int size) c;
           Some (buf, size) })"

section \<open>The program\<close>

text \<open>The local variables of \<open>main\<close>, and the datagrams handed to \<open>sendto\<close>.\<close>

record psk =
  psk_buffer :: "u8 list"
  psk_start :: nat
  psk_dst :: nat
  psk_counter :: nat
  psk_sequence :: u32
  psk_sent :: "u8 list list"

record psk_args =
  arg_call :: string
  arg_grid :: string
  arg_antenna :: string
  arg_file :: string

datatype psk_error = Usage | CallTooLong | GridTooLong | AntennaTooLong | NoFile | NoSocket | NoHost | OutsideBuffer

definition psk_parse :: "string list \<Rightarrow> psk_error + psk_args" where
  "psk_parse args =
     (if length args \<noteq> 4 then Inl Usage
      else if length (args ! 0) > 16 then Inl CallTooLong
      else if length (args ! 1) > 6 then Inl GridTooLong
      else if length (args ! 2) > 64 then Inl AntennaTooLong
      else Inr \<lparr>arg_call = args ! 0, arg_grid = args ! 1, arg_antenna = args ! 2, arg_file = args ! 3\<rparr>)"

text \<open>The strings \<open>soft\<close> of the two files. \<open>junk\<close> is what the uninitialised array \<open>buffer\<close> holds.\<close>

definition soft_125 :: string where "soft_125 = ''Red Pitaya FT8 TRX 1.0''"
definition soft_122 :: string where "soft_122 = ''STEMlab SDR FT8 TRX 1.0''"

definition psk_setup :: "string \<Rightarrow> u32 \<Rightarrow> psk_args \<Rightarrow> u8 list \<Rightarrow> psk option" where
  "psk_setup soft rnd a junk =
     do { (header, _) \<leftarrow> copy_int4 (uint rnd) (psk_header, 12);
          buf \<leftarrow> memcpy junk 0 header 0 (length header);
          let start = length header;
          c \<leftarrow> copy_char (arg_call a) (buf, start + 4);
          c \<leftarrow> copy_char (arg_grid a) c;
          c \<leftarrow> copy_char soft c;
          c \<leftarrow> copy_char (arg_antenna a) c;
          (buf, size) \<leftarrow> close_set start 0x9992 c;
          let start = start + size;
          Some \<lparr>psk_buffer = buf, psk_start = start, psk_dst = start + 4, psk_counter = 0, psk_sequence = 0, psk_sent = []\<rparr> }"

definition psk_spot :: "spot \<Rightarrow> psk \<Rightarrow> psk option" where
  "psk_spot x s =
     do { c \<leftarrow> copy_char (spot_call x) (psk_buffer s, psk_dst s);
          c \<leftarrow> copy_char (spot_grid x) c;
          c \<leftarrow> copy_int4 (spot_freq x) c;
          c \<leftarrow> copy_int1 (spot_snr x) c;
          c \<leftarrow> copy_char ''FT8'' c;
          c \<leftarrow> copy_int1 1 c;
          (buf, p) \<leftarrow> copy_int4 (spot_time x) c;
          Some (s\<lparr>psk_buffer := buf, psk_dst := p, psk_counter := psk_counter s + 1\<rparr>) }"

text \<open>\<open>now\<close> is the value of \<open>time(NULL)\<close> at each datagram.\<close>

definition psk_flush :: "(nat \<Rightarrow> int) \<Rightarrow> psk \<Rightarrow> psk option" where
  "psk_flush now s =
     (if psk_counter s > 0 then
        do { (buf, size) \<leftarrow> close_set (psk_start s) 0x9993 (psk_buffer s, psk_dst s);
             let size = size + psk_start s;
             c \<leftarrow> copy_int2 (int size) (buf, 2);
             c \<leftarrow> copy_int4 (now (length (psk_sent s))) c;
             (buf, p) \<leftarrow> copy_int4 (sint (psk_sequence s)) c;
             Some (s\<lparr>psk_buffer := buf, psk_sent := psk_sent s @ [take size buf], psk_counter := 0,
               psk_sequence := psk_sequence s + 1, psk_dst := psk_start s + 4\<rparr>) }
      else Some s)"

text \<open>A turn of the loop with a line, and the loop. The end of the file sends what is left.\<close>

definition psk_turn :: "(nat \<Rightarrow> int) \<Rightarrow> string \<Rightarrow> psk \<Rightarrow> psk option" where
  "psk_turn now line s =
     (case psk_line line of None \<Rightarrow> Some s
      | Some x \<Rightarrow> do { s \<leftarrow> psk_spot x s; if psk_counter s < 10 then Some s else psk_flush now s })"

fun psk_loop :: "(nat \<Rightarrow> int) \<Rightarrow> string list \<Rightarrow> psk \<Rightarrow> psk option" where
  "psk_loop now [] s = psk_flush now s"
| "psk_loop now (line # lines) s = do { s \<leftarrow> psk_turn now line s; psk_loop now lines s }"

record psk_env =
  env_file :: "string \<Rightarrow> string option"
  env_socket :: bool
  env_host :: bool
  env_rand :: u32
  env_time :: "nat \<Rightarrow> int"

definition psk_main :: "string \<Rightarrow> psk_env \<Rightarrow> string list \<Rightarrow> u8 list \<Rightarrow> psk_error + u8 list list" where
  "psk_main soft env args junk =
     (case psk_parse args of
        Inl e \<Rightarrow> Inl e
      | Inr a \<Rightarrow> (case env_file env (arg_file a) of
          None \<Rightarrow> Inl NoFile
        | Some contents \<Rightarrow>
            if \<not> env_socket env then Inl NoSocket
            else if \<not> env_host env then Inl NoHost
            else case do { s \<leftarrow> psk_setup soft (env_rand env) a junk; psk_loop (env_time env) (file_lines contents) s } of
              None \<Rightarrow> Inl OutsideBuffer
            | Some s \<Rightarrow> Inr (psk_sent s)))"

end
