(* ===== verification/Psk_spec.thy ===== *)
theory Psk_spec
  imports Psk
begin

text \<open>
  Properties of the uploader of reports: the bytes of its datagrams, that a reader of the protocol finds
  every signal of the file in them once and in order, and for which lengths of the strings the datagrams
  fit into the buffer. The locale \<open>codec\<close> is what reader and writer of a field promise each other.
\<close>

section \<open>Stores one after another are one store\<close>

lemma put_bytes_eq:
  "put_bytes bs (buf, p) = (if p + length bs \<le> length buf then Some (blit buf p bs, p + length bs) else None)"
  by (simp add: put_bytes_def memcpy_def)

lemma blit_blit: "p + length a + length b \<le> length buf \<Longrightarrow> blit (blit buf p a) (p + length a) b = blit buf p (a @ b)"
  by (rule nth_equalityI) (auto simp: nth_blit nth_append)

lemma put_bytes_append: "Option.bind (put_bytes a c) (put_bytes b) = put_bytes (a @ b) c"
  by (cases c) (auto simp: put_bytes_eq blit_blit)

lemma put_bytes_chain: "Option.bind (put_bytes a c) (\<lambda>c. Option.bind (put_bytes b c) f) = Option.bind (put_bytes (a @ b) c) f"
  by (simp only: put_bytes_append [symmetric] Option.bind_assoc)

lemma put_bytes_at:
  assumes "p = length xs"
  shows "put_bytes bs (xs @ ys, p) =
    (if length bs \<le> length ys then Some (xs @ bs @ drop (length bs) ys, p + length bs) else None)"
  using assms by (simp add: put_bytes_eq blit_def)

definition str_field :: "string \<Rightarrow> u8 list" where
  "str_field v = word_of_nat (length v) # map of_char v"

lemma length_str_field [simp]: "length (str_field v) = Suc (length v)"
  by (simp add: str_field_def)

lemma copy_char_field:
  assumes "length v \<le> 127"
  shows "copy_char v c = put_bytes (str_field v) c"
proof -
  have "sint (word_of_nat (length v) :: u8) = int (length v)"
    using assms by (simp add: sint_uint signed_take_bit_int_eq_self unsigned_of_nat take_bit_nat_eq_self uint_nat)
  then show ?thesis
    by (simp add: copy_char_def put_bytes_append str_field_def)
qed

section \<open>The bytes of a datagram\<close>

definition spot_bytes :: "spot \<Rightarrow> u8 list" where
  "spot_bytes x =
     str_field (spot_call x) @ str_field (spot_grid x) @ be32 (word_of_int (spot_freq x)) @ [word_of_int (spot_snr x)] @
     str_field ''FT8'' @ [1] @ be32 (word_of_int (spot_time x))"

definition padding :: "nat \<Rightarrow> nat" where
  "padding n = (4 - n mod 4) mod 4"

definition set_size :: "nat \<Rightarrow> nat" where
  "set_size n = 4 + n + padding (4 + n)"

definition set_bytes :: "u16 \<Rightarrow> u8 list \<Rightarrow> u8 list" where
  "set_bytes ident body =
     be16 ident @ be16 (word_of_nat (set_size (length body))) @ body @ replicate (padding (4 + length body)) 0"

definition receiver_body :: "string \<Rightarrow> psk_args \<Rightarrow> u8 list" where
  "receiver_body soft a = str_field (arg_call a) @ str_field (arg_grid a) @ str_field soft @ str_field (arg_antenna a)"

definition templates :: "u8 list" where
  "templates = drop 16 psk_header"

definition spots_body :: "spot list \<Rightarrow> u8 list" where
  "spots_body xs = concat (map spot_bytes xs)"

definition datagram_size :: "string \<Rightarrow> psk_args \<Rightarrow> spot list \<Rightarrow> nat" where
  "datagram_size soft a xs = 120 + set_size (length (receiver_body soft a)) + set_size (length (spots_body xs))"

definition datagram :: "string \<Rightarrow> psk_args \<Rightarrow> u32 \<Rightarrow> int \<Rightarrow> u32 \<Rightarrow> spot list \<Rightarrow> u8 list" where
  "datagram soft a rnd now sequence xs =
     be16 10 @ be16 (word_of_nat (datagram_size soft a xs)) @ be32 (word_of_int now) @ be32 sequence @ be32 rnd @
     templates @ set_bytes 0x9992 (receiver_body soft a) @ set_bytes 0x9993 (spots_body xs)"

text \<open>The signals of the file, at most ten to a datagram.\<close>

definition file_spots :: "string list \<Rightarrow> spot list" where
  "file_spots lines = List.map_filter psk_line lines"

function tens :: "'a list \<Rightarrow> 'a list list" where
  "tens xs = (if xs = [] then [] else take 10 xs # tens (drop 10 xs))"
  by pat_completeness auto
termination by (relation "measure length") auto

fun datagrams :: "string \<Rightarrow> psk_args \<Rightarrow> u32 \<Rightarrow> (nat \<Rightarrow> int) \<Rightarrow> nat \<Rightarrow> spot list list \<Rightarrow> u8 list list" where
  "datagrams soft a rnd now n [] = []"
| "datagrams soft a rnd now n (xs # xss) = datagram soft a rnd (now n) (word_of_nat n) xs # datagrams soft a rnd now (Suc n) xss"

lemma datagrams_nth:
  "i < length xss \<Longrightarrow> datagrams soft a rnd now n xss ! i = datagram soft a rnd (now (n + i)) (word_of_nat (n + i)) (xss ! i)"
  by (induction xss arbitrary: n i) (auto simp: less_Suc_eq_0_disj ac_simps)

lemma length_datagrams [simp]: "length (datagrams soft a rnd now n xss) = length xss"
  by (induction xss arbitrary: n) auto

declare tens.simps [simp del]

lemma tens_Nil [simp]: "tens [] = []"
  by (simp add: tens.simps)

lemma tens_last: "xs \<noteq> [] \<Longrightarrow> length xs < 10 \<Longrightarrow> tens xs = [xs]"
  by (subst tens.simps) simp

lemma tens_full: "length xs = 10 \<Longrightarrow> tens (xs @ ys) = xs # tens ys"
  by (subst tens.simps) auto

lemma tens_first: "xs \<noteq> [] \<Longrightarrow> length xs \<le> 10 \<Longrightarrow> \<exists>zs yss. tens (xs @ ys) = (xs @ zs) # yss"
  by (subst tens.simps) simp

lemma concat_tens [simp]: "concat (tens xs) = xs"
  by (induction xs rule: tens.induct) (subst tens.simps, simp)

lemma length_be16 [simp]: "length (be16 w) = 2"
  by (simp add: be16_def)

lemma length_templates [simp]: "length templates = 104"
  by (simp add: templates_def psk_header_def)

lemma length_set_bytes [simp]: "length (set_bytes ident body) = set_size (length body)"
  by (simp add: set_bytes_def set_size_def)

lemma length_datagram [simp]: "length (datagram soft a rnd now n xs) = datagram_size soft a xs"
  by (simp add: datagram_def datagram_size_def)

lemma length_spot_bytes: "length (spot_bytes x) = 16 + length (spot_call x) + length (spot_grid x)"
  by (simp add: spot_bytes_def)

section \<open>The program writes these datagrams\<close>

text \<open>Pending signals: the buffer between two turns of the loop.\<close>

definition psk_prefix :: "string \<Rightarrow> psk_args \<Rightarrow> u32 \<Rightarrow> u8 list" where
  "psk_prefix soft a rnd = be32 rnd @ templates @ set_bytes 0x9992 (receiver_body soft a)"

definition pending :: "string \<Rightarrow> psk_args \<Rightarrow> u32 \<Rightarrow> spot list \<Rightarrow> psk \<Rightarrow> bool" where
  "pending soft a rnd xs s \<longleftrightarrow>
     (\<exists>q r ys. psk_buffer s = be16 10 @ q @ psk_prefix soft a rnd @ r @ spots_body xs @ ys \<and> length q = 10 \<and> length r = 4) \<and>
     length (psk_buffer s) = 512 \<and> psk_start s = 12 + length (psk_prefix soft a rnd) \<and>
     psk_dst s = psk_start s + 4 + length (spots_body xs) \<and> psk_counter s = length xs"

lemma pendingI:
  assumes "psk_buffer s = be16 10 @ q @ psk_prefix soft a rnd @ r @ spots_body xs @ ys" and "length q = 10" and "length r = 4"
    and "length (psk_buffer s) = 512" and "psk_start s = 12 + length (psk_prefix soft a rnd)"
    and "psk_dst s = psk_start s + 4 + length (spots_body xs)" and "psk_counter s = length xs"
  shows "pending soft a rnd xs s"
  using assms unfolding pending_def by blast

lemma length_psk_prefix: "length (psk_prefix soft a rnd) = 108 + set_size (length (receiver_body soft a))"
  by (simp add: psk_prefix_def)

lemma close_set_eq:
  assumes "length r = 4" and "p = length xs + 4 + length body"
  shows "close_set (length xs) ident (xs @ r @ body @ ys, p) =
    (if set_size (length body) \<le> 4 + length body + length ys then
       Some (xs @ set_bytes (word_of_int ident) body @ drop (set_size (length body) - 4 - length body) ys, set_size (length body))
     else None)"
proof -
  let ?n = "padding (4 + length body)"
  have s: "set_size (length body) = 4 + length body + ?n"
    by (simp add: set_size_def)
  have step: "close_set (length xs) ident (xs @ r @ body @ ys, p) =
      do { (buf, q) \<leftarrow> put_bytes (replicate ?n 0) (xs @ r @ body @ ys, p);
           c \<leftarrow> copy_int2 ident (buf, length xs);
           (buf, q) \<leftarrow> copy_int2 (int (set_size (length body))) c;
           Some (buf, set_size (length body)) }"
    using assms(2) by (simp only: close_set_def Let_def snd_conv padding_def [symmetric] s add.assoc diff_add_inverse)
  have pad: "put_bytes (replicate ?n 0) (xs @ r @ body @ ys, p) =
      (if ?n \<le> length ys then Some (xs @ r @ body @ replicate ?n 0 @ drop ?n ys, p + ?n) else None)"
    using put_bytes_at [of p "xs @ r @ body" "replicate ?n 0" ys] assms by simp
  have patch: "do { c \<leftarrow> copy_int2 ident (xs @ r @ zs, length xs); (buf, q) \<leftarrow> copy_int2 (int m) c; Some (buf, m) } =
      Some (xs @ be16 (word_of_int ident) @ be16 (word_of_nat m) @ zs, m)" for zs m
    using put_bytes_at [of "length xs" xs "be16 (word_of_int ident) @ be16 (word_of_nat m)" "r @ zs"] assms(1)
    by (simp add: copy_int2_def put_bytes_chain)
  show ?thesis
  proof (cases "?n \<le> length ys")
    case True
    then have "set_size (length body) \<le> 4 + length body + length ys" "set_size (length body) - 4 - length body = ?n"
      using s by simp_all
    then show ?thesis
      unfolding step pad if_P [OF True] by (simp only: bind.bind_lunit prod.case patch set_bytes_def append_assoc if_True)
  next
    case False
    then have "\<not> set_size (length body) \<le> 4 + length body + length ys"
      using s by simp
    then show ?thesis
      unfolding step pad if_not_P [OF False] by simp
  qed
qed

text \<open>The lengths \<open>main\<close> and \<open>sscanf\<close> allow.\<close>

definition args_ok :: "psk_args \<Rightarrow> bool" where
  "args_ok a \<longleftrightarrow> length (arg_call a) \<le> 16 \<and> length (arg_grid a) \<le> 6 \<and> length (arg_antenna a) \<le> 64"

definition spot_ok :: "spot \<Rightarrow> bool" where
  "spot_ok x \<longleftrightarrow> length (spot_call x) \<le> 13 \<and> length (spot_grid x) \<le> 4"

lemma psk_parse_ok: "psk_parse args = Inr a \<Longrightarrow> args_ok a"
  by (auto simp: psk_parse_def args_ok_def split: if_splits)

lemma scanf_word_length [simp]: "length (fst (scanf_word n s)) \<le> n"
  by (simp add: scanf_word_def Let_def)

lemma psk_line_ok: "psk_line line = Some x \<Longrightarrow> spot_ok x"
  by (auto simp: psk_line_def spot_ok_def bind_eq_Some_conv case_prod_beta Let_def)

lemma set_size_bound: "set_size n \<le> n + 7"
  by (simp add: set_size_def padding_def)

lemma setup_pending:
  assumes "args_ok a" and "length soft \<le> 127" and "length junk = 512"
  shows "\<exists>s. psk_setup soft rnd a junk = Some s \<and> pending soft a rnd [] s \<and> psk_sequence s = 0 \<and> psk_sent s = []"
proof -
  define h body r ys where "h = be16 10 @ replicate 10 0 @ be32 rnd @ templates" and "body = receiver_body soft a"
    and "r = take 4 (drop 120 junk)" and "ys = drop (124 + length body) junk"
  have len: "length h = 120" "length r = 4" "length body \<le> 217"
    using assms by (simp_all add: args_ok_def receiver_body_def h_def r_def body_def)
  have ten: "replicate 10 (0 :: u8) = [0, 0, 0, 0, 0, 0, 0, 0, 0, 0]"
    by (simp add: numeral_eq_Suc)
  have header: "copy_int4 (uint rnd) (psk_header, 12) = Some (h, 16)"
    by (simp add: copy_int4_def put_bytes_eq blit_def templates_def psk_header_def be16_def le16_def drop_bit_eq_div ten h_def)
  have whole: "memcpy junk 0 h 0 120 = Some (h @ r @ drop 124 junk)"
    using assms(3) len(1) append_take_drop_id [of 4 "drop 120 junk"] by (simp add: memcpy_def blit_def r_def)
  have puts: "do { c \<leftarrow> copy_char (arg_call a) c; c \<leftarrow> copy_char (arg_grid a) c; c \<leftarrow> copy_char soft c; c \<leftarrow> copy_char (arg_antenna a) c; f c } =
      do { c \<leftarrow> put_bytes body c; f c }" for c and f :: "cursor \<Rightarrow> psk option"
    using assms by (simp add: copy_char_field put_bytes_chain args_ok_def receiver_body_def body_def)
  have put: "put_bytes body (h @ r @ drop 124 junk, 124) = Some (h @ r @ body @ ys, 124 + length body)"
    using put_bytes_at [of 124 "h @ r" body "drop 124 junk"] assms(3) len by (simp add: add.commute ys_def)
  have "set_size (length body) \<le> 4 + length body + length ys"
    using set_size_bound [of "length body"] assms(3) len(3) by (simp add: ys_def)
  then have close: "close_set 120 0x9992 (h @ r @ body @ ys, 124 + length body) =
      Some (h @ set_bytes 0x9992 body @ drop (set_size (length body) - 4 - length body) ys, set_size (length body))"
    using close_set_eq [of r "124 + length body" h body "0x9992" ys] len by simp
  have eq: "psk_setup soft rnd a junk =
      Some \<lparr>psk_buffer = h @ set_bytes 0x9992 body @ drop (set_size (length body) - 4 - length body) ys,
        psk_start = 120 + set_size (length body), psk_dst = 120 + set_size (length body) + 4,
        psk_counter = 0, psk_sequence = 0, psk_sent = []\<rparr>"
    by (simp add: psk_setup_def header whole puts put close len(1))
  let ?rest = "drop (set_size (length body) - 4 - length body) ys"
  have rest: "length ?rest = 392 - set_size (length body)" "set_size (length body) \<le> 224"
    using set_size_bound [of "length body"] assms(3) len(3) by (simp_all add: ys_def set_size_def)
  have "h @ set_bytes 0x9992 body @ ?rest =
      be16 10 @ replicate 10 0 @ psk_prefix soft a rnd @ take 4 ?rest @ spots_body [] @ drop 4 ?rest"
    by (simp add: h_def psk_prefix_def body_def spots_body_def del: drop_drop)
  then have "pending soft a rnd [] (the (psk_setup soft rnd a junk))"
    unfolding eq by (intro pendingI [where q = "replicate 10 0" and r = "take 4 ?rest" and ys = "drop 4 ?rest"])
      (use rest len(1) in \<open>simp_all add: length_psk_prefix body_def spots_body_def\<close>)
  with eq show ?thesis
    by simp
qed

text \<open>A signal is added if it fits into the buffer.\<close>

lemma psk_spot_put:
  assumes "spot_ok x"
  shows "psk_spot x s = do { (buf, p) \<leftarrow> put_bytes (spot_bytes x) (psk_buffer s, psk_dst s);
    Some (s\<lparr>psk_buffer := buf, psk_dst := p, psk_counter := psk_counter s + 1\<rparr>) }"
  using assms
  by (simp add: psk_spot_def spot_ok_def copy_char_field copy_int1_def copy_int4_def put_bytes_chain spot_bytes_def)

lemma psk_spot_pending:
  assumes "pending soft a rnd xs s" and "spot_ok x"
  shows "if psk_dst s + length (spot_bytes x) \<le> 512
    then \<exists>s'. psk_spot x s = Some s' \<and> pending soft a rnd (xs @ [x]) s' \<and> psk_sequence s' = psk_sequence s \<and> psk_sent s' = psk_sent s
    else psk_spot x s = None"
proof -
  from assms(1) obtain q r ys where b: "psk_buffer s = be16 10 @ q @ psk_prefix soft a rnd @ r @ spots_body xs @ ys"
    and l: "length q = 10" "length r = 4" and n: "length (psk_buffer s) = 512" "psk_start s = 12 + length (psk_prefix soft a rnd)"
      "psk_dst s = psk_start s + 4 + length (spots_body xs)" "psk_counter s = length xs"
    unfolding pending_def by blast
  let ?k = "length (spot_bytes x)"
  have room: "length ys = 512 - psk_dst s" "psk_dst s \<le> 512"
    using n(1-3) l by (simp_all add: b)
  have put: "put_bytes (spot_bytes x) (psk_buffer s, psk_dst s) =
      (if ?k \<le> length ys then Some (be16 10 @ q @ psk_prefix soft a rnd @ r @ spots_body (xs @ [x]) @ drop ?k ys, psk_dst s + ?k) else None)"
    using put_bytes_at [of "psk_dst s" "be16 10 @ q @ psk_prefix soft a rnd @ r @ spots_body xs" "spot_bytes x" ys] l n(2,3)
    by (simp add: b spots_body_def)
  show ?thesis
  proof (cases "?k \<le> length ys")
    case True
    then have "pending soft a rnd (xs @ [x]) (the (psk_spot x s))"
      unfolding psk_spot_put [OF assms(2)] put
      by (intro pendingI [where q = q and r = r and ys = "drop ?k ys"]) (use l n b room in \<open>simp_all add: spots_body_def\<close>)
    then show ?thesis
      using True room by (simp add: psk_spot_put [OF assms(2)] put)
  next
    case False
    then have "\<not> psk_dst s + ?k \<le> 512"
      using room by linarith
    then show ?thesis
      using False by (simp add: psk_spot_put [OF assms(2)] put del: length_0_conv)
  qed
qed

lemma pending_size: "pending soft a rnd xs s \<Longrightarrow> psk_dst s \<le> 512"
  unfolding pending_def by auto

text \<open>Sending.\<close>

lemma psk_flush_pending:
  assumes "pending soft a rnd xs s" and "xs \<noteq> []"
  shows "if datagram_size soft a xs \<le> 512
    then \<exists>s'. psk_flush now s = Some s' \<and> pending soft a rnd [] s' \<and> psk_sequence s' = psk_sequence s + 1 \<and>
      psk_sent s' = psk_sent s @ [datagram soft a rnd (now (length (psk_sent s))) (psk_sequence s) xs]
    else psk_flush now s = None"
proof -
  from assms(1) obtain q r ys where b: "psk_buffer s = be16 10 @ q @ psk_prefix soft a rnd @ r @ spots_body xs @ ys"
    and l: "length q = 10" "length r = 4" and n: "length (psk_buffer s) = 512" "psk_start s = 12 + length (psk_prefix soft a rnd)"
      "psk_dst s = psk_start s + 4 + length (spots_body xs)" "psk_counter s = length xs"
    unfolding pending_def by blast
  let ?m = "set_size (length (spots_body xs))" and ?body = "spots_body xs" and ?p = "psk_prefix soft a rnd"
  let ?size = "datagram_size soft a xs"
  define zs where "zs = drop (?m - 4 - length (spots_body xs)) ys"
  let ?new = "be16 (word_of_nat ?size) @ be32 (word_of_int (now (length (psk_sent s)))) @ be32 (psk_sequence s)"
  have sizes: "?size = psk_start s + ?m" "length ys = 512 - psk_dst s" "psk_dst s \<le> 512"
    using n l by (simp_all add: datagram_size_def length_psk_prefix b)
  then have m: "?m + psk_start s = ?size"
    by simp
  have close: "close_set (psk_start s) 0x9993 (psk_buffer s, psk_dst s) =
      (if ?size \<le> 512 then Some (be16 10 @ q @ ?p @ set_bytes 0x9993 ?body @ zs, ?m) else None)"
    using close_set_eq [of r "psk_dst s" "be16 10 @ q @ ?p" ?body "0x9993" ys] l n(2,3) sizes by (auto simp: b zs_def)
  have head: "do { c \<leftarrow> copy_int2 (int ?size) (be16 10 @ q @ us, 2); c \<leftarrow> copy_int4 (now (length (psk_sent s))) c;
        (buf, p) \<leftarrow> copy_int4 (sint (psk_sequence s)) c; f buf } = f (be16 10 @ ?new @ us)" for us and f :: "u8 list \<Rightarrow> psk option"
    using put_bytes_at [of 2 "be16 10" ?new "q @ us"] l by (simp add: copy_int2_def copy_int4_def put_bytes_chain)
  show ?thesis
  proof (cases "?size \<le> 512")
    case True
    have d: "take ?size (be16 10 @ ?new @ ?p @ set_bytes 0x9993 ?body @ zs) = datagram soft a rnd (now (length (psk_sent s))) (psk_sequence s) xs"
      using sizes(1) n(2) by (simp add: datagram_def psk_prefix_def)
    define s' where "s' = s\<lparr>psk_buffer := be16 10 @ ?new @ ?p @ set_bytes 0x9993 ?body @ zs,
      psk_sent := psk_sent s @ [datagram soft a rnd (now (length (psk_sent s))) (psk_sequence s) xs], psk_counter := 0,
      psk_sequence := psk_sequence s + 1, psk_dst := psk_start s + 4\<rparr>"
    have "psk_flush now s = Some s'"
      using True assms(2) n(4) close m by (simp add: psk_flush_def Let_def head d [unfolded append_assoc] s'_def del: of_nat_add take_append)
    moreover have "pending soft a rnd [] s'"
    proof (rule pendingI)
      show "psk_buffer s' = be16 10 @ ?new @ ?p @ take 4 (set_bytes 0x9993 ?body @ zs) @ spots_body [] @ drop 4 (set_bytes 0x9993 ?body @ zs)"
        unfolding spots_body_def list.map concat.simps append_Nil append_take_drop_id by (simp add: s'_def spots_body_def)
    qed (use n sizes True in \<open>simp_all add: s'_def zs_def set_size_def spots_body_def\<close>)
    ultimately show ?thesis
      using True by (simp add: s'_def)
  next
    case False
    then show ?thesis
      using close assms(2) n(4) by (simp add: psk_flush_def)
  qed
qed

text \<open>The loop.\<close>

definition all_fit :: "string \<Rightarrow> psk_args \<Rightarrow> spot list list \<Rightarrow> bool" where
  "all_fit soft a xss \<longleftrightarrow> (\<forall>xs\<in>set xss. datagram_size soft a xs \<le> 512)"

definition sends :: "psk option \<Rightarrow> bool \<Rightarrow> u8 list list \<Rightarrow> bool" where
  "sends r fit ds \<longleftrightarrow> (if fit then map_option psk_sent r = Some ds else r = None)"

lemma datagram_size_overflow:
  assumes "pending soft a rnd xs s" and "512 < psk_dst s + length (spot_bytes x)"
  shows "512 < datagram_size soft a (xs @ [x] @ zs)"
  using assms by (auto simp: pending_def datagram_size_def length_psk_prefix spots_body_def set_size_def)

lemma file_spots_simps [simp]:
  "file_spots [] = []"
  "psk_line line = None \<Longrightarrow> file_spots (line # lines) = file_spots lines"
  "psk_line line = Some x \<Longrightarrow> file_spots (line # lines) = x # file_spots lines"
  by (simp_all add: file_spots_def List.map_filter_simps)

lemma psk_loop_sends:
  assumes "pending soft a rnd xs s" and "length xs < 10" and "psk_sequence s = word_of_nat (length (psk_sent s))"
  shows "sends (psk_loop now lines s) (all_fit soft a (tens (xs @ file_spots lines)))
    (psk_sent s @ datagrams soft a rnd now (length (psk_sent s)) (tens (xs @ file_spots lines)))"
  using assms
proof (induction lines arbitrary: xs s)
  case Nil
  show ?case
  proof (cases "xs = []")
    case True
    then show ?thesis
      using Nil.prems(1) by (simp add: psk_flush_def pending_def sends_def all_fit_def)
  next
    case False
    then show ?thesis
      using psk_flush_pending [OF Nil.prems(1) False, of now] Nil.prems(2,3)
      by (auto simp: tens_last sends_def all_fit_def split: if_splits)
  qed
next
  case (Cons line lines)
  show ?case
  proof (cases "psk_line line")
    case None
    then show ?thesis
      using Cons by (simp add: psk_turn_def)
  next
    case (Some x)
    let ?more = "file_spots lines"
    note spot = psk_spot_pending [OF Cons.prems(1) psk_line_ok [OF Some]]
    obtain zs yss where first: "tens (xs @ x # ?more) = (xs @ [x] @ zs) # yss"
      using tens_first [of "xs @ [x]" ?more] Cons.prems(2) by auto
    show ?thesis
    proof (cases "psk_dst s + length (spot_bytes x) \<le> 512")
      case False
      then show ?thesis
        using spot datagram_size_overflow [OF Cons.prems(1), of x zs] first
        by (simp add: Some psk_turn_def sends_def all_fit_def)
    next
      case True
      then obtain s' where s': "psk_spot x s = Some s'" "pending soft a rnd (xs @ [x]) s'"
          "psk_sequence s' = psk_sequence s" "psk_sent s' = psk_sent s"
        using spot by auto
      then have count: "psk_counter s' = length xs + 1"
        by (simp add: pending_def)
      show ?thesis
      proof (cases "length xs + 1 < 10")
        case True
        then show ?thesis
          using Cons.IH [OF s'(2)] Cons.prems(3) s' count by (simp add: Some psk_turn_def)
      next
        case False
        then have ten: "length (xs @ [x]) = 10"
          using Cons.prems(2) by simp
        note tens = tens_full [OF ten, of ?more]
        show ?thesis
        proof (cases "datagram_size soft a (xs @ [x]) \<le> 512")
          case True
          then obtain u where u: "psk_flush now s' = Some u" "pending soft a rnd [] u" "psk_sequence u = psk_sequence s + 1"
              "psk_sent u = psk_sent s @ [datagram soft a rnd (now (length (psk_sent s))) (psk_sequence s) (xs @ [x])]"
            using psk_flush_pending [OF s'(2), of now] s' by auto
          then show ?thesis
            using Cons.IH [OF u(2)] Cons.prems(3) s' count ten tens True
            by (simp add: Some psk_turn_def sends_def all_fit_def add.commute)
        next
          case False
          then show ?thesis
            using psk_flush_pending [OF s'(2), of now] s' count ten tens
            by (simp add: Some psk_turn_def sends_def all_fit_def)
        qed
      qed
    qed
  qed
qed

lemma psk_main_sends:
  assumes "psk_parse args = Inr a" and "env_file env (arg_file a) = Some contents" and "env_socket env" and "env_host env"
    and "length soft \<le> 127" and "length junk = 512"
  shows "psk_main soft env args junk =
    (let xss = tens (file_spots (file_lines contents)) in
     if all_fit soft a xss then Inr (datagrams soft a (env_rand env) (env_time env) 0 xss) else Inl OutsideBuffer)"
proof -
  obtain s where s: "psk_setup soft (env_rand env) a junk = Some s" "pending soft a (env_rand env) [] s"
      "psk_sequence s = 0" "psk_sent s = []"
    using setup_pending [OF psk_parse_ok [OF assms(1)] assms(5,6)] by blast
  show ?thesis
    using psk_loop_sends [OF s(2), of "env_time env" "file_lines contents"] assms s
    by (auto simp: psk_main_def sends_def Let_def split: if_splits)
qed

section \<open>A reader of the protocol\<close>

text \<open>A reader takes a value off the front of the bytes and returns the others.\<close>

type_synonym 'a reader = "u8 list \<Rightarrow> ('a \<times> u8 list) option"

definition get8 :: "u8 reader" where
  "get8 bs = (case bs of [] \<Rightarrow> None | b # bs \<Rightarrow> Some (b, bs))"

definition get16 :: "u16 reader" where
  "get16 bs = (if length bs < 2 then None else Some (join16 (bs ! 1) (bs ! 0), drop 2 bs))"

definition get32 :: "u32 reader" where
  "get32 bs = (if length bs < 4 then None else Some (be32_at bs 0, drop 4 bs))"

lemma byte_of_char [simp]: "unat (of_char c :: u8) = of_char c"
  using unat_of_nat_small [where k = "of_char c" and 'a = 8] by (simp add: of_nat_of_char)

definition get_str :: "string reader" where
  "get_str bs = do { (n :: u8, bs :: u8 list) \<leftarrow> get8 bs;
     if length bs < unat n then None else Some (map (\<lambda>b. char_of (unat b)) (take (unat n) bs), drop (unat n) bs) }"

text \<open>Values one after another until fewer than \<open>m\<close> bytes are left; there are at most \<open>k\<close>.\<close>

fun get_all :: "'a reader \<Rightarrow> nat \<Rightarrow> nat \<Rightarrow> u8 list \<Rightarrow> 'a list option" where
  "get_all get m 0 bs = (if length bs < m then Some [] else None)"
| "get_all get m (Suc k) bs =
     (if length bs < m then Some [] else do { (x, bs) \<leftarrow> get bs; xs \<leftarrow> get_all get m k bs; Some (x # xs) })"

locale codec =
  fixes put :: "'a \<Rightarrow> u8 list" and get :: "'a reader" and ok :: "'a \<Rightarrow> bool"
  assumes get_put: "ok x \<Longrightarrow> get (put x @ bs) = Some (x, bs)"

locale item_codec = codec put get ok
  for put :: "'a \<Rightarrow> u8 list" and get :: "'a reader" and ok :: "'a \<Rightarrow> bool" +
  fixes m :: nat
  assumes some_bytes: "ok x \<Longrightarrow> m \<le> length (put x)" and positive: "0 < m"
begin

lemma get_all_put:
  assumes "list_all ok xs" and "length rest < m" and "length xs \<le> k"
  shows "get_all get m k (concat (map put xs) @ rest) = Some xs"
  using assms
proof (induction xs arbitrary: k)
  case Nil
  then show ?case by (cases k) auto
next
  case (Cons x xs)
  from Cons.prems(3) obtain j where k: "k = Suc j"
    by (cases k) auto
  have "\<not> length (concat (map put (x # xs)) @ rest) < m"
    using some_bytes [of x] Cons.prems(1) by simp
  then show ?case
    using Cons.IH [of j] Cons.prems get_put [of x] by (simp add: k)
qed

lemma count_le_bytes: "list_all ok xs \<Longrightarrow> length xs \<le> length (concat (map put xs))"
proof (induction xs)
  case (Cons x xs)
  then show ?case
    using some_bytes [of x] positive by simp
qed simp

end

interpretation byte: codec "\<lambda>b. [b]" get8 "\<lambda>_. True"
  by unfold_locales (simp add: get8_def)

interpretation half: codec be16 get16 "\<lambda>_. True"
  by unfold_locales (simp add: get16_def be16_def le16_def)

interpretation whole: codec be32 get32 "\<lambda>_. True"
  by unfold_locales (simp add: get32_def)

interpretation str: codec str_field get_str "\<lambda>v. length v \<le> 127"
proof
  fix v :: string and bs :: "u8 list"
  assume "length v \<le> 127"
  then have "unat (word_of_nat (length v) :: u8) = length v"
    by (simp add: unat_of_nat_small)
  then show "get_str (str_field v @ bs) = Some (v, bs)"
    by (simp add: get_str_def str_field_def get8_def comp_def)
qed

lemmas get_put = byte.get_put half.get_put whole.get_put str.get_put

text \<open>What the server learns of a signal.\<close>

record report =
  rep_call :: string
  rep_grid :: string
  rep_freq :: u32
  rep_snr :: u8
  rep_mode :: string
  rep_source :: u8
  rep_time :: u32

definition put_report :: "report \<Rightarrow> u8 list" where
  "put_report r = str_field (rep_call r) @ str_field (rep_grid r) @ be32 (rep_freq r) @ [rep_snr r] @ str_field (rep_mode r) @
     [rep_source r] @ be32 (rep_time r)"

definition get_report :: "report reader" where
  "get_report bs =
     do { (call, bs) \<leftarrow> get_str bs; (grid, bs) \<leftarrow> get_str bs; (freq, bs) \<leftarrow> get32 bs; (snr, bs) \<leftarrow> get8 bs;
          (mode, bs) \<leftarrow> get_str bs; (source, bs) \<leftarrow> get8 bs; (time, bs) \<leftarrow> get32 bs;
          Some (\<lparr>rep_call = call, rep_grid = grid, rep_freq = freq, rep_snr = snr, rep_mode = mode, rep_source = source, rep_time = time\<rparr>, bs) }"

definition report_ok :: "report \<Rightarrow> bool" where
  "report_ok r \<longleftrightarrow> length (rep_call r) \<le> 127 \<and> length (rep_grid r) \<le> 127 \<and> length (rep_mode r) \<le> 127"

interpretation reports: item_codec put_report get_report report_ok 12
proof
  fix r :: report and bs
  assume "report_ok r"
  then show "get_report (put_report r @ bs) = Some (r, bs)"
    using byte.get_put [of "rep_snr r"] byte.get_put [of "rep_source r"]
    by (simp add: get_report_def put_report_def report_ok_def half.get_put whole.get_put str.get_put)
qed (simp_all add: put_report_def)

definition report_of :: "spot \<Rightarrow> report" where
  "report_of x = \<lparr>rep_call = spot_call x, rep_grid = spot_grid x, rep_freq = word_of_int (spot_freq x), rep_snr = word_of_int (spot_snr x),
     rep_mode = ''FT8'', rep_source = 1, rep_time = word_of_int (spot_time x)\<rparr>"

lemma spot_report: "spot_bytes x = put_report (report_of x)"
  by (simp add: spot_bytes_def put_report_def report_of_def)

lemma spots_body_reports: "spots_body xs = concat (map put_report (map report_of xs))"
  unfolding spots_body_def spot_report by (simp add: comp_def)

text \<open>A set: its identifier, its length, its content with the padding.\<close>

definition get_set :: "u16 \<Rightarrow> (u8 list) reader" where
  "get_set ident bs =
     do { (i, bs) \<leftarrow> get16 bs; (n, bs) \<leftarrow> get16 bs;
          if i \<noteq> ident \<or> unat n < 4 \<or> length bs < unat n - 4 then None
          else Some (take (unat n - 4) bs, drop (unat n - 4) bs) }"

record message =
  msg_time :: u32
  msg_sequence :: u32
  msg_id :: u32
  msg_receiver :: "string list"
  msg_reports :: "report list"

definition decode :: "u8 list \<Rightarrow> message option" where
  "decode bs =
     do { (version, r) \<leftarrow> get16 bs; (n, r) \<leftarrow> get16 r; (time, r) \<leftarrow> get32 r; (sequence, r) \<leftarrow> get32 r; (ident, r) \<leftarrow> get32 r;
          if version \<noteq> 10 \<or> unat n \<noteq> length bs \<or> take 104 r \<noteq> templates then None else do {
            (body, r) \<leftarrow> get_set 0x9992 (drop 104 r);
            (call, body) \<leftarrow> get_str body; (grid, body) \<leftarrow> get_str body; (soft, body) \<leftarrow> get_str body; (antenna, body) \<leftarrow> get_str body;
            (body, r) \<leftarrow> get_set 0x9993 r;
            xs \<leftarrow> get_all get_report 12 (length body) body;
            if r \<noteq> [] then None else
            Some \<lparr>msg_time = time, msg_sequence = sequence, msg_id = ident, msg_receiver = [call, grid, soft, antenna], msg_reports = xs\<rparr> } }"

lemma get_set_put:
  assumes "set_size (length body) < 2 ^ 16"
  shows "get_set ident (set_bytes ident body @ bs) = Some (body @ replicate (padding (4 + length body)) 0, bs)"
proof -
  let ?pad = "replicate (padding (4 + length body)) (0 :: u8)"
  have n: "unat (word_of_nat (set_size (length body)) :: u16) = set_size (length body)"
    using assms by (simp add: unat_of_nat_small)
  define z where "z = body @ ?pad"
  have s: "set_size (length body) - 4 = length z" "4 \<le> set_size (length body)"
    by (simp_all add: set_size_def z_def)
  have "set_bytes ident body @ bs = be16 ident @ be16 (word_of_nat (set_size (length body))) @ z @ bs"
    by (simp add: set_bytes_def z_def)
  then show ?thesis
    using n s by (simp add: get_set_def half.get_put z_def [symmetric])
qed

lemma decode_datagram:
  assumes "args_ok a" and "length soft \<le> 127" and "list_all spot_ok xs" and "datagram_size soft a xs \<le> 512"
  shows "decode (datagram soft a rnd now n xs) = Some
    \<lparr>msg_time = word_of_int now, msg_sequence = n, msg_id = rnd,
     msg_receiver = [arg_call a, arg_grid a, soft, arg_antenna a], msg_reports = map report_of xs\<rparr>"
proof -
  let ?rb = "receiver_body soft a" and ?sb = "spots_body xs"
  let ?pad = "\<lambda>b. replicate (padding (4 + length b)) (0 :: u8)"
  have size: "unat (word_of_nat (datagram_size soft a xs) :: u16) = datagram_size soft a xs"
    using assms(4) by (simp add: unat_of_nat_small)
  have sets: "get_set 0x9992 (set_bytes 0x9992 ?rb @ bs) = Some (?rb @ ?pad ?rb, bs)"
      "get_set 0x9993 (set_bytes 0x9993 ?sb) = Some (?sb @ ?pad ?sb, [])" for bs
    using get_set_put [of ?rb "0x9992"] get_set_put [of ?sb "0x9993" "[]"] assms(4) by (simp_all add: datagram_size_def)
  have ok: "list_all report_ok (map report_of xs)"
    using assms(3) by (induction xs) (auto simp: report_ok_def report_of_def spot_ok_def)
  have all: "get_all get_report 12 (length (?sb @ ?pad ?sb)) (?sb @ ?pad ?sb) = Some (map report_of xs)"
    unfolding spots_body_reports
    using reports.get_all_put [OF ok, of "?pad ?sb" "length (?sb @ ?pad ?sb)"] reports.count_le_bytes [OF ok]
    by (simp add: spots_body_reports padding_def)
  have strs: "get_str (str_field v @ bs) = Some (v, bs)" if "v \<in> {arg_call a, arg_grid a, soft, arg_antenna a}" for v bs
    using assms(1,2) that by (intro str.get_put) (auto simp: args_ok_def)
  have len: "length (datagram soft a rnd now n xs) = datagram_size soft a xs"
    by simp
  show ?thesis
    unfolding decode_def len
    by (simp add: datagram_def half.get_put whole.get_put size sets) (simp add: receiver_body_def strs sets all [unfolded length_append length_replicate])
qed

section \<open>Every signal is reported\<close>

lemma psk_main_decoded:
  assumes "args_ok a" and "length soft \<le> 127" and "all_fit soft a xss" and "\<forall>xs\<in>set xss. list_all spot_ok xs"
  shows "map decode (datagrams soft a rnd now n xss) =
    map Some (map (\<lambda>i. \<lparr>msg_time = word_of_int (now (n + i)), msg_sequence = word_of_nat (n + i), msg_id = rnd,
      msg_receiver = [arg_call a, arg_grid a, soft, arg_antenna a], msg_reports = map report_of (xss ! i)\<rparr>) [0..<length xss])"
  using assms by (intro nth_equalityI) (auto simp: datagrams_nth all_fit_def decode_datagram)

lemma file_spots_ok: "list_all spot_ok (file_spots lines)"
  by (induction lines) (auto simp: file_spots_def List.map_filter_simps psk_line_ok split: option.splits)

lemma tens_member: "xs \<in> set (tens zs) \<Longrightarrow> xs \<noteq> [] \<and> length xs \<le> 10 \<and> set xs \<subseteq> set zs"
proof (induction zs rule: tens.induct)
  case (1 zs)
  then have "zs \<noteq> []"
    by auto
  then have "xs = take 10 zs \<or> xs \<in> set (tens (drop 10 zs))"
    using "1.prems" tens.simps [of zs] by auto
  then show ?case
    using "1.IH" \<open>zs \<noteq> []\<close> set_take_subset [of 10 zs] set_drop_subset [of 10 zs] by auto
qed

lemma tens_ok: "xs \<in> set (tens (file_spots lines)) \<Longrightarrow> list_all spot_ok xs"
  using tens_member file_spots_ok [of lines] unfolding list_all_iff by blast

text \<open>C15. Unless a store outside the buffer happens, the datagrams sent decode to messages that name the
  receiver, are numbered from 0, hold one to ten signals each and together report every line of the file that
  has the format, once and in the order of the file.\<close>

theorem signals_reported:
  assumes "psk_parse args = Inr a" and "env_file env (arg_file a) = Some contents" and "env_socket env" and "env_host env"
    and "length soft \<le> 127" and "length junk = 512" and "psk_main soft env args junk \<noteq> Inl OutsideBuffer"
  shows "\<exists>ds ms. psk_main soft env args junk = Inr ds \<and> map decode ds = map Some ms \<and>
    concat (map msg_reports ms) = map report_of (file_spots (file_lines contents)) \<and>
    (\<forall>i<length ms. msg_sequence (ms ! i) = word_of_nat i \<and> msg_receiver (ms ! i) = [arg_call a, arg_grid a, soft, arg_antenna a] \<and>
      0 < length (msg_reports (ms ! i)) \<and> length (msg_reports (ms ! i)) \<le> 10)"
proof -
  let ?xss = "tens (file_spots (file_lines contents))"
  let ?ms = "map (\<lambda>i. \<lparr>msg_time = word_of_int (env_time env (0 + i)), msg_sequence = word_of_nat (0 + i), msg_id = env_rand env,
      msg_receiver = [arg_call a, arg_grid a, soft, arg_antenna a], msg_reports = map report_of (?xss ! i)\<rparr>) [0..<length ?xss]"
  have sent: "all_fit soft a ?xss" "psk_main soft env args junk = Inr (datagrams soft a (env_rand env) (env_time env) 0 ?xss)"
    using psk_main_sends [OF assms(1-6)] assms(7) by (auto simp: Let_def split: if_splits)
  have "map decode (datagrams soft a (env_rand env) (env_time env) 0 ?xss) = map Some ?ms"
    using psk_main_decoded [OF psk_parse_ok [OF assms(1)] assms(5) sent(1)] tens_ok by blast
  moreover have "map msg_reports ?ms = map (map report_of) ?xss"
    by (intro nth_equalityI) auto
  then have "concat (map msg_reports ?ms) = map report_of (concat ?xss)"
    by (simp only: map_concat)
  moreover have "0 < length (?xss ! i) \<and> length (?xss ! i) \<le> 10" if "i < length ?xss" for i
    using tens_member [OF nth_mem [OF that]] by simp
  ultimately show ?thesis
    using sent(2) by (intro exI [of _ "datagrams soft a (env_rand env) (env_time env) 0 ?xss"] exI [of _ ?ms] conjI allI impI)
      (simp_all only: concat_tens length_map length_upt nth_map nth_upt diff_zero add_0 message.select_convs)
qed

text \<open>A file with a signal, a line without a number and a line without a call sign.\<close>

definition example_env :: "string \<Rightarrow> psk_env" where
  "example_env contents = \<lparr>env_file = (\<lambda>_. Some contents), env_socket = True, env_host = True, env_rand = 7, env_time = (\<lambda>_. 1000)\<rparr>"

definition example_args :: "string list" where
  "example_args = [''W1AW'', ''FN31'', ''dipole'', ''f'']"

definition example_file :: string where
  "example_file = ''240102 030405 12.5 -7 0.3 14074123 K1ABC FN42'' @ [CHR 0x0A] @ ''240102 030405 x'' @ [CHR 0x0A] @
     ''240102 030406 1e1 -20 nan 7074000'' @ [CHR 0x0A]"

lemma example_spots:
  "file_spots (file_lines example_file) =
     [\<lparr>spot_call = ''K1ABC'', spot_grid = ''FN42'', spot_freq = 14074123, spot_snr = - 7, spot_time = 1704164660\<rparr>,
      \<lparr>spot_call = [], spot_grid = [], spot_freq = 7074000, spot_snr = - 20, spot_time = 1704164661\<rparr>]"
  by code_simp

theorem signals_reported_witness:
  "\<exists>ds ms. psk_main soft_125 (example_env example_file) example_args (replicate 512 0) = Inr ds \<and> map decode ds = map Some ms \<and>
     map rep_call (concat (map msg_reports ms)) = [''K1ABC'', []]"
proof -
  let ?a = "\<lparr>arg_call = ''W1AW'', arg_grid = ''FN31'', arg_antenna = ''dipole'', arg_file = ''f''\<rparr>"
  have p: "psk_parse example_args = Inr ?a"
    by (simp add: psk_parse_def example_args_def)
  have e: "env_file (example_env example_file) (arg_file ?a) = Some example_file" "env_socket (example_env example_file)" "env_host (example_env example_file)"
    by (simp_all add: example_env_def)
  have "all_fit soft_125 ?a (tens (file_spots (file_lines example_file)))"
    unfolding example_spots by code_simp
  then have "psk_main soft_125 (example_env example_file) example_args (replicate 512 0) \<noteq> Inl OutsideBuffer"
    using psk_main_sends [OF p e, of soft_125 "replicate 512 0"] by (simp add: soft_125_def)
  from signals_reported [OF p e _ _ this] show ?thesis
    unfolding example_spots by (auto simp: soft_125_def report_of_def)
qed

section \<open>The buffer\<close>

lemma length_spots_body: "list_all spot_ok xs \<Longrightarrow> length (spots_body xs) \<le> 33 * length xs"
  by (induction xs) (auto simp: spots_body_def length_spot_bytes spot_ok_def)

lemma set_size_mono:
  assumes "n \<le> 4 * k"
  shows "set_size n \<le> 4 * k + 4"
proof -
  define q r where "q = (4 + n) div 4" and "r = (4 + n) mod 4"
  have n: "4 + n = 4 * q + r" and "r < 4"
    unfolding q_def r_def by (simp_all only: mult_div_mod_eq mod_less_divisor zero_less_numeral)
  then show ?thesis
    using assms by (cases "r = 0") (simp_all add: set_size_def padding_def r_def [symmetric])
qed

lemma small_fits:
  assumes "length (arg_call a) + length (arg_grid a) + length soft + length (arg_antenna a) \<le> 48"
    and "list_all spot_ok xs" and "length xs \<le> 10"
  shows "datagram_size soft a xs \<le> 512"
proof -
  have "length (receiver_body soft a) \<le> 4 * 13"
    using assms(1) by (simp add: receiver_body_def)
  moreover have "length (spots_body xs) \<le> 4 * 83"
    using length_spots_body [OF assms(2)] assms(3) by linarith
  ultimately have "set_size (length (receiver_body soft a)) \<le> 56" "set_size (length (spots_body xs)) \<le> 336"
    using set_size_mono [of _ 13] set_size_mono [of _ 83] by fastforce+
  then show ?thesis
    by (simp add: datagram_size_def)
qed

text \<open>C16. The program stores outside \<open>buffer\<close> exactly if some ten signals that follow each other make a datagram
  of more than 512 bytes. With at most 48 characters for call sign, locator, \<open>soft\<close> and antenna none does.\<close>

theorem buffer_overflow_iff:
  assumes "psk_parse args = Inr a" and "env_file env (arg_file a) = Some contents" and "env_socket env" and "env_host env"
    and "length soft \<le> 127" and "length junk = 512"
  shows "(psk_main soft env args junk = Inl OutsideBuffer \<longleftrightarrow>
      (\<exists>xs\<in>set (tens (file_spots (file_lines contents))). 512 < datagram_size soft a xs)) \<and>
    (length (arg_call a) + length (arg_grid a) + length soft + length (arg_antenna a) \<le> 48 \<longrightarrow>
      psk_main soft env args junk \<noteq> Inl OutsideBuffer)"
proof -
  have iff: "psk_main soft env args junk = Inl OutsideBuffer \<longleftrightarrow> (\<exists>xs\<in>set (tens (file_spots (file_lines contents))). 512 < datagram_size soft a xs)"
    using psk_main_sends [OF assms] by (auto simp: Let_def all_fit_def not_le)
  then show ?thesis
    using small_fits tens_ok tens_member by (meson not_le)
qed

definition loud_file :: string where
  "loud_file = concat (replicate 10 (''240102 030405 12.5 -7 0.3 14074123 ABC/K1ABC/QRP FN42'' @ [CHR 0x0A]))"

definition loud_args :: "string list" where
  "loud_args = [''W1AW'', ''FN31pr'', replicate 64 (CHR ''x''), ''f'']"

theorem buffer_overflow_iff_witness:
  "psk_main soft_125 (example_env loud_file) loud_args (replicate 512 0) = Inl OutsideBuffer"
proof -
  let ?a = "\<lparr>arg_call = ''W1AW'', arg_grid = ''FN31pr'', arg_antenna = replicate 64 (CHR ''x''), arg_file = ''f''\<rparr>"
  have p: "psk_parse loud_args = Inr ?a"
    by (simp add: psk_parse_def loud_args_def)
  have e: "env_file (example_env loud_file) (arg_file ?a) = Some loud_file" "env_socket (example_env loud_file)" "env_host (example_env loud_file)"
    by (simp_all add: example_env_def)
  have "\<exists>xs\<in>set (tens (file_spots (file_lines loud_file))). 512 < datagram_size soft_125 ?a xs"
    by code_simp
  then show ?thesis
    using buffer_overflow_iff [OF p e, of soft_125 "replicate 512 0"] by (simp add: soft_125_def)
qed

end
