(* ===== verification/Tb_vectors.thy ===== *)
theory Tb_vectors
  imports Clib "HOL-Library.Monad_Syntax"
begin

text \<open>
  What the test benches of \<open>models/systemc\<close> share: the vector files and the comparison of two sequences.
  A vector file has a value per line; lines that are empty or begin with \<open>/\<close> or \<open>#\<close> and lines without the
  format are left out, and a file that does not open counts as empty. A setting is a line with a name and
  a value; a name that does not fit into its array of 64 bytes has the result \<open>None\<close>. The contents of the
  files are the function \<open>files\<close>.
\<close>

type_synonym files = "string \<Rightarrow> string option"

definition is_comment :: "string \<Rightarrow> bool" where
  "is_comment line = (case line of [] \<Rightarrow> True | c # cs \<Rightarrow> c = CHR ''/'' \<or> c = CHR ''#'')"

definition c_str :: "string \<Rightarrow> string" where
  "c_str = takeWhile (\<lambda>c. c \<noteq> CHR 0x00)"

definition load_lines :: "(string \<Rightarrow> 'a option) \<Rightarrow> string \<Rightarrow> 'a list" where
  "load_lines parse contents = List.map_filter (\<lambda>line. if is_comment line then None else parse (c_str line)) (getlines contents)"

definition load_file :: "(string \<Rightarrow> 'a option) \<Rightarrow> files \<Rightarrow> string \<Rightarrow> 'a list" where
  "load_file parse files name = (case files name of None \<Rightarrow> [] | Some contents \<Rightarrow> load_lines parse contents)"

text \<open>A 16-bit sample, \<open>sscanf(line, "%hx", &val) == 1\<close>.\<close>

definition parse_hx :: "string \<Rightarrow> u16 option" where
  "parse_hx line = map_option fst (scan_x line)"

section \<open>Settings\<close>

text \<open>\<open>sscanf(line, "%s %d", param, &value)\<close> with \<open>char param[64]\<close>. The inner \<open>None\<close>: not two values.\<close>

definition scan_name :: "string \<Rightarrow> (string \<times> string) option option" where
  "scan_name s = (case scan_s s of None \<Rightarrow> Some None | Some (w, r) \<Rightarrow> if length w < 64 then Some (Some (w, r)) else None)"

definition scan_setting :: "string \<Rightarrow> (string \<times> u32) option option" where
  "scan_setting s =
     (case scan_name s of None \<Rightarrow> None | Some None \<Rightarrow> Some None
      | Some (Some (w, r)) \<Rightarrow> Some (map_option (\<lambda>(v, r). (w, v)) (scan_d r)))"

text \<open>\<open>sscanf(line, "%s %s", param, value)\<close>, both with 64 bytes.\<close>

definition scan_names :: "string \<Rightarrow> (string \<times> string) option option" where
  "scan_names s =
     (case scan_name s of None \<Rightarrow> None | Some None \<Rightarrow> Some None
      | Some (Some (w, r)) \<Rightarrow> map_option (map_option (\<lambda>(v, r). (w, v))) (scan_name r))"

fun load_settings :: "(string \<Rightarrow> (string \<times> 'v) option option) \<Rightarrow> (string \<Rightarrow> 'v \<Rightarrow> 'c \<Rightarrow> 'c) \<Rightarrow> string list \<Rightarrow> 'c \<Rightarrow> 'c option" where
  "load_settings scan put [] cfg = Some cfg"
| "load_settings scan put (line # lines) cfg =
     (if is_comment line then load_settings scan put lines cfg
      else case scan (c_str line) of
        None \<Rightarrow> None
      | Some None \<Rightarrow> load_settings scan put lines cfg
      | Some (Some (p, v)) \<Rightarrow> load_settings scan put lines (put p v cfg))"

definition load_config_file :: "(string \<Rightarrow> (string \<times> 'v) option option) \<Rightarrow> (string \<Rightarrow> 'v \<Rightarrow> 'c \<Rightarrow> 'c) \<Rightarrow> 'c \<Rightarrow> files \<Rightarrow> string \<Rightarrow> 'c option" where
  "load_config_file scan put cfg files name =
     (case files name of None \<Rightarrow> Some cfg | Some contents \<Rightarrow> load_settings scan put (getlines contents) cfg)"

definition vector_file :: "string \<Rightarrow> string \<Rightarrow> string \<Rightarrow> string" where
  "vector_file dir test suffix = dir @ ''/'' @ test @ suffix"

section \<open>Comparing sequences\<close>

text \<open>The places of the common prefix where two sequences differ.\<close>

definition mismatches :: "'a list \<Rightarrow> 'a list \<Rightarrow> nat" where
  "mismatches xs ys = length (filter (\<lambda>(x, y). x \<noteq> y) (zip xs ys))"

lemma mismatches_simps [simp]:
  "mismatches [] ys = 0" "mismatches xs [] = 0"
  "mismatches (x # xs) (y # ys) = of_bool (x \<noteq> y) + mismatches xs ys"
  by (simp_all add: mismatches_def)

lemma mismatches_le: "mismatches xs ys \<le> min (length xs) (length ys)"
  using length_filter_le [of "\<lambda>(x, y). x \<noteq> y" "zip xs ys"] by (simp add: mismatches_def)

lemma mismatches_0: "mismatches xs ys = 0 \<longleftrightarrow> take (length ys) xs = take (length xs) ys"
  by (induction xs ys rule: list_induct2') auto

text \<open>The loop that counts them up to the place \<open>n\<close>.\<close>

fun count_mismatches :: "nat list \<Rightarrow> 'a list \<Rightarrow> 'a list \<Rightarrow> int \<Rightarrow> int" where
  "count_mismatches [] xs ys m = m"
| "count_mismatches (i # is) xs ys m = count_mismatches is xs ys (if xs ! i \<noteq> ys ! i then m + 1 else m)"

lemma count_mismatches_offset:
  "count_mismatches (map Suc is) (x # xs) (y # ys) m = count_mismatches is xs ys m"
  by (induction "is" arbitrary: m) auto

lemma count_mismatches_eq:
  "n \<le> length xs \<Longrightarrow> n \<le> length ys \<Longrightarrow> count_mismatches [0..<n] xs ys m = m + int (mismatches (take n xs) (take n ys))"
proof (induction n arbitrary: xs ys m)
  case (Suc n)
  then obtain x xs' y ys' where xs: "xs = x # xs'" "ys = y # ys'"
    by (metis Suc_le_length_iff)
  have "[0..<Suc n] = 0 # map Suc [0..<n]"
    using map_Suc_upt [of 0 n] upt_conv_Cons [of 0 "Suc n"] by simp
  then show ?case
    using Suc.IH [of xs' ys'] Suc.prems by (simp add: xs count_mismatches_offset del: upt_Suc)
qed simp

end
