(* ===== verification/Tb_trigger.thy ===== *)
theory Tb_trigger
  imports Trigger Tb_vectors
begin

text \<open>
  \<open>models/systemc/trigger/tb_trigger_tlm.cpp\<close>: the test of the trigger. It does not run \<open>trigger_tlm\<close>: it
  has a detector of its own, and compares what this detector reports for the stimulus with the expected
  vector. The theorems say when a test passes, and how its detector relates to that of the model.
\<close>

section \<open>Vectors\<close>

definition parse_flag :: "string \<Rightarrow> bool option" where
  "parse_flag line = map_option (\<lambda>(v, r). v \<noteq> 0) (scan_d line)"

definition tb_setting :: "string \<Rightarrow> u32 \<Rightarrow> trigger_config \<Rightarrow> trigger_config" where
  "tb_setting p v cfg =
     (if p = ''ENABLE'' then cfg\<lparr>tc_enable := (v \<noteq> 0)\<rparr>
      else if p = ''THRESHOLD'' then cfg\<lparr>tc_threshold := ucast v\<rparr>
      else if p = ''MODE'' then cfg\<lparr>tc_mode := ucast v\<rparr>
      else cfg)"

section \<open>The scoreboard\<close>

record scoreboard =
  sb_expected :: "bool list"
  triggers_expected :: u32
  triggers_detected :: u32
  true_positives :: u32
  false_positives :: u32
  false_negatives :: u32

definition scoreboard_new :: scoreboard where
  "scoreboard_new = \<lparr>sb_expected = [], triggers_expected = 0, triggers_detected = 0, true_positives = 0,
     false_positives = 0, false_negatives = 0\<rparr>"

definition set_expected :: "bool list \<Rightarrow> scoreboard \<Rightarrow> scoreboard" where
  "set_expected es sb = sb\<lparr>sb_expected := es, triggers_expected := foldl (\<lambda>n e. if e then n + 1 else n) 0 es\<rparr>"

definition check_trigger :: "u32 \<Rightarrow> bool \<Rightarrow> scoreboard \<Rightarrow> scoreboard" where
  "check_trigger index detected sb =
     (let sb = (if detected then sb\<lparr>triggers_detected := triggers_detected sb + 1\<rparr> else sb) in
      if length (sb_expected sb) \<le> unat index then sb
      else
        let e = sb_expected sb ! unat index in
        if detected \<and> e then sb\<lparr>true_positives := true_positives sb + 1\<rparr>
        else if detected \<and> \<not> e then sb\<lparr>false_positives := false_positives sb + 1\<rparr>
        else if \<not> detected \<and> e then sb\<lparr>false_negatives := false_negatives sb + 1\<rparr>
        else sb)"

definition sb_passed :: "scoreboard \<Rightarrow> bool" where
  "sb_passed sb \<longleftrightarrow> false_positives sb + false_negatives sb = 0"

section \<open>The test bench\<close>

record trigger_tb =
  tb_stimulus :: "u16 list"
  tb_config :: trigger_config
  tb_scoreboard :: scoreboard
  tb_pipeline :: "u16 list"
  tb_valid :: "bool list"
  tb_armed :: bool

definition trigger_tb_new :: "u16 list \<Rightarrow> bool list \<Rightarrow> trigger_config \<Rightarrow> trigger_tb" where
  "trigger_tb_new stimulus es cfg =
     \<lparr>tb_stimulus = stimulus, tb_config = cfg, tb_scoreboard = set_expected es scoreboard_new,
      tb_pipeline = [0, 0], tb_valid = [False, False], tb_armed = True\<rparr>"

definition trigger_tb_load :: "files \<Rightarrow> string \<Rightarrow> string \<Rightarrow> trigger_tb option" where
  "trigger_tb_load files dir test =
     map_option (trigger_tb_new (load_file parse_hx files (vector_file dir test ''_stimulus.hex''))
         (load_file parse_flag files (vector_file dir test ''_expected.hex'')))
       (load_config_file scan_setting tb_setting trigger_config_new files (vector_file dir test ''_config.txt''))"

definition tb_process_sample :: "u16 \<Rightarrow> trigger_tb \<Rightarrow> bool \<times> trigger_tb" where
  "tb_process_sample sample tb =
     (let tb = tb\<lparr>tb_pipeline := [sample, tb_pipeline tb ! 0], tb_valid := [True, tb_valid tb ! 0]\<rparr> in
      if \<not> tb_valid tb ! 1 then (False, tb)
      else
        let prev = sint (tb_pipeline tb ! 1); curr = sint (tb_pipeline tb ! 0);
            threshold = sint (tc_threshold (tb_config tb)); mode = tc_mode (tb_config tb);
            rising = (prev < threshold \<and> threshold \<le> curr); falling = (threshold \<le> prev \<and> curr < threshold);
            event_detected = (if mode = 0 then rising else if mode = 1 then falling else if mode = 2 then rising \<or> falling
              else if mode = 3 then threshold \<le> curr else False) in
        if tb_armed tb \<and> event_detected then (True, tb\<lparr>tb_armed := False\<rparr>)
        else if \<not> event_detected then (False, tb\<lparr>tb_armed := True\<rparr>)
        else (False, tb))"

text \<open>The loop of \<open>test_thread\<close> at sample \<open>i\<close>, with \<open>prev_trigger\<close>.\<close>

fun tb_loop :: "nat \<Rightarrow> bool \<Rightarrow> u16 list \<Rightarrow> trigger_tb \<Rightarrow> bool \<times> trigger_tb" where
  "tb_loop i prev_trigger [] tb = (prev_trigger, tb)"
| "tb_loop i prev_trigger (x # xs) tb =
     (let (trigger_out, tb) = tb_process_sample x tb;
          tb = (if 0 < i then tb\<lparr>tb_scoreboard := check_trigger (word_of_nat (i - 1)) prev_trigger (tb_scoreboard tb)\<rparr> else tb) in
      tb_loop (Suc i) trigger_out xs tb)"

definition test_thread :: "trigger_tb \<Rightarrow> trigger_tb" where
  "test_thread tb =
     (let (prev_trigger, tb) = tb_loop 0 False (tb_stimulus tb) tb in
      tb\<lparr>tb_scoreboard := check_trigger (word_of_nat (length (tb_stimulus tb)) - 1) prev_trigger (tb_scoreboard tb)\<rparr>)"

definition tb_passed :: "trigger_tb \<Rightarrow> bool" where
  "tb_passed tb = sb_passed (tb_scoreboard tb)"

section \<open>What the detector of the test reports\<close>

fun tb_outputs :: "u16 list \<Rightarrow> trigger_tb \<Rightarrow> bool list" where
  "tb_outputs [] tb = []"
| "tb_outputs (x # xs) tb = (let (b, tb) = tb_process_sample x tb in b # tb_outputs xs tb)"

lemma length_tb_outputs [simp]: "length (tb_outputs xs tb) = length xs"
  by (induction xs arbitrary: tb) (auto simp: Let_def split: prod.split)

text \<open>The first sample only fills the pipeline; each later one is handled as the model's detector does.\<close>

lemma tb_process_sample_first:
  assumes "tb_valid tb ! 0 = False"
  shows "tb_process_sample x tb = (False, tb\<lparr>tb_pipeline := [x, tb_pipeline tb ! 0], tb_valid := [True, False]\<rparr>)"
  using assms by (simp add: tb_process_sample_def)

lemma tb_process_sample_step:
  fixes x :: u16
  assumes "tb_valid tb ! 0"
  defines "ev \<equiv> detect_threshold_crossing (tb_config tb) (tb_pipeline tb ! 0) x"
  shows "tb_process_sample x tb = (tb_armed tb \<and> ev,
    tb\<lparr>tb_pipeline := [x, tb_pipeline tb ! 0], tb_valid := [True, True], tb_armed := \<not> ev\<rparr>)"
  using assms by (auto simp: tb_process_sample_def Let_def detect_threshold_crossing_def trigger_mode_of_def)

lemma tb_outputs_fires:
  assumes "tb_valid tb ! 0"
  shows "tb_outputs xs tb = map (fires_at (tb_config tb) (tb_pipeline tb ! 0) (tb_armed tb) xs) [0..<length xs]"
  using assms
proof (induction xs arbitrary: tb)
  case (Cons x xs)
  let ?ev = "detect_threshold_crossing (tb_config tb) (tb_pipeline tb ! 0) x"
  let ?tb = "tb\<lparr>tb_pipeline := [x, tb_pipeline tb ! 0], tb_valid := [True, True], tb_armed := \<not> ?ev\<rparr>"
  have "tb_outputs xs ?tb = map (fires_at (tb_config tb) x (\<not> ?ev) xs) [0..<length xs]"
    by (subst Cons.IH) simp_all
  then show ?case
    by (simp add: tb_process_sample_step [OF Cons.prems] map_upt_Suc fires_at_0 fires_at_Suc del: upt_Suc)
qed simp

text \<open>An event between neighbours that does not follow an event.\<close>

definition tb_fires :: "trigger_config \<Rightarrow> u16 list \<Rightarrow> nat \<Rightarrow> bool" where
  "tb_fires cfg xs i \<longleftrightarrow> 0 < i \<and> event_at cfg 0 xs i \<and> (i = 1 \<or> \<not> event_at cfg 0 xs (i - 1))"

lemma tb_fires_Suc: "tb_fires cfg (x # xs) (Suc i) = fires_at cfg x True xs i"
  by (cases i) (auto simp: tb_fires_def fires_at_def event_at_def nth_Cons')

lemma tb_outputs_new: "tb_outputs xs (trigger_tb_new ys es cfg) = map (tb_fires cfg xs) [0..<length xs]"
proof (cases xs)
  case (Cons x zs)
  have "tb_outputs zs (trigger_tb_new ys es cfg\<lparr>tb_pipeline := [x, 0], tb_valid := [True, False]\<rparr>) =
      map (fires_at cfg x True zs) [0..<length zs]"
    by (subst tb_outputs_fires) (simp_all add: trigger_tb_new_def)
  then show ?thesis
    unfolding Cons using tb_process_sample_first [of "trigger_tb_new ys es cfg" x]
    by (simp add: map_upt_Suc tb_fires_Suc trigger_tb_new_def del: upt_Suc) (simp add: tb_fires_def)
qed simp

section \<open>What the scoreboard counts\<close>

fun checks :: "nat \<Rightarrow> bool list \<Rightarrow> scoreboard \<Rightarrow> scoreboard" where
  "checks i [] sb = sb"
| "checks i (b # bs) sb = checks (Suc i) bs (check_trigger (word_of_nat i) b sb)"

lemma tb_process_sample_scoreboard:
  "tb_process_sample x (tb\<lparr>tb_scoreboard := sb\<rparr>) =
     (fst (tb_process_sample x tb), (snd (tb_process_sample x tb))\<lparr>tb_scoreboard := sb\<rparr>)"
  by (simp add: tb_process_sample_def Let_def)

lemma tb_process_sample_keeps [simp]:
  "tb_scoreboard (snd (tb_process_sample x tb)) = tb_scoreboard tb"
  "tb_stimulus (snd (tb_process_sample x tb)) = tb_stimulus tb"
  by (simp_all add: tb_process_sample_def Let_def)

lemma tb_outputs_scoreboard [simp]: "tb_outputs xs (tb\<lparr>tb_scoreboard := sb\<rparr>) = tb_outputs xs tb"
  by (induction xs arbitrary: tb) (simp_all add: tb_process_sample_scoreboard split_beta)

lemma tb_loop_checks:
  assumes "0 < i" and "tb_loop i prev xs tb = (p, tb')"
  shows "tb_stimulus tb' = tb_stimulus tb \<and>
    check_trigger (word_of_nat (i + length xs - 1)) p (tb_scoreboard tb') = checks (i - 1) (prev # tb_outputs xs tb) (tb_scoreboard tb)"
  using assms
proof (induction xs arbitrary: i prev tb)
  case (Cons x xs)
  let ?tb = "(snd (tb_process_sample x tb))\<lparr>tb_scoreboard := check_trigger (word_of_nat (i - 1)) prev (tb_scoreboard tb)\<rparr>"
  have "tb_loop (Suc i) (fst (tb_process_sample x tb)) xs ?tb = (p, tb')"
    using Cons.prems by (simp add: split_beta Let_def)
  from Cons.IH [OF _ this] show ?case
    using Cons.prems(1) by (cases i) (simp_all add: split_beta Let_def)
qed simp

lemma test_thread_checks:
  assumes "tb_stimulus tb \<noteq> []"
  shows "tb_scoreboard (test_thread tb) = checks 0 (tb_outputs (tb_stimulus tb) tb) (tb_scoreboard tb)"
proof -
  obtain x xs where xs: "tb_stimulus tb = x # xs"
    using assms by (cases "tb_stimulus tb") auto
  let ?tb = "snd (tb_process_sample x tb)"
  obtain p tb' where loop: "tb_loop 1 (fst (tb_process_sample x tb)) xs ?tb = (p, tb')"
    by fastforce
  have first: "tb_loop 0 False (x # xs) tb = (p, tb')"
    using loop by (simp add: split_beta)
  show ?thesis
    using tb_loop_checks [OF _ loop] xs first by (simp add: test_thread_def split_beta)
qed

lemma check_trigger_counts:
  assumes "i < 2 ^ 32"
  shows "sb_expected (check_trigger (word_of_nat i) b sb) = sb_expected sb"
    and "triggers_detected (check_trigger (word_of_nat i) b sb) = triggers_detected sb + of_bool b"
    and "false_positives (check_trigger (word_of_nat i) b sb) + false_negatives (check_trigger (word_of_nat i) b sb) =
      false_positives sb + false_negatives sb + of_bool (i < length (sb_expected sb) \<and> b \<noteq> sb_expected sb ! i)"
  using unat_of_nat_small [of i, where 'a = 32] assms by (simp_all add: check_trigger_def Let_def)

lemma checks_counts:
  assumes "i + length bs \<le> 2 ^ 32"
  shows "sb_expected (checks i bs sb) = sb_expected sb \<and>
    triggers_detected (checks i bs sb) = triggers_detected sb + word_of_nat (count_list bs True) \<and>
    false_positives (checks i bs sb) + false_negatives (checks i bs sb) =
      false_positives sb + false_negatives sb + word_of_nat (mismatches bs (drop i (sb_expected sb)))"
  using assms
proof (induction bs arbitrary: i sb)
  case (Cons b bs)
  let ?sb = "check_trigger (word_of_nat i) b sb"
  have "i < 2 ^ 32"
    using Cons.prems by simp
  note c = check_trigger_counts [OF this, of b sb]
  have d: "mismatches (b # bs) (drop i (sb_expected sb)) =
      of_bool (i < length (sb_expected sb) \<and> b \<noteq> sb_expected sb ! i) + mismatches bs (drop (Suc i) (sb_expected sb))"
    by (cases "i < length (sb_expected sb)") (simp_all flip: Cons_nth_drop_Suc)
  show ?case
    using Cons.IH [of "Suc i" ?sb] Cons.prems by (simp add: c d)
qed simp

text \<open>When a test passes.\<close>

lemma tb_passed_iff:
  assumes "0 < length xs" and "length xs < 2 ^ 32"
  shows "tb_passed (test_thread (trigger_tb_new xs es cfg)) \<longleftrightarrow>
    take (length es) (map (tb_fires cfg xs) [0..<length xs]) = take (length xs) es"
proof -
  let ?tb = "trigger_tb_new xs es cfg" and ?m = "mismatches (map (tb_fires cfg xs) [0..<length xs]) es"
  have sb: "tb_scoreboard (test_thread ?tb) = checks 0 (map (tb_fires cfg xs) [0..<length xs]) (set_expected es scoreboard_new)"
    using test_thread_checks [of ?tb] assms(1) tb_outputs_new [of xs xs es cfg] by (simp add: trigger_tb_new_def)
  have "tb_passed (test_thread ?tb) \<longleftrightarrow> (word_of_nat ?m :: u32) = 0"
    using checks_counts [of 0 "map (tb_fires cfg xs) [0..<length xs]" "set_expected es scoreboard_new"] assms(2)
    by (simp add: tb_passed_def sb_passed_def sb set_expected_def scoreboard_new_def)
  also have "\<dots> \<longleftrightarrow> ?m = 0"
  proof -
    have "unat (word_of_nat ?m :: u32) = ?m"
      using mismatches_le [of "map (tb_fires cfg xs) [0..<length xs]" es] assms(2) by (intro unat_of_nat_small) simp
    then show ?thesis
      by (simp add: word_unat_eq_iff)
  qed
  finally show ?thesis
    by (simp add: mismatches_0 del: take_map)
qed

section \<open>The test and the model\<close>



text \<open>The test ignores the setting \<open>ENABLE\<close>, and a test without an expected vector, for instance because its
  file does not open, passes whatever the detector does.\<close>

lemma missing_vector_passes:
  assumes "files (vector_file dir test ''_expected.hex'') = None" and "trigger_tb_load files dir test = Some tb"
    and "0 < length (tb_stimulus tb)" and "length (tb_stimulus tb) < 2 ^ 32"
  shows "tb_passed (test_thread tb)"
proof -
  obtain xs cfg where "tb = trigger_tb_new xs [] cfg"
    using assms(1,2) by (auto simp: trigger_tb_load_def load_file_def)
  then show ?thesis
    using assms(3,4) tb_passed_iff [of xs "[]" cfg] by (simp add: trigger_tb_new_def)
qed

lemma enable_ignored: "tb_outputs xs (trigger_tb_new xs es (cfg\<lparr>tc_enable := e\<rparr>)) = tb_outputs xs (trigger_tb_new xs es cfg)"
  by (simp add: tb_outputs_new tb_fires_def event_at_def detect_threshold_crossing_def)

end
