(* ===== verification/Tb_scope.thy ===== *)
theory Tb_scope
  imports Scope Tb_vectors
begin

text \<open>
  \<open>models/systemc/scope/tb_scope_tlm.cpp\<close>: the test of the oscilloscope. It plays a stimulus with triggers
  at given positions into \<open>scope_tlm\<close>, collects what the scope plays back, reads on for at most 1000 samples
  while the scope is still playing, and compares the output with the expected vector.
\<close>

section \<open>Vectors\<close>

definition parse_position :: "string \<Rightarrow> u32 option" where
  "parse_position line = map_option fst (scan_u line)"

definition scope_setting :: "string \<Rightarrow> u32 \<Rightarrow> scope_config \<Rightarrow> scope_config" where
  "scope_setting p v cfg =
     (if p = ''PRE_SAMPLES'' then cfg\<lparr>pre_samples := v\<rparr>
      else if p = ''POST_SAMPLES'' then cfg\<lparr>post_samples := v\<rparr>
      else cfg)"

section \<open>The test bench\<close>

record scope_tb =
  st_scope :: scope
  st_stimulus :: "u16 list"
  st_expected :: "u16 list"
  st_positions :: "u32 list"
  st_output :: "u16 list"
  st_mismatches :: int

definition scope_tb_new :: "nat \<Rightarrow> u16 list \<Rightarrow> u16 list \<Rightarrow> u32 list \<Rightarrow> scope_config \<Rightarrow> scope_tb" where
  "scope_tb_new garbage stimulus es ps cfg =
     \<lparr>st_scope = scope_configure cfg (scope_new garbage), st_stimulus = stimulus, st_expected = es, st_positions = ps,
      st_output = [], st_mismatches = 0\<rparr>"

definition scope_tb_load :: "nat \<Rightarrow> files \<Rightarrow> string \<Rightarrow> string \<Rightarrow> scope_tb option" where
  "scope_tb_load garbage files dir test =
     map_option (scope_tb_new garbage (load_file parse_hx files (vector_file dir test ''_stimulus.hex''))
         (load_file parse_hx files (vector_file dir test ''_expected.hex''))
         (load_file parse_position files (vector_file dir test ''_triggers.txt'')))
       (load_config_file scan_setting scope_setting scope_config_new files (vector_file dir test ''_config.txt''))"

text \<open>The loop of \<open>test_thread\<close> at sample \<open>i\<close>, with \<open>trig_idx\<close>: the scope and the output.\<close>

fun st_loop :: "u32 list \<Rightarrow> nat \<Rightarrow> nat \<Rightarrow> u16 list \<Rightarrow> scope \<Rightarrow> u16 list \<Rightarrow> scope \<times> u16 list" where
  "st_loop ps i k [] s out = (s, out)"
| "st_loop ps i k (x # xs) s out =
     (let trigger = (k < length ps \<and> i = unat (ps ! k));
          k = (if trigger then k + 1 else k);
          ((valid, sample), s) = scope_process_sample x trigger s in
      st_loop ps (Suc i) k xs s (if valid then out @ [sample] else out))"

text \<open>Reading on, \<open>n\<close> samples at most.\<close>

fun st_drain :: "nat \<Rightarrow> scope \<Rightarrow> u16 list \<Rightarrow> scope \<times> u16 list" where
  "st_drain 0 s out = (s, out)"
| "st_drain (Suc n) s out =
     (if sc_state s = OUTPUTTING then
        let ((valid, sample), s) = scope_process_sample 0 False s in st_drain n s (if valid then out @ [sample] else out)
      else (s, out))"

definition compare_outputs :: "scope_tb \<Rightarrow> scope_tb" where
  "compare_outputs tb =
     (let out = st_output tb; es = st_expected tb; m = count_mismatches [0..<min (length out) (length es)] out es (st_mismatches tb);
          m = (if length out \<noteq> length es then m + \<bar>int (length out) - int (length es)\<bar> else m) in
      tb\<lparr>st_mismatches := m\<rparr>)"

definition scope_test_thread :: "scope_tb \<Rightarrow> scope_tb" where
  "scope_test_thread tb =
     (let s = scope_enable (scope_reset (st_scope tb));
          (s, out) = st_loop (st_positions tb) 0 0 (st_stimulus tb) s (st_output tb);
          (s, out) = st_drain 1000 s out in
      compare_outputs (tb\<lparr>st_scope := s, st_output := out\<rparr>))"

definition scope_tb_passed :: "scope_tb \<Rightarrow> bool" where
  "scope_tb_passed tb \<longleftrightarrow> st_mismatches tb = 0 \<and> length (st_output tb) = length (st_expected tb)"

section \<open>The test passes exactly if the output is the expected vector\<close>

lemma compare_outputs_passed:
  assumes "st_mismatches tb = 0"
  shows "scope_tb_passed (compare_outputs tb) \<longleftrightarrow> st_output tb = st_expected tb"
  using assms by (auto simp: scope_tb_passed_def compare_outputs_def Let_def count_mismatches_eq mismatches_0)

lemma scope_tb_passed_iff:
  "scope_tb_passed (scope_test_thread (scope_tb_new g xs es ps cfg)) \<longleftrightarrow>
     st_output (scope_test_thread (scope_tb_new g xs es ps cfg)) = es"
  by (simp add: scope_test_thread_def Let_def split_beta compare_outputs_passed scope_tb_new_def)
    (simp add: compare_outputs_def Let_def)

section \<open>The test as runs of the scope\<close>

definition valid_samples :: "(bool \<times> u16) list \<Rightarrow> u16 list" where
  "valid_samples os = map snd (filter fst os)"

lemma valid_samples_simps [simp]:
  "valid_samples [] = []" "valid_samples ((v, x) # os) = (if v then x # valid_samples os else valid_samples os)"
  "valid_samples (os @ os') = valid_samples os @ valid_samples os'"
  "valid_samples (replicate n (False, x)) = []" "valid_samples (map (Pair True) xs) = xs"
  by (simp_all add: valid_samples_def comp_def)

fun trigger_line :: "u32 list \<Rightarrow> nat \<Rightarrow> nat \<Rightarrow> nat \<Rightarrow> bool list" where
  "trigger_line ps i k 0 = []"
| "trigger_line ps i k (Suc n) =
     (let t = (k < length ps \<and> i = unat (ps ! k)) in t # trigger_line ps (Suc i) (if t then k + 1 else k) n)"

lemma st_loop_run:
  "st_loop ps i k xs s out =
     (case scope_run (zip xs (trigger_line ps i k (length xs))) s of (os, s') \<Rightarrow> (s', out @ valid_samples os))"
  by (induction xs arbitrary: i k s out) (auto simp: Let_def split: prod.splits)

lemma trigger_line_after: "k = length ps \<Longrightarrow> trigger_line ps i k n = replicate n False"
  by (induction n arbitrary: i) simp_all

lemma trigger_line_single:
  "unat p = i + length as \<Longrightarrow> trigger_line [p] i 0 (length as + Suc n) = replicate (length as) False @ True # replicate n False"
proof (induction as arbitrary: i)
  case Nil
  then show ?case by (simp add: trigger_line_after)
next
  case (Cons a as)
  then show ?case
    using Cons.IH [of "Suc i"] by simp
qed

section \<open>A test with one trigger\<close>

definition last_n :: "nat \<Rightarrow> 'a list \<Rightarrow> 'a list" where
  "last_n n xs = drop (length xs - n) xs"

lemma push_last_n: "push_circular n (last_n n xs) x = last_n n (xs @ [x])"
proof (cases "n = 0 \<or> length xs < n")
  case False
  define k where "k = length xs - n"
  have k: "Suc k \<le> length xs" "length xs - k = n" "Suc (length xs) - n = Suc k"
    using False by (auto simp: k_def)
  have "tl (drop k xs @ [x]) = drop (Suc k) xs @ [x]"
    using k(1) by (simp add: tl_append2 drop_Suc tl_drop)
  then show ?thesis
    using k False by (simp add: push_circular_def last_n_def Let_def k_def [symmetric])
qed (auto simp: push_circular_def last_n_def Let_def)

lemma length_last_n [simp]: "length (last_n n xs) = min n (length xs)"
  by (simp add: last_n_def)

abbreviation quiet :: "u16 list \<Rightarrow> (u16 \<times> bool) list" where
  "quiet xs \<equiv> map (\<lambda>x. (x, False)) xs"

text \<open>Before a trigger the scope keeps the last \<open>pre\<close> samples and arms itself once it has them.\<close>

definition waiting :: "u16 list \<Rightarrow> scope \<Rightarrow> bool" where
  "waiting hist s \<longleftrightarrow>
     (let n = unat (pre_samples (sc_config s)) in
      sc_enable (sc_config s) \<and> circular_buffer s = last_n n hist \<and>
      sc_state s = (if hist \<noteq> [] \<and> n \<le> length hist then ARMED else FILLING))"

lemma waiting_step:
  assumes "waiting hist s"
  shows "\<exists>s'. scope_process_sample x False s = ((False, 0), s') \<and> waiting (hist @ [x]) s' \<and> sc_config s' = sc_config s"
  using assms push_last_n [of "unat (pre_samples (sc_config s))" hist x]
  by (auto simp: waiting_def scope_process_sample_def Let_def)

lemma waiting_run:
  assumes "waiting hist s"
  shows "\<exists>s'. scope_run (quiet xs) s = (replicate (length xs) (False, 0), s') \<and> waiting (hist @ xs) s' \<and> sc_config s' = sc_config s"
  using assms
proof (induction xs arbitrary: hist s)
  case (Cons x xs)
  obtain s' where s': "scope_process_sample x False s = ((False, 0), s')" "waiting (hist @ [x]) s'" "sc_config s' = sc_config s"
    using waiting_step [OF Cons.prems] by blast
  then show ?case
    using Cons.IH [OF s'(2)] by auto
qed simp

lemma armed_run:
  assumes "sc_state s = ARMED"
  shows "\<exists>s'. scope_run (quiet xs) s = (replicate (length xs) (False, 0), s') \<and> sc_state s' = ARMED"
  using assms
proof (induction xs arbitrary: s)
  case (Cons x xs)
  have "fst (scope_process_sample x False s) = (False, 0)" "sc_state (snd (scope_process_sample x False s)) = ARMED"
    using Cons.prems by (simp_all add: scope_process_sample_def Let_def)
  then obtain s' where s': "scope_process_sample x False s = ((False, 0), s')" "sc_state s' = ARMED"
    by (cases "scope_process_sample x False s") auto
  then show ?case
    using Cons.IH [OF s'(2)] by auto
qed simp

text \<open>Playing back: the samples from \<open>output_index\<close> on.\<close>

definition playing :: "u16 list \<Rightarrow> scope \<Rightarrow> bool" where
  "playing ws s \<longleftrightarrow> sc_enable (sc_config s) \<and> ws = drop (output_index s) (capture_buffer s) \<and>
     sc_state s = (if ws = [] then ARMED else OUTPUTTING)"

lemma playing_step:
  assumes "playing (w # ws) s"
  shows "\<exists>s'. scope_process_sample x trg s = ((True, w), s') \<and> playing ws s'"
proof -
  have i: "output_index s < length (capture_buffer s)"
    using assms by (simp add: playing_def) (metis drop_eq_Nil2 list.distinct(1) not_le)
  have d: "w # ws = capture_buffer s ! output_index s # drop (Suc (output_index s)) (capture_buffer s)"
    using assms i by (simp add: playing_def Cons_nth_drop_Suc)
  have ws: "w = capture_buffer s ! output_index s" "ws = drop (Suc (output_index s)) (capture_buffer s)"
    using d by simp_all
  have s: "sc_enable (sc_config s)" "sc_state s = OUTPUTTING"
    using assms by (simp_all add: playing_def)
  show ?thesis
    using i s by (auto simp: ws playing_def scope_process_sample_def Let_def)
qed

lemma playing_run:
  "playing ws s \<Longrightarrow> \<exists>s'. valid_samples (fst (scope_run (quiet xs) s)) = take (length xs) ws \<and>
    snd (scope_run (quiet xs) s) = s' \<and> (playing (drop (length xs) ws) s' \<or> length ws \<le> length xs \<and> sc_state s' = ARMED)"
proof (induction xs arbitrary: ws s)
  case (Cons x xs)
  show ?case
  proof (cases ws)
    case Nil
    then have "sc_state s = ARMED"
      using Cons.prems by (simp add: playing_def)
    from armed_run [OF this, of "x # xs"] show ?thesis
      using Nil by auto
  next
    case (Cons w vs)
    obtain s' where s': "scope_process_sample x False s = ((True, w), s')" "playing vs s'"
      using playing_step [of w vs s x False] Cons.prems Cons by blast
    then show ?thesis
      using Cons.IH [OF s'(2)] Cons by (simp add: split_beta)
  qed
qed simp

lemma playing_drain:
  "playing ws s \<Longrightarrow> length ws \<le> n \<Longrightarrow> snd (st_drain n s out) = out @ ws"
proof (induction n arbitrary: ws s out)
  case 0
  then show ?case by simp
next
  case (Suc n)
  show ?case
  proof (cases ws)
    case Nil
    then show ?thesis
      using Suc.prems by (simp add: playing_def)
  next
    case (Cons w vs)
    obtain s' where s': "scope_process_sample 0 False s = ((True, w), s')" "playing vs s'"
      using playing_step [of w vs s 0 False] Suc.prems(1) Cons by blast
    moreover have "sc_state s = OUTPUTTING"
      using Suc.prems(1) Cons by (simp add: playing_def)
    ultimately show ?thesis
      using Suc.IH [OF s'(2)] Suc.prems(2) Cons by simp
  qed
qed

lemma drain_armed: "sc_state s = ARMED \<Longrightarrow> st_drain n s out = (s, out)"
  by (cases n) simp_all

lemma one_trigger_output:
  assumes "sc_enable cfg" and "as \<noteq> []" and "unat (pre_samples cfg) \<le> length as" and "Suc (length ys) = post_total cfg"
    and "length as < 2 ^ 32" and "ws = last_n (unat (pre_samples cfg)) (as @ [x]) @ x # ys" and "length ws \<le> length zs + 1000"
  shows "st_output (scope_test_thread (scope_tb_new g (as @ x # ys @ zs) es [word_of_nat (length as)] cfg)) = ws"
proof -
  let ?xs = "as @ x # ys @ zs" and ?p = "word_of_nat (length as) :: u32" and ?n = "unat (pre_samples cfg)"
  define s where "s = scope_enable (scope_reset (scope_configure cfg (scope_new g)))"
  have "unat ?p = 0 + length as"
    using assms(5) by (simp add: unat_of_nat_small)
  from trigger_line_single [OF this, of "length ys + length zs"]
  have line: "zip ?xs (trigger_line [?p] 0 0 (length ?xs)) = quiet as @ ((x, True) # quiet ys) @ quiet zs"
    by (simp add: replicate_add zip_append zip_replicate2)
  have "waiting [] s" "sc_config s = cfg"
    using assms(1) by (simp_all add: s_def waiting_def scope_enable_def scope_reset_def scope_configure_def scope_new_def last_n_def)
  then obtain s1 where s1: "scope_run (quiet as) s = (replicate (length as) (False, 0), s1)" "waiting as s1" "sc_config s1 = cfg"
    using waiting_run [of "[]" s as] by auto
  have armed: "sc_enable (sc_config s1)" "sc_state s1 = ARMED" "circular_buffer s1 = last_n ?n as"
    using s1(2,3) assms(1-3) by (simp_all add: waiting_def)
  have window: "window_samples (sc_config s1) (circular_buffer s1) x (map fst (quiet ys)) = ws"
    by (simp add: window_samples_def armed(3) s1(3) push_last_n assms(6) comp_def)
  obtain u where u: "scope_run ((x, True) # quiet ys) s1 = (replicate (Suc (length ys)) (False, 0), u)"
      "sc_config u = cfg" "sc_state u = OUTPUTTING" "output_index u = 0" "capture_buffer u = ws"
    using capture_run [OF armed(1,2), of "quiet ys" x] assms(4) s1(3) unfolding window by auto
  have "playing ws u"
    using u assms(1,6) by (simp add: playing_def)
  from playing_run [OF this, of zs] obtain v where v: "valid_samples (fst (scope_run (quiet zs) u)) = take (length zs) ws"
      "snd (scope_run (quiet zs) u) = v" "playing (drop (length zs) ws) v \<or> length ws \<le> length zs \<and> sc_state v = ARMED"
    by blast
  have "st_loop [?p] 0 0 ?xs s [] = (v, take (length zs) ws)"
    unfolding st_loop_run line scope_run_append using s1(1) u(1) v(1,2) by (simp add: split_beta Let_def del: scope_run.simps replicate.simps)
  moreover have "snd (st_drain 1000 v (take (length zs) ws)) = ws"
    using v(3)
  proof
    assume "playing (drop (length zs) ws) v"
    from playing_drain [OF this, of 1000] show ?thesis
      using assms(7) by simp
  next
    assume "length ws \<le> length zs \<and> sc_state v = ARMED"
    then show ?thesis
      by (simp add: drain_armed)
  qed
  ultimately show ?thesis
    by (simp add: scope_test_thread_def scope_tb_new_def s_def [symmetric] compare_outputs_def Let_def split_beta)
qed

text \<open>C23. A test with one trigger, after at least \<open>pre\<close> samples and with enough samples behind it: the output is
  the last \<open>pre\<close> samples up to the trigger sample, then the \<open>post\<close> samples from the trigger sample on, and
  the test passes exactly if this is the expected vector.\<close>

theorem scope_test_verdict:
  assumes "sc_enable cfg" and "as \<noteq> []" and "unat (pre_samples cfg) \<le> length as" and "Suc (length ys) = post_total cfg"
    and "length as < 2 ^ 32" and "ws = last_n (unat (pre_samples cfg)) (as @ [x]) @ x # ys" and "length ws \<le> length zs + 1000"
  shows "st_output (scope_test_thread (scope_tb_new g (as @ x # ys @ zs) es [word_of_nat (length as)] cfg)) = ws \<and>
    (scope_tb_passed (scope_test_thread (scope_tb_new g (as @ x # ys @ zs) es [word_of_nat (length as)] cfg)) \<longleftrightarrow> es = ws)"
  using one_trigger_output [OF assms, of g es] scope_tb_passed_iff [of g "as @ x # ys @ zs" es "[word_of_nat (length as)]" cfg] by auto

theorem scope_test_verdict_witness:
  "st_output (scope_test_thread (scope_tb_new 0 ([1, 2, 3] @ 4 # [5] @ [6]) [3, 4, 4, 5] [word_of_nat (length [1, 2, 3 :: u16])]
     (scope_config_new\<lparr>pre_samples := 2, post_samples := 2\<rparr>))) = [3, 4, 4, 5]"
  using scope_test_verdict [of "scope_config_new\<lparr>pre_samples := 2, post_samples := 2\<rparr>" "[1, 2, 3]" "[5]" _ 4 "[6]" 0 "[3, 4, 4, 5]", OF _ _ _ _ _ refl]
  by (simp add: scope_config_new_def post_total_def last_n_def)

end
