(* ===== verification/Tb_ram.thy ===== *)
theory Tb_ram
  imports Ram_writer Tb_vectors
begin

unbundle bit_operations_syntax

text \<open>
  \<open>models/systemc/ram_writer/tb_ram_writer_tlm.cpp\<close>: the test of the RAM writer. It writes the samples of a
  stimulus into \<open>ram_writer_tlm\<close>, flushes once, and compares the memory with the expected vector as far as
  memory, vector and stimulus all reach.
\<close>

section \<open>Vectors\<close>

definition parse_pair :: "string \<Rightarrow> (u32 \<times> bool) option" where
  "parse_pair line = do { (v, r) \<leftarrow> scan_x line; (l, r) \<leftarrow> scan_d r; Some (v, l \<noteq> 0) }"

definition parse_word :: "string \<Rightarrow> u32 option" where
  "parse_word line = map_option fst (scan_x line)"

definition strtoull_0 :: "string \<Rightarrow> u64" where
  "strtoull_0 s = (case strtoull_rest 0 s of None \<Rightarrow> 0 | Some (v, r) \<Rightarrow> word_of_int v)"

definition ram_setting :: "string \<Rightarrow> string \<Rightarrow> rw_config \<Rightarrow> rw_config" where
  "ram_setting p v cfg =
     (if p = ''BASE_ADDR'' then cfg\<lparr>base_addr := strtoull_0 v\<rparr>
      else if p = ''BUFFER_SIZE'' then cfg\<lparr>buffer_size := strtoull_0 v\<rparr>
      else cfg)"

section \<open>The test bench\<close>

record ram_tb =
  rt_writer :: ram_writer
  rt_stimulus :: "u32 list"
  rt_tlast :: "bool list"
  rt_expected :: "u32 list"
  rt_mismatches :: int

definition ram_tb_new :: "(u32 \<times> bool) list \<Rightarrow> u32 list \<Rightarrow> rw_config \<Rightarrow> ram_tb" where
  "ram_tb_new stimulus es cfg =
     \<lparr>rt_writer = rw_configure cfg ram_writer_new, rt_stimulus = map fst stimulus, rt_tlast = map snd stimulus,
      rt_expected = es, rt_mismatches = 0\<rparr>"

definition ram_tb_load :: "files \<Rightarrow> string \<Rightarrow> string \<Rightarrow> ram_tb option" where
  "ram_tb_load files dir test =
     map_option (ram_tb_new (load_file parse_pair files (vector_file dir test ''_stimulus.hex''))
         (load_file parse_word files (vector_file dir test ''_expected.hex'')))
       (load_config_file scan_names ram_setting rw_config_new files (vector_file dir test ''_config.txt''))"

definition unpack_word :: "u64 \<Rightarrow> u32 list" where
  "unpack_word w = map (\<lambda>i. ucast (ucast (drop_bit (i * 16) w AND 0xFFFF) :: u16)) [0..<4]"

definition low16 :: "u32 \<Rightarrow> u32" where
  "low16 v = v AND 0xFFFF"

definition verify_results :: "ram_tb \<Rightarrow> ram_tb" where
  "verify_results tb =
     (let unpacked = concat (map unpack_word (memory (rt_writer tb)));
          compare_len = min (length unpacked) (length (rt_expected tb));
          compare_len = min compare_len (length (rt_stimulus tb));
          m = count_mismatches [0..<compare_len] (map low16 unpacked) (map low16 (rt_expected tb)) (rt_mismatches tb);
          m = m + int (length (filter crosses_4kb (transactions (rt_writer tb)))) in
      tb\<lparr>rt_mismatches := m\<rparr>)"

definition ram_test_thread :: "ram_tb \<Rightarrow> ram_tb" where
  "ram_test_thread tb =
     (let rw = rw_enable (rw_reset (rt_writer tb));
          rw = write_samples (map (\<lambda>(v, l). (ucast (low16 v), l)) (zip (rt_stimulus tb) (rt_tlast tb))) rw;
          rw = rw_flush rw in
      verify_results (tb\<lparr>rt_writer := rw\<rparr>))"

definition ram_tb_passed :: "ram_tb \<Rightarrow> bool" where
  "ram_tb_passed tb \<longleftrightarrow> rt_mismatches tb = 0"

section \<open>The verdict\<close>

lemma unpack_word_eq: "unpack_word w = map ucast (unpack4 w)"
proof -
  have u: "(ucast (v AND 0xFFFF) :: u16) = ucast v" for v :: u64
  proof -
    have m: "(0xFFFF :: u64) = mask 16"
      by (simp add: mask_eq_exp_minus_1)
    show ?thesis
      unfolding m by (rule bit_word_eqI) (auto simp: bit_simps)
  qed
  show ?thesis
    by (simp add: unpack_word_def unpack4_def u upt_rec)
qed

lemma unpacked_eq: "concat (map unpack_word ws) = map ucast (concat (map unpack4 ws))"
  by (induction ws) (simp_all add: unpack_word_eq)

lemma mask16: "(0xFFFF :: u32) = mask 16"
  by (simp add: mask_eq_exp_minus_1)

lemma ucast_low16 [simp]: "(ucast (low16 v) :: u16) = ucast v"
  unfolding low16_def mask16 by (rule bit_word_eqI) (auto simp: bit_simps)

lemma low16_eq: "low16 v = ucast (ucast v :: u16)"
  unfolding low16_def mask16 by (rule bit_word_eqI) (auto simp: bit_simps dest: bit_imp_le_length)

lemma ucast_back [simp]: "(ucast (ucast d :: u32) :: u16) = d"
  by (rule bit_word_eqI) (auto simp: bit_simps)

text \<open>Comparing the low halves is comparing samples.\<close>

lemma compare_low:
  fixes ms :: "u16 list"
  assumes "n \<le> length ms" and "n \<le> length es"
  shows "count_mismatches [0..<n] (map low16 (map ucast ms)) (map low16 es) 0 = 0 \<longleftrightarrow> take n ms = take n (map ucast es)"
proof -
  let ?g = "ucast :: u16 \<Rightarrow> u32"
  have low: "map low16 (map ?g ms) = map ?g ms" "map low16 es = map ?g (map ucast es)"
    by (simp_all add: low16_eq comp_def)
  have "count_mismatches [0..<n] (map low16 (map ?g ms)) (map low16 es) 0 = 0 \<longleftrightarrow>
      map ?g (take n ms) = map ?g (take n (map ucast es))"
    unfolding low using assms by (simp add: count_mismatches_eq mismatches_0 take_map del: map_map)
  also have "\<dots> \<longleftrightarrow> take n ms = take n (map ucast es)"
    by (intro inj_map_eq_map inj_on_inverseI [where g = ucast]) simp
  finally show ?thesis .
qed

lemma tiles_no_crossing: "tiles p ts \<Longrightarrow> filter crosses_4kb ts = []"
  by (induction ts arbitrary: p) (auto simp: in_page_def)

definition samples_of :: "(u32 \<times> bool) list \<Rightarrow> (u16 \<times> bool) list" where
  "samples_of xs = map (\<lambda>(v, l). (ucast v, l)) xs"

text \<open>The writer at the end of the test.\<close>

lemma ram_test_writer:
  assumes "unat (base_addr cfg) mod 8 = 0" and "0 < max_burst cfg"
    and "length xs + 1 < 2 ^ 29" and "unat (base_addr cfg) + 8 * (length xs + 1) < 2 ^ 63"
  defines "rw \<equiv> rw_flush (write_samples (samples_of xs) (rw_started cfg))"
  shows "filter crosses_4kb (transactions rw) = [] \<and> content rw = pad4 (stream_spec (samples_of xs) [])"
proof -
  let ?s = "write_samples (samples_of xs) (rw_started cfg)"
  have "rw_inv (unat (base_addr cfg)) (rw_started cfg)"
    using assms(1,2) by (simp add: rw_inv_def rw_started_fields word_less_nat_alt)
  then have s: "rw_inv (unat (base_addr cfg)) ?s" "length (fifo ?s) < 4" "held ?s \<le> length xs"
    using write_samples_inv [of "unat (base_addr cfg)" "rw_started cfg" "samples_of xs"] assms(3,4)
    by (simp_all add: rw_started_fields held_def samples_of_def)
  have "rw_inv (unat (base_addr cfg)) rw"
    unfolding rw_def by (rule flush_inv(1) [OF s(1,2)]) (use s(3) assms(3,4) in auto)
  moreover have "content rw = pad4 (stream_spec (samples_of xs) [])"
    unfolding rw_def flush_content(1) [OF s(2)]
    by (subst write_samples_content) (simp_all add: rw_started_fields content_def)
  ultimately show ?thesis
    using tiles_no_crossing by (auto simp: rw_inv_def)
qed

lemma memory_prefix: "concat (map unpack4 (memory s)) = take (4 * length (memory s)) (content s)"
proof -
  have "length (concat (map unpack4 (memory s))) = 4 * length (memory s)"
    by (rule length_concat_const) (simp add: unpack4_def)
  then show ?thesis
    by (simp add: content_def)
qed

text \<open>C24. With an aligned base address a test of the RAM writer passes exactly if the expected vector agrees,
  in its low halves, with the padded samples of the stimulus, on the prefix that was written to the memory
  and that both vectors reach. No transaction ever crosses a page.\<close>

theorem ram_test_verdict:
  assumes "unat (base_addr cfg) mod 8 = 0" and "0 < max_burst cfg"
    and "length xs + 1 < 2 ^ 29" and "unat (base_addr cfg) + 8 * (length xs + 1) < 2 ^ 63"
    and "n = min (min (4 * length (memory (rt_writer (ram_test_thread (ram_tb_new xs es cfg))))) (length es)) (length xs)"
  shows "ram_tb_passed (ram_test_thread (ram_tb_new xs es cfg)) \<longleftrightarrow>
    take n (pad4 (stream_spec (samples_of xs) [])) = take n (map ucast es)"
proof -
  define rw where "rw = rw_flush (write_samples (samples_of xs) (rw_started cfg))"
  note end_state = ram_test_writer [OF assms(1-4), folded rw_def]
  have start: "rw_enable (rw_reset (rw_configure cfg ram_writer_new)) = rw_started cfg"
    by (simp add: rw_started_def rw_enable_def rw_reset_def rw_configure_def ram_writer_new_def)
  have run: "ram_test_thread (ram_tb_new xs es cfg) = verify_results ((ram_tb_new xs es cfg)\<lparr>rt_writer := rw\<rparr>)"
    by (simp add: ram_test_thread_def ram_tb_new_def start rw_def samples_of_def zip_map_fst_snd split_beta)
  let ?ms = "concat (map unpack4 (memory rw))"
  have len: "length ?ms = 4 * length (memory rw)"
    by (rule length_concat_const) (simp add: unpack4_def)
  have n: "n = min (min (length ?ms) (length es)) (length xs)"
    unfolding assms(5) run len by (simp add: verify_results_def Let_def)
  have "ram_tb_passed (ram_test_thread (ram_tb_new xs es cfg)) \<longleftrightarrow>
      count_mismatches [0..<n] (map low16 (map ucast ?ms)) (map low16 es) 0 = 0"
    unfolding run n by (simp add: ram_tb_passed_def verify_results_def Let_def unpacked_eq end_state ram_tb_new_def)
  also have "\<dots> \<longleftrightarrow> take n ?ms = take n (map ucast es)"
    by (rule compare_low) (simp_all add: n)
  also have "take n ?ms = take n (pad4 (stream_spec (samples_of xs) []))"
    using n len by (simp add: memory_prefix end_state)
  finally show ?thesis .
qed

theorem ram_test_verdict_witness:
  "ram_tb_passed (ram_test_thread (ram_tb_new [(1, False), (0x10002, True)] [1, 2] rw_config_new))"
proof -
  let ?xs = "[(1, False), (0x10002, True)] :: (u32 \<times> bool) list" and ?es = "[1, 2 :: u32]"
  have m: "min (min (4 * length (memory (rt_writer (ram_test_thread (ram_tb_new ?xs ?es rw_config_new))))) (length ?es)) (length ?xs) = 2"
    by code_simp
  have "take 2 (pad4 (stream_spec (samples_of ?xs) [])) = take 2 (map ucast ?es)"
    by code_simp
  then show ?thesis
    using ram_test_verdict [of rw_config_new ?xs 2 ?es] m by (simp add: rw_config_new_def)
qed

text \<open>What does not reach the memory is not compared: a test whose memory stays empty passes.\<close>

lemma empty_memory_passes:
  assumes "unat (base_addr cfg) mod 8 = 0" and "0 < max_burst cfg"
    and "length xs + 1 < 2 ^ 29" and "unat (base_addr cfg) + 8 * (length xs + 1) < 2 ^ 63"
    and "memory (rw_flush (write_samples (samples_of xs) (rw_started cfg))) = []"
  shows "verify_results ((ram_tb_new xs es cfg)\<lparr>rt_writer := rw_flush (write_samples (samples_of xs) (rw_started cfg))\<rparr>) =
    (ram_tb_new xs es cfg)\<lparr>rt_writer := rw_flush (write_samples (samples_of xs) (rw_started cfg))\<rparr>"
  using ram_test_writer [OF assms(1-4)] assms(5) by (simp add: verify_results_def ram_tb_new_def)

end
