(* ===== verification/Stimulus.thy ===== *)
theory Stimulus
  imports Trigger Tb_vectors Doubles
begin

text \<open>
  The rest of \<open>models/systemc/trigger/trigger_tlm.h\<close>: the samples of the stimulus generator, read from a file
  or computed as a ramp or a sine, and the file of events the detector writes. A conversion of a \<open>double\<close>
  that does not fit into \<open>int16_t\<close> is undefined in C++ and has the result \<open>None\<close>. The library's \<open>sin\<close> is a
  parameter.
\<close>

section \<open>Samples from a file\<close>

text \<open>The result of \<open>sscanf\<close> is not looked at: a line without a number repeats whatever the uninitialised
  variable holds, here \<open>junk\<close>.\<close>

definition load_samples :: "(nat \<Rightarrow> u16) \<Rightarrow> files \<Rightarrow> string \<Rightarrow> u16 list" where
  "load_samples junk files name =
     (case files name of None \<Rightarrow> []
      | Some contents \<Rightarrow> map (\<lambda>(k, line). case parse_hx (c_str line) of Some v \<Rightarrow> v | None \<Rightarrow> junk k)
          (enumerate 0 (filter (Not \<circ> is_comment) (getlines contents))))"

section \<open>Ramps and sines\<close>

text \<open>\<open>static_cast<int16_t>(x)\<close> for a \<open>double\<close>.\<close>

definition truncated :: "rat \<Rightarrow> int" where
  "truncated x = (if 0 \<le> x then \<lfloor>x\<rfloor> else \<lceil>x\<rceil>)"

definition to_int16 :: "rat \<Rightarrow> u16 option" where
  "to_int16 x = (let n = truncated x in if - 32768 \<le> n \<and> n \<le> 32767 then Some (word_of_int n) else None)"

fun collect :: "(nat \<Rightarrow> 'a option) \<Rightarrow> nat list \<Rightarrow> 'a list option" where
  "collect f [] = Some []"
| "collect f (i # is) = (case f i of None \<Rightarrow> None | Some x \<Rightarrow> map_option ((#) x) (collect f is))"

definition ramp_step :: "u16 \<Rightarrow> u16 \<Rightarrow> u32 \<Rightarrow> rat" where
  "ramp_step first last_value count = ddiv (of_int (sint last_value - sint first)) (of_nat (unat (count - 1)))"

definition ramp_value :: "u16 \<Rightarrow> u16 \<Rightarrow> u32 \<Rightarrow> nat \<Rightarrow> u16 option" where
  "ramp_value first last_value count i =
     to_int16 (dadd (of_int (sint first)) (dmul (of_nat i) (ramp_step first last_value count)))"

text \<open>With \<open>count = 1\<close> the step is infinite or not a number, and the sample undefined.\<close>

definition generate_ramp :: "u16 \<Rightarrow> u16 \<Rightarrow> u32 \<Rightarrow> u16 list option" where
  "generate_ramp first last_value count =
     (if count = 1 then None else collect (ramp_value first last_value count) [0..<unat count])"

definition M_PI :: rat where
  "M_PI = 884279719003555 / 281474976710656"

definition generate_sine :: "(rat \<Rightarrow> rat) \<Rightarrow> u16 \<Rightarrow> u16 \<Rightarrow> u32 \<Rightarrow> u32 \<Rightarrow> u16 list option" where
  "generate_sine sinf amplitude offset periods samples_per_period =
     collect (\<lambda>i. let angle = ddiv (dmul (dmul 2 M_PI) (of_nat i)) (of_nat (unat samples_per_period)) in
         to_int16 (dadd (of_int (sint offset)) (dmul (of_int (sint amplitude)) (sinf angle))))
       [0..<unat (periods * samples_per_period)]"

lemma collect_Some:
  "(\<And>i. i \<in> set is \<Longrightarrow> f i \<noteq> None) \<Longrightarrow> collect f is = Some (map (the \<circ> f) is)"
proof (induction "is")
  case (Cons i "is")
  then obtain y where "f i = Some y"
    by fastforce
  then show ?case
    using Cons by simp
qed simp

text \<open>A value near a number of the range stays in it and near the number.\<close>

lemma truncated_near: "\<bar>of_int (truncated x) - x\<bar> < 1"
  unfolding truncated_def using floor_correct [of x] ceiling_correct [of x] by (cases "0 \<le> x") auto

lemma to_int16_near:
  assumes "\<bar>x - y\<bar> \<le> e" and "- 32768 \<le> y" and "y \<le> 32767" and "e < 1"
  shows "\<exists>w. to_int16 x = Some w \<and> \<bar>of_int (sint w) - y\<bar> < 1 + e"
proof -
  have "truncated x \<le> 32767 \<and> - 32768 \<le> truncated x"
  proof (cases "0 \<le> x")
    case True
    then have "x < 32768"
      using assms by linarith
    then show ?thesis
      using True by (auto simp: truncated_def; linarith)
  next
    case False
    then have "- 32769 < x"
      using assms by linarith
    then show ?thesis
      using False by (auto simp: truncated_def; linarith)
  qed
  then have "to_int16 x = Some (word_of_int (truncated x))" "sint (word_of_int (truncated x) :: u16) = truncated x"
    by (simp_all add: to_int16_def signed_of_int signed_take_bit_int_eq_self)
  then show ?thesis
    using truncated_near [of x] assms(1) by (intro exI [of _ "word_of_int (truncated x)"]) simp
qed

lemma sint16_range: "- 32768 \<le> sint (w :: u16) \<and> sint w \<le> 32767"
  using sint_greater_eq [of w] sint_lt [of w] by simp

lemma to_int16_of_int: "- 32768 \<le> n \<and> n \<le> 32767 \<Longrightarrow> to_int16 (of_int n) = Some (word_of_int n)"
  by (simp add: to_int16_def truncated_def)

text \<open>The line a ramp follows, and the value computed for a place on it.\<close>

definition ramp_line :: "u16 \<Rightarrow> u16 \<Rightarrow> nat \<Rightarrow> nat \<Rightarrow> rat" where
  "ramp_line first last_value n i =
     of_int (sint first) + of_nat i * (of_int (sint last_value - sint first) / of_nat n)"

lemma ramp_line_bounds:
  assumes "i \<le> n" and "0 < n"
  shows "- 32768 \<le> ramp_line first last_value n i \<and> ramp_line first last_value n i \<le> 32767 \<and>
    \<bar>of_nat i * (of_int (sint last_value - sint first) / of_nat n)\<bar> \<le> (65535 :: rat)"
proof -
  define a b t :: rat where "a = of_int (sint first)" and "b = of_int (sint last_value)" and "t = of_nat i / of_nat n"
  have t: "0 \<le> t" "t \<le> 1"
    using assms by (simp_all add: t_def)
  have ab: "- 32768 \<le> a" "a \<le> 32767" "- 32768 \<le> b" "b \<le> 32767"
    using sint16_range [of first] sint16_range [of last_value] unfolding a_def b_def by linarith+
  have e: "of_nat i * (of_int (sint last_value - sint first) / of_nat n) = t * (b - a)"
    by (simp add: a_def b_def t_def)
  have line: "ramp_line first last_value n i = (1 - t) * a + t * b"
    unfolding ramp_line_def e a_def [symmetric] by (simp add: algebra_simps)
  have "(1 - t) * a + t * b \<le> (1 - t) * 32767 + t * 32767" "(1 - t) * (- 32768) + t * (- 32768) \<le> (1 - t) * a + t * b"
    using t ab by (intro add_mono mult_left_mono; simp)+
  moreover have "\<bar>t * (b - a)\<bar> \<le> 1 * 65535"
    unfolding abs_mult using t ab by (intro mult_mono) auto
  ultimately show ?thesis
    unfolding line e by (simp add: algebra_simps)
qed

lemma ramp_value_near:
  assumes "i \<le> n" and "0 < n" and "unat (count - 1) = n"
  shows "\<bar>dadd (of_int (sint first)) (dmul (of_nat i) (ramp_step first last_value count)) - ramp_line first last_value n i\<bar> \<le> 1 / 2 ^ 34"
proof -
  let ?q = "of_int (sint last_value - sint first) / of_nat n :: rat" and ?i = "of_nat i :: rat"
  have big: "\<bar>?i * ?q\<bar> \<le> 65535" "\<bar>ramp_line first last_value n i\<bar> \<le> 32768"
    using ramp_line_bounds [OF assms(1,2), of first last_value] by auto
  define s q where "s = ramp_step first last_value count" and "q = ?q"
  have "\<bar>s - q\<bar> \<le> \<bar>q\<bar> / 2 ^ 53"
    unfolding s_def q_def ramp_step_def ddiv_def assms(3) by (rule fl_error)
  then have "?i * \<bar>s - q\<bar> \<le> ?i * (\<bar>q\<bar> / 2 ^ 53)"
    by (intro mult_left_mono) simp_all
  moreover have "\<bar>?i * s - ?i * q\<bar> = ?i * \<bar>s - q\<bar>" "?i * (\<bar>q\<bar> / 2 ^ 53) = \<bar>?i * q\<bar> / 2 ^ 53"
    by (simp_all add: abs_mult flip: right_diff_distrib)
  ultimately have "\<bar>?i * ramp_step first last_value count - ?i * ?q\<bar> \<le> \<bar>?i * ?q\<bar> / 2 ^ 53"
    by (simp only: s_def q_def)
  also have "\<dots> \<le> 65535 / 2 ^ 53"
    using big(1) by (intro divide_right_mono) simp_all
  finally have "\<bar>dmul ?i (ramp_step first last_value count) - ?i * ?q\<bar> \<le> 65535 / 2 ^ 53 + (65535 + 65535 / 2 ^ 53) / 2 ^ 53"
    unfolding dmul_def by (rule double.rnd_within) (rule big(1))
  then have "\<bar>(of_int (sint first) + dmul ?i (ramp_step first last_value count)) - ramp_line first last_value n i\<bar> \<le> 1 / 2 ^ 36"
    unfolding ramp_line_def by simp
  from double.rnd_within [OF this big(2)] show ?thesis
    unfolding dadd_def by simp
qed

lemma ramp_value_defined:
  assumes "2 \<le> unat count" and "i < unat count"
  shows "\<exists>w. ramp_value first last_value count i = Some w \<and>
    \<bar>of_int (sint w) - ramp_line first last_value (unat count - 1) i\<bar> < 1 + 1 / 2 ^ 34"
  unfolding ramp_value_def
proof (rule to_int16_near)
  have i: "i \<le> unat count - 1" "0 < unat count - 1"
    using assms by auto
  have "1 \<le> count"
    using assms by (auto simp: word_le_nat_alt)
  then have n: "unat (count - 1) = unat count - 1"
    by (simp add: unat_sub)
  show "\<bar>dadd (of_int (sint first)) (dmul (of_nat i) (ramp_step first last_value count)) - ramp_line first last_value (unat count - 1) i\<bar> \<le> 1 / 2 ^ 34"
    by (rule ramp_value_near [OF i n])
  show "- 32768 \<le> ramp_line first last_value (unat count - 1) i" "ramp_line first last_value (unat count - 1) i \<le> 32767"
    using ramp_line_bounds [OF i, of first last_value] by auto
qed simp

lemma generate_ramp_eq:
  assumes "2 \<le> unat count"
  shows "generate_ramp first last_value count = Some (map (the \<circ> ramp_value first last_value count) [0..<unat count])"
proof -
  have "count \<noteq> 1"
    using assms by auto
  then show ?thesis
    unfolding generate_ramp_def using ramp_value_defined [OF assms, of _ first last_value]
    by (simp only: if_False) (rule collect_Some, fastforce)
qed

lemma ramp_value_0: "ramp_value first last_value count 0 = Some first"
proof -
  have "dadd (of_int (sint first)) (dmul (of_nat 0) s) = of_int (sint first)" for s
  proof -
    have "dmul (of_nat 0) s = 0"
      by (simp add: dmul_def)
    then show ?thesis
      using sint16_range [of first] fl_int_signed [of "sint first" 53] by (simp only: dadd_def add_0_right) auto
  qed
  then show ?thesis
    using to_int16_of_int [OF sint16_range, of first] by (simp only: ramp_value_def) simp
qed

text \<open>A ramp of at least two samples is defined, begins with its first value, and each of its samples is within
  one step of 16 bits, plus \<open>2 ^ -34\<close> for rounding, of the straight line from the first value to the last.\<close>

theorem ramp_follows_line:
  assumes "2 \<le> unat count"
  shows "\<exists>xs. generate_ramp first last_value count = Some xs \<and> length xs = unat count \<and> xs ! 0 = first \<and>
    (\<forall>i<unat count. \<bar>of_int (sint (xs ! i)) - ramp_line first last_value (unat count - 1) i\<bar> < 1 + 1 / 2 ^ 34)"
  using generate_ramp_eq [OF assms] ramp_value_defined [OF assms, of _ first last_value] ramp_value_0 assms
  by (intro exI [of _ "map (the \<circ> ramp_value first last_value count) [0..<unat count]"]) fastforce

text \<open>Its witness: a ramp from 0 to 3 in four steps.\<close>

theorem ramp_follows_line_witness:
  "\<exists>xs. generate_ramp 0 3 4 = Some xs \<and> length xs = 4 \<and> xs ! 0 = 0 \<and> \<bar>of_int (sint (xs ! 3)) - ramp_line 0 3 3 3\<bar> < 1 + 1 / 2 ^ 34"
proof -
  have "2 \<le> unat (4 :: u32)"
    by simp
  from ramp_follows_line [OF this, of 0 3] show ?thesis
    by auto
qed

text \<open>A ramp need not reach its last value: 49 times the rounded step \<open>1 / 49\<close> is below 1 and is cut to 0.\<close>

lemma ramp_misses_end: "\<exists>xs. generate_ramp 0 1 50 = Some xs \<and> xs ! 49 = 0"
proof -
  have "ramp_value 0 1 50 49 = to_int16 (dadd 0 (dmul 49 (ddiv 1 49)))"
    by (simp add: ramp_value_def ramp_step_def)
  also have "\<dots> = Some 0"
    by code_simp
  finally show ?thesis
    using generate_ramp_eq [of 50 0 1] by simp
qed

lemma ramp_of_one_sample: "generate_ramp first last_value 1 = None"
  by (simp add: generate_ramp_def)

text \<open>A sine whose values fit is defined and has its length; \<open>sinf\<close> is at most 1 in magnitude.\<close>

lemma sine_defined:
  assumes "\<And>x. \<bar>sinf x\<bar> \<le> 1" and "\<bar>sint amplitude\<bar> + \<bar>sint offset\<bar> < 32767"
  shows "\<exists>xs. generate_sine sinf amplitude offset periods samples_per_period = Some xs \<and>
    length xs = unat (periods * samples_per_period)"
proof -
  have "to_int16 (dadd (of_int (sint offset)) (dmul (of_int (sint amplitude)) (sinf x))) \<noteq> None" for x
  proof -
    define a b s where "a = (of_int (sint amplitude) :: rat)" and "b = (of_int (sint offset) :: rat)" and "s = sinf x"
    have ab: "\<bar>a\<bar> + \<bar>b\<bar> < 32767" "\<bar>a\<bar> \<le> 32768"
      using assms(2) sint16_range [of amplitude] unfolding a_def b_def by linarith+
    have "\<bar>a * s\<bar> \<le> \<bar>a\<bar> * 1"
      unfolding abs_mult s_def by (intro mult_left_mono assms(1)) simp
    then have as: "\<bar>a * s\<bar> \<le> \<bar>a\<bar>" "\<bar>a * s\<bar> \<le> 32768"
      using ab by auto
    have "\<bar>dmul a s - a * s\<bar> \<le> 32768 / 2 ^ 53"
      unfolding dmul_def using fl_error [of 53 "a * s"] as(2) by (auto intro: order_trans divide_right_mono)
    then have "\<bar>b + dmul a s - (b + a * s)\<bar> \<le> 32768 / 2 ^ 53"
      by simp
    moreover have sum: "\<bar>b + a * s\<bar> < 32767"
      using ab as by linarith
    ultimately have "\<bar>fl 53 (b + dmul a s) - (b + a * s)\<bar> \<le> 32768 / 2 ^ 53 + (32767 + 32768 / 2 ^ 53) / 2 ^ 53"
      by (intro double.rnd_within) auto
    then have "\<bar>dadd b (dmul a s) - (b + a * s)\<bar> \<le> 1 / 2"
      unfolding dadd_def by simp
    from to_int16_near [OF this] sum show ?thesis
      unfolding a_def b_def s_def by fastforce
  qed
  then show ?thesis
    unfolding generate_sine_def Let_def by (subst collect_Some) auto
qed

end
