(* ===== verification/Decimal.thy ===== *)
theory Decimal
  imports Clib
begin

text \<open>
  Decimal numbers as \<open>operator<<\<close> and \<open>printf("%d")\<close> print them, and that \<open>strtol\<close> and \<open>strtoull\<close> read them back.
\<close>

fun decimal :: "nat \<Rightarrow> string" where
  "decimal n = (if n < 10 then [char_of (48 + n)] else decimal (n div 10) @ [char_of (48 + n mod 10)])"

declare decimal.simps [simp del]

definition decimal_int :: "int \<Rightarrow> string" where
  "decimal_int i = (if i < 0 then CHR ''-'' # decimal (nat (- i)) else decimal (nat i))"

text \<open>The digits of a number are read back.\<close>

lemma of_digit_char:
  assumes "d < 10"
  shows "of_char (char_of (48 + d :: nat)) = (48 + d :: nat)" "of_char (char_of (48 + d :: nat)) = 48 + int d"
proof -
  show nat: "of_char (char_of (48 + d :: nat)) = (48 + d :: nat)"
    using assms by simp
  show "of_char (char_of (48 + d :: nat)) = 48 + int d"
    using of_nat_of_char [of "char_of (48 + d :: nat)", where 'a = int] unfolding nat by simp
qed

lemma digit_char [simp]:
  assumes "d < 10"
  shows "is_digit (char_of (48 + d :: nat))" "digit_of (char_of (48 + d :: nat)) = int d"
    "is_xdigit (char_of (48 + d :: nat))" "xdigit_of (char_of (48 + d :: nat)) = int d" "\<not> is_space (char_of (48 + d :: nat))"
proof -
  define c :: char where "c = char_of (48 + d :: nat)"
  have c: "of_char c = 48 + d" "of_char c = 48 + int d"
    unfolding c_def using of_digit_char [OF assms] by simp_all
  then have "is_digit c" "digit_of c = int d" "\<not> is_space c"
    using assms by (simp_all add: is_digit_def digit_of_def is_space_def)
  then show "is_digit (char_of (48 + d :: nat))" "digit_of (char_of (48 + d :: nat)) = int d"
    "is_xdigit (char_of (48 + d :: nat))" "xdigit_of (char_of (48 + d :: nat)) = int d" "\<not> is_space (char_of (48 + d :: nat))"
    by (simp_all add: c_def [symmetric] is_xdigit_def xdigit_of_def)
qed

lemma decimal_digits: "c \<in> set (decimal n) \<Longrightarrow> \<exists>d<10. c = char_of (48 + d :: nat)"
proof (induction n rule: decimal.induct)
  case (1 n)
  show ?case
  proof (cases "n < 10")
    case True
    then show ?thesis
      using "1.prems" decimal.simps [of n] by auto
  next
    case False
    then have "c \<in> set (decimal (n div 10)) \<or> c = char_of (48 + n mod 10)"
      using "1.prems" decimal.simps [of n] by auto
    then show ?thesis
    proof
      assume "c = char_of (48 + n mod 10)"
      then show ?thesis
        by (intro exI [of _ "n mod 10"]) simp
    qed (rule "1.IH" [OF False])
  qed
qed

lemma decimal_not_Nil [simp]: "decimal n \<noteq> []"
  by (subst decimal.simps) simp

lemma digits_value_decimal [simp]: "digits_value (decimal n) = int n" "base_value 10 (decimal n) = int n"
  unfolding digits_value_def base_value_def
proof (induction n rule: decimal.induct)
  case (1 n)
  have eq: "decimal n = (if n < 10 then [char_of (48 + n)] else decimal (n div 10) @ [char_of (48 + n mod 10)])"
    by (rule decimal.simps)
  have "10 * int (n div 10) + int (n mod 10) = int n"
    by (simp add: zdiv_int zmod_int)
  then show "foldl (\<lambda>a c. 10 * a + digit_of c) 0 (decimal n) = int n" "foldl (\<lambda>a c. 10 * a + xdigit_of c) 0 (decimal n) = int n"
    using "1.IH" unfolding eq by simp_all
qed

lemma decimal_read:
  assumes "r = [] \<or> is_space (hd r)"
  shows "takeWhile is_digit (decimal n @ r) = decimal n" "dropWhile is_digit (decimal n @ r) = r"
    "takeWhile (is_digit_in 10) (decimal n @ r) = decimal n" "dropWhile (is_digit_in 10) (decimal n @ r) = r"
proof -
  have "is_digit c" "is_digit_in 10 c" if "c \<in> set (decimal n)" for c
    using decimal_digits [OF that] by (auto simp: is_digit_in_def)
  moreover have "\<not> is_digit (hd r)" "\<not> is_digit_in 10 (hd r)" if "r \<noteq> []"
    using assms that by (auto simp: is_space_def is_digit_def is_digit_in_def is_xdigit_def lower_def)
  ultimately show "takeWhile is_digit (decimal n @ r) = decimal n" "dropWhile is_digit (decimal n @ r) = r"
    "takeWhile (is_digit_in 10) (decimal n @ r) = decimal n" "dropWhile (is_digit_in 10) (decimal n @ r) = r"
    by (cases r; simp add: takeWhile_append2 dropWhile_append2)+
qed

lemma decimal_start:
  "dropWhile is_space (decimal n @ r) = decimal n @ r" "sign_of (decimal n @ r) = (False, decimal n @ r)"
proof -
  obtain c cs where c: "decimal n = c # cs"
    by (cases "decimal n") auto
  then obtain d :: nat where d: "d < 10" "c = char_of (48 + d)"
    using decimal_digits [of c n] by auto
  moreover have "(of_char c :: nat) \<noteq> of_char CHR ''-''" "(of_char c :: nat) \<noteq> of_char CHR ''+''"
    unfolding d(2) of_digit_char(1) [OF d(1)] by simp_all
  moreover from this have "c \<noteq> CHR ''-''" "c \<noteq> CHR ''+''"
    by blast+
  ultimately show "dropWhile is_space (decimal n @ r) = decimal n @ r" "sign_of (decimal n @ r) = (False, decimal n @ r)"
    by (simp_all add: c sign_of_def)
qed

lemma strtoull_decimal:
  assumes "r = [] \<or> is_space (hd r)" and "n < 2 ^ 64"
  shows "strtoull_rest 10 (decimal n @ r) = Some (int n, r)"
  using assms(2) by (simp add: strtoull_rest_def decimal_start decimal_read [OF assms(1)])

lemma strtol_decimal:
  assumes "r = [] \<or> is_space (hd r)" and "- (2 ^ 63) \<le> i" and "i < 2 ^ 63"
  shows "strtol_rest 64 (decimal_int i @ r) = Some (i, r)"
proof (cases "i < 0")
  case True
  have "dropWhile is_space (CHR ''-'' # s) = CHR ''-'' # s" for s
    by (simp add: is_space_def)
  then show ?thesis
    using True assms(2) by (simp add: decimal_int_def strtol_rest_def sign_of_def decimal_read [OF assms(1)])
next
  case False
  then show ?thesis
    using assms(3) by (simp add: decimal_int_def strtol_rest_def decimal_start decimal_read [OF assms(1)])
qed

lemma length_decimal: "n < 10 ^ k \<Longrightarrow> 0 < k \<Longrightarrow> length (decimal n) \<le> k"
proof (induction n arbitrary: k rule: decimal.induct)
  case (1 n)
  show ?case
  proof (cases "n < 10")
    case True
    then show ?thesis
      using "1.prems" decimal.simps [of n] by simp
  next
    case False
    then obtain j where k: "k = Suc j" "0 < j"
      using "1.prems" by (cases k; cases "k = 1") auto
    then have "n div 10 < 10 ^ j"
      using "1.prems" by (simp add: less_mult_imp_div_less mult.commute)
    then have "length (decimal (n div 10)) \<le> j"
      using "1.IH" [OF False] k by blast
    then show ?thesis
      using False k decimal.simps [of n] by simp
  qed
qed

end
