(* ===== verification/Event_file.thy ===== *)
theory Event_file
  imports Trigger Tb_vectors Decimal
begin

text \<open>
  \<open>export_events\<close> of \<open>models/systemc/trigger/trigger_tlm.h\<close>: the file of events the detector writes for the
  comparison with the RTL, and the round trip through a reader of the format.
\<close>

section \<open>Writing\<close>

definition event_line :: "trigger_event \<Rightarrow> string" where
  "event_line evt = decimal (unat (trigger_index evt)) @ '' '' @ decimal_int (sint (trigger_value evt)) @ '' '' @
     decimal_int (sint (prev_value evt)) @ [CHR 0x0A]"

definition export_events :: "trigger \<Rightarrow> string" where
  "export_events t = ''# Trigger events from TLM model'' @ [CHR 0x0A] @ ''# sample_index trigger_value prev_value'' @ [CHR 0x0A] @
     concat (map event_line (m_trigger_events t))"

section \<open>Reading\<close>

text \<open>A reader of the format: \<open>sscanf(line, "%u %hd %hd", ...) == 3\<close> for each line that is no comment.\<close>

definition parse_event :: "string \<Rightarrow> (u32 \<times> u16 \<times> u16) option" where
  "parse_event line =
     (case scan_u line of None \<Rightarrow> None
      | Some (i, r) \<Rightarrow> case scan_d r of None \<Rightarrow> None
      | Some (v, r) \<Rightarrow> case scan_d r of None \<Rightarrow> None
      | Some (p, r) \<Rightarrow> Some (i, ucast v, ucast p))"

definition event_fields :: "trigger_event \<Rightarrow> u32 \<times> u16 \<times> u16" where
  "event_fields evt = (trigger_index evt, trigger_value evt, prev_value evt)"

text \<open>The text of an event without the end of its line.\<close>

definition event_text :: "trigger_event \<Rightarrow> string" where
  "event_text evt = decimal (unat (trigger_index evt)) @ '' '' @ decimal_int (sint (trigger_value evt)) @ '' '' @
     decimal_int (sint (prev_value evt))"

lemma decimal_plain: "c \<in> set (decimal n) \<Longrightarrow> c \<noteq> CHR 0x0A \<and> c \<noteq> CHR 0x00 \<and> c \<noteq> CHR ''/'' \<and> c \<noteq> CHR ''#''"
  using decimal_digits [of c n] of_digit_char(1) by fastforce

lemma event_text_plain: "CHR 0x0A \<notin> set (event_text evt)" "c_str (event_text evt) = event_text evt"
proof -
  have "c \<noteq> CHR 0x0A \<and> c \<noteq> CHR 0x00" if "c \<in> set (event_text evt)" for c
    using that decimal_plain by (auto simp: event_text_def decimal_int_def split: if_splits)
  then show "CHR 0x0A \<notin> set (event_text evt)" "c_str (event_text evt) = event_text evt"
    by (auto simp: c_str_def takeWhile_eq_all_conv)
qed

lemma event_text_no_comment: "\<not> is_comment (event_text evt)"
proof (cases "decimal (unat (trigger_index evt))")
  case (Cons c cs)
  then show ?thesis
    using decimal_plain [of c "unat (trigger_index evt)"] by (simp add: event_text_def is_comment_def)
qed simp

lemma skip_space:
  "strtol_rest w (CHR '' '' # s) = strtol_rest w s"
  by (simp add: strtol_rest_def is_space_def)

lemma parse_event_text: "parse_event (event_text evt) = Some (event_fields evt)"
proof -
  have u: "scan_u (decimal (unat i) @ CHR '' '' # r) = Some (i, CHR '' '' # r)" for i :: u32 and r
    using strtoull_decimal [of "CHR '' '' # r" "unat i"] unat_lt [of i]
    by (simp add: scan_u_def is_space_def)
  have d: "scan_d (CHR '' '' # decimal_int (sint v) @ r) = Some (scast v, r)" if "r = [] \<or> is_space (hd r)" for v :: u16 and r
  proof -
    have "- (2 ^ 63) \<le> sint v" "sint v < 2 ^ 63"
      using sint_greater_eq [of v] sint_lt [of v] by simp_all
    from strtol_decimal [OF that this] show ?thesis
      by (simp add: scan_d_def skip_space)
  qed
  have "ucast (scast v :: u32) = v" for v :: u16
    by (rule bit_word_eqI) (auto simp: bit_simps)
  then show ?thesis
    using d [of "[]"] by (simp add: parse_event_def event_text_def event_fields_def u d is_space_def)
qed

lemma getlines_line:
  assumes "CHR 0x0A \<notin> set line"
  shows "getlines (line @ CHR 0x0A # rest) = line # getlines rest"
proof -
  have "\<And>c. c \<in> set line \<Longrightarrow> c \<noteq> CHR 0x0A"
    using assms by auto
  then have "takeWhile (\<lambda>c. c \<noteq> CHR 0x0A) (line @ CHR 0x0A # rest) = line"
    "dropWhile (\<lambda>c. c \<noteq> CHR 0x0A) (line @ CHR 0x0A # rest) = CHR 0x0A # rest"
    by (simp_all add: takeWhile_append2 dropWhile_append2)
  then show ?thesis
    by (subst getlines.simps) simp
qed

lemma load_lines_line:
  assumes "CHR 0x0A \<notin> set line"
  shows "load_lines parse (line @ CHR 0x0A # rest) =
    (case if is_comment line then None else parse (c_str line) of None \<Rightarrow> [] | Some x \<Rightarrow> [x]) @ load_lines parse rest"
  by (simp add: load_lines_def getlines_line [OF assms] List.map_filter_simps split: option.split)

lemma load_events: "load_lines parse_event (concat (map event_line evts)) = map event_fields evts"
proof (induction evts)
  case Nil
  then show ?case
    by (simp add: load_lines_def getlines.simps List.map_filter_simps)
next
  case (Cons evt evts)
  have "concat (map event_line (evt # evts)) = event_text evt @ CHR 0x0A # concat (map event_line evts)"
    by (simp add: event_line_def event_text_def)
  then show ?case
    using Cons by (simp only: load_lines_line [OF event_text_plain(1)])
      (simp add: event_text_plain(2) event_text_no_comment parse_event_text)
qed

lemma load_comment: "CHR 0x0A \<notin> set line \<Longrightarrow> is_comment line \<Longrightarrow> load_lines parse (line @ [CHR 0x0A] @ rest) = load_lines parse rest"
  by (simp add: load_lines_line)

text \<open>C27. The exported file, read line by line with the format \<open>%u %hd %hd\<close>, gives back the events in order: indices up to
  \<open>2 ^ 32 - 1\<close>, samples with their signs.\<close>

theorem exported_events_read_back:
  "load_lines parse_event (export_events t) = map event_fields (m_trigger_events t)"
  unfolding export_events_def
  by (rule trans [OF load_comment trans [OF load_comment load_events]]) (simp_all add: is_comment_def)

end
