(* ===== verification/Sdr_wide.thy ===== *)
theory Sdr_wide
  imports Sdr
begin

unbundle bit_operations_syntax

text \<open>
  \<open>projects/sdr_transceiver_wide/server/sdr-transceiver-wide.c\<close>: the wideband transceiver, a second program
  with the four jobs of \<open>Four_jobs\<close>. Its registers have a mask beside the synchronisation byte, and it
  limits the frequency. Resetting the FIFOs (\<open>rx_data_start\<close>, \<open>tx_data_start\<close>) is the code of
  \<open>sdr-transceiver.c\<close>.
\<close>

section \<open>Registers\<close>

text \<open>\<open>rx_rst\<close>, \<open>tx_rst\<close> and \<open>gpio\<close> are the bytes at 0, 1, 2; frequency, synchronisation, mask and rate of the
  receiver are at 4, 8, 9 and 10, those of the transmitter at 12, 16, 17 and 18.\<close>

definition wsdr_rx_defaults :: "sdr \<Rightarrow> sdr" where
  "wsdr_rx_defaults s =
     (let s = wr32 4 (phase_inc clk_125 600000) s; s = wr8 8 0 s; s = wr8 9 1 s in wr16 10 625 s)"

definition wsdr_tx_defaults :: "sdr \<Rightarrow> sdr" where
  "wsdr_tx_defaults s =
     (let s = wr32 12 (phase_inc clk_125 600000) s; s = wr8 16 0 s; s = wr8 17 1 s in wr16 18 625 s)"

definition wsdr_init :: "sdr \<Rightarrow> sdr" where
  "wsdr_init s =
     (let s = s\<lparr>sdr_sock := (\<lambda>_. - 1)\<rparr>; s = wr8 2 0 s in wsdr_tx_defaults (wsdr_rx_defaults s))"

definition wsdr_freq_max :: u32 where
  "wsdr_freq_max = 62500000"

definition wsdr_rates :: "u16 list" where
  "wsdr_rates = [3125, 1250, 625, 250, 125, 50, 25]"

definition wsdr_select_rate :: "nat \<Rightarrow> u32 \<Rightarrow> sdr \<Rightarrow> sdr" where
  "wsdr_select_rate off command s =
     (let code = unat (command AND 7) in if code < 7 then wr16 off (wsdr_rates ! code) s else s)"

section \<open>The handlers\<close>

definition wsdr_rx_command :: "u32 \<Rightarrow> sdr \<Rightarrow> sdr" where
  "wsdr_rx_command command s =
     (let code = drop_bit 28 command in
      if code = 0 then
        let freq = command AND 0xfffffff in
        if freq > wsdr_freq_max then s
        else let s = wr32 4 (phase_inc clk_125 (unat freq)) s in wr8 8 (if freq > 0 then 0 else 1) s
      else if code = 1 then wsdr_select_rate 10 command s
      else if code = 2 then wr8 9 (ucast (command AND 3)) s
      else s)"

text \<open>The case of the mask has no \<open>break\<close> and runs on into the case of push-to-talk.\<close>

definition wsdr_tx_command :: "u32 \<Rightarrow> sdr \<Rightarrow> sdr" where
  "wsdr_tx_command command s =
     (let code = drop_bit 28 command in
      if code = 0 then
        let freq = command AND 0xfffffff in
        if freq > wsdr_freq_max then s
        else let s = wr32 12 (phase_inc clk_125 (unat freq)) s in wr8 16 (if freq > 0 then 0 else 1) s
      else if code = 1 then wsdr_select_rate 18 command s
      else if code = 2 then let s = wr8 17 (ucast (command AND 3)) s in wr8 2 (ucast (command AND 1)) s
      else if code = 3 then wr8 2 (ucast (command AND 1)) s
      else s)"

definition wsdr_rx_turn :: "u16 \<Rightarrow> u16 list \<Rightarrow> u32 list \<Rightarrow> bool \<Rightarrow> sdr \<Rightarrow> (sdr + sdr) option" where
  "wsdr_rx_turn level waits block ok s =
     (let s = (if level \<ge> 16384 then pulse (rd8 0) (wr8 0) 1 s else s) in
      case wait_while (\<lambda>l. l < 8192) waits s of
        None \<Rightarrow> None
      | Some s \<Rightarrow> Some (if ok then Inr (emit (Send (concat (map le32 (take 8192 block)))) s) else Inl s))"

definition wsdr_tx_turn :: "u16 list \<Rightarrow> u16 \<Rightarrow> u8 list \<Rightarrow> u8 list \<Rightarrow> sdr \<Rightarrow> (sdr + u8 list \<times> sdr) option" where
  "wsdr_tx_turn waits level received buffer s =
     (case wait_while (\<lambda>l. l > 8192) waits s of
        None \<Rightarrow> None
      | Some s \<Rightarrow>
          let s = (if level = 0 then to_port Fifo (replicate (2 * 4096) 0) s else s);
              received = take 32768 received in
          if received = [] then Some (Inl s)
          else let buffer = blit buffer 0 received in Some (Inr (buffer, to_port Fifo (words_of buffer) s)))"

definition wsdr_start :: "nat \<Rightarrow> sdr \<Rightarrow> sdr" where
  "wsdr_start k s =
     (if k = 0 then wsdr_rx_defaults s else if k = 1 then rx_data_start s
      else if k = 2 then wsdr_tx_defaults (wr8 2 0 s) else tx_data_start s)"

definition wsdr_end :: "nat \<Rightarrow> sdr \<Rightarrow> sdr" where
  "wsdr_end k s = (if k = 0 then wsdr_rx_defaults s else if k = 2 then wsdr_tx_defaults (wr8 2 0 s) else s)"

definition wsdr_handlers :: sdr_program where
  "wsdr_handlers =
     \<lparr>prog_init = wsdr_init, prog_start = wsdr_start, prog_end = wsdr_end, prog_rx_command = wsdr_rx_command,
      prog_tx_command = wsdr_tx_command, prog_rx_turn = wsdr_rx_turn, prog_tx_turn = wsdr_tx_turn, prog_buffer = 32768\<rparr>"

section \<open>The contract\<close>

definition wsdr_rx_regs :: "sdr \<Rightarrow> u32 \<times> u8 \<times> u8 \<times> u16" where
  "wsdr_rx_regs s = (rd32 4 s, rd8 8 s, rd8 9 s, rd16 10 s)"

definition wsdr_tx_regs :: "sdr \<Rightarrow> u8 \<times> u32 \<times> u8 \<times> u8 \<times> u16" where
  "wsdr_tx_regs s = (rd8 2 s, rd32 12 s, rd8 16 s, rd8 17 s, rd16 18 s)"

text \<open>The increment is at most that of half the clock, the synchronisation byte set only with increment 0, the mask
  has two bits and the rate is one of the table.\<close>

definition wsdr_fine :: "u32 \<times> u8 \<times> u8 \<times> u16 \<Rightarrow> bool" where
  "wsdr_fine = (\<lambda>(inc, sync, mask, rate). inc \<le> 2 ^ 29 \<and> (sync = 0 \<or> sync = 1 \<and> inc = 0) \<and> mask \<le> 3 \<and> rate \<in> set wsdr_rates)"

definition wsdr_tx_fine :: "u8 \<times> u32 \<times> u8 \<times> u8 \<times> u16 \<Rightarrow> bool" where
  "wsdr_tx_fine = (\<lambda>(ptt, r). ptt \<le> 1 \<and> wsdr_fine r)"

definition wsdr_default :: "u32 \<times> u8 \<times> u8 \<times> u16" where
  "wsdr_default = (phase_inc clk_125 600000, 0, 1, 625)"

lemma wsdr_handlers_simps [simp]:
  "prog_init wsdr_handlers = wsdr_init" "prog_start wsdr_handlers = wsdr_start" "prog_end wsdr_handlers = wsdr_end"
  "prog_rx_command wsdr_handlers = wsdr_rx_command" "prog_tx_command wsdr_handlers = wsdr_tx_command"
  "prog_rx_turn wsdr_handlers = wsdr_rx_turn" "prog_tx_turn wsdr_handlers = wsdr_tx_turn" "prog_buffer wsdr_handlers = 32768"
  by (simp_all add: wsdr_handlers_def)

lemma wsdr_rst_only_regs:
  assumes "rst_only s s'"
  shows "wsdr_rx_regs s' = wsdr_rx_regs s \<and> wsdr_tx_regs s' = wsdr_tx_regs s \<and> sdr_sock s' = sdr_sock s"
  using assms by (simp add: wsdr_rx_regs_def wsdr_tx_regs_def rst_only_rd) (simp add: rst_only_def)

lemma wsdr_data_rst:
  "rst_only s (rx_data_start s)" "rst_only s (tx_data_start s)"
  "wsdr_rx_turn level waits block ok s = Some (Inr s') \<Longrightarrow> rst_only s s'"
  "wsdr_rx_turn level waits block ok s = Some (Inl s') \<Longrightarrow> rst_only s s'"
  "wsdr_tx_turn ws l received buf s = Some (Inr (buf', s')) \<Longrightarrow> rst_only s s' \<and> (length buf = 32768 \<longrightarrow> length buf' = 32768)"
  "wsdr_tx_turn ws l received buf s = Some (Inl s') \<Longrightarrow> rst_only s s'"
  by (auto simp: rx_data_start_def tx_data_start_def wsdr_rx_turn_def wsdr_tx_turn_def Let_def
      split: option.splits if_splits dest!: wait_while_rst)

lemma wsdr_tx_turn_regs:
  "wsdr_tx_turn ws l received buf s = Some (Inr (buf', s')) \<Longrightarrow>
     wsdr_rx_regs s' = wsdr_rx_regs s \<and> wsdr_tx_regs s' = wsdr_tx_regs s \<and> sdr_sock s' = sdr_sock s \<and>
     (length buf = 32768 \<longrightarrow> length buf' = 32768)"
  using wsdr_data_rst(5) wsdr_rst_only_regs by blast

lemma wsdr_rates_of_code [simp]: "n < 7 \<Longrightarrow> wsdr_rates ! n \<in> set wsdr_rates"
  by (rule nth_mem) (simp add: wsdr_rates_def)

lemma wsdr_mask_le: "ucast (c AND 3) \<le> (3 :: u8)" "ucast (c AND 1) \<le> (1 :: u8)" for c :: u32
proof -
  have "c AND 3 \<le> 3" "c AND 1 \<le> 1"
    by (simp_all add: word_and_le1)
  then show "ucast (c AND 3) \<le> (3 :: u8)" "ucast (c AND 1) \<le> (1 :: u8)"
    by (simp_all add: word_le_nat_alt unat_ucast_small)
qed

lemma wsdr_inc_le: "\<not> wsdr_freq_max < f \<Longrightarrow> phase_inc clk_125 (unat f) \<le> 2 ^ 29"
  by (intro phase_inc_125_le) (simp add: wsdr_freq_max_def word_less_nat_alt)

lemmas wsdr_reg_defs = wsdr_rx_regs_def wsdr_tx_regs_def wsdr_fine_def wsdr_tx_fine_def wsdr_default_def

lemma wsdr_rx_command_effects:
  "wsdr_fine (wsdr_rx_regs s) \<Longrightarrow> wsdr_fine (wsdr_rx_regs (wsdr_rx_command c s))"
  "wsdr_tx_regs (wsdr_rx_command c s) = wsdr_tx_regs s" "sdr_sock (wsdr_rx_command c s) = sdr_sock s"
  by (auto simp: wsdr_rx_command_def wsdr_select_rate_def Let_def wsdr_reg_defs phase_inc_0 word_gt_0 wsdr_mask_le wsdr_inc_le [simplified])

lemma wsdr_tx_command_effects:
  "wsdr_tx_fine (wsdr_tx_regs s) \<Longrightarrow> wsdr_tx_fine (wsdr_tx_regs (wsdr_tx_command c s))"
  "wsdr_rx_regs (wsdr_tx_command c s) = wsdr_rx_regs s" "sdr_sock (wsdr_tx_command c s) = sdr_sock s"
  by (auto simp: wsdr_tx_command_def wsdr_select_rate_def Let_def wsdr_reg_defs phase_inc_0 word_gt_0 wsdr_mask_le wsdr_inc_le [simplified])

lemma wsdr_defaults_effects [simp]:
  "wsdr_rx_regs (wsdr_rx_defaults s) = wsdr_default" "wsdr_tx_regs (wsdr_rx_defaults s) = wsdr_tx_regs s"
  "wsdr_tx_regs (wsdr_tx_defaults s) = (rd8 2 s, wsdr_default)" "wsdr_rx_regs (wsdr_tx_defaults s) = wsdr_rx_regs s"
  "sdr_sock (wsdr_rx_defaults s) = sdr_sock s" "sdr_sock (wsdr_tx_defaults s) = sdr_sock s"
  "wsdr_rx_regs (wr8 2 v s) = wsdr_rx_regs s" "rd8 2 (wsdr_rx_defaults s) = rd8 2 s"
  by (simp_all add: wsdr_rx_defaults_def wsdr_tx_defaults_def Let_def wsdr_reg_defs)

lemma wsdr_init_effects:
  "wsdr_rx_regs (wsdr_init s) = wsdr_default" "wsdr_tx_regs (wsdr_init s) = (0, wsdr_default)" "sdr_sock (wsdr_init s) k = - 1"
  by (simp_all add: wsdr_init_def)

lemma wsdr_job_effects:
  "wsdr_rx_regs (wsdr_start 0 s) = wsdr_default" "wsdr_rx_regs (wsdr_end 0 s) = wsdr_default"
  "wsdr_tx_regs (wsdr_start 2 s) = (0, wsdr_default)" "wsdr_tx_regs (wsdr_end 2 s) = (0, wsdr_default)"
  "k \<noteq> 0 \<Longrightarrow> wsdr_rx_regs (wsdr_start k s) = wsdr_rx_regs s" "k \<noteq> 0 \<Longrightarrow> wsdr_rx_regs (wsdr_end k s) = wsdr_rx_regs s"
  "k \<noteq> 2 \<Longrightarrow> wsdr_tx_regs (wsdr_start k s) = wsdr_tx_regs s" "k \<noteq> 2 \<Longrightarrow> wsdr_tx_regs (wsdr_end k s) = wsdr_tx_regs s"
  "sdr_sock (wsdr_start k s) = sdr_sock s" "sdr_sock (wsdr_end k s) = sdr_sock s"
  using wsdr_data_rst(1,2) [THEN wsdr_rst_only_regs, of s] by (simp_all add: wsdr_start_def wsdr_end_def)

lemma wsdr_slot_effects: "wsdr_rx_regs (s\<lparr>sdr_sock := f\<rparr>) = wsdr_rx_regs s" "wsdr_tx_regs (s\<lparr>sdr_sock := f\<rparr>) = wsdr_tx_regs s"
  by (simp_all add: wsdr_rx_regs_def wsdr_tx_regs_def rd_defs)

lemma wsdr_default_fine: "wsdr_fine wsdr_default" "wsdr_tx_fine (0, wsdr_default)"
  using phase_inc_125_le [of 600000] by (simp_all add: wsdr_reg_defs wsdr_rates_def)

interpretation wsdr_jobs: four_jobs wsdr_handlers wsdr_rx_regs wsdr_tx_regs "(=) wsdr_default" wsdr_fine
    "(=) (0, wsdr_default)" wsdr_tx_fine
  using wsdr_tx_turn_regs wsdr_default_fine
  by unfold_locales
    (simp_all only: wsdr_handlers_simps wsdr_init_effects wsdr_job_effects wsdr_slot_effects
      wsdr_rx_command_effects wsdr_tx_command_effects wsdr_data_rst(3,4,6) [THEN wsdr_rst_only_regs] simp_thms, fast+)

section \<open>Threads and registers\<close>

lemma wsdr_one_thread_per_job:
  assumes "sdr_reachable wsdr_handlers t"
  shows "distinct (map fst (ss_threads t)) \<and> set (map fst (ss_threads t)) \<subseteq> {..3} \<and>
    (sdr_sock (ss_state t) k > - 1 \<longleftrightarrow> k \<in> set (map fst (ss_threads t))) \<and>
    ((k, Running sock buf) \<in> set (ss_threads t) \<longrightarrow> sock = sdr_sock (ss_state t) k)"
  by (rule wsdr_jobs.one_thread_per_job [OF assms])

text \<open>C34. Whatever the clients of the wideband transceiver send, and in whatever order they connect and leave: while
  the transmitter's control job is not in its loop push-to-talk is off and the transmitter at its defaults,
  and likewise the receiver; the phase increments never exceed half the clock's, the masks have two bits, and
  the rates are of the table.\<close>

theorem wsdr_registers_safe:
  assumes "sdr_reachable wsdr_handlers t"
  shows "(\<not> active 2 t \<longrightarrow> rd8 2 (ss_state t) = 0 \<and> wsdr_tx_regs (ss_state t) = (0, wsdr_default)) \<and>
    (\<not> active 0 t \<longrightarrow> wsdr_rx_regs (ss_state t) = wsdr_default) \<and>
    wsdr_fine (wsdr_rx_regs (ss_state t)) \<and> wsdr_tx_fine (wsdr_tx_regs (ss_state t))"
proof -
  have "wsdr_tx_regs (ss_state t) = (0, wsdr_default) \<Longrightarrow> rd8 2 (ss_state t) = 0"
    by (simp add: wsdr_tx_regs_def)
  then show ?thesis
    using wsdr_jobs.registers_safe [OF assms] by fastforce
qed

text \<open>A client of the transmitter's control job that only sets the mask to the first channel switches push-to-talk on.
  When it leaves, push-to-talk is off again.\<close>

definition wsdr_idle :: sdr where
  "wsdr_idle = \<lparr>regs = \<lambda>_. 0, trace = [], sdr_sock = \<lambda>_. 0\<rparr>"

lemma wsdr_mask_keys:
  "\<exists>t buf. sdr_reachable wsdr_handlers t \<and> ss_threads t = [(2, Running 7 buf)] \<and> rd8 2 (ss_state t) = 0 \<and>
    sdr_step wsdr_handlers t (t\<lparr>ss_state := wsdr_tx_command (push_bit 28 2 + 1) (ss_state t)\<rparr>) \<and>
    rd8 2 (wsdr_tx_command (push_bit 28 2 + 1) (ss_state t)) = 1"
proof -
  let ?s0 = "wsdr_init wsdr_idle" and ?buf = "replicate 32768 (0 :: u8)" and ?t0 = "\<lparr>ss_state = wsdr_init wsdr_idle, ss_threads = []\<rparr>"
  define s1 where "s1 = ?s0\<lparr>sdr_sock := (sdr_sock ?s0)(2 := 7)\<rparr>"
  define t1 where "t1 = \<lparr>ss_state = s1, ss_threads = [(2, Fresh)]\<rparr>"
  define t2 where "t2 = \<lparr>ss_state = wsdr_start 2 s1, ss_threads = [(2, Running 7 ?buf)]\<rparr>"
  have "sdr_accept 2 7 ?s0 = Some s1"
    by (simp add: sdr_accept_def s1_def wsdr_init_effects)
  then have "sdr_step wsdr_handlers ?t0 t1"
    using sdr_step.accept [where t = ?t0 and sock = 7 and p = wsdr_handlers] by (simp add: t1_def)
  moreover have "sdr_reachable wsdr_handlers ?t0"
    using sdr_reachable.start [of wsdr_handlers] by simp
  moreover have "sdr_step wsdr_handlers t1 t2"
    using sdr_step.begin_job [where t = t1 and ps = "[]" and qs = "[]" and k = 2 and junk = ?buf and p = wsdr_handlers]
    by (simp add: t1_def t2_def s1_def)
  ultimately have "sdr_reachable wsdr_handlers t2"
    using sdr_reachable.step by blast
  moreover have "rd8 2 (ss_state t2) = 0"
    using wsdr_job_effects(3) [of s1] by (simp add: t2_def wsdr_tx_regs_def)
  moreover have "sdr_step wsdr_handlers t2 (t2\<lparr>ss_state := wsdr_tx_command (push_bit 28 2 + 1) (ss_state t2)\<rparr>)"
    using sdr_step.tx_command [where t = t2 and sock = 7 and buf = ?buf and p = wsdr_handlers] by (simp add: t2_def)
  moreover have "rd8 2 (wsdr_tx_command (push_bit 28 2 + 1) s) = 1" for s
    by (simp add: wsdr_tx_command_def)
  ultimately show ?thesis
    by (intro exI [of _ t2] exI [of _ ?buf]) (simp add: t2_def)
qed

theorem wsdr_registers_safe_witness:
  "\<exists>t. sdr_reachable wsdr_handlers t \<and> active 2 t \<and> rd8 2 (ss_state t) = 1 \<and> wsdr_tx_fine (wsdr_tx_regs (ss_state t))"
proof -
  obtain t buf where t: "sdr_reachable wsdr_handlers t" "ss_threads t = [(2, Running 7 buf)]"
      "sdr_step wsdr_handlers t (t\<lparr>ss_state := wsdr_tx_command (push_bit 28 2 + 1) (ss_state t)\<rparr>)"
      "rd8 2 (wsdr_tx_command (push_bit 28 2 + 1) (ss_state t)) = 1"
    using wsdr_mask_keys by blast
  then have "sdr_reachable wsdr_handlers (t\<lparr>ss_state := wsdr_tx_command (push_bit 28 2 + 1) (ss_state t)\<rparr>)"
    using sdr_reachable.step by blast
  from wsdr_registers_safe [OF this] this show ?thesis
    using t(2,4) by (intro exI [of _ "t\<lparr>ss_state := wsdr_tx_command (push_bit 28 2 + 1) (ss_state t)\<rparr>"]) (simp add: active_def)
qed

end
