(* ===== verification/Impedance.thy ===== *)
theory Impedance
  imports Vna_spec
begin

unbundle bit_operations_syntax

text \<open>
  \<open>projects/impedance_controller/server/impedance-controller.c\<close>: a command has its code in the four high bits and
  a value of 28 bits, decoded as in \<open>vna.c\<close>. A start command creates a thread that sends the floats of the
  FIFO in blocks of 16 to the client until \<open>sock_thread\<close> is negative.
\<close>

record imp = machine +
  imp_sock :: int

text \<open>\<open>rst\<close> is the byte at offset 0, \<open>gpio\<close> at 1, \<open>rate\<close> the half-word at 2, \<open>freq\<close> the word at 4, \<open>level\<close> the
  half-word at 8.\<close>

definition imp_init :: "imp \<Rightarrow> imp" where
  "imp_init s =
     (let s = s\<lparr>imp_sock := - 1\<rparr>; s = wr16 2 4 s; s = wr32 4 (phase_inc clk_125 100000) s; s = wr16 8 0 s;
          s = reg_clear (rd8 0) (wr8 0) 1 s in wr8 1 0 s)"

definition imp_set_rate :: "int \<Rightarrow> imp \<Rightarrow> imp" where
  "imp_set_rate v s = (if v < 4 \<or> v > 8192 then s else wr16 2 (word_of_int v) s)"

definition imp_set_freq :: "int \<Rightarrow> imp \<Rightarrow> imp" where
  "imp_set_freq v s = (if v < 0 \<or> v > 62500000 then s else wr32 4 (phase_inc clk_125 (nat v)) s)"

definition imp_set_level :: "int \<Rightarrow> imp \<Rightarrow> imp" where
  "imp_set_level v s = (if v < - 32766 \<or> v > 32766 then s else wr16 8 (word_of_int v) s)"

definition imp_set_gpio :: "int \<Rightarrow> imp \<Rightarrow> imp" where
  "imp_set_gpio v s = (if v < 0 \<or> v > 255 then s else wr8 1 (word_of_int v) s)"

text \<open>The first component says that a thread is created.\<close>

definition imp_start :: "int \<Rightarrow> imp \<Rightarrow> bool \<times> imp" where
  "imp_start sock s =
     (if imp_sock s \<ge> 0 then (False, s)
      else let s = reg_clear (rd8 0) (wr8 0) 1 s; s = s\<lparr>imp_sock := sock\<rparr> in (True, reg_set (rd8 0) (wr8 0) 1 s))"

definition imp_stop :: "imp \<Rightarrow> imp" where
  "imp_stop s = reg_clear (rd8 0) (wr8 0) 1 (s\<lparr>imp_sock := - 1\<rparr>)"

definition imp_command :: "int \<Rightarrow> u32 \<Rightarrow> imp \<Rightarrow> bool \<times> imp" where
  "imp_command sock command s =
     (let v = sint (vna_value command); code = drop_bit 28 command in
      if code = 0 then (False, imp_set_rate v s)
      else if code = 1 then (False, imp_set_freq v s)
      else if code = 2 then (False, imp_set_level v s)
      else if code = 3 then (False, imp_set_gpio v s)
      else if code = 4 then imp_start sock s
      else if code = 5 then (False, imp_stop s)
      else (False, s))"

definition imp_leave :: "imp \<Rightarrow> imp" where
  "imp_leave s = wr8 1 0 (imp_stop s)"

section \<open>The reader thread\<close>

text \<open>A turn: the reading of \<open>cntr\<close>, the 16 floats the FIFO delivers (as their bits), whether \<open>send\<close> succeeds.
  \<open>Inl\<close> leaves the loop.\<close>

definition imp_turn :: "u16 \<Rightarrow> u32 list \<Rightarrow> bool \<Rightarrow> imp \<Rightarrow> imp + imp" where
  "imp_turn level block ok s =
     (if imp_sock s < 0 then Inl s
      else if unat level < 16 then Inr (emit (Sleep 1000) s)
      else if ok then Inr (emit (Send (concat (map le32 (take 16 block)))) s)
      else Inl s)"

text \<open>The loop for the inputs of its turns, as long as it runs.\<close>

fun imp_turns :: "(u16 \<times> u32 list \<times> bool) list \<Rightarrow> imp \<Rightarrow> imp + imp" where
  "imp_turns [] s = Inr s"
| "imp_turns ((level, block, ok) # is) s =
     (case imp_turn level block ok s of Inl s \<Rightarrow> Inl s | Inr s \<Rightarrow> imp_turns is s)"

section \<open>The threads together\<close>

text \<open>A reader has no variables that outlive a turn: the readers are counted.\<close>

record imp_system =
  is_state :: imp
  is_client :: "int option"
  is_readers :: nat

inductive imp_step :: "imp_system \<Rightarrow> imp_system \<Rightarrow> bool" where
  accept: "is_client t = None \<Longrightarrow> 0 \<le> sock \<Longrightarrow> imp_step t (t\<lparr>is_client := Some sock\<rparr>)"
| command: "is_client t = Some sock \<Longrightarrow> imp_command sock c (is_state t) = (created, s) \<Longrightarrow>
    imp_step t (t\<lparr>is_state := s, is_readers := is_readers t + of_bool created\<rparr>)"
| disconnect: "is_client t = Some sock \<Longrightarrow> imp_step t (t\<lparr>is_state := imp_leave (is_state t), is_client := None\<rparr>)"
| read: "0 < is_readers t \<Longrightarrow> imp_turn level block ok (is_state t) = Inr s \<Longrightarrow> imp_step t (t\<lparr>is_state := s\<rparr>)"
| end_reader: "0 < is_readers t \<Longrightarrow> imp_turn level block ok (is_state t) = Inl s \<Longrightarrow>
    imp_step t (t\<lparr>is_state := s, is_readers := is_readers t - 1\<rparr>)"

inductive imp_reachable :: "imp_system \<Rightarrow> bool" where
  start: "imp_reachable \<lparr>is_state = imp_init s, is_client = None, is_readers = 0\<rparr>"
| step: "imp_reachable t \<Longrightarrow> imp_step t t' \<Longrightarrow> imp_reachable t'"

section \<open>The settings in every reachable state\<close>

definition imp_settings :: "imp \<Rightarrow> bool" where
  "imp_settings s \<longleftrightarrow> 4 \<le> rd16 2 s \<and> rd16 2 s \<le> 8192 \<and> rd32 4 s \<le> 2 ^ 29 \<and>
     - 32766 \<le> sint (rd16 8 s) \<and> sint (rd16 8 s) \<le> 32766 \<and> (bit (rd8 0 s) 0 \<longleftrightarrow> 0 \<le> imp_sock s)"

lemma imp_sock_simps [simp]:
  "imp_sock (wr8 off v s) = imp_sock s" "imp_sock (wr16 off h s) = imp_sock s" "imp_sock (wr32 off w s) = imp_sock s"
  "imp_sock (emit e s) = imp_sock s" "imp_sock (reg_clear (rd8 off) (wr8 off) m s) = imp_sock s"
  "imp_sock (reg_set (rd8 off) (wr8 off) m s) = imp_sock s"
  by (simp_all add: wr_defs store_def emit_def reg_clear_def reg_set_def)

lemma imp_rd_slot [simp]:
  "rd8 off (s\<lparr>imp_sock := v\<rparr>) = rd8 off s" "rd16 off (s\<lparr>imp_sock := v\<rparr>) = rd16 off s" "rd32 off (s\<lparr>imp_sock := v\<rparr>) = rd32 off s"
  by (simp_all add: rd_defs)

lemma imp_rst_regs [simp]:
  "0 < off \<Longrightarrow> rd8 off (reg_clear (rd8 0) (wr8 0) m s) = rd8 off s" "0 < off \<Longrightarrow> rd16 off (reg_clear (rd8 0) (wr8 0) m s) = rd16 off s"
  "0 < off \<Longrightarrow> rd32 off (reg_clear (rd8 0) (wr8 0) m s) = rd32 off s"
  "0 < off \<Longrightarrow> rd8 off (reg_set (rd8 0) (wr8 0) m s) = rd8 off s" "0 < off \<Longrightarrow> rd16 off (reg_set (rd8 0) (wr8 0) m s) = rd16 off s"
  "0 < off \<Longrightarrow> rd32 off (reg_set (rd8 0) (wr8 0) m s) = rd32 off s"
  by (simp_all add: reg_clear_def reg_set_def)

lemma imp_settings_init: "imp_settings (imp_init s)"
  using phase_inc_125_le [of 100000] by (simp add: imp_settings_def imp_init_def Let_def bit_simps)

lemma imp_small:
  "4 \<le> v \<Longrightarrow> v \<le> 8192 \<Longrightarrow> 4 \<le> (word_of_int v :: u16) \<and> (word_of_int v :: u16) \<le> 8192"
  "- 32766 \<le> v \<Longrightarrow> v \<le> 32766 \<Longrightarrow> sint (word_of_int v :: u16) = v"
  by (simp_all add: word_le_def uint_word_of_int_eq take_bit_int_eq_self signed_of_int signed_take_bit_int_eq_self)

lemma imp_setters:
  assumes "imp_settings s"
  shows "imp_settings (imp_set_rate v s)" "imp_settings (imp_set_freq v s)" "imp_settings (imp_set_level v s)"
    "imp_settings (imp_set_gpio v s)"
proof -
  show "imp_settings (imp_set_rate v s)"
    using assms imp_small(1) [of v] by (simp add: imp_settings_def imp_set_rate_def)
  show "imp_settings (imp_set_freq v s)"
    using assms phase_inc_125_le [of "nat v"] by (auto simp: imp_settings_def imp_set_freq_def)
  show "imp_settings (imp_set_level v s)"
    using assms imp_small(2) [of v] by (simp add: imp_settings_def imp_set_level_def)
  show "imp_settings (imp_set_gpio v s)"
    using assms by (simp add: imp_settings_def imp_set_gpio_def)
qed

lemma imp_start_settings: "imp_settings s \<Longrightarrow> 0 \<le> sock \<Longrightarrow> imp_settings (snd (imp_start sock s))"
  by (auto simp: imp_settings_def imp_start_def Let_def bit_simps)

lemma imp_stop_settings: "imp_settings s \<Longrightarrow> imp_settings (imp_stop s)" "imp_settings s \<Longrightarrow> imp_settings (imp_leave s)"
  by (simp_all add: imp_settings_def imp_stop_def imp_leave_def bit_simps)

lemma imp_turn_regs:
  "imp_turn level block ok s = Inr s' \<Longrightarrow> regs s' = regs s \<and> imp_sock s' = imp_sock s"
  "imp_turn level block ok s = Inl s' \<Longrightarrow> s' = s"
  by (auto simp: imp_turn_def split: if_splits)

lemma imp_settings_regs: "regs s' = regs s \<Longrightarrow> imp_sock s' = imp_sock s \<Longrightarrow> imp_settings s' = imp_settings s"
  by (simp add: imp_settings_def rd_defs)

text \<open>The socket of the readers is that of the client that is connected; without one nothing is streamed and the
  pins are low.\<close>

definition imp_inv :: "imp_system \<Rightarrow> bool" where
  "imp_inv t \<longleftrightarrow> imp_settings (is_state t) \<and>
     (case is_client t of None \<Rightarrow> imp_sock (is_state t) < 0 \<and> rd8 1 (is_state t) = 0
      | Some sock \<Rightarrow> 0 \<le> sock \<and> (imp_sock (is_state t) < 0 \<or> imp_sock (is_state t) = sock))"

lemma imp_sock_ops:
  "imp_sock (imp_set_rate v s) = imp_sock s" "imp_sock (imp_set_freq v s) = imp_sock s" "imp_sock (imp_set_level v s) = imp_sock s"
  "imp_sock (imp_set_gpio v s) = imp_sock s" "imp_sock (imp_stop s) = - 1"
  "imp_sock (snd (imp_start sock s)) = (if imp_sock s \<ge> 0 then imp_sock s else sock)"
  by (simp_all add: imp_set_rate_def imp_set_freq_def imp_set_level_def imp_set_gpio_def imp_stop_def imp_start_def)

lemma imp_command_inv:
  assumes "imp_settings s" and "0 \<le> sock" and "imp_sock s < 0 \<or> imp_sock s = sock" and "imp_command sock c s = (created, s')"
  shows "imp_settings s' \<and> (imp_sock s' < 0 \<or> imp_sock s' = sock)"
proof -
  have s': "s' = snd (imp_command sock c s)"
    by (simp add: assms(4))
  show ?thesis
    using assms(1-3) imp_setters [OF assms(1)] imp_start_settings [OF assms(1,2)] imp_stop_settings [OF assms(1)]
    by (auto simp: s' imp_command_def Let_def imp_sock_ops)
qed

lemma imp_step_inv:
  assumes "imp_step t t'" and "imp_inv t"
  shows "imp_inv t'"
  using assms(1)
proof cases
  case (command sock c created s)
  then show ?thesis
    using assms(2) imp_command_inv [OF _ _ _ command(3)] by (simp add: imp_inv_def)
next
  case (disconnect sock)
  then show ?thesis
    using assms(2) imp_stop_settings(2) by (simp add: imp_inv_def) (simp add: imp_leave_def imp_stop_def)
next
  case (read level block ok s)
  then show ?thesis
    using assms(2) imp_turn_regs(1) [OF read(3)] imp_settings_regs [of s "is_state t"]
    by (simp add: imp_inv_def rd8_def split: option.splits)
next
  case (end_reader level block ok s)
  then show ?thesis
    using assms(2) imp_turn_regs(2) [OF end_reader(3)] by (simp add: imp_inv_def split: option.splits)
qed (use assms(2) in \<open>simp add: imp_inv_def\<close>)

lemma imp_reachable_inv: "imp_reachable t \<Longrightarrow> imp_inv t"
proof (induction rule: imp_reachable.induct)
  case (start s)
  then show ?case
    using imp_settings_init [of s] by (simp add: imp_inv_def) (simp add: imp_init_def Let_def)
qed (rule imp_step_inv)

text \<open>C35. In every state the impedance controller reaches, whatever its clients send: rate, phase increment and level are
  in their ranges, the design runs exactly while \<open>sock_thread\<close> is a socket, this is the socket of the client
  that is connected, and without a client the pins are low.\<close>

theorem imp_reachable_settings:
  assumes "imp_reachable t"
  shows "4 \<le> rd16 2 (is_state t) \<and> rd16 2 (is_state t) \<le> 8192 \<and> rd32 4 (is_state t) \<le> 2 ^ 29 \<and>
    \<bar>sint (rd16 8 (is_state t))\<bar> \<le> 32766 \<and> (bit (rd8 0 (is_state t)) 0 \<longleftrightarrow> 0 \<le> imp_sock (is_state t)) \<and>
    (0 \<le> imp_sock (is_state t) \<longrightarrow> is_client t = Some (imp_sock (is_state t))) \<and>
    (is_client t = None \<longrightarrow> rd8 1 (is_state t) = 0)"
  using imp_reachable_inv [OF assms] by (cases "is_client t") (auto simp: imp_inv_def imp_settings_def)

section \<open>Readers\<close>

text \<open>A reader alone sends the blocks of its turns in order and sleeps in the others.\<close>

lemma imp_reader_sends:
  assumes "0 \<le> imp_sock s" and "list_all (\<lambda>(level, block, ok). ok) is"
  shows "\<exists>s'. imp_turns is s = Inr s' \<and> regs s' = regs s \<and> trace s' = trace s @
    map (\<lambda>(level, block, ok). if unat level < 16 then Sleep 1000 else Send (concat (map le32 (take 16 block)))) is"
  using assms
proof (induction "is" arbitrary: s)
  case (Cons i "is")
  obtain level block ok where i: "i = (level, block, ok)"
    by (cases i)
  define e where "e = (if unat level < 16 then Sleep 1000 else Send (concat (map le32 (take 16 block))))"
  have "imp_turn level block ok s = Inr (emit e s)"
    using Cons.prems by (simp add: i e_def imp_turn_def)
  moreover obtain s' where "imp_turns is (emit e s) = Inr s'" "regs s' = regs s"
      "trace s' = trace s @ e # map (\<lambda>(level, block, ok). if unat level < 16 then Sleep 1000 else Send (concat (map le32 (take 16 block)))) is"
    using Cons.IH [of "emit e s"] Cons.prems by auto
  ultimately show ?case
    by (simp add: i e_def)
qed simp

text \<open>A reader looks at the socket only when it wakes up. A client that stops and starts faster than that makes
  readers pile up without a bound; all of them take from one FIFO and send to one socket.\<close>

lemma imp_started:
  assumes "imp_reachable t" and "is_client t = Some 5" and "imp_sock (is_state t) < 0"
  shows "\<exists>t'. imp_reachable t' \<and> is_client t' = Some 5 \<and> imp_sock (is_state t') = 5 \<and> is_readers t' = Suc (is_readers t)"
proof -
  have "imp_command 5 (vna_word 4 0) (is_state t) = (True, snd (imp_start 5 (is_state t)))"
    using assms(3) by (simp add: imp_command_def vna_decode Let_def imp_start_def)
  from imp_reachable.step [OF assms(1) imp_step.command [OF assms(2) this]]
  show ?thesis
    using assms(2,3) by - (intro exI conjI, assumption, simp_all add: imp_start_def Let_def)
qed

lemma imp_stopped:
  assumes "imp_reachable t" and "is_client t = Some 5"
  shows "\<exists>t'. imp_reachable t' \<and> is_client t' = Some 5 \<and> imp_sock (is_state t') < 0 \<and> is_readers t' = is_readers t"
proof -
  have "imp_command 5 (vna_word 5 0) (is_state t) = (False, imp_stop (is_state t))"
    by (simp add: imp_command_def vna_decode Let_def)
  from imp_reachable.step [OF assms(1) imp_step.command [OF assms(2) this]]
  show ?thesis
    using assms(2) by - (intro exI conjI, assumption, simp_all add: imp_stop_def)
qed

lemma readers_pile_up:
  "\<exists>t. imp_reachable t \<and> is_client t = Some 5 \<and> imp_sock (is_state t) = 5 \<and> is_readers t = Suc n"
proof (induction n)
  case 0
  have "imp_reachable \<lparr>is_state = imp_init undefined, is_client = Some 5, is_readers = 0\<rparr>"
    using imp_reachable.step [OF imp_reachable.start imp_step.accept [of _ 5]] by simp
  moreover have "imp_sock (imp_init s) < 0" for s
    by (simp add: imp_init_def Let_def)
  ultimately show ?case
    using imp_started [of "\<lparr>is_state = imp_init undefined, is_client = Some 5, is_readers = 0\<rparr>"] by fastforce
next
  case (Suc n)
  then show ?case
    using imp_stopped imp_started by (metis (no_types, lifting))
qed

theorem imp_reachable_settings_witness:
  "\<exists>t. imp_reachable t \<and> is_readers t = 2 \<and> bit (rd8 0 (is_state t)) 0 \<and> rd16 2 (is_state t) \<le> 8192"
proof -
  obtain t where t: "imp_reachable t" "imp_sock (is_state t) = 5" "is_readers t = 2"
    using readers_pile_up [of 1] by auto
  then show ?thesis
    using imp_reachable_settings [OF t(1)] by auto
qed

end
