(* ===== verification/C2_files.thy ===== *)
theory C2_files
  imports Decimal Doubles Acquire
begin

unbundle bit_operations_syntax

text \<open>
  \<open>app/write-c2-files.c\<close> of \<open>sdr_transceiver_ft8\<close> and \<open>sdr_transceiver_wspr\<close>: tunes the receivers to the bands
  of a configuration file, records their samples, which share a FIFO, and writes a file for each band. The
  files of the \<open>_122_88\<close> variants have 16 receivers instead of 8; the four programs are the four values of
  \<open>c2_program\<close>. What \<open>libconfig\<close> reads from the file, \<open>strftime\<close>'s date, the bytes of a \<open>double\<close> and the
  results of the system calls are arguments.
\<close>

record c2_program =
  c2_recv :: nat
  c2_clk :: rat
  c2_size :: nat
  c2_limit :: nat
  c2_pause :: nat
  c2_prefix :: string
  c2_dial :: "rat \<Rightarrow> rat"
  c2_hz :: "rat \<Rightarrow> rat"
  c2_head :: "u8 list"

definition c2_ft8 :: "nat \<Rightarrow> rat \<Rightarrow> c2_program" where
  "c2_ft8 recv clk =
     \<lparr>c2_recv = recv, c2_clk = clk, c2_size = 240000, c2_limit = 236000, c2_pause = 10000, c2_prefix = ''ft8_'',
      c2_dial = (\<lambda>f. dmul f 1000000), c2_hz = (\<lambda>d. d), c2_head = []\<rparr>"

definition c2_wspr :: "nat \<Rightarrow> rat \<Rightarrow> c2_program" where
  "c2_wspr recv clk =
     \<lparr>c2_recv = recv, c2_clk = clk, c2_size = 45000, c2_limit = 42000, c2_pause = 300000, c2_prefix = ''wspr_'',
      c2_dial = (\<lambda>f. dadd f (- fl 53 (15 / 10000))), c2_hz = (\<lambda>d. dmul d 1000000),
      c2_head = map of_char ''000000_0000.c2'' @ le32 2\<rparr>"

definition c2_ft8_125 :: c2_program where "c2_ft8_125 = c2_ft8 8 125"
definition c2_ft8_122 :: c2_program where "c2_ft8_122 = c2_ft8 16 (fl 53 (12288 / 100))"
definition c2_wspr_125 :: c2_program where "c2_wspr_125 = c2_wspr 8 125"
definition c2_wspr_122 :: c2_program where "c2_wspr_122 = c2_wspr 16 (fl 53 (12288 / 100))"

section \<open>The configuration\<close>

text \<open>The settings \<open>libconfig\<close> finds; \<open>None\<close> is a setting that is missing or of another type.\<close>

record c2_band =
  band_freq :: "rat option"
  band_chan :: "u32 option"

record c2_config =
  cf_corr :: "rat option"
  cf_bands :: "c2_band list option"

datatype c2_error = Usage | ConfigFile | NoCorr | WrongCorr | NoBands | TooManyBands | TooFewBands
  | NoFreq nat | NoChan nat | WrongChan nat | NoTime | NoMemory | NoOutput string

text \<open>The loop over the bands: frequencies and channels so far, and the selection \<open>value\<close>.\<close>

fun c2_bands :: "nat \<Rightarrow> c2_band list \<Rightarrow> (rat \<times> u32) list \<times> u16 \<Rightarrow> c2_error + (rat \<times> u32) list \<times> u16" where
  "c2_bands i [] acc = Inr acc"
| "c2_bands i (b # bs) (acc, v) =
     (case band_freq b of None \<Rightarrow> Inl (NoFreq i)
      | Some f \<Rightarrow> case band_chan b of None \<Rightarrow> Inl (NoChan i)
      | Some c \<Rightarrow>
          if sint c < 1 \<or> sint c > 2 then Inl (WrongChan i)
          else c2_bands (Suc i) bs (acc @ [(f, c)], v OR push_bit i (ucast (c - 1))))"

definition c2_settings :: "c2_program \<Rightarrow> (string \<Rightarrow> c2_config option) \<Rightarrow> string list \<Rightarrow> c2_error + rat \<times> (rat \<times> u32) list \<times> u16" where
  "c2_settings p read args =
     (if length args \<noteq> 1 then Inl Usage
      else case read (args ! 0) of None \<Rightarrow> Inl ConfigFile
      | Some cf \<Rightarrow> case cf_corr cf of None \<Rightarrow> Inl NoCorr
      | Some corr \<Rightarrow>
          if corr < - 100 \<or> corr > 100 then Inl WrongCorr
          else case cf_bands cf of None \<Rightarrow> Inl NoBands
          | Some bs \<Rightarrow>
              if length bs > c2_recv p then Inl TooManyBands
              else if length bs < 1 then Inl TooFewBands
              else map_sum id (Pair corr) (c2_bands 0 bs ([], 0)))"

section \<open>Registers\<close>

text \<open>\<open>(uint32_t)floor((1.0 + 1.0e-6 * corr) * freq / CLK * (1<<30) + 0.5)\<close>; a number that does not fit is undefined.\<close>

definition c2_word :: "rat \<Rightarrow> rat \<Rightarrow> rat \<Rightarrow> u32 option" where
  "c2_word clk corr f =
     (let n = \<lfloor>dadd (dmul (ddiv (dmul (dadd 1 (dmul (fl 53 (1 / 1000000)) corr)) f) clk) (2 ^ 30)) (1 / 2)\<rfloor> in
      if 0 \<le> n \<and> n < 2 ^ 32 then Some (word_of_int n) else None)"

record c2_state = machine +
  rec_offset :: nat
  rec_buffer :: "nat \<Rightarrow> u64"

fun c2_tune :: "c2_program \<Rightarrow> rat \<Rightarrow> rat list \<Rightarrow> nat list \<Rightarrow> c2_state \<Rightarrow> c2_state option" where
  "c2_tune p corr fs [] s = Some s"
| "c2_tune p corr fs (i # is) s =
     (case c2_word (c2_clk p) corr (if i < length fs then fs ! i else 0) of None \<Rightarrow> None
      | Some w \<Rightarrow> c2_tune p corr fs is (wr32 (8 + i * 4) w s))"

text \<open>\<open>sel\<close> has a bit for each receiver.\<close>

definition c2_select :: "c2_program \<Rightarrow> u16 \<Rightarrow> c2_state \<Rightarrow> c2_state" where
  "c2_select p v s = (if c2_recv p = 8 then wr8 4 (ucast v) s else wr16 4 v s)"

definition c2_setup :: "c2_program \<Rightarrow> rat \<Rightarrow> (rat \<times> u32) list \<Rightarrow> u16 \<Rightarrow> c2_state \<Rightarrow> c2_state option" where
  "c2_setup p corr bs v s =
     (case c2_tune p corr (map fst bs) [0..<c2_recv p] s of None \<Rightarrow> None
      | Some s \<Rightarrow> Some (pulse (rd8 0) (wr8 0) 1 (c2_select p v s)))"

section \<open>Recording\<close>

fun c2_wait :: "c2_program \<Rightarrow> u16 list \<Rightarrow> c2_state \<Rightarrow> c2_state option" where
  "c2_wait p [] s = None"
| "c2_wait p (l # ls) s = (if unat l < 500 then c2_wait p ls (emit (Sleep (c2_pause p)) s) else Some s)"

text \<open>The two inner loops: the places \<open>(i, j)\<close> in their order, and the words stored for them. A place outside the
  buffer is \<open>None\<close>.\<close>

definition c2_places :: "nat \<Rightarrow> (nat \<times> nat) list" where
  "c2_places recv = concat (map (\<lambda>i. map (Pair i) [0..<recv]) [0..<250])"

definition c2_at :: "c2_program \<Rightarrow> nat \<Rightarrow> nat \<times> nat \<Rightarrow> nat" where
  "c2_at p offset ij = (case ij of (i, j) \<Rightarrow> j * c2_size p + offset + i)"

fun c2_fill :: "c2_program \<Rightarrow> nat \<Rightarrow> ((nat \<times> nat) \<times> u64) list \<Rightarrow> (nat \<Rightarrow> u64) \<Rightarrow> (nat \<Rightarrow> u64) option" where
  "c2_fill p offset [] buf = Some buf"
| "c2_fill p offset ((ij, w) # ws) buf =
     (let k = c2_at p offset ij in
      if k < c2_size p * c2_recv p then c2_fill p offset ws (buf(k := w)) else None)"

text \<open>A turn of the outer loop: the readings of \<open>cntr\<close> and the words the FIFO delivers.\<close>

definition c2_turn :: "c2_program \<Rightarrow> u16 list \<times> u64 list \<Rightarrow> c2_state \<Rightarrow> c2_state option" where
  "c2_turn p t s =
     (case c2_wait p (fst t) s of None \<Rightarrow> None
      | Some s \<Rightarrow>
          case c2_fill p (rec_offset s) (zip (c2_places (c2_recv p)) (snd t)) (rec_buffer s) of None \<Rightarrow> None
          | Some buf \<Rightarrow> Some (s\<lparr>rec_buffer := buf, rec_offset := rec_offset s + 250\<rparr>))"

fun c2_loop :: "c2_program \<Rightarrow> (u16 list \<times> u64 list) list \<Rightarrow> c2_state \<Rightarrow> c2_state option" where
  "c2_loop p [] s = (if rec_offset s < c2_limit p then None else Some s)"
| "c2_loop p (t # ts) s =
     (if rec_offset s < c2_limit p then (case c2_turn p t s of None \<Rightarrow> None | Some s \<Rightarrow> c2_loop p ts s) else Some s)"

definition c2_record :: "c2_program \<Rightarrow> (u16 list \<times> u64 list) list \<Rightarrow> c2_state \<Rightarrow> c2_state option" where
  "c2_record p ts s = c2_loop p ts (s\<lparr>rec_offset := 0, rec_buffer := (\<lambda>_. 0)\<rparr>)"

section \<open>The files\<close>

text \<open>The name, where \<open>%d\<close> prints the 32-bit conversion of the frequency in Hz.\<close>

definition c2_name :: "c2_program \<Rightarrow> string \<Rightarrow> nat \<Rightarrow> rat \<times> u32 \<Rightarrow> string option" where
  "c2_name p date i b =
     (let n = (let x = c2_hz p (c2_dial p (fst b)) in if 0 \<le> x then \<lfloor>x\<rfloor> else \<lceil>x\<rceil>) in
      if 0 \<le> n \<and> n < 2 ^ 32
      then Some (c2_prefix p @ decimal i @ ''_'' @ decimal_int (sint (word_of_int n :: u32)) @ ''_'' @
        decimal_int (sint (snd b)) @ ''_'' @ date @ ''.c2'')
      else None)"

definition c2_contents :: "c2_program \<Rightarrow> (rat \<Rightarrow> u8 list) \<Rightarrow> (nat \<Rightarrow> u64) \<Rightarrow> nat \<Rightarrow> rat \<Rightarrow> u8 list" where
  "c2_contents p bytes buf i f =
     c2_head p @ bytes (c2_dial p f) @ concat (map (\<lambda>k. le64 (buf (i * c2_size p + k))) [0..<c2_size p])"

text \<open>The loop over the bands: the files written, and whether it fails. The outer \<open>None\<close>: undefined.\<close>

fun c2_write :: "c2_program \<Rightarrow> (rat \<Rightarrow> u8 list) \<Rightarrow> (string \<Rightarrow> bool) \<Rightarrow> string \<Rightarrow> (nat \<Rightarrow> u64) \<Rightarrow> nat \<Rightarrow> (rat \<times> u32) list \<Rightarrow>
    (string \<times> u8 list) list \<Rightarrow> (c2_error option \<times> (string \<times> u8 list) list) option" where
  "c2_write p bytes opens date buf i [] files = Some (None, files)"
| "c2_write p bytes opens date buf i (b # bs) files =
     (case c2_name p date i b of None \<Rightarrow> None
      | Some name \<Rightarrow>
          if opens name then c2_write p bytes opens date buf (Suc i) bs (files @ [(name, c2_contents p bytes buf i (fst b))])
          else Some (Some (NoOutput name), files))"

record c2_env =
  env_config :: "string \<Rightarrow> c2_config option"
  env_date :: "string option"
  env_memory :: bool
  env_bytes :: "rat \<Rightarrow> u8 list"
  env_opens :: "string \<Rightarrow> bool"

definition c2_main :: "c2_program \<Rightarrow> c2_env \<Rightarrow> string list \<Rightarrow> (u16 list \<times> u64 list) list \<Rightarrow> c2_state \<Rightarrow>
    (c2_error option \<times> (string \<times> u8 list) list) option" where
  "c2_main p env args ts s =
     (case c2_settings p (env_config env) args of Inl e \<Rightarrow> Some (Some e, [])
      | Inr (corr, bs, v) \<Rightarrow>
          case env_date env of None \<Rightarrow> Some (Some NoTime, [])
          | Some date \<Rightarrow>
              if \<not> env_memory env then Some (Some NoMemory, [])
              else case c2_setup p corr bs v s of None \<Rightarrow> None
              | Some s \<Rightarrow> case c2_record p ts s of None \<Rightarrow> None
              | Some s \<Rightarrow> c2_write p (env_bytes env) (env_opens env) date (rec_buffer s) 0 bs [])"

section \<open>What is recorded\<close>

lemma c2_places_eq:
  assumes "0 < r"
  shows "c2_places r = map (\<lambda>m. (m div r, m mod r)) [0..<250 * r]"
proof -
  have "concat (map (\<lambda>i. map (Pair i) [0..<r]) [0..<n]) = map (\<lambda>m. (m div r, m mod r)) [0..<n * r]" for n
  proof (induction n)
    case (Suc n)
    have "[0..<n * r + r] = [0..<n * r] @ map (\<lambda>j. j + n * r) [0..<r]"
      using upt_add_eq_append [of 0 "n * r" r] map_add_upt [of "n * r" r] by (simp only: add.commute [of r "n * r"])
    moreover have "map (\<lambda>m. (m div r, m mod r)) (map (\<lambda>j. j + n * r) [0..<r]) = map (Pair n) [0..<r]"
      using assms by simp
    ultimately have "map (\<lambda>m. (m div r, m mod r)) [0..<n * r + r] = map (\<lambda>m. (m div r, m mod r)) [0..<n * r] @ map (Pair n) [0..<r]"
      by (simp only: map_append)
    then show ?case
      using Suc by (simp add: add.commute)
  qed simp
  then show ?thesis
    by (simp add: c2_places_def)
qed

text \<open>Stores to different places: each place holds its word.\<close>

lemma c2_fill_map:
  assumes "length ws = length ps" and "distinct (map (c2_at p offset) ps)"
    and "\<And>ij. ij \<in> set ps \<Longrightarrow> c2_at p offset ij < c2_size p * c2_recv p"
  shows "c2_fill p offset (zip ps ws) buf = Some (\<lambda>k. case map_of (zip (map (c2_at p offset) ps) ws) k of None \<Rightarrow> buf k | Some w \<Rightarrow> w)"
  using assms
proof (induction ws ps arbitrary: buf rule: list_induct2)
  case (Cons w ws ij ps)
  define f a where "f = map_of (zip (map (c2_at p offset) ps) ws)" and "a = c2_at p offset ij"
  have "f a = None"
    using Cons.hyps Cons.prems(1) by (simp add: f_def a_def map_of_zip_is_None)
  then have "(\<lambda>k. case f k of None \<Rightarrow> (buf(a := w)) k | Some w \<Rightarrow> w) = (\<lambda>k. case (f(a \<mapsto> w)) k of None \<Rightarrow> buf k | Some w \<Rightarrow> w)"
    by (auto simp: fun_eq_iff split: option.split)
  moreover have "c2_fill p offset (zip ps ws) (buf(a := w)) = Some (\<lambda>k. case f k of None \<Rightarrow> (buf(a := w)) k | Some w \<Rightarrow> w)"
    unfolding f_def by (rule Cons.IH) (use Cons.prems in auto)
  moreover have "a < c2_size p * c2_recv p"
    unfolding a_def by (intro Cons.prems(2)) simp
  ultimately show ?case
    by (simp add: f_def a_def)
qed simp

lemma c2_at_inj:
  assumes "offset + i < c2_size p" "offset + i' < c2_size p" and "c2_at p offset (i, j) = c2_at p offset (i', j')"
  shows "i = i' \<and> j = j'"
proof -
  have e: "j * c2_size p + (offset + i) = j' * c2_size p + (offset + i')"
    using assms(3) by (simp add: c2_at_def)
  have "j = (j * c2_size p + (offset + i)) div c2_size p" "j' = (j' * c2_size p + (offset + i')) div c2_size p"
    using assms(1,2) by simp_all
  then have "j = j'"
    by (simp only: e)
  then show ?thesis
    using assms(3) by (simp add: c2_at_def)
qed

lemma c2_at_less:
  assumes "offset + i < c2_size p" and "j < c2_recv p"
  shows "c2_at p offset (i, j) < c2_size p * c2_recv p"
proof -
  have "c2_at p offset (i, j) < Suc j * c2_size p"
    using assms(1) by (simp add: c2_at_def)
  also have "\<dots> \<le> c2_recv p * c2_size p"
    using assms(2) by (intro mult_le_mono1) simp
  finally show ?thesis
    by (simp add: mult.commute)
qed

text \<open>A block: receiver \<open>j\<close> gets every \<open>c2_recv\<close>-th word; nothing else changes.\<close>

lemma c2_fill_block:
  assumes "length ws = 250 * c2_recv p" and "0 < c2_recv p" and "offset + 250 \<le> c2_size p"
  shows "\<exists>buf'. c2_fill p offset (zip (c2_places (c2_recv p)) ws) buf = Some buf' \<and>
    (\<forall>j<c2_recv p. \<forall>k<c2_size p. buf' (j * c2_size p + k) =
       (if offset \<le> k \<and> k < offset + 250 then ws ! ((k - offset) * c2_recv p + j) else buf (j * c2_size p + k)))"
proof -
  let ?r = "c2_recv p" and ?ps = "c2_places (c2_recv p)"
  have ps: "?ps = map (\<lambda>m. (m div ?r, m mod ?r)) [0..<250 * ?r]"
    by (rule c2_places_eq [OF assms(2)])
  have row: "m div ?r < 250" "m mod ?r < ?r" if "m < 250 * ?r" for m
    using that assms(2) by (simp_all add: less_mult_imp_div_less)
  have keys: "map (c2_at p offset) ?ps = map (\<lambda>m. c2_at p offset (m div ?r, m mod ?r)) [0..<250 * ?r]"
    by (simp add: ps)
  have inj: "inj_on (\<lambda>m. c2_at p offset (m div ?r, m mod ?r)) {0..<250 * ?r}"
  proof (rule inj_onI)
    fix m n
    assume "m \<in> {0..<250 * ?r}" "n \<in> {0..<250 * ?r}"
      and "c2_at p offset (m div ?r, m mod ?r) = c2_at p offset (n div ?r, n mod ?r)"
    then have "m div ?r = n div ?r \<and> m mod ?r = n mod ?r"
      using row [of m] row [of n] assms(3) by (intro c2_at_inj [of offset]) auto
    then show "m = n"
      by (metis div_mult_mod_eq)
  qed
  have dist: "distinct (map (c2_at p offset) ?ps)"
    unfolding keys distinct_map using inj by simp
  have len: "length ws = length ?ps"
    by (simp add: ps assms(1))
  have less: "c2_at p offset ij < c2_size p * ?r" if ij: "ij \<in> set ?ps" for ij
  proof -
    obtain m where m: "m < 250 * ?r" "ij = (m div ?r, m mod ?r)"
      using ij by (auto simp: ps)
    show ?thesis
      unfolding m(2) using row [OF m(1)] assms(3) by (intro c2_at_less) auto
  qed
  define f where "f k = map_of (zip (map (c2_at p offset) ?ps) ws) k" for k
  define buf' where "buf' k = (case f k of None \<Rightarrow> buf k | Some w \<Rightarrow> w)" for k
  have fill: "c2_fill p offset (zip ?ps ws) buf = Some buf'"
    using c2_fill_map [OF len dist less] by (simp add: buf'_def [abs_def] f_def)
  have "f (j * c2_size p + k) = (if offset \<le> k \<and> k < offset + 250 then Some (ws ! ((k - offset) * ?r + j)) else None)"
    if j: "j < ?r" and k: "k < c2_size p" for j k
  proof (cases "offset \<le> k \<and> k < offset + 250")
    case True
    define m where "m = (k - offset) * ?r + j"
    have m: "m div ?r = k - offset" "m mod ?r = j"
      using j by (simp_all add: m_def)
    have "m < Suc (k - offset) * ?r"
      using j by (simp add: m_def)
    also have "\<dots> \<le> 250 * ?r"
      using True by (intro mult_le_mono1) auto
    finally have m_less: "m < 250 * ?r" .
    then have "f (map (c2_at p offset) ?ps ! m) = Some (ws ! m)"
      unfolding f_def using dist len assms(1) by (intro map_of_zip_nth) (simp_all add: ps)
    moreover have "map (c2_at p offset) ?ps ! m = j * c2_size p + k"
      using m_less m True unfolding keys by (simp add: c2_at_def)
    ultimately show ?thesis
      using True by (simp add: m_def)
  next
    case False
    have "j * c2_size p + k \<notin> set (map (c2_at p offset) ?ps)"
    proof
      assume "j * c2_size p + k \<in> set (map (c2_at p offset) ?ps)"
      then obtain m where m: "m < 250 * ?r" "j * c2_size p + k = c2_at p offset (m div ?r, m mod ?r)"
        unfolding keys by auto
      then have "k = (c2_at p offset (m div ?r, m mod ?r)) mod c2_size p"
        using k by (metis mod_less mod_mult_self3)
      also have "\<dots> = offset + m div ?r"
        using row(1) [OF m(1)] assms(3) by (simp add: c2_at_def add.assoc)
      finally show False
        using False row(1) [OF m(1)] by simp
    qed
    then show ?thesis
      unfolding f_def if_not_P [OF False] using len by (simp add: map_of_zip_is_None)
  qed
  then show ?thesis
    using fill by (intro exI [of _ buf']) (simp add: buf'_def)
qed

text \<open>The inputs of a turn that ends: \<open>cntr\<close> reaches 500, and the FIFO delivers a word for every place.\<close>

definition c2_delivered :: "c2_program \<Rightarrow> u16 list \<times> u64 list \<Rightarrow> bool" where
  "c2_delivered p t \<longleftrightarrow> (\<exists>l \<in> set (fst t). 500 \<le> unat l) \<and> length (snd t) = 250 * c2_recv p"

lemma c2_wait_ends:
  "\<exists>l \<in> set ls. 500 \<le> unat l \<Longrightarrow> \<exists>s'. c2_wait p ls s = Some s' \<and> rec_offset s' = rec_offset s \<and> rec_buffer s' = rec_buffer s"
proof (induction ls arbitrary: s)
  case (Cons l ls)
  have "rec_offset (emit e s) = rec_offset s" "rec_buffer (emit e s) = rec_buffer s" for e
    by (simp_all add: emit_def)
  then show ?case
    using Cons.IH [of "emit (Sleep (c2_pause p)) s"] Cons.prems by auto
qed simp

lemma c2_turn_records:
  assumes "c2_delivered p t" and "0 < c2_recv p" and "rec_offset s + 250 \<le> c2_size p"
  shows "\<exists>s'. c2_turn p t s = Some s' \<and> rec_offset s' = rec_offset s + 250 \<and>
    (\<forall>j<c2_recv p. \<forall>k<c2_size p. rec_buffer s' (j * c2_size p + k) =
       (if rec_offset s \<le> k \<and> k < rec_offset s + 250 then snd t ! ((k - rec_offset s) * c2_recv p + j)
        else rec_buffer s (j * c2_size p + k)))"
proof -
  obtain s1 where s1: "c2_wait p (fst t) s = Some s1" "rec_offset s1 = rec_offset s" "rec_buffer s1 = rec_buffer s"
    using c2_wait_ends [of "fst t" p s] assms(1) by (auto simp: c2_delivered_def)
  show ?thesis
    using c2_fill_block [of "snd t" p "rec_offset s" "rec_buffer s"] assms s1
    by (fastforce simp: c2_turn_def c2_delivered_def)
qed

lemma c2_loop_records:
  assumes "list_all (c2_delivered p) ts" and "0 < c2_recv p" and "rec_offset s + 250 * length ts = c2_limit p"
    and "c2_limit p \<le> c2_size p"
  shows "\<exists>s'. c2_loop p ts s = Some s' \<and>
    (\<forall>j<c2_recv p. \<forall>k<c2_size p. rec_buffer s' (j * c2_size p + k) =
       (if rec_offset s \<le> k \<and> k < c2_limit p then concat (map snd ts) ! ((k - rec_offset s) * c2_recv p + j)
        else rec_buffer s (j * c2_size p + k)))"
  using assms
proof (induction ts arbitrary: s)
  case (Cons t ts)
  let ?r = "c2_recv p" and ?o = "rec_offset s"
  obtain s1 where s1: "c2_turn p t s = Some s1" "rec_offset s1 = ?o + 250"
      "\<And>j k. j < ?r \<Longrightarrow> k < c2_size p \<Longrightarrow> rec_buffer s1 (j * c2_size p + k) =
        (if ?o \<le> k \<and> k < ?o + 250 then snd t ! ((k - ?o) * ?r + j) else rec_buffer s (j * c2_size p + k))"
    using c2_turn_records [of p t s] Cons.prems by auto
  obtain s' where s': "c2_loop p ts s1 = Some s'"
      "\<And>j k. j < ?r \<Longrightarrow> k < c2_size p \<Longrightarrow> rec_buffer s' (j * c2_size p + k) =
        (if ?o + 250 \<le> k \<and> k < c2_limit p then concat (map snd ts) ! ((k - (?o + 250)) * ?r + j)
         else rec_buffer s1 (j * c2_size p + k))"
    using Cons.IH [of s1] Cons.prems s1(2) by auto
  have len: "length (snd t) = 250 * ?r"
    using Cons.prems(1) by (simp add: c2_delivered_def)
  have "concat (map snd (t # ts)) ! ((k - ?o) * ?r + j) =
      (if k < ?o + 250 then snd t ! ((k - ?o) * ?r + j) else concat (map snd ts) ! ((k - (?o + 250)) * ?r + j))"
    if "j < ?r" "?o \<le> k" for j k
  proof (cases "k < ?o + 250")
    case True
    have "(k - ?o) * ?r + j < Suc (k - ?o) * ?r"
      using that(1) by simp
    also have "\<dots> \<le> 250 * ?r"
      using True that(2) by (intro mult_le_mono1) auto
    finally show ?thesis
      using True len by (simp add: nth_append)
  next
    case False
    then have "k - ?o = 250 + (k - (?o + 250))"
      by simp
    then have "(k - ?o) * ?r + j = 250 * ?r + ((k - (?o + 250)) * ?r + j)"
      by (metis add.assoc distrib_right)
    then show ?thesis
      using False len by (simp add: nth_append)
  qed
  then show ?case
    using s1 s' Cons.prems(3) by (intro exI [of _ s']) auto
qed auto

lemma c2_programs:
  assumes "p \<in> {c2_ft8_125, c2_ft8_122, c2_wspr_125, c2_wspr_122}"
  shows "0 < c2_recv p \<and> c2_limit p \<le> c2_size p \<and> c2_limit p mod 250 = 0"
  using assms by (auto simp: c2_ft8_125_def c2_ft8_122_def c2_wspr_125_def c2_wspr_122_def c2_ft8_def c2_wspr_def)

text \<open>When the FIFO delivers the words of as many turns as the loop makes, none is stored outside the buffer, and the
  file of receiver \<open>i\<close> holds, after its header, the words number \<open>i\<close>, \<open>i + 8\<close>, \<open>i + 16\<close> and so on (16
  apart with 16 receivers) in order, then zeros up to its fixed size.\<close>

lemma c2_demultiplexed:
  assumes "p \<in> {c2_ft8_125, c2_ft8_122, c2_wspr_125, c2_wspr_122}" and "list_all (c2_delivered p) ts"
    and "length ts = c2_limit p div 250"
  shows "\<exists>s'. c2_record p ts s = Some s' \<and>
    (\<forall>i<c2_recv p. \<forall>f. c2_contents p bytes (rec_buffer s') i f = c2_head p @ bytes (c2_dial p f) @
       concat (map (\<lambda>k. le64 (if k < c2_limit p then concat (map snd ts) ! (k * c2_recv p + i) else 0)) [0..<c2_size p]))"
proof -
  note p = c2_programs [OF assms(1)]
  have "0 + 250 * length ts = c2_limit p"
    using assms(3) p by auto
  then obtain s' where s': "c2_record p ts s = Some s'"
      "\<And>j k. j < c2_recv p \<Longrightarrow> k < c2_size p \<Longrightarrow>
        rec_buffer s' (j * c2_size p + k) = (if k < c2_limit p then concat (map snd ts) ! (k * c2_recv p + j) else 0)"
    using c2_loop_records [OF assms(2), of "s\<lparr>rec_offset := 0, rec_buffer := \<lambda>_. 0\<rparr>"] p unfolding c2_record_def by auto
  have "c2_contents p bytes (rec_buffer s') i f = c2_head p @ bytes (c2_dial p f) @
      concat (map (\<lambda>k. le64 (if k < c2_limit p then concat (map snd ts) ! (k * c2_recv p + i) else 0)) [0..<c2_size p])"
    if "i < c2_recv p" for i f
  proof -
    have "map (\<lambda>k. le64 (rec_buffer s' (i * c2_size p + k))) [0..<c2_size p] =
        map (\<lambda>k. le64 (if k < c2_limit p then concat (map snd ts) ! (k * c2_recv p + i) else 0)) [0..<c2_size p]"
      using s'(2) [OF that] by simp
    then show ?thesis
      by (simp only: c2_contents_def)
  qed
  then show ?thesis
    using s'(1) by blast
qed

section \<open>Settings and names\<close>

text \<open>The selection has the bit of a receiver set exactly if its channel is the second.\<close>

lemma c2_bands_selection:
  assumes "c2_bands i bs (acc, v) = Inr (acc', v')" and "i + length bs \<le> 16"
  shows "acc' = acc @ map (\<lambda>b. (the (band_freq b), the (band_chan b))) bs \<and>
    (\<forall>k<16. bit v' k \<longleftrightarrow> bit v k \<or> (i \<le> k \<and> k < i + length bs \<and> band_chan (bs ! (k - i)) = Some 2))"
  using assms
proof (induction bs arbitrary: i acc v)
  case (Cons b bs)
  obtain f c where b: "band_freq b = Some f" "band_chan b = Some c" "1 \<le> sint c" "sint c \<le> 2"
    and rec: "c2_bands (Suc i) bs (acc @ [(f, c)], v OR push_bit i (ucast (c - 1))) = Inr (acc', v')"
    using Cons.prems(1) by (auto split: option.splits if_splits)
  have "sint c = sint (1 :: u32) \<or> sint c = sint (2 :: u32)"
    using b(3,4) by auto
  then have "c = 1 \<or> c = 2"
    using signed_word_eqI by blast
  then have c: "bit (push_bit i (ucast (c - 1)) :: u16) k \<longleftrightarrow> k = i \<and> c = 2" if "k < 16" for k
    using that by (auto simp: bit_simps)
  have "bit v' k \<longleftrightarrow> bit v k \<or> (i \<le> k \<and> k < i + length (b # bs) \<and> band_chan ((b # bs) ! (k - i)) = Some 2)" if "k < 16" for k
    using Cons.IH [OF rec] Cons.prems(2) c [OF that] that b(2)
    by (cases "k = i") (auto simp: bit_simps nth_Cons' Suc_le_eq)
  then show ?case
    using Cons.IH [OF rec] Cons.prems(2) b by simp
qed auto

text \<open>A file name fits into its 64 bytes when the date has its 11 characters.\<close>

lemma length_decimal_word: "length (decimal_int (sint (w :: u32))) \<le> 11"
proof -
  have "- (2 ^ 31) \<le> sint w" "sint w < 2 ^ 31"
    using sint_greater_eq [of w] sint_lt [of w] by simp_all
  then have "nat (- sint w) < 10 ^ 10" "nat (sint w) < 10 ^ 10"
    by simp_all
  then show ?thesis
    using length_decimal [of "nat (- sint w)" 10] length_decimal [of "nat (sint w)" 10] by (simp add: decimal_int_def)
qed

lemma c2_name_fits:
  assumes "p \<in> {c2_ft8_125, c2_ft8_122, c2_wspr_125, c2_wspr_122}" and "i < 16" and "length date = 11"
    and "c2_name p date i b = Some name"
  shows "length name < 64"
proof -
  have "length (c2_prefix p) \<le> 5"
    using assms(1) by (auto simp: c2_ft8_125_def c2_ft8_122_def c2_wspr_125_def c2_wspr_122_def c2_ft8_def c2_wspr_def)
  moreover obtain w :: u32 where "name = c2_prefix p @ decimal i @ ''_'' @ decimal_int (sint w) @ ''_'' @
      decimal_int (sint (snd b)) @ ''_'' @ date @ ''.c2''"
    using assms(4) by (auto simp: c2_name_def Let_def simp del: signed_of_int split: if_splits)
  ultimately show ?thesis
    using length_decimal [of i 2] length_decimal_word [of w] length_decimal_word [of "snd b"] assms(2,3) by simp
qed

text \<open>The frequencies of the bands are not checked: the conversion of a negative one is undefined.\<close>

lemma fl_half_below: "y \<le> 0 \<Longrightarrow> fl 53 y \<le> y / 2"
  using fl_error [of 53 y] by simp

lemma c2_negative_frequency: "c2_word 125 0 (- 1) = None"
proof -
  define x y where "x = ddiv (- 1) 125" and "y = dmul x (2 ^ 30)"
  have "fl 53 1 = 1" "fl 53 (- 1) = - 1"
    using fl_int_signed [of 1 53] fl_int_signed [of "- 1" 53] by simp_all
  then have one: "dadd 1 (dmul (fl 53 (1 / 1000000)) 0) = 1" "dmul 1 (- 1) = - 1"
    by (simp_all add: dadd_def dmul_def)
  have "x \<le> - 1 / 250"
    using fl_half_below [of "- 1 / 125"] by (simp add: x_def ddiv_def)
  then have "y \<le> - 1"
    using fl_half_below [of "x * 2 ^ 30"] by (simp add: y_def dmul_def)
  then have "dadd y (1 / 2) < 0"
    using fl_half_below [of "y + 1 / 2"] by (simp add: dadd_def)
  then show ?thesis
    unfolding c2_word_def one x_def [symmetric] y_def [symmetric] by simp
qed

section \<open>From the configuration to the files\<close>

lemma map_sum_Inr: "map_sum f g x = Inr y \<longleftrightarrow> (\<exists>z. x = Inr z \<and> y = g z)"
  by (cases x) auto

lemma c2_settings_ok:
  assumes "p \<in> {c2_ft8_125, c2_ft8_122, c2_wspr_125, c2_wspr_122}" and "c2_settings p read args = Inr (corr, bs, v)"
  shows "\<bar>corr\<bar> \<le> 100 \<and> 1 \<le> length bs \<and> length bs \<le> c2_recv p"
proof -
  obtain cf where cf: "c2_bands 0 cf ([], 0) = Inr (bs, v)" "\<bar>corr\<bar> \<le> 100" "1 \<le> length cf" "length cf \<le> c2_recv p"
    using assms(2) by (auto simp: c2_settings_def abs_le_iff map_sum_Inr not_less Suc_le_eq split: if_splits option.splits)
  moreover have "c2_recv p \<le> 16"
    using assms(1) by (auto simp: c2_ft8_125_def c2_ft8_122_def c2_wspr_125_def c2_wspr_122_def c2_ft8_def c2_wspr_def)
  ultimately show ?thesis
    using c2_bands_selection [OF cf(1)] by auto
qed

lemma c2_word_defined:
  assumes "\<bar>corr\<bar> \<le> 100" and "0 \<le> f" and "f \<le> 60" and "122 \<le> clk"
  shows "\<exists>w. c2_word clk corr f = Some w"
proof -
  define c where "c = dadd 1 (dmul (fl 53 (1 / 1000000)) corr)"
  define x where "x = dmul (ddiv (dmul c f) clk) (2 ^ 30)"
  have "\<bar>c - (1 + corr / 1000000)\<bar> \<le> 1 / 2 ^ 52"
    using correction_near [OF assms(1)] by (simp add: c_def)
  also have "(1 :: rat) / 2 ^ 52 \<le> 1 / 1000"
    by simp
  finally have c: "0 \<le> c" "c \<le> 101 / 100"
    using assms(1) by linarith+
  have "0 \<le> c * f" "c * f \<le> 101 / 100 * 60"
    using c assms(2,3) by (simp, intro mult_mono) simp_all
  then have a: "0 \<le> dmul c f" "dmul c f \<le> 62"
    using fl_between [of "c * f"] by (fastforce simp: dmul_def)+
  then have "0 \<le> dmul c f / clk" "dmul c f / clk \<le> 62 / 122"
    using assms(4) by (simp, intro frac_le) simp_all
  then have b: "0 \<le> ddiv (dmul c f) clk" "ddiv (dmul c f) clk \<le> 1"
    using fl_between [of "dmul c f / clk" "62 / 122"] by (auto simp: ddiv_def)
  then have x: "0 \<le> x" "x \<le> 2 ^ 30 * (101 / 100)"
    using fl_between [of "ddiv (dmul c f) clk * 2 ^ 30" "2 ^ 30"] by (auto simp: x_def dmul_def)
  then have "0 \<le> dadd x (1 / 2)" "dadd x (1 / 2) < 2 ^ 32"
    using fl_between [of "x + 1 / 2" "2 ^ 30 * (102 / 100)"] by (auto simp: dadd_def)
  then show ?thesis
    unfolding c2_word_def c_def [symmetric] x_def [symmetric] by (simp add: floor_less_iff)
qed

lemma c2_name_defined:
  assumes "p \<in> {c2_ft8_125, c2_ft8_122, c2_wspr_125, c2_wspr_122}" and "1 \<le> fst b" and "fst b \<le> 60"
  shows "\<exists>name. c2_name p date i b = Some name"
proof -
  define e where "e = fl 53 (15 / 10000)"
  have e: "0 \<le> e" "e \<le> 1 / 2"
    using fl_between [of "15 / 10000" "15 / 10000"] by (auto simp: e_def)
  then have d: "0 \<le> dadd (fst b) (- e)" "dadd (fst b) (- e) \<le> 61"
    using fl_between [of "fst b + - e" 60] assms(2,3) by (auto simp: dadd_def)
  have mega: "0 \<le> dmul x 1000000 \<and> dmul x 1000000 \<le> 70000000" if "0 \<le> x" "x \<le> 61" for x
    using fl_between [of "x * 1000000" "61 * 1000000"] that by (auto simp: dmul_def)
  have "0 \<le> c2_hz p (c2_dial p (fst b)) \<and> c2_hz p (c2_dial p (fst b)) \<le> 70000000"
    using assms mega [OF d] mega [of "fst b"]
    by (auto simp: c2_ft8_125_def c2_ft8_122_def c2_wspr_125_def c2_wspr_122_def c2_ft8_def c2_wspr_def e_def)
  then have "0 \<le> \<lfloor>c2_hz p (c2_dial p (fst b))\<rfloor> \<and> \<lfloor>c2_hz p (c2_dial p (fst b))\<rfloor> < 2 ^ 32"
    by (simp add: floor_less_iff)
  then show ?thesis
    using \<open>0 \<le> c2_hz p (c2_dial p (fst b)) \<and> _\<close> by (simp add: c2_name_def)
qed

lemma c2_tune_defined:
  assumes "\<bar>corr\<bar> \<le> 100" and "list_all (\<lambda>f. 0 \<le> f \<and> f \<le> 60) fs" and "122 \<le> c2_clk p"
  shows "\<exists>s'. c2_tune p corr fs is s = Some s'"
proof (induction "is" arbitrary: s)
  case (Cons i "is")
  have "0 \<le> (if i < length fs then fs ! i else 0) \<and> (if i < length fs then fs ! i else 0) \<le> 60"
    using assms(2) by (simp add: list_all_length)
  then obtain w where "c2_word (c2_clk p) corr (if i < length fs then fs ! i else 0) = Some w"
    using c2_word_defined [OF assms(1) _ _ assms(3)] by blast
  then show ?case
    using Cons.IH by simp
qed simp

lemma c2_write_all:
  assumes "\<And>name. opens name" and "\<And>i b. b \<in> set bs \<Longrightarrow> \<exists>name. c2_name p date i b = Some name"
  shows "c2_write p bytes opens date buf i bs files = Some (None, files @
    map (\<lambda>k. (the (c2_name p date (i + k) (bs ! k)), c2_contents p bytes buf (i + k) (fst (bs ! k)))) [0..<length bs])"
  using assms(2)
proof (induction bs arbitrary: i files)
  case (Cons b bs)
  obtain name where name: "c2_name p date i b = Some name"
    using Cons.prems [of b i] by auto
  show ?case
    using Cons by (simp add: name assms(1) upt_conv_Cons map_Suc_upt [symmetric] del: upt_Suc)
qed simp

text \<open>C25. With a configuration whose frequencies are between 1 and 60 MHz, a FIFO that delivers the words of as
  many turns as the loop makes and files that open, the program ends normally with one file for each band.
  The file of band \<open>i\<close> holds, after its header and frequency, the words number \<open>i\<close>, \<open>i + 8\<close>, \<open>i + 16\<close> and
  so on of the FIFO (16 apart with 16 receivers) in order, then zeros up to its fixed size.\<close>

theorem c2_files_written:
  assumes "p \<in> {c2_ft8_125, c2_ft8_122, c2_wspr_125, c2_wspr_122}" and "c2_settings p (env_config env) args = Inr (corr, bs, v)"
    and "env_date env = Some date" and "env_memory env" and "\<And>name. env_opens env name"
    and "list_all (\<lambda>b. 1 \<le> fst b \<and> fst b \<le> 60) bs"
    and "list_all (c2_delivered p) ts" and "length ts = c2_limit p div 250"
  shows "\<exists>files. c2_main p env args ts s = Some (None, files) \<and> length files = length bs \<and>
    (\<forall>i<length bs. snd (files ! i) = c2_head p @ env_bytes env (c2_dial p (fst (bs ! i))) @
       concat (map (\<lambda>k. le64 (if k < c2_limit p then concat (map snd ts) ! (k * c2_recv p + i) else 0)) [0..<c2_size p]))"
proof -
  note ok = c2_settings_ok [OF assms(1,2)]
  have "\<bar>fl 53 (12288 / 100) - 12288 / 100\<bar> \<le> 1 / 2"
    by (rule order_trans [OF fl_error]) simp
  then have "122 \<le> fl 53 (12288 / 100)"
    by linarith
  then have clk: "122 \<le> c2_clk p"
    using assms(1) by (auto simp: c2_ft8_125_def c2_ft8_122_def c2_wspr_125_def c2_wspr_122_def c2_ft8_def c2_wspr_def)
  have "list_all (\<lambda>f. 0 \<le> f \<and> f \<le> 60) (map fst bs)"
    using assms(6) by (auto simp: list_all_iff)
  then obtain s1 where s1: "c2_setup p corr bs v s = Some s1"
    using c2_tune_defined [of corr "map fst bs" p "[0..<c2_recv p]" s] ok clk by (auto simp: c2_setup_def)
  obtain s2 where s2: "c2_record p ts s1 = Some s2" and
      bytes: "\<forall>i<c2_recv p. \<forall>f. c2_contents p (env_bytes env) (rec_buffer s2) i f = c2_head p @ env_bytes env (c2_dial p f) @
        concat (map (\<lambda>k. le64 (if k < c2_limit p then concat (map snd ts) ! (k * c2_recv p + i) else 0)) [0..<c2_size p])"
    using c2_demultiplexed [OF assms(1,7,8), of s1 "env_bytes env"] by (elim exE conjE) (rule that)
  have names: "\<exists>name. c2_name p date i b = Some name" if "b \<in> set bs" for i b
    using assms(6) that by (intro c2_name_defined [OF assms(1)]) (auto simp: list_all_iff)
  define files where "files = map (\<lambda>k. (the (c2_name p date k (bs ! k)),
      c2_contents p (env_bytes env) (rec_buffer s2) k (fst (bs ! k)))) [0..<length bs]"
  have "c2_main p env args ts s = Some (None, files)"
    using c2_write_all [OF assms(5) names, where i = 0 and files = "[]"] s1 s2 by (simp add: c2_main_def assms(2-4) files_def)
  moreover have "length files = length bs"
    by (simp add: files_def)
  moreover have "snd (files ! i) = c2_head p @ env_bytes env (c2_dial p (fst (bs ! i))) @
      concat (map (\<lambda>k. le64 (if k < c2_limit p then concat (map snd ts) ! (k * c2_recv p + i) else 0)) [0..<c2_size p])"
    if i: "i < length bs" for i
  proof -
    have "snd (files ! i) = c2_contents p (env_bytes env) (rec_buffer s2) i (fst (bs ! i))"
      using i by (simp add: files_def)
    also note bytes [rule_format, OF order_less_le_trans [OF i]]
    finally show ?thesis
      using ok by blast
  qed
  ultimately show ?thesis
    by (intro exI [of _ files] conjI allI impI)
qed

text \<open>Its witness: two bands and a constant signal.\<close>

definition c2_demo :: c2_env where
  "c2_demo = \<lparr>env_config = (\<lambda>_. Some \<lparr>cf_corr = Some 0, cf_bands = Some [\<lparr>band_freq = Some 7, band_chan = Some 1\<rparr>,
      \<lparr>band_freq = Some 14, band_chan = Some 2\<rparr>]\<rparr>), env_date = Some ''240101_0000'', env_memory = True,
    env_bytes = (\<lambda>_. replicate 8 0), env_opens = (\<lambda>_. True)\<rparr>"

definition c2_blank :: c2_state where
  "c2_blank = \<lparr>regs = (\<lambda>_. 0), trace = [], rec_offset = 0, rec_buffer = (\<lambda>_. 0)\<rparr>"

theorem c2_files_written_witness:
  "\<exists>files. c2_main c2_ft8_125 c2_demo [''file''] (replicate 944 ([3, 700], replicate 2000 5)) c2_blank = Some (None, files) \<and> length files = 2"
proof -
  have "length (replicate 944 ([3 :: u16, 700], replicate 2000 (5 :: u64))) = c2_limit c2_ft8_125 div 250"
    unfolding length_replicate by (simp add: c2_ft8_125_def c2_ft8_def)
  moreover have "c2_delivered c2_ft8_125 ([3, 700], replicate 2000 5)"
    unfolding c2_delivered_def fst_conv snd_conv length_replicate by (simp add: c2_ft8_125_def c2_ft8_def)
  then have "list_all (c2_delivered c2_ft8_125) (replicate 944 ([3, 700], replicate 2000 5))"
    unfolding list_all_iff by (auto dest: in_set_replicate [THEN iffD1])
  moreover have "c2_settings c2_ft8_125 (env_config c2_demo) [''file''] = Inr (0, [(7, 1), (14, 2)], 2)"
    by (simp add: c2_settings_def c2_demo_def c2_ft8_125_def c2_ft8_def)
  moreover have "env_date c2_demo = Some ''240101_0000''" "env_memory c2_demo" "env_opens c2_demo name" for name
    by (simp_all add: c2_demo_def)
  moreover have "list_all (\<lambda>b. 1 \<le> fst b \<and> fst b \<le> 60) [(7 :: rat, 1 :: u32), (14, 2)]"
    by simp
  ultimately show ?thesis
    using c2_files_written [of c2_ft8_125 c2_demo "[''file'']" 0 "[(7, 1), (14, 2)]" 2 "''240101_0000''"
        "replicate 944 ([3, 700], replicate 2000 5)" c2_blank] by fastforce
qed

end
