(* ===== verification/Wspr.thy ===== *)
theory Wspr
  imports Clib Doubles Acquire
begin

unbundle bit_operations_syntax

text \<open>
  \<open>app/transmit-wspr-message.c\<close> of \<open>sdr_transceiver_wspr\<close>: transmits a WSPR message. The settings are read
  with \<open>libconfig\<close>; the level of the transmitter is set, and the phase increments of the 162 tones of the
  message are written to the FIFO. The file of \<open>sdr_transceiver_wspr_122_88\<close> differs in the constants of
  \<open>wspr_board\<close> only. What \<open>libconfig\<close> finds, \<open>pow\<close> and \<open>get_wspr_channel_symbols\<close> are parameters.
\<close>

record wspr_board =
  wspr_clk :: rat
  wspr_coef :: nat

definition wspr_125 :: wspr_board where "wspr_125 = \<lparr>wspr_clk = clk_125, wspr_coef = 40\<rparr>"
definition wspr_122 :: wspr_board where "wspr_122 = \<lparr>wspr_clk = clk_122, wspr_coef = 72\<rparr>"

section \<open>The configuration\<close>

record wspr_file =
  wf_freq :: "rat option"
  wf_corr :: "rat option"
  wf_chan :: "u32 option"
  wf_level :: "rat option"
  wf_message :: "string option"

record wspr_settings =
  wspr_freq :: rat
  wspr_corr :: rat
  wspr_chan :: int
  wspr_level :: rat
  wspr_message :: string

datatype wspr_error = WsprUsage | WsprConfig | NoSetting string | WrongSetting string | WsprMemory

text \<open>A lookup and the check of its result.\<close>

definition setting :: "string \<Rightarrow> ('a \<Rightarrow> bool) \<Rightarrow> 'a option \<Rightarrow> ('a \<Rightarrow> wspr_error + 'b) \<Rightarrow> wspr_error + 'b" where
  "setting name ok v k =
     (case v of None \<Rightarrow> Inl (NoSetting name) | Some x \<Rightarrow> if ok x then k x else Inl (WrongSetting name))"

definition wspr_config :: "(string \<Rightarrow> wspr_file option) \<Rightarrow> string list \<Rightarrow> wspr_error + wspr_settings" where
  "wspr_config read args =
     (if length args \<noteq> 1 then Inl WsprUsage
      else case read (args ! 0) of None \<Rightarrow> Inl WsprConfig
      | Some f \<Rightarrow>
          setting ''freq'' (\<lambda>x. \<not> (x < fl 53 (1 / 10) \<or> x > 60)) (wf_freq f) (\<lambda>freq.
          setting ''corr'' (\<lambda>x. \<not> (x < - 100 \<or> x > 100)) (wf_corr f) (\<lambda>corr.
          setting ''chan'' (\<lambda>c. \<not> (sint c < 1 \<or> sint c > 2)) (wf_chan f) (\<lambda>chan.
          setting ''level'' (\<lambda>x. \<not> (x < - 90 \<or> x > 0)) (wf_level f) (\<lambda>level.
          setting ''message'' (\<lambda>m. \<not> length m > 22) (wf_message f) (\<lambda>message.
            Inr \<lparr>wspr_freq = freq, wspr_corr = corr, wspr_chan = sint chan, wspr_level = level, wspr_message = message\<rparr>))))))"

section \<open>Level and tones\<close>

text \<open>\<open>level > -90.0 ? floor(32766 * pow(10.0, level / 20.0) + 0.5) : 0.0\<close>, converted to 16 bits.\<close>

definition wspr_amplitude :: "(rat \<Rightarrow> rat \<Rightarrow> rat) \<Rightarrow> rat \<Rightarrow> u16 option" where
  "wspr_amplitude powf level =
     (let n = (if level > - 90 then \<lfloor>dadd (dmul 32766 (powf 10 (ddiv level 20))) (1 / 2)\<rfloor> else 0) in
      if 0 \<le> n \<and> n < 2 ^ 16 then Some (word_of_int n) else None)"

definition wspr_dphi :: "rat \<Rightarrow> rat \<Rightarrow> u8 \<Rightarrow> rat" where
  "wspr_dphi clk freq tone =
     ddiv (dadd (dmul freq 1000000) (ddiv (dmul (dadd (of_nat (unat tone)) (- 3 / 2)) 375) 256)) clk"

definition wspr_word :: "rat \<Rightarrow> rat \<Rightarrow> rat \<Rightarrow> u8 \<Rightarrow> u32 option" where
  "wspr_word clk freq corr tone =
     (let n = \<lfloor>dadd (dmul (dmul (dadd 1 (dmul (fl 53 (1 / 1000000)) corr)) (wspr_dphi clk freq tone)) (2 ^ 30)) (1 / 2)\<rfloor> in
      if 0 \<le> n \<and> n < 2 ^ 32 then Some (word_of_int n) else None)"

text \<open>The loop over the symbols.\<close>

fun wspr_tones :: "rat \<Rightarrow> rat \<Rightarrow> rat \<Rightarrow> u8 list \<Rightarrow> machine \<Rightarrow> machine option" where
  "wspr_tones clk freq corr [] s = Some s"
| "wspr_tones clk freq corr (x # xs) s =
     (case wspr_word clk freq corr x of None \<Rightarrow> None | Some w \<Rightarrow> wspr_tones clk freq corr xs (emit (Port Fifo w) s))"

definition wspr_transmit :: "wspr_board \<Rightarrow> (rat \<Rightarrow> rat \<Rightarrow> rat) \<Rightarrow> (string \<Rightarrow> u8 list) \<Rightarrow> wspr_settings \<Rightarrow> machine \<Rightarrow> machine option" where
  "wspr_transmit b powf symbols st s =
     (case wspr_amplitude powf (wspr_level st) of None \<Rightarrow> None
      | Some level \<Rightarrow>
          let s = (if wspr_chan st = 1 then wr16 (wspr_coef b + 2) 0 (wr16 (wspr_coef b) level s)
                   else wr16 (wspr_coef b + 2) level (wr16 (wspr_coef b) 0 s));
              s = pulse (rd8 1) (wr8 1) 1 s in
          wspr_tones (wspr_clk b) (wspr_freq st) (wspr_corr st) (take 162 (symbols (wspr_message st))) s)"

definition wspr_main :: "wspr_board \<Rightarrow> (rat \<Rightarrow> rat \<Rightarrow> rat) \<Rightarrow> (string \<Rightarrow> u8 list) \<Rightarrow> (string \<Rightarrow> wspr_file option) \<Rightarrow> bool \<Rightarrow>
    string list \<Rightarrow> machine \<Rightarrow> (wspr_error + machine) option" where
  "wspr_main b powf symbols read mem args s =
     (case wspr_config read args of Inl e \<Rightarrow> Some (Inl e)
      | Inr st \<Rightarrow> if \<not> mem then Some (Inl WsprMemory) else map_option Inr (wspr_transmit b powf symbols st s))"

section \<open>How exact the tones are\<close>

definition wspr_exact :: "rat \<Rightarrow> rat \<Rightarrow> rat \<Rightarrow> u8 \<Rightarrow> rat" where
  "wspr_exact clk freq corr tone =
     (1 + corr / 1000000) * ((freq * 1000000 + (of_nat (unat tone) - 3 / 2) * 375 / 256) / clk) * 2 ^ 30"

text \<open>The phase of a tone in one cycle of the clock.\<close>

lemma tone_offset_near:
  assumes "k < 4"
  shows "\<bar>ddiv (dmul (dadd (of_nat k) (- 3 / 2)) 375) 256 - (of_nat k - 3 / 2) * 375 / 256\<bar> \<le> 1 / 2 ^ 49"
proof -
  define t where "t = (of_nat k - 3 / 2 :: rat)"
  have "k = 0 \<or> k = 1 \<or> k = 2 \<or> k = 3"
    using assms by auto
  then have t: "\<bar>t\<bar> \<le> 3 / 2"
    by (auto simp: t_def)
  have "\<bar>dadd (of_nat k) (- 3 / 2) - t\<bar> \<le> 0 + (3 / 2 + 0) / 2 ^ 53"
    unfolding dadd_def using t by (intro double.rnd_within) (auto simp: t_def)
  then have "\<bar>dadd (of_nat k) (- 3 / 2) * 375 - t * 375\<bar> \<le> 3 / 2 / 2 ^ 53 * 375 + 3 / 2 * 0"
    using t by (intro product_near) auto
  then have "\<bar>dmul (dadd (of_nat k) (- 3 / 2)) 375 - t * 375\<bar> \<le> 3 / 2 / 2 ^ 53 * 375 + (1125 / 2 + 3 / 2 / 2 ^ 53 * 375) / 2 ^ 53"
    unfolding dmul_def using t by (intro double.rnd_within) (auto simp: abs_mult)
  then have "\<bar>dmul (dadd (of_nat k) (- 3 / 2)) 375 * (1 / 256) - t * 375 * (1 / 256)\<bar> \<le> 1 / 2 ^ 42 * (1 / 256) + 1000 * 0"
    using t by (intro product_near) (auto simp: abs_mult)
  then have "\<bar>fl 53 (dmul (dadd (of_nat k) (- 3 / 2)) 375 / 256) - t * 375 / 256\<bar> \<le> 1 / 2 ^ 42 * (1 / 256) + (3 + 1 / 2 ^ 42 * (1 / 256)) / 2 ^ 53"
    using t by (intro double.rnd_within) (auto simp: abs_mult)
  then show ?thesis
    unfolding ddiv_def t_def by (rule order_trans) simp
qed

lemma tone_size:
  fixes freq :: rat
  assumes "k < 4" and "1 / 20 \<le> freq" and "freq \<le> 60"
  shows "40000 \<le> freq * 1000000 + (of_nat k - 3 / 2) * 375 / 256" "freq * 1000000 + (of_nat k - 3 / 2) * 375 / 256 \<le> 60000003"
proof -
  have "k = 0 \<or> k = 1 \<or> k = 2 \<or> k = 3"
    using assms(1) by auto
  then show "40000 \<le> freq * 1000000 + (of_nat k - 3 / 2) * 375 / 256" "freq * 1000000 + (of_nat k - 3 / 2) * 375 / 256 \<le> 60000003"
    using assms(2,3) by auto
qed

lemma dphi_near:
  assumes "unat tone < 4" and "1 / 20 \<le> freq" and "freq \<le> 60" and "clk = clk_125 \<or> clk = clk_122"
  shows "\<bar>wspr_dphi clk freq tone - (freq * 1000000 + (of_nat (unat tone) - 3 / 2) * 375 / 256) / clk\<bar> \<le> 1 / 2 ^ 50"
proof -
  define k where "k = unat tone"
  define S where "S = freq * 1000000 + (of_nat k - 3 / 2) * 375 / 256"
  define a where "a = ddiv (dmul (dadd (of_nat k) (- 3 / 2)) 375) 256"
  have k: "k < 4"
    using assms(1) by (simp add: k_def)
  have S: "40000 \<le> S" "S \<le> 60000003"
    using tone_size [OF k assms(2,3)] by (simp_all add: S_def)
  have clk: "122880000 \<le> clk"
    using assms(4) by auto
  have "\<bar>dmul freq 1000000 - freq * 1000000\<bar> \<le> 0 + (60000000 + 0) / 2 ^ 53"
    unfolding dmul_def using assms(2,3) by (intro double.rnd_within) auto
  moreover have "\<bar>a - (of_nat k - 3 / 2) * 375 / 256\<bar> \<le> 1 / 2 ^ 49"
    using tone_offset_near [OF k] by (simp add: a_def)
  ultimately have "\<bar>(dmul freq 1000000 + a) - S\<bar> \<le> (0 + (60000000 + 0) / 2 ^ 53) + 1 / 2 ^ 49"
    unfolding S_def by linarith
  then have "\<bar>(dmul freq 1000000 + a) - S\<bar> \<le> 1 / 2 ^ 26"
    by (rule order_trans) simp
  then have "\<bar>dadd (dmul freq 1000000) a - S\<bar> \<le> 1 / 2 ^ 26 + (60000003 + 1 / 2 ^ 26) / 2 ^ 53"
    unfolding dadd_def using S by (intro double.rnd_within) auto
  moreover have "0 \<le> 1 / clk" "1 / clk \<le> 1 / 122880000"
    using clk by (simp_all add: frac_le)
  ultimately have "\<bar>dadd (dmul freq 1000000) a * (1 / clk) - S * (1 / clk)\<bar> \<le> 1 / 2 ^ 25 * (1 / 122880000) + 60000003 * 0"
    using S by (intro product_near) auto
  then have "\<bar>dadd (dmul freq 1000000) a / clk - S / clk\<bar> \<le> 1 / 2 ^ 51"
    by simp
  moreover have "\<bar>S / clk\<bar> \<le> 60000003 / 122880000"
    using S clk unfolding abs_divide by (intro frac_le) auto
  ultimately have "\<bar>fl 53 (dadd (dmul freq 1000000) a / clk) - S / clk\<bar> \<le> 1 / 2 ^ 51 + (60000003 / 122880000 + 1 / 2 ^ 51) / 2 ^ 53"
    by (rule double.rnd_within)
  then show ?thesis
    unfolding wspr_dphi_def ddiv_def [of _ clk] k_def [symmetric] a_def [symmetric] S_def [symmetric] by simp
qed

text \<open>The whole expression before it is cut to an integer.\<close>

lemma wspr_value_near:
  assumes "unat tone < 4" and "1 / 20 \<le> freq" and "freq \<le> 60" and "clk = clk_125 \<or> clk = clk_122" and "\<bar>corr\<bar> \<le> 100"
  shows "\<bar>dadd (dmul (dmul (dadd 1 (dmul (fl 53 (1 / 1000000)) corr)) (wspr_dphi clk freq tone)) (2 ^ 30)) (1 / 2)
      - (wspr_exact clk freq corr tone + 1 / 2)\<bar> \<le> 1 / 2 ^ 16"
    and "300000 \<le> wspr_exact clk freq corr tone" and "wspr_exact clk freq corr tone < 2 ^ 29"
proof -
  define c C d D where "c = dadd 1 (dmul (fl 53 (1 / 1000000)) corr)" and "C = 1 + corr / 1000000"
    and "d = wspr_dphi clk freq tone" and "D = (freq * 1000000 + (of_nat (unat tone) - 3 / 2) * 375 / 256) / clk"
  have ex: "wspr_exact clk freq corr tone = C * D * 2 ^ 30"
    by (simp add: wspr_exact_def C_def D_def)
  have C: "9999 / 10000 \<le> C" "C \<le> 10001 / 10000"
    using assms(5) by (auto simp: C_def)
  have D: "40000 / 125000000 \<le> D" "D \<le> 60000003 / 122880000"
  proof -
    define S where "S = freq * 1000000 + (of_nat (unat tone) - 3 / 2) * 375 / 256"
    have "40000 \<le> S" "S \<le> 60000003" "122880000 \<le> clk" "clk \<le> 125000000"
      using tone_size [OF assms(1-3)] assms(4) by (auto simp only: S_def)
    then show "40000 / 125000000 \<le> D" "D \<le> 60000003 / 122880000"
      unfolding D_def S_def [symmetric] by (intro frac_le; simp)+
  qed
  have near: "\<bar>c - C\<bar> \<le> 1 / 2 ^ 52" "\<bar>d - D\<bar> \<le> 1 / 2 ^ 50"
    using correction_near [OF assms(5)] dphi_near [OF assms(1-4)] by (simp_all add: c_def C_def d_def D_def)
  have "\<bar>d - D\<bar> \<le> 1 / 2"
    using near(2) by (rule order_trans) simp
  moreover have "0 \<le> D" "D \<le> 1 / 2"
    using D by simp_all
  ultimately have "\<bar>d\<bar> \<le> 1"
    by linarith
  then have "\<bar>c * d - C * D\<bar> \<le> 1 / 2 ^ 52 * 1 + 2 * (1 / 2 ^ 50)"
    using near C by (intro product_near) auto
  moreover have "\<bar>C * D\<bar> \<le> 10001 / 10000 * (60000003 / 122880000)"
    using C D unfolding abs_mult by (intro mult_mono) auto
  ultimately have "\<bar>dmul c d - C * D\<bar> \<le> 1 / 2 ^ 52 * 1 + 2 * (1 / 2 ^ 50) + (10001 / 10000 * (60000003 / 122880000) + (1 / 2 ^ 52 * 1 + 2 * (1 / 2 ^ 50))) / 2 ^ 53"
    unfolding dmul_def by (rule double.rnd_within)
  then have "\<bar>dmul c d * 2 ^ 30 - C * D * 2 ^ 30\<bar> \<le> 1 / 2 ^ 48 * 2 ^ 30 + 1 * 0"
    using \<open>\<bar>C * D\<bar> \<le> _\<close> by (intro product_near) auto
  moreover have CD: "\<bar>C * D * 2 ^ 30\<bar> \<le> 10001 / 10000 * (60000003 / 122880000) * 2 ^ 30"
    using \<open>\<bar>C * D\<bar> \<le> _\<close> unfolding abs_mult [of _ "2 ^ 30"] by (intro mult_mono) auto
  ultimately have "\<bar>dmul (dmul c d) (2 ^ 30) - C * D * 2 ^ 30\<bar> \<le> 1 / 2 ^ 48 * 2 ^ 30 + 1 * 0
      + (10001 / 10000 * (60000003 / 122880000) * 2 ^ 30 + (1 / 2 ^ 48 * 2 ^ 30 + 1 * 0)) / 2 ^ 53"
    unfolding dmul_def [of _ "2 ^ 30"] by (rule double.rnd_within)
  then have "\<bar>(dmul (dmul c d) (2 ^ 30) + 1 / 2) - (C * D * 2 ^ 30 + 1 / 2)\<bar> \<le> 1 / 2 ^ 17"
    by simp
  moreover have "\<bar>C * D * 2 ^ 30 + 1 / 2\<bar> \<le> 2 ^ 29"
    using CD by simp
  ultimately have "\<bar>dadd (dmul (dmul c d) (2 ^ 30)) (1 / 2) - (C * D * 2 ^ 30 + 1 / 2)\<bar> \<le> 1 / 2 ^ 17 + (2 ^ 29 + 1 / 2 ^ 17) / 2 ^ 53"
    unfolding dadd_def by (rule double.rnd_within)
  then show "\<bar>dadd (dmul (dmul c d) (2 ^ 30)) (1 / 2) - (wspr_exact clk freq corr tone + 1 / 2)\<bar> \<le> 1 / 2 ^ 16"
    unfolding ex by simp
  have "9999 / 10000 * (40000 / 125000000) \<le> C * D"
    using C D by (intro mult_mono) auto
  then show "300000 \<le> wspr_exact clk freq corr tone" "wspr_exact clk freq corr tone < 2 ^ 29"
    using CD unfolding ex by simp_all
qed

text \<open>The integer part, and so the word.\<close>

lemma wspr_word_near:
  assumes "unat tone < 4" and "1 / 20 \<le> freq" and "freq \<le> 60" and "clk = clk_125 \<or> clk = clk_122" and "\<bar>corr\<bar> \<le> 100"
  shows "\<exists>w. wspr_word clk freq corr tone = Some w \<and> \<bar>of_nat (unat w) - wspr_exact clk freq corr tone\<bar> \<le> 1 / 2 + 1 / 2 ^ 16"
proof -
  define x where "x = dadd (dmul (dmul (dadd 1 (dmul (fl 53 (1 / 1000000)) corr)) (wspr_dphi clk freq tone)) (2 ^ 30)) (1 / 2)"
  define e where "e = wspr_exact clk freq corr tone"
  note near = wspr_value_near [OF assms, folded x_def e_def]
  have small: "\<bar>x - (e + 1 / 2)\<bar> \<le> 1"
    using near(1) by (rule order_trans) simp
  have fl: "of_int \<lfloor>x\<rfloor> \<le> x" "x < of_int \<lfloor>x\<rfloor> + 1"
    by linarith+
  have "0 \<le> x" "x < 2 ^ 30"
    using small near(2,3) by simp_all
  then have range: "0 \<le> \<lfloor>x\<rfloor>" "\<lfloor>x\<rfloor> < 2 ^ 30"
    by (simp_all add: floor_less_iff)
  then have "of_nat (unat (word_of_int \<lfloor>x\<rfloor> :: u32)) = (of_int \<lfloor>x\<rfloor> :: rat)"
    by (simp add: unsigned_of_int take_bit_int_eq_self)
  moreover have "\<bar>of_int \<lfloor>x\<rfloor> - e\<bar> \<le> 1 / 2 + 1 / 2 ^ 16"
    using near(1) fl by linarith
  ultimately show ?thesis
    using range unfolding wspr_word_def x_def [symmetric] e_def [symmetric] Let_def
    by (intro exI [of _ "word_of_int \<lfloor>x\<rfloor>"]) simp
qed

lemma wspr_tones_near:
  assumes "list_all (\<lambda>t. unat t < 4) ts" and "1 / 20 \<le> freq" and "freq \<le> 60" and "clk = clk_125 \<or> clk = clk_122" and "\<bar>corr\<bar> \<le> 100"
  shows "\<exists>s' ws. wspr_tones clk freq corr ts s = Some s' \<and> trace s' = trace s @ map (Port Fifo) ws \<and> regs s' = regs s \<and>
    list_all2 (\<lambda>t w. \<bar>of_nat (unat w) - wspr_exact clk freq corr t\<bar> \<le> 1 / 2 + 1 / 2 ^ 16) ts ws"
  using assms(1)
proof (induction ts arbitrary: s)
  case (Cons t ts)
  obtain w where w: "wspr_word clk freq corr t = Some w" "\<bar>of_nat (unat w) - wspr_exact clk freq corr t\<bar> \<le> 1 / 2 + 1 / 2 ^ 16"
    using wspr_word_near [OF _ assms(2-5), of t] Cons.prems by auto
  obtain s' ws where s': "wspr_tones clk freq corr ts (emit (Port Fifo w) s) = Some s'" "trace s' = trace s @ map (Port Fifo) (w # ws)"
      "regs s' = regs s" "list_all2 (\<lambda>t w. \<bar>of_nat (unat w) - wspr_exact clk freq corr t\<bar> \<le> 1 / 2 + 1 / 2 ^ 16) ts ws"
    using Cons.IH [of "emit (Port Fifo w) s"] Cons.prems by auto
  have "list_all2 (\<lambda>t w. \<bar>of_nat (unat w) - wspr_exact clk freq corr t\<bar> \<le> 1 / 2 + 1 / 2 ^ 16) (t # ts) (w # ws)"
    using w(2) s'(4) by (simp only: list_all2_Cons simp_thms)
  then show ?case
    using s' w(1) by (intro exI [of _ s'] exI [of _ "w # ws"]) simp
qed simp

text \<open>The amplitude, for a \<open>pow\<close> with values between 0 and 1 for exponents that are not positive.\<close>

lemma wspr_amplitude_fits:
  assumes "\<And>x. x \<le> 0 \<Longrightarrow> 0 \<le> powf 10 x \<and> powf 10 x \<le> 1" and "level \<le> 0"
  shows "\<exists>a. wspr_amplitude powf level = Some a \<and> a \<le> 32766"
proof (cases "level > - 90")
  case True
  define p where "p = powf 10 (ddiv level 20)"
  have "ddiv level 20 \<le> 0"
    unfolding ddiv_def using fl_nonneg [of "- (level / 20)" 53] assms(2) by (simp add: fl_minus)
  then have p: "0 \<le> p" "p \<le> 1"
    using assms(1) by (simp_all add: p_def)
  define x where "x = dadd (dmul 32766 p) (1 / 2)"
  have "0 \<le> dmul 32766 p"
    unfolding dmul_def using p by (intro fl_nonneg) simp
  then have "0 \<le> x"
    unfolding x_def dadd_def by (intro fl_nonneg) simp
  have "\<bar>dmul 32766 p - 32766 * p\<bar> \<le> 0 + (32766 + 0) / 2 ^ 53"
    unfolding dmul_def using p by (intro double.rnd_within) auto
  then have "\<bar>(dmul 32766 p + 1 / 2) - (32766 * p + 1 / 2)\<bar> \<le> 1 / 2 ^ 30"
    by simp
  then have "\<bar>x - (32766 * p + 1 / 2)\<bar> \<le> 1 / 2 ^ 30 + (32767 + 1 / 2 ^ 30) / 2 ^ 53"
    unfolding x_def dadd_def using p by (intro double.rnd_within) auto
  then have "\<bar>x - (32766 * p + 1 / 2)\<bar> \<le> 1 / 4"
    by (rule order_trans) simp
  then have "x < 32767"
    using p by linarith
  then have "0 \<le> \<lfloor>x\<rfloor>" "\<lfloor>x\<rfloor> \<le> 32766"
    using \<open>0 \<le> x\<close> by (simp_all add: floor_le_iff)
  then show ?thesis
    using True unfolding wspr_amplitude_def p_def [symmetric] x_def [symmetric]
    by (simp add: word_le_def uint_word_of_int_eq take_bit_int_eq_self)
qed (simp add: wspr_amplitude_def)

lemma tenth: "1 / 20 \<le> fl 53 (1 / 10)" "fl 53 (1 / 10) \<le> 1"
proof -
  have "\<bar>fl 53 (1 / 10) - 1 / 10\<bar> \<le> 1 / 10 / 2 ^ 53"
    using fl_error [of 53 "1 / 10"] by simp
  then have "\<bar>fl 53 (1 / 10) - 1 / 10\<bar> \<le> 1 / 20"
    by (rule order_trans) simp
  then show "1 / 20 \<le> fl 53 (1 / 10)" "fl 53 (1 / 10) \<le> 1"
    by linarith+
qed

text \<open>What the accepted settings are.\<close>

lemma wspr_config_ok:
  assumes "wspr_config read args = Inr st"
  shows "1 / 20 \<le> wspr_freq st \<and> wspr_freq st \<le> 60 \<and> \<bar>wspr_corr st\<bar> \<le> 100 \<and> wspr_chan st \<in> {1, 2} \<and>
    - 90 \<le> wspr_level st \<and> wspr_level st \<le> 0 \<and> length (wspr_message st) \<le> 22"
proof -
  have "1 / 20 \<le> fl 53 (1 / 10)"
    by (rule tenth(1))
  then show ?thesis
    using assms by (auto simp: wspr_config_def setting_def split: if_splits option.splits)
qed

text \<open>C40. With settings the program accepts, on either board, everything it computes is defined: one transmitter has an
  amplitude of at most 32766 and the other 0, and each of the 162 words written to the FIFO is the phase
  increment of its tone, with the correction, to within half a step and \<open>2 ^ -16\<close>. The symbols are below 4
  and \<open>pow\<close> is between 0 and 1 for exponents that are not positive.\<close>

theorem wspr_message_transmitted:
  assumes "wspr_config read args = Inr st" and "b = wspr_125 \<or> b = wspr_122"
    and "\<And>x. x \<le> 0 \<Longrightarrow> 0 \<le> powf 10 x \<and> powf 10 x \<le> 1"
    and "length (symbols (wspr_message st)) = 162" and "list_all (\<lambda>t. unat t < 4) (symbols (wspr_message st))"
  shows "\<exists>s' ws a. wspr_transmit b powf symbols st s = Some s' \<and> a \<le> 32766 \<and>
    rd16 (wspr_coef b) s' = (if wspr_chan st = 1 then a else 0) \<and> rd16 (wspr_coef b + 2) s' = (if wspr_chan st = 1 then 0 else a) \<and>
    fifo_words (drop (length (trace s)) (trace s')) = ws \<and> length ws = 162 \<and>
    list_all2 (\<lambda>t w. \<bar>of_nat (unat w) - wspr_exact (wspr_clk b) (wspr_freq st) (wspr_corr st) t\<bar> \<le> 1 / 2 + 1 / 2 ^ 16)
      (symbols (wspr_message st)) ws"
proof -
  note ok = wspr_config_ok [OF assms(1)]
  have clk: "wspr_clk b = clk_125 \<or> wspr_clk b = clk_122" and coef: "3 \<le> wspr_coef b"
    using assms(2) by (auto simp: wspr_125_def wspr_122_def)
  obtain a where a: "wspr_amplitude powf (wspr_level st) = Some a" "a \<le> 32766"
    using wspr_amplitude_fits [of powf "wspr_level st"] assms(3) ok by blast
  define s1 where "s1 = (if wspr_chan st = 1 then wr16 (wspr_coef b + 2) 0 (wr16 (wspr_coef b) a s)
      else wr16 (wspr_coef b + 2) a (wr16 (wspr_coef b) 0 s))"
  define s2 where "s2 = pulse (rd8 1) (wr8 1) 1 s1"
  have r1: "rd16 (wspr_coef b) s1 = (if wspr_chan st = 1 then a else 0)" "rd16 (wspr_coef b + 2) s1 = (if wspr_chan st = 1 then 0 else a)"
    by (simp_all add: s1_def)
  have r2: "rd16 off s2 = rd16 off s1" if "3 \<le> off" for off
    using that by (simp add: s2_def pulse_def reg_set_def reg_clear_def)
  have "\<exists>es. trace s2 = trace s @ es \<and> fifo_words es = []"
    by (cases "wspr_chan st = 1") (simp_all add: s2_def s1_def pulse_def reg_set_def reg_clear_def)
  then obtain es where es: "trace s2 = trace s @ es" "fifo_words es = []"
    by blast
  obtain s' ws where s': "wspr_tones (wspr_clk b) (wspr_freq st) (wspr_corr st) (symbols (wspr_message st)) s2 = Some s'"
      "trace s' = trace s2 @ map (Port Fifo) ws" "regs s' = regs s2"
      "list_all2 (\<lambda>t w. \<bar>of_nat (unat w) - wspr_exact (wspr_clk b) (wspr_freq st) (wspr_corr st) t\<bar> \<le> 1 / 2 + 1 / 2 ^ 16)
        (symbols (wspr_message st)) ws"
    using wspr_tones_near [OF assms(5) _ _ clk, of "wspr_freq st" "wspr_corr st" s2] ok by blast
  have "wspr_transmit b powf symbols st s = Some s'"
    using s'(1) assms(4) by (simp add: wspr_transmit_def a s1_def s2_def)
  moreover have same: "rd16 off s' = rd16 off s1" if "3 \<le> off" for off
    using r2 [OF that] s'(3) by (simp add: rd16_def)
  moreover have "rd16 (wspr_coef b) s' = (if wspr_chan st = 1 then a else 0)"
      "rd16 (wspr_coef b + 2) s' = (if wspr_chan st = 1 then 0 else a)"
    using same [of "wspr_coef b"] same [of "wspr_coef b + 2"] coef r1 by simp_all
  moreover have "fifo_words (drop (length (trace s)) (trace s')) = ws"
    by (simp add: s'(2) es)
  moreover have "length ws = 162"
    using list_all2_lengthD [OF s'(4)] assms(4) by simp
  ultimately show ?thesis
    using a(2) s'(4) by (intro exI [of _ s'] exI [of _ ws] exI [of _ a] conjI)
qed

definition wspr_demo :: wspr_settings where
  "wspr_demo = \<lparr>wspr_freq = 14, wspr_corr = 5, wspr_chan = 2, wspr_level = - 10, wspr_message = ''W1AW FN31 37''\<rparr>"

definition wspr_blank :: machine where
  "wspr_blank = \<lparr>regs = (\<lambda>_. 0), trace = []\<rparr>"

theorem wspr_message_transmitted_witness:
  "\<exists>s' ws. wspr_transmit wspr_125 (\<lambda>_ _. 1 / 2) (\<lambda>_. replicate 162 3) wspr_demo wspr_blank = Some s' \<and> length ws = 162 \<and>
    fifo_words (drop 0 (trace s')) = ws \<and> rd16 40 s' = 0"
proof -
  define read where "read = (\<lambda>name :: string. Some \<lparr>wf_freq = Some (14 :: rat), wf_corr = Some (5 :: rat), wf_chan = Some (2 :: u32),
    wf_level = Some (- 10 :: rat), wf_message = Some ''W1AW FN31 37''\<rparr>)"
  define symbols where "symbols = (\<lambda>_ :: string. replicate 162 (3 :: u8))"
  have "\<not> 14 < fl 53 (1 / 10)"
    using tenth(2) by simp
  then have c: "wspr_config read [''file''] = Inr wspr_demo"
    by (simp add: wspr_config_def setting_def read_def wspr_demo_def)
  have symb: "length (symbols m) = 162" "list_all (\<lambda>t. unat t < 4) (symbols m)" for m
    unfolding symbols_def by (simp_all only: length_replicate list_all_iff) auto
  have p: "0 \<le> (1 / 2 :: rat) \<and> 1 / 2 \<le> (1 :: rat)"
    by simp
  from wspr_message_transmitted [OF c, of wspr_125 "\<lambda>_ _. 1 / 2" symbols wspr_blank] p symb
  obtain s' ws a where "wspr_transmit wspr_125 (\<lambda>_ _. 1 / 2) symbols wspr_demo wspr_blank = Some s'"
      "rd16 (wspr_coef wspr_125) s' = (if wspr_chan wspr_demo = 1 then a else 0)"
      "fifo_words (drop (length (trace wspr_blank)) (trace s')) = ws" "length ws = 162"
    by blast
  then show ?thesis
    by (intro exI [of _ s'] exI [of _ ws]) (simp add: symbols_def [symmetric] wspr_125_def wspr_demo_def wspr_blank_def)
qed

end
