(* ===== verification/Playground.thy ===== *)
theory Playground
  imports Acquire
begin

unbundle bit_operations_syntax

text \<open>
  \<open>projects/playground/server/playground.c\<close>: reads and writes the memory of the FPGA's hub for a client, and
  passes a bitstream on to the configuration device. The bytes of the client are one list; \<open>recv\<close> with
  \<open>MSG_WAITALL\<close> delivers fewer bytes than asked for only at its end. The hub is memory here: what a read of
  a device register does beside is left out. \<open>regs\<close> are the 128 MB mapped at \<open>hub\<close>.
\<close>

record playground = machine +
  pg_command :: "u8 list"    \<comment> \<open>the eight bytes of \<open>command\<close>\<close>
  pg_buffer :: "nat \<Rightarrow> u8"     \<comment> \<open>the 16 MB of \<open>buffer\<close>\<close>
  pg_configured :: "u8 list list"

definition pg_hub :: nat where "pg_hub = 32768 * 4096"
definition pg_room :: nat where "pg_room = 16777216"

section \<open>The server\<close>

definition pg_code :: "u64 \<Rightarrow> u64" where "pg_code c = drop_bit 52 c AND 0xf"
definition pg_size :: "u64 \<Rightarrow> nat" where "pg_size c = unat (drop_bit 28 c AND 0xffffff)"
definition pg_addr :: "u64 \<Rightarrow> nat" where "pg_addr c = unat (c AND 0xfffffff)"

text \<open>\<open>memcpy\<close> and \<open>recv\<close> to the start of the buffer.\<close>

definition pg_fill :: "u8 list \<Rightarrow> (nat \<Rightarrow> u8) \<Rightarrow> nat \<Rightarrow> u8" where
  "pg_fill bs buf = (\<lambda>k. if k < length bs then bs ! k else buf k)"

definition pg_receive :: "nat \<Rightarrow> u8 list \<Rightarrow> playground \<Rightarrow> playground" where
  "pg_receive n bs s = s\<lparr>pg_buffer := pg_fill (take n bs) (pg_buffer s)\<rparr>"

text \<open>A copy of \<open>n\<close> bytes between the hub and the buffer stays inside both.\<close>

definition pg_inside :: "nat \<Rightarrow> nat \<Rightarrow> bool" where
  "pg_inside a n \<longleftrightarrow> n = 0 \<or> (a + n \<le> pg_hub \<and> n \<le> pg_room)"

text \<open>One command, with the bytes that follow it: the bytes left, and the new state. \<open>None\<close>: an access outside.\<close>

definition pg_obey :: "u64 \<Rightarrow> u8 list \<Rightarrow> playground \<Rightarrow> (u8 list \<times> playground) option" where
  "pg_obey c bs s =
     (let n = pg_size c; a = pg_addr c in
      if pg_code c = 0 then
        if pg_inside a n then
          let d = map (regs s) [a..<a + n] in Some (bs, emit (Send d) (s\<lparr>pg_buffer := pg_fill d (pg_buffer s)\<rparr>))
        else None
      else if pg_code c = 1 then
        let s = pg_receive n bs s in
        if pg_inside a n then Some (drop n bs, store a (map (pg_buffer s) [0..<n]) s) else None
      else if pg_code c = 2 then
        let s = pg_receive n bs s in
        Some (drop n bs, s\<lparr>pg_configured := pg_configured s @ [map (pg_buffer s) [0..<n]]\<rparr>)
      else Some (bs, s))"

definition pg_word :: "u8 list \<Rightarrow> u64" where
  "pg_word b = join64 (b ! 0) (b ! 1) (b ! 2) (b ! 3) (b ! 4) (b ! 5) (b ! 6) (b ! 7)"

lemma pg_obey_rest: "pg_obey c bs s = Some (bs', s') \<Longrightarrow> length bs' \<le> length bs"
  by (auto simp: pg_obey_def Let_def split: if_splits)

text \<open>The loop over the commands of a client; it ends with the connection.\<close>

function pg_client :: "u8 list \<Rightarrow> playground \<Rightarrow> playground option" where
  "pg_client bs s =
     (if bs = [] then Some s
      else let s = s\<lparr>pg_command := blit (pg_command s) 0 (take 8 bs)\<rparr> in
        case pg_obey (pg_word (pg_command s)) (drop 8 bs) s of None \<Rightarrow> None
        | Some (bs, s) \<Rightarrow> pg_client bs s)"
  by pat_completeness auto
termination
proof (relation "measure (length \<circ> fst)")
  fix bs bs' :: "u8 list" and s t s' x p
  assume "bs \<noteq> []" "pg_obey (pg_word (pg_command t)) (drop 8 bs) t = Some p" "(bs', s') = p"
  then show "((bs', s'), (bs, s)) \<in> measure (length \<circ> fst)"
    using pg_obey_rest [of "pg_word (pg_command t)" "drop 8 bs" t bs' s'] by (cases bs) auto
qed simp

declare pg_client.simps [simp del]

text \<open>The size has 24 bits and fits the buffer; the address has 28 bits and may lie outside the hub.\<close>

lemma pg_size_less: "pg_size c < pg_room"
proof -
  have "drop_bit 28 c AND 0xffffff \<le> (0xffffff :: u64)"
    by (simp add: word_and_le1)
  then show ?thesis
    by (simp add: pg_size_def pg_room_def word_le_nat_alt)
qed

lemma pg_obey_outside:
  "pg_obey c bs s = None \<longleftrightarrow> (pg_code c = 0 \<or> pg_code c = 1) \<and> pg_size c \<noteq> 0 \<and> pg_hub < pg_addr c + pg_size c"
  using pg_size_less [of c] by (auto simp: pg_obey_def Let_def pg_inside_def)

section \<open>A client's view\<close>

text \<open>The operations a client can ask for, their bytes, and what they mean for a memory: the memory after them,
  the bytes sent back, the bitstreams passed on.\<close>

datatype pg_op = Peek nat nat | Poke nat "u8 list" | Configure "u8 list"

definition pg_pack :: "u64 \<Rightarrow> nat \<Rightarrow> nat \<Rightarrow> u64" where
  "pg_pack code n a = push_bit 52 code OR push_bit 28 (word_of_nat n) OR word_of_nat a"

fun pg_encode :: "pg_op \<Rightarrow> u8 list" where
  "pg_encode (Peek a n) = le64 (pg_pack 0 n a)"
| "pg_encode (Poke a bs) = le64 (pg_pack 1 (length bs) a) @ bs"
| "pg_encode (Configure bs) = le64 (pg_pack 2 (length bs) 0) @ bs"

fun pg_sensible :: "pg_op \<Rightarrow> bool" where
  "pg_sensible (Peek a n) \<longleftrightarrow> n < pg_room \<and> a + n \<le> pg_hub"
| "pg_sensible (Poke a bs) \<longleftrightarrow> length bs < pg_room \<and> a + length bs \<le> pg_hub"
| "pg_sensible (Configure bs) \<longleftrightarrow> length bs < pg_room"

fun pg_effect :: "pg_op \<Rightarrow> (nat \<Rightarrow> u8) \<Rightarrow> nat \<Rightarrow> u8" where
  "pg_effect (Poke a bs) m = (\<lambda>k. if a \<le> k \<and> k < a + length bs then bs ! (k - a) else m k)"
| "pg_effect _ m = m"

fun pg_reply :: "pg_op \<Rightarrow> (nat \<Rightarrow> u8) \<Rightarrow> u8 list" where
  "pg_reply (Peek a n) m = map m [a..<a + n]"
| "pg_reply _ m = []"

fun pg_replies :: "pg_op list \<Rightarrow> (nat \<Rightarrow> u8) \<Rightarrow> u8 list" where
  "pg_replies [] m = []"
| "pg_replies (p # ps) m = pg_reply p m @ pg_replies ps (pg_effect p m)"

fun pg_streams :: "pg_op \<Rightarrow> u8 list list" where
  "pg_streams (Configure bs) = [bs]"
| "pg_streams _ = []"

section \<open>The server is such a memory\<close>

lemma pg_fields:
  assumes "code < 16" and "n < 2 ^ 24" and "a < 2 ^ 28"
  shows "pg_code (pg_pack code n a) = code" "pg_size (pg_pack code n a) = n" "pg_addr (pg_pack code n a) = a"
proof -
  have "take_bit 4 code = code" "take_bit 24 n = n" "take_bit 28 a = a"
    using assms by (simp_all add: word_unat_eq_iff word_less_nat_alt unsigned_take_bit_eq take_bit_nat_eq_self)
  then have code: "bit code k \<Longrightarrow> k < 4" and n: "bit n k \<Longrightarrow> k < 24" and a: "bit a k \<Longrightarrow> k < 28" for k
    by (metis bit_take_bit_iff)+
  have m: "(0xf :: u64) = mask 4" "(0xffffff :: u64) = mask 24" "(0xfffffff :: u64) = mask 28"
    by (simp_all add: mask_eq_exp_minus_1)
  show "pg_code (pg_pack code n a) = code"
    unfolding pg_code_def pg_pack_def m by (rule bit_word_eqI) (auto simp: bit_simps dest: code n a)
  have "drop_bit 28 (pg_pack code n a) AND 0xffffff = (word_of_nat n :: u64)"
    unfolding pg_pack_def m by (rule bit_word_eqI) (auto simp: bit_simps dest: n a)
  then show "pg_size (pg_pack code n a) = n"
    using assms(2) by (simp add: pg_size_def unat_of_nat_small)
  have "pg_pack code n a AND 0xfffffff = (word_of_nat a :: u64)"
    unfolding pg_pack_def m by (rule bit_word_eqI) (auto simp: bit_simps dest: a)
  then show "pg_addr (pg_pack code n a) = a"
    using assms(3) by (simp add: pg_addr_def unat_of_nat_small)
qed

lemma pg_word_le64: "pg_word (le64 w) = w"
  by (simp add: pg_word_def le64_def)

lemma pg_client_command:
  assumes "length (pg_command s) = 8"
  shows "pg_client (le64 w @ bs) s =
    (case pg_obey w bs (s\<lparr>pg_command := le64 w\<rparr>) of None \<Rightarrow> None | Some (bs, s) \<Rightarrow> pg_client bs s)"
proof -
  have "le64 w @ bs \<noteq> []" "blit (pg_command s) 0 (take 8 (le64 w @ bs)) = le64 w" "drop 8 (le64 w @ bs) = bs"
    using assms by (simp_all add: blit_def le64_def)
  then show ?thesis
    by (subst pg_client.simps) (simp only: Let_def if_False, simp add: pg_word_le64)
qed

lemma pg_filled: "map (pg_fill bs buf) [0..<length bs] = bs"
  by (rule nth_equalityI) (simp_all add: pg_fill_def)

text \<open>One operation.\<close>

lemma pg_operation:
  assumes "pg_sensible p" and "length (pg_command s) = 8"
  shows "\<exists>s'. pg_client (pg_encode p @ bs) s = pg_client bs s' \<and> length (pg_command s') = 8 \<and>
    regs s' = pg_effect p (regs s) \<and> pg_configured s' = pg_configured s @ pg_streams p \<and>
    (\<exists>es. trace s' = trace s @ es \<and> sent_bytes es = pg_reply p (regs s))"
proof (cases p)
  case (Peek a n)
  have f: "n < 2 ^ 24" "n < pg_room" "pg_inside a n" "a < 2 ^ 28"
    using assms(1) by (simp_all add: Peek pg_room_def pg_hub_def pg_inside_def)
  show ?thesis
    using f pg_fields [of 0 n a]
    by (simp add: Peek pg_client_command [OF assms(2)] pg_obey_def Let_def)
      (rule exI, rule conjI, rule refl, simp add: emit_def)
next
  case (Poke a d)
  have f: "length d < 2 ^ 24" "pg_inside a (length d)" "a < 2 ^ 28"
    using assms(1) by (simp_all add: Poke pg_room_def pg_hub_def pg_inside_def)
  show ?thesis
    using f pg_fields [of 1 "length d" a]
    by (simp add: Poke pg_client_command [OF assms(2)] pg_obey_def pg_receive_def pg_filled Let_def)
      (rule exI, rule conjI, rule refl, simp add: store_def fun_eq_iff)
next
  case (Configure d)
  have f: "length d < 2 ^ 24"
    using assms(1) by (simp add: Configure pg_room_def)
  show ?thesis
    using f pg_fields [of 2 "length d" 0]
    by (simp add: Configure pg_client_command [OF assms(2)] pg_obey_def pg_receive_def pg_filled Let_def)
      (rule exI, rule conjI, rule refl, simp)
qed

text \<open>C26. The bytes of any sequence of operations inside the hub, each of less than 16 MB, are obeyed as a memory
  obeys the operations: the replies are what the memory holds at their time, one after the other, and the
  bitstreams are passed on unchanged.\<close>

theorem playground_is_memory:
  assumes "list_all pg_sensible ps" and "length (pg_command s) = 8"
  shows "\<exists>s'. pg_client (concat (map pg_encode ps)) s = Some s' \<and> regs s' = fold pg_effect ps (regs s) \<and>
    (\<exists>es. trace s' = trace s @ es \<and> sent_bytes es = pg_replies ps (regs s)) \<and>
    pg_configured s' = pg_configured s @ concat (map pg_streams ps)"
  using assms
proof (induction ps arbitrary: s)
  case Nil
  then show ?case by (simp add: pg_client.simps)
next
  case (Cons p ps)
  obtain s1 es where s1: "pg_client (concat (map pg_encode (p # ps))) s = pg_client (concat (map pg_encode ps)) s1"
      "length (pg_command s1) = 8" "regs s1 = pg_effect p (regs s)" "pg_configured s1 = pg_configured s @ pg_streams p"
      "trace s1 = trace s @ es" "sent_bytes es = pg_reply p (regs s)"
    using pg_operation [of p s "concat (map pg_encode ps)"] Cons.prems by auto
  obtain s' fs where s': "pg_client (concat (map pg_encode ps)) s1 = Some s'" "regs s' = fold pg_effect ps (regs s1)"
      "trace s' = trace s1 @ fs" "sent_bytes fs = pg_replies ps (regs s1)"
      "pg_configured s' = pg_configured s1 @ concat (map pg_streams ps)"
    using Cons.IH [OF _ s1(2)] Cons.prems(1) by auto
  show ?case
    using s1 s' by (intro exI [of _ s'] conjI exI [of _ "es @ fs"]) simp_all
qed

text \<open>Its witness: two bytes written, read back with their neighbour.\<close>

definition pg_start :: playground where
  "pg_start = \<lparr>regs = (\<lambda>_. 0), trace = [], pg_command = replicate 8 0, pg_buffer = (\<lambda>_. 0), pg_configured = []\<rparr>"

theorem playground_is_memory_witness:
  "\<exists>s'. pg_client (concat (map pg_encode [Poke 64 [7, 9], Peek 64 3])) pg_start = Some s' \<and> sent_bytes (trace s') = [7, 9, 0]"
proof -
  have "list_all pg_sensible [Poke 64 [7, 9], Peek 64 3]" "length (pg_command pg_start) = 8"
    by (simp_all add: pg_room_def pg_hub_def pg_start_def)
  from playground_is_memory [OF this] obtain s' es where
    "pg_client (concat (map pg_encode [Poke 64 [7, 9], Peek 64 3])) pg_start = Some s'"
    "trace s' = trace pg_start @ es" "sent_bytes es = pg_replies [Poke 64 [7, 9], Peek 64 3] (regs pg_start)"
    by blast
  then show ?thesis
    by (intro exI [of _ s']) (simp add: pg_start_def upt_rec)
qed

end
