(* ===== verification/Recorders.thy ===== *)
theory Recorders
  imports Clib Streaming
begin

unbundle bit_operations_syntax

text \<open>
  The recorders and the player: \<open>adc_recorder/adc-recorder.c\<close>, \<open>adc_recorder_trigger/adc-recorder-trigger.c\<close>
  (\<open>adc_recorder_trigger_test\<close> has a copy of it), \<open>dac_player/app/adc-recorder.c\<close> and
  \<open>dac_player/app/dac-player.c\<close>. Numbers on the command line are a 32-bit \<open>long\<close>. What the registers read,
  the time and whether the program was interrupted come from outside, turn by turn; whether the devices
  open is the argument \<open>ok\<close>. That \<open>fopen\<close> fails is not modelled: its result, a pointer, is compared with
  \<open>< 0\<close>, which never holds.
\<close>

datatype tool_error = ToolUsage | ToolDevice

section \<open>Recorder with the samples on the terminal\<close>

text \<open>The registers, \<open>size\<close> being the address of the memory, and the places of the samples printed.\<close>

definition rec_setup :: "u32 \<Rightarrow> machine \<Rightarrow> machine" where
  "rec_setup address s =
     (let s = wr32 4 address s;
          s = wr32 8 (1024 * 1024 - 1) s;
          s = pulse (rd8 0) (wr8 0) 4 s;
          s = pulse (rd8 0) (wr8 0) 1 s;
          s = emit (Sleep 1000000) s;
          s = pulse (rd8 0) (wr8 0) 2 s in
      emit (Sleep 1000000) s)"

definition rec_print :: "(nat \<Rightarrow> u16) \<Rightarrow> (u16 \<times> u16) list" where
  "rec_print ram = map (\<lambda>i. (ram (2 * i + 0), ram (2 * i + 1))) [0..<1024 * 1024]"

section \<open>Recorder with a trigger\<close>

definition trg_setup :: "u32 \<Rightarrow> machine \<Rightarrow> machine" where
  "trg_setup address s =
     (let s = wr32 4 address s;
          s = pulse (rd8 0) (wr8 0) 1 s;
          s = wr16 2 0 s;
          s = wr16 8 1 s;
          s = wr16 10 1 s;
          s = wr32 12 (1024 - 1) s;
          s = wr32 16 (1024 * 1024 - 1) s;
          s = wr16 20 5 s;
          s = reg_set (rd8 0) (wr8 0) 2 s in
      reg_clear (rd8 0) (wr8 0) 2 s)"

text \<open>\<open>None\<close>: still running after the readings given.\<close>

fun trg_wait :: "u32 list \<Rightarrow> machine \<Rightarrow> machine option" where
  "trg_wait [] s = None"
| "trg_wait (x # xs) s = (if x AND 1 \<noteq> 0 then trg_wait xs (emit (Sleep 1000) s) else Some s)"

definition trg_start :: "u32 \<Rightarrow> u32" where
  "trg_start status = (drop_bit 1 status - 1024) AND 0x007FFFC0"

definition trg_offset :: "u32 \<Rightarrow> nat \<Rightarrow> u32" where
  "trg_offset start i = ((start + word_of_nat i) AND 0x007FFFFF) * 4"

definition trg_print :: "(nat \<Rightarrow> u8) \<Rightarrow> u32 \<Rightarrow> (u16 \<times> u16) list" where
  "trg_print ram start =
     map (\<lambda>i. let o4 = unat (trg_offset start i) in (join16 (ram o4) (ram (o4 + 1)), join16 (ram (o4 + 2)) (ram (o4 + 3))))
       [0..<1024 * 1024]"

definition trg_main :: "bool \<Rightarrow> u32 \<Rightarrow> u32 list \<Rightarrow> u32 \<Rightarrow> (nat \<Rightarrow> u8) \<Rightarrow> machine \<Rightarrow> (tool_error + machine \<times> (u16 \<times> u16) list) option" where
  "trg_main ok address readings status ram s =
     (if \<not> ok then Some (Inl ToolDevice)
      else case trg_wait readings (trg_setup address s) of None \<Rightarrow> None
      | Some s \<Rightarrow> Some (Inr (s, trg_print ram (trg_start status))))"

text \<open>The samples are read from the ring of \<open>2 ^ 23\<close> places inside the 32 MB mapped, without a gap, from at most
  63 places before the 1024 that precede the position the writer reported.\<close>

lemma word_and_mask_nat: "unat ((w :: u32) AND mask n) = unat w mod 2 ^ n"
  by (simp only: take_bit_eq_mask [symmetric] unsigned_take_bit_eq) (simp only: take_bit_eq_mod)

lemma trg_offset_nat: "unat (trg_offset start i) = (unat start + i) mod 2 ^ 23 * 4"
proof -
  define x where "x = (start + word_of_nat i) AND 0x007FFFFF"
  have "unat x = unat (start + word_of_nat i) mod 2 ^ 23"
    using word_and_mask_nat [of "start + word_of_nat i" 23] by (simp add: x_def mask_eq_exp_minus_1)
  also have "\<dots> = (unat start + i) mod 2 ^ 32 mod 2 ^ 23"
    by (simp add: unat_word_ariths unat_of_nat mod_simps)
  also have "\<dots> = (unat start + i) mod 2 ^ 23"
    by (rule mod_mod_cancel) simp
  finally have x: "unat x = (unat start + i) mod 2 ^ 23" .
  then have "unat x * 4 < 2 ^ 32"
    by (simp add: order_less_trans [OF mult_strict_right_mono [of _ "2 ^ 23"]])
  then show ?thesis
    using x by (simp add: trg_offset_def x_def [symmetric] unat_mult_lem [THEN iffD1])
qed

lemma word_cut_nat: "unat ((w :: u32) AND NOT (mask n)) = unat w - unat w mod 2 ^ n"
proof -
  have "w AND NOT (mask n) = push_bit n (drop_bit n w)"
    by (rule bit_word_eqI) (auto simp: bit_simps)
  moreover have less: "unat w < 2 ^ 32"
    using unsigned_less [of w] by simp
  ultimately have "unat (w AND NOT (mask n)) = (unat w div 2 ^ n * 2 ^ n) mod 2 ^ 32"
    by (simp only: unsigned_push_bit_eq unsigned_drop_bit_eq) (simp add: push_bit_eq_mult drop_bit_eq_div take_bit_eq_mod)
  moreover have "unat w div 2 ^ n * 2 ^ n \<le> unat w"
    by simp
  then have "unat w div 2 ^ n * 2 ^ n < 2 ^ 32"
    using less by (rule order_le_less_trans)
  ultimately show ?thesis
    by (simp add: minus_mod_eq_div_mult)
qed

lemma trg_start_nat:
  obtains r where "r < 64" "(unat (trg_start status) + r) mod 2 ^ 23 = unat (drop_bit 1 status - 1024) mod 2 ^ 23"
proof -
  define p where "p = drop_bit 1 status - 1024"
  have m: "(0x007FFFC0 :: u32) = mask 23 AND NOT (mask 6)"
    by (simp add: mask_eq_exp_minus_1)
  have "trg_start status = (p AND mask 23) AND NOT (mask 6)"
    unfolding trg_start_def p_def m by (simp only: and.assoc)
  then have "unat (trg_start status) = unat p mod 2 ^ 23 - unat p mod 2 ^ 23 mod 2 ^ 6"
    by (simp only: word_cut_nat word_and_mask_nat)
  then have "unat (trg_start status) + unat p mod 2 ^ 23 mod 64 = unat p mod 2 ^ 23"
    by simp
  then show ?thesis
    by (intro that [of "unat p mod 2 ^ 23 mod 64"]) (simp_all add: p_def)
qed

lemma ring_room: "(k :: nat) < 2 ^ 23 \<Longrightarrow> k * 4 + 4 \<le> 8192 * 4096"
  by simp

lemma trg_window:
  obtains r where "r < 64"
    "\<And>i. unat (trg_offset (trg_start status) (i + r)) = (unat (drop_bit 1 status - 1024) + i) mod 2 ^ 23 * 4"
    "\<And>i. unat (trg_offset (trg_start status) i) + 4 \<le> 8192 * 4096"
proof -
  obtain r where r: "r < 64" "(unat (trg_start status) + r) mod 2 ^ 23 = unat (drop_bit 1 status - 1024) mod 2 ^ 23"
    by (rule trg_start_nat)
  have "(unat (trg_start status) + (i + r)) mod 2 ^ 23 = (unat (drop_bit 1 status - 1024) + i) mod 2 ^ 23" for i
  proof -
    have "(unat (trg_start status) + (i + r)) mod 2 ^ 23 = ((unat (trg_start status) + r) mod 2 ^ 23 + i) mod 2 ^ 23"
      by (simp only: mod_add_left_eq mod_add_right_eq ac_simps)
    then show ?thesis
      by (simp only: r(2) mod_add_left_eq)
  qed
  moreover have "(unat (trg_start status) + i) mod 2 ^ 23 * 4 + 4 \<le> 8192 * 4096" for i
    by (rule ring_room) simp
  ultimately show ?thesis
    using r(1) by (intro that [of r]) (simp_all only: trg_offset_nat)
qed

section \<open>Recorder of a file\<close>

text \<open>The ring has two halves of 4 MB, and \<open>ring_sent\<close> are the halves written to the file. \<open>fwrite < 0\<close> never
  holds, a \<open>size_t\<close> being unsigned, so that the loop ends by the time or an interrupt only.\<close>

definition adcrec_parse :: "string list \<Rightarrow> (int \<times> int) option" where
  "adcrec_parse args =
     (if length args \<noteq> 3 then None
      else case parse_range 16 16384 (args ! 0) of None \<Rightarrow> None
      | Some rate \<Rightarrow> map_option (Pair rate) (parse_range 1 99999999 (args ! 1)))"

definition adcrec_setup :: "u32 \<Rightarrow> int \<Rightarrow> ring \<Rightarrow> ring" where
  "adcrec_setup address rate s =
     (let s = wr32 4 address s;
          s = reg_clear (rd8 0) (wr8 0) 1 s;
          s = emit (Sleep 100) s;
          s = reg_clear (rd8 0) (wr8 0) 2 s;
          s = wr16 8 (word_of_int (rate div 2)) s;
          s = reg_set (rd8 0) (wr8 0) 2 s;
          s = emit (Sleep 100) s;
          s = reg_set (rd8 0) (wr8 0) 1 s in
      s\<lparr>ring_limit := 2 * 1024, ring_sent := []\<rparr>)"

text \<open>A turn of the loop: whether it is left by its condition, and the position read.\<close>

record adcrec_turn =
  at_interrupted :: bool
  at_now :: int
  at_position :: u32

fun adcrec_loop :: "int \<Rightarrow> int \<Rightarrow> adcrec_turn list \<Rightarrow> ring \<Rightarrow> ring option" where
  "adcrec_loop start stop [] s = None"
| "adcrec_loop start stop (t # ts) s =
     (if \<not> at_interrupted t \<and> at_now t - start < stop then
        (case ring_poll (32 * 1024) (4096 * 1024) (uint (at_position t)) True s of
           Inl s \<Rightarrow> Some s | Inr s \<Rightarrow> adcrec_loop start stop ts s)
      else Some s)"

text \<open>What is left at the end: offset and size of the last \<open>fwrite\<close>.\<close>

definition adcrec_rest :: "int \<Rightarrow> u32 \<Rightarrow> (nat \<times> u32) option" where
  "adcrec_rest limit position =
     (if (limit > 0 \<and> uint position < limit) \<or> (limit = 0 \<and> uint position > 32 * 1024)
      then (let offset = (if limit > 0 then 0 else 4096 * 1024) in Some (offset, position * 128 - word_of_nat offset))
      else None)"

definition adcrec_stop :: "u32 \<Rightarrow> ring \<Rightarrow> ring \<times> (nat \<times> u32) option" where
  "adcrec_stop position s =
     (let s = reg_clear (rd8 0) (wr8 0) 1 s; s = emit (Sleep 100) s in
      (reg_clear (rd8 0) (wr8 0) 2 s, adcrec_rest (ring_limit s) position))"

definition adcrec_main :: "bool \<Rightarrow> u32 \<Rightarrow> string list \<Rightarrow> int \<Rightarrow> adcrec_turn list \<Rightarrow> u32 \<Rightarrow> ring \<Rightarrow>
    (tool_error + ring \<times> (nat \<times> u32) option) option" where
  "adcrec_main ok address args now ts position s =
     (case adcrec_parse args of None \<Rightarrow> Some (Inl ToolUsage)
      | Some (rate, stop) \<Rightarrow>
          if \<not> ok then Some (Inl ToolDevice)
          else (case adcrec_loop (now + 1) stop ts (adcrec_setup address rate s) of None \<Rightarrow> None
           | Some s \<Rightarrow> Some (Inr (adcrec_stop position s))))"

text \<open>The halves in the file alternate, beginning with the first.\<close>

definition adcrec_inv :: "ring \<Rightarrow> bool" where
  "adcrec_inv s \<longleftrightarrow> (\<forall>i<length (ring_sent s). ring_sent s ! i = (if even i then 0 else 4096 * 1024)) \<and>
     (if even (length (ring_sent s)) then ring_limit s \<in> {2 * 1024, 32 * 1024} else ring_limit s = 0)"

lemma adcrec_inv_emit: "adcrec_inv (emit e s) \<longleftrightarrow> adcrec_inv s"
  by (simp add: adcrec_inv_def emit_def)

lemma adcrec_poll_inv:
  assumes "adcrec_inv s" and "ring_poll (32 * 1024) (4096 * 1024) p True s = Inr s'"
  shows "adcrec_inv s'"
proof (cases "ring_due (int (32 * 1024)) (ring_limit s) p")
  case True
  define h :: nat where "h = (if ring_limit s > 0 then 0 else 4096 * 1024)"
  have h: "h = (if even (length (ring_sent s)) then 0 else 4096 * 1024)" and
      l: "ring_limit s > 0 \<longleftrightarrow> even (length (ring_sent s))"
    using assms(1) by (auto simp: adcrec_inv_def h_def split: if_splits)
  have s': "ring_sent s' = ring_sent s @ [h]" "ring_limit s' = (if ring_limit s > 0 then 0 else 32 * 1024)"
    using assms(2) True by (auto simp: ring_poll_def Let_def h_def)
  have "ring_sent s' ! i = (if even i then 0 else 4096 * 1024)" if "i < length (ring_sent s')" for i
  proof (cases "i < length (ring_sent s)")
    case True
    then show ?thesis
      using assms(1) by (simp only: adcrec_inv_def s'(1) nth_append if_True)
  next
    case False
    then have "i = length (ring_sent s)"
      using that by (simp add: s'(1))
    then show ?thesis
      by (simp only: s'(1) nth_append_length h)
  qed
  then show ?thesis
    using l unfolding adcrec_inv_def s'(2) by (simp add: s'(1))
next
  case False
  then have "s' = emit (Sleep 1000) s"
    using assms(2) by (simp add: ring_poll_def)
  then show ?thesis
    using assms(1) by (simp only: adcrec_inv_emit)
qed

lemma ring_poll_goes_on: "\<exists>s'. ring_poll L half p True s = Inr s'"
  by (simp add: ring_poll_def Let_def)

lemma adcrec_loop_inv: "adcrec_loop start stop ts s = Some s' \<Longrightarrow> adcrec_inv s \<Longrightarrow> adcrec_inv s'"
proof (induction ts arbitrary: s)
  case (Cons t ts)
  show ?case
  proof (cases "\<not> at_interrupted t \<and> at_now t - start < stop")
    case True
    obtain s1 where s1: "ring_poll (32 * 1024) (4096 * 1024) (uint (at_position t)) True s = Inr s1"
      using ring_poll_goes_on by blast
    then have "adcrec_loop start stop ts s1 = Some s'"
      using Cons.prems(1) True by simp
    then show ?thesis
      using adcrec_poll_inv [OF Cons.prems(2) s1] by (rule Cons.IH)
  next
    case False
    then have "s' = s"
      using Cons.prems(1) by auto
    then show ?thesis
      using Cons.prems(2) by simp
  qed
qed simp

text \<open>What is written at the end continues the file and stays inside the 8 MB, for a position inside them. When
  the half in progress has just been completed, nothing is written: it is lost.\<close>

lemma adcrec_file:
  assumes "adcrec_loop start stop ts (adcrec_setup address rate s) = Some s'" and "unat position \<le> 65536"
  shows "(\<forall>i<length (ring_sent s'). ring_sent s' ! i = (if even i then 0 else 4096 * 1024)) \<and>
    (case adcrec_rest (ring_limit s') position of None \<Rightarrow> True
     | Some (offset, n) \<Rightarrow> offset = (if even (length (ring_sent s')) then 0 else 4096 * 1024) \<and>
         offset + unat n = 128 * unat position \<and> offset + unat n \<le> 2048 * 4096)"
proof -
  have inv: "adcrec_inv s'"
    by (rule adcrec_loop_inv [OF assms(1)]) (simp add: adcrec_setup_def adcrec_inv_def)
  have p: "uint position = int (unat position)"
    by simp
  have m: "unat (position * 128) = 128 * unat position"
    using assms(2) by (subst unat_mult_lem [THEN iffD1]) simp_all
  have sub: "unat (position * 128 - 4194304) = 128 * unat position - 4194304" if "32768 < uint position"
  proof -
    have "32768 < unat position"
      using that p by linarith
    moreover have "unat (4194304 :: u32) = 4194304"
      by simp
    ultimately have "unat (4194304 :: u32) \<le> unat (position * 128)"
      unfolding m by linarith
    then have "4194304 \<le> position * 128"
      by (simp only: word_le_nat_alt)
    then have "unat (position * 128 - 4194304) = unat (position * 128) - unat (4194304 :: u32)"
      by (rule unat_sub)
    moreover have "unat (4194304 :: u32) = 4194304"
      by simp
    ultimately show ?thesis
      by (simp only: m)
  qed
  show ?thesis
  proof (intro conjI)
    show "\<forall>i<length (ring_sent s'). ring_sent s' ! i = (if even i then 0 else 4096 * 1024)"
      using inv unfolding adcrec_inv_def by (rule conjunct1)
    show "case adcrec_rest (ring_limit s') position of None \<Rightarrow> True
      | Some (offset, n) \<Rightarrow> offset = (if even (length (ring_sent s')) then 0 else 4096 * 1024) \<and>
          offset + unat n = 128 * unat position \<and> offset + unat n \<le> 2048 * 4096"
    proof (cases "even (length (ring_sent s'))")
      case True
      then have "0 < ring_limit s'"
        using inv by (auto simp: adcrec_inv_def)
      then show ?thesis
        using True m assms(2) by (simp add: adcrec_rest_def)
    next
      case False
      then have "ring_limit s' = 0"
        using inv by (auto simp: adcrec_inv_def)
      moreover have "4194304 \<le> 128 * unat position" if "32768 < uint position"
        using that p by linarith
      ultimately show ?thesis
        using False sub assms(2) by (simp add: adcrec_rest_def) linarith
    qed
  qed
qed

text \<open>The first \<open>limit\<close> is too small by a factor of 16: the first half is written as soon as a sixteenth of it is
  there, and the second one right after it, before the FPGA has written any of it.\<close>

lemma adcrec_starts_early:
  assumes "uint p \<in> {2049..<32768}" and "uint q \<in> {2049..<32768}" and "now - start < stop"
  shows "\<exists>s'. adcrec_loop start stop
      [\<lparr>at_interrupted = False, at_now = now, at_position = p\<rparr>, \<lparr>at_interrupted = False, at_now = now, at_position = q\<rparr>,
       \<lparr>at_interrupted = True, at_now = now, at_position = q\<rparr>] (adcrec_setup address rate s) = Some s' \<and>
    ring_sent s' = [0, 4096 * 1024]"
  using assms by (simp add: adcrec_setup_def ring_poll_def ring_due_def Let_def)

section \<open>Player\<close>

text \<open>\<open>player_words\<close> are the words written to the FIFO.\<close>

record player = machine +
  player_words :: "u64 list"

definition word64_at :: "u8 list \<Rightarrow> nat \<Rightarrow> u64" where
  "word64_at b i = join64 (b ! (8 * i)) (b ! (8 * i + 1)) (b ! (8 * i + 2)) (b ! (8 * i + 3))
     (b ! (8 * i + 4)) (b ! (8 * i + 5)) (b ! (8 * i + 6)) (b ! (8 * i + 7))"

definition whole_words :: "u8 list \<Rightarrow> u64 list" where
  "whole_words b = map (word64_at b) [0..<length b div 8]"

fun player_wait :: "u32 list \<Rightarrow> player \<Rightarrow> player option" where
  "player_wait [] s = None"
| "player_wait (x # xs) s = (if x > 16384 then player_wait xs (emit (Sleep 500) s) else Some s)"

text \<open>A turn: whether the program was interrupted, and the fill levels read. \<open>rest\<close> is what is left of the file.\<close>

fun player_loop :: "(bool \<times> u32 list) list \<Rightarrow> u8 list \<Rightarrow> player \<Rightarrow> player option" where
  "player_loop [] rest s = None"
| "player_loop (t # ts) rest s =
     (if fst t then Some s
      else if take 65536 rest = [] then Some s
      else (case player_wait (snd t) s of None \<Rightarrow> None
        | Some s \<Rightarrow> player_loop ts (drop 65536 rest) (s\<lparr>player_words := player_words s @ whole_words (take 65536 rest)\<rparr>)))"

definition player_parse :: "string list \<Rightarrow> (int \<times> int) option" where
  "player_parse args =
     (if length args \<noteq> 3 then None
      else case parse_range 16 16384 (args ! 0) of None \<Rightarrow> None
      | Some rate \<Rightarrow> map_option (Pair rate) (parse_range 0 (2 ^ 31 - 1) (args ! 1)))"

text \<open>\<open>offset * 4\<close> overflows a 32-bit \<open>long\<close> from \<open>2 ^ 29\<close> on: undefined, \<open>None\<close>.\<close>

definition player_main :: "bool \<Rightarrow> string list \<Rightarrow> u8 list \<Rightarrow> (bool \<times> u32 list) list \<Rightarrow> player \<Rightarrow> (tool_error + player) option" where
  "player_main ok args contents ts s =
     (if \<not> ok then Some (Inl ToolDevice)
      else case player_parse args of None \<Rightarrow> Some (Inl ToolUsage)
      | Some (rate, offset) \<Rightarrow>
          if offset * 4 < 2 ^ 31 then
            map_option Inr (player_loop ts (drop (nat (offset * 4)) contents) (wr16 10 (word_of_int (rate div 2)) s))
          else None)"

lemma whole_words_split:
  assumes "length b = 8 * n"
  shows "whole_words (b @ c) = whole_words b @ whole_words c"
proof (rule nth_equalityI)
  fix i
  assume i: "i < length (whole_words (b @ c))"
  show "whole_words (b @ c) ! i = (whole_words b @ whole_words c) ! i"
  proof (cases "i < n")
    case True
    then show ?thesis
      using assms by (simp add: whole_words_def word64_at_def nth_append)
  next
    case False
    then obtain j where "i = n + j"
      using le_Suc_ex not_less by blast
    then show ?thesis
      using assms i by (simp add: whole_words_def word64_at_def nth_append)
  qed
qed (use assms in \<open>simp add: whole_words_def\<close>)

lemma player_waits: "x \<in> set xs \<Longrightarrow> x \<le> 16384 \<Longrightarrow> \<exists>s'. player_wait xs s = Some s' \<and> player_words s' = player_words s"
proof (induction xs arbitrary: s)
  case (Cons y ys)
  then show ?case
    by (cases "y > 16384") (fastforce simp: emit_def)+
qed simp

text \<open>When the FIFO drains in every turn and nobody interrupts, every whole word of the file from the offset on
  is written to the FIFO, once and in order, and the program ends.\<close>

lemma player_loop_plays:
  assumes "length rest div 65536 + 2 \<le> length ts" and "list_all (\<lambda>t. \<not> fst t \<and> (\<exists>x \<in> set (snd t). x \<le> 16384)) ts"
  shows "\<exists>s'. player_loop ts rest s = Some s' \<and> player_words s' = player_words s @ whole_words rest"
  using assms
proof (induction ts arbitrary: rest s)
  case (Cons t ts)
  show ?case
  proof (cases "rest = []")
    case True
    then show ?thesis
      using Cons.prems(2) by (simp add: whole_words_def)
  next
    case False
    obtain x where "x \<in> set (snd t)" "x \<le> 16384"
      using Cons.prems(2) by auto
    then obtain s1 where s1: "player_wait (snd t) s = Some s1" "player_words s1 = player_words s"
      using player_waits by blast
    have "whole_words (take 65536 rest) @ whole_words (drop 65536 rest) = whole_words rest"
    proof (cases "65536 \<le> length rest")
      case True
      then have "length (take 65536 rest) = 8 * 8192"
        by simp
      then show ?thesis
        using whole_words_split [of "take 65536 rest" 8192 "drop 65536 rest"] by simp
    qed (simp add: whole_words_def)
    moreover have "length (drop 65536 rest) div 65536 + 2 \<le> length ts \<or> drop 65536 rest = [] \<and> 1 \<le> length ts"
      using Cons.prems(1) by (cases "65536 \<le> length rest") (auto simp: le_div_geq)
    moreover have "\<exists>s'. player_loop ts [] s2 = Some s' \<and> player_words s' = player_words s2" if "1 \<le> length ts" for s2
      using that Cons.prems(2) by (cases ts) auto
    ultimately show ?thesis
      using Cons.IH [of "drop 65536 rest"] s1 False Cons.prems(2)
      by (fastforce simp: whole_words_def [of "[]"])
  qed
qed simp

end
