(* ===== verification/Tools.thy ===== *)
theory Tools
  imports Clib Doubles Acquire
begin

unbundle bit_operations_syntax

text \<open>
  The command-line tools of \<open>common_tools/app\<close> (\<open>gpio-output.c\<close>, \<open>led-output.c\<close>, \<open>i2c-write.c\<close>,
  \<open>measure-corr.c\<close>, \<open>measure-level.c\<close>, \<open>sleep-to-59.c\<close>) and of \<open>adc_test\<close> (\<open>server/gen.c\<close>,
  \<open>client/test-signal-continuity.c\<close>). Whether the device opens (\<open>ok\<close>), what registers and FIFOs deliver and the
  value \<open>strtod\<close> finds are arguments.
\<close>

datatype 'a tool = Usage | NoDevice | Fails | Done 'a

section \<open>Outputs\<close>

definition tool_number :: "int \<Rightarrow> string list \<Rightarrow> int option" where
  "tool_number hi args = (if length args = 1 then parse_range 0 hi (args ! 0) else None)"

text \<open>\<open>gpio-output\<close> writes byte 3, \<open>led-output\<close> byte 2.\<close>

definition byte_output :: "nat \<Rightarrow> bool \<Rightarrow> string list \<Rightarrow> machine \<Rightarrow> machine tool" where
  "byte_output off ok args s =
     (case tool_number 255 args of None \<Rightarrow> Usage
      | Some n \<Rightarrow> if ok then Done (wr8 off (word_of_int n) s) else NoDevice)"

definition gpio_output :: "bool \<Rightarrow> string list \<Rightarrow> machine \<Rightarrow> machine tool" where "gpio_output = byte_output 3"
definition led_output :: "bool \<Rightarrow> string list \<Rightarrow> machine \<Rightarrow> machine tool" where "led_output = byte_output 2"

definition i2c_output :: "bool \<Rightarrow> bool \<Rightarrow> bool \<Rightarrow> string list \<Rightarrow> machine \<Rightarrow> machine tool" where
  "i2c_output ok selected written args s =
     (case tool_number 4095 args of None \<Rightarrow> Usage
      | Some n \<Rightarrow>
          if ok \<and> selected \<and> written
          then Done (emit (I2cWrite [word_of_int (n div 2 ^ 8), word_of_int n]) (emit (I2cSelect 0x60) s))
          else Fails)"

definition gen_main :: "bool \<Rightarrow> string list \<Rightarrow> machine \<Rightarrow> machine tool" where
  "gen_main ok args s =
     (if length args \<noteq> 3 then Usage
      else case (parse_range 1 2 (args ! 0), parse_range 0 32766 (args ! 1), parse_range 0 61440000 (args ! 2)) of
        (Some chan, Some level, Some freq) \<Rightarrow>
          if \<not> ok then NoDevice
          else if chan = 1 then Done (wr16 16 (word_of_int level) (wr32 8 (phase_inc clk_125 (nat freq)) s))
          else Done (wr16 18 (word_of_int level) (wr32 12 (phase_inc clk_125 (nat freq)) s))
      | _ \<Rightarrow> Usage)"

text \<open>The generator's registers: the nearest phase increment, a level that is not negative as a signed number,
  and nothing of the other channel.\<close>

lemma gen_registers:
  assumes "gen_main ok args s = Done s'"
  shows "\<exists>chan level freq. parse_range 1 2 (args ! 0) = Some chan \<and> parse_range 0 32766 (args ! 1) = Some level \<and>
    parse_range 0 61440000 (args ! 2) = Some freq \<and>
    rd32 (if chan = 1 then 8 else 12) s' = word_of_nat ((nat freq * 2 ^ 25 + 1953125) div 3906250) \<and>
    sint (rd16 (if chan = 1 then 16 else 18) s') = level \<and>
    rd32 (if chan = 1 then 12 else 8) s' = rd32 (if chan = 1 then 12 else 8) s \<and>
    rd16 (if chan = 1 then 18 else 16) s' = rd16 (if chan = 1 then 18 else 16) s"
proof -
  obtain chan level freq where p: "parse_range 1 2 (args ! 0) = Some chan" "parse_range 0 32766 (args ! 1) = Some level"
      "parse_range 0 61440000 (args ! 2) = Some freq"
    and s': "s' = (if chan = 1 then wr16 16 (word_of_int level) (wr32 8 (phase_inc clk_125 (nat freq)) s)
      else wr16 18 (word_of_int level) (wr32 12 (phase_inc clk_125 (nat freq)) s))"
    using assms by (auto simp: gen_main_def split: if_splits option.splits)
  have "phase_inc clk_125 (nat freq) = word_of_nat ((nat freq * 2 ^ 25 + 1953125) div 3906250)"
    using parse_range_bounds [OF p(3)] by (intro phase_inc_125) (simp add: nat_le_iff)
  moreover have "sint (word_of_int level :: u16) = level"
    using parse_range_bounds [OF p(2)] by (simp add: signed_of_int signed_take_bit_int_eq_self)
  ultimately show ?thesis
    using p unfolding s' by simp
qed

section \<open>Correction of the clock\<close>

definition tool_clock :: "rat option \<Rightarrow> rat option" where
  "tool_clock number =
     (case number of None \<Rightarrow> None | Some f \<Rightarrow> if f = fl 53 (12288 / 100) \<or> f = 125 then Some f else None)"

text \<open>The sum of the counts, and the correction: a \<open>float\<close>. \<open>None\<close>: the division by 0 gives infinity.\<close>

definition corr_sum :: "u32 list \<Rightarrow> u32" where
  "corr_sum ws = foldl (\<lambda>b w. b + (w + 1)) 0 ws"

definition corr_value :: "rat \<Rightarrow> int \<Rightarrow> u32 \<Rightarrow> rat option" where
  "corr_value freq time n =
     (if n = 0 then None
      else Some (fl 24 (dmul (dadd (ddiv (dmul (dmul freq 1000000) (of_int time)) (of_nat (unat n))) (- 1)) 1000000)))"

text \<open>\<open>counts\<close> is \<open>*cntr\<close> after the wait, \<open>ws\<close> what the FIFO delivers.\<close>

definition measure_corr :: "bool \<Rightarrow> rat option \<Rightarrow> string list \<Rightarrow> u16 \<Rightarrow> u32 list \<Rightarrow> machine \<Rightarrow> (machine \<times> rat) tool" where
  "measure_corr ok number args counts ws s =
     (if length args \<noteq> 2 then Usage
      else case tool_clock number of None \<Rightarrow> Usage
      | Some freq \<Rightarrow> case parse_range 1 30 (args ! 1) of None \<Rightarrow> Usage
      | Some time \<Rightarrow>
          if \<not> ok then NoDevice
          else
            let s = pulse (rd8 0) (wr8 0) 1 s; s = emit (Sleep (nat (time + 1) * 1000000)) s in
            if uint counts < time then Fails
            else (case corr_value freq time (corr_sum (take (nat time) ws)) of None \<Rightarrow> Fails
              | Some corr \<Rightarrow> if corr < - 100 \<or> corr > 100 then Fails else Done (s, corr)))"

text \<open>Without overflow the sum is that of the cycles between the pulses.\<close>

lemma corr_sum_exact:
  assumes "(\<Sum>w\<leftarrow>ws. unat w + 1) < 2 ^ 32"
  shows "unat (corr_sum ws) = (\<Sum>w\<leftarrow>ws. unat w + 1)"
proof -
  have "foldl (\<lambda>b w. b + (w + 1)) (word_of_nat n) ws = (word_of_nat (n + (\<Sum>w\<leftarrow>ws. unat w + 1)) :: u32)" for n
  proof (induction ws arbitrary: n)
    case (Cons w ws)
    have "word_of_nat n + (w + 1) = (word_of_nat (n + (unat w + 1)) :: u32)"
      by simp
    then show ?case
      using Cons.IH [of "n + (unat w + 1)"] by (simp add: ac_simps)
  qed simp
  from this [of 0] show ?thesis
    using assms by (simp add: corr_sum_def unat_of_nat_small)
qed

lemma apart_via: "\<bar>a - c\<bar> \<le> \<bar>a - b\<bar> + \<bar>b - c\<bar>" for a b c :: rat
  by linarith

lemma fl_back:
  assumes "24 \<le> p" and "\<bar>fl p x\<bar> \<le> B"
  shows "\<bar>x\<bar> \<le> B * (1001 / 1000)"
proof -
  have "(2 :: rat) ^ 24 \<le> 2 ^ p"
    using assms(1) by (rule power_increasing) simp
  then have "\<bar>x\<bar> / 2 ^ p \<le> \<bar>x\<bar> / 2 ^ 24"
    by (intro divide_left_mono) simp_all
  then have "\<bar>fl p x - x\<bar> \<le> \<bar>x\<bar> / 2 ^ 24"
    by (rule order_trans [OF fl_error])
  moreover have "\<bar>x\<bar> / 2 ^ 24 \<le> \<bar>x\<bar> / 10000"
    by (intro divide_left_mono) simp_all
  ultimately show ?thesis
    using assms(2) by linarith
qed

text \<open>An accepted correction is exact to \<open>2 ^ -16\<close> parts per million.\<close>

lemma corr_value_near:
  assumes "corr_value freq time n = Some c" and "\<bar>c\<bar> \<le> 100" and "100 \<le> freq" "freq \<le> 130" and "1 \<le> time" "time \<le> 30"
  shows "\<bar>c - (freq * 1000000 * of_int time / of_nat (unat n) - 1) * 1000000\<bar> \<le> 1 / 2 ^ 16"
proof -
  define N T F where "N = (of_nat (unat n) :: rat)" and "T = (of_int time :: rat)" and "F = freq * 1000000 * T"
  define t q d e where "t = dmul (dmul freq 1000000) T" and "q = ddiv t N" and "d = dadd q (- 1)" and "e = dmul d 1000000"
  have c: "c = fl 24 e" and "n \<noteq> 0"
    using assms(1) unfolding corr_value_def N_def T_def t_def q_def d_def e_def by (auto split: if_splits)
  then have N: "0 < N"
    unfolding N_def of_nat_0_less_iff by (simp only: unat_gt_0 not_False_eq_True)
  have T: "1 \<le> T" "T \<le> 30"
    using assms(5,6) by (simp_all add: T_def)
  have "100 * 1000000 * 1 \<le> F" "F \<le> 130 * 1000000 * 30"
    unfolding F_def using assms(3,4) T by (intro mult_mono; simp)+
  then have F: "100000000 \<le> F" "F \<le> 3900000000"
    by simp_all
  have "\<bar>dmul freq 1000000 - freq * 1000000\<bar> \<le> 0 + (130000000 + 0) / 2 ^ 53"
    unfolding dmul_def using assms(3,4) by (intro double.rnd_within) auto
  then have "\<bar>dmul freq 1000000 * T - freq * 1000000 * T\<bar> \<le> (0 + (130000000 + 0) / 2 ^ 53) * 30 + 130000000 * 0"
    using T assms(3,4) by (intro product_near) auto
  then have "\<bar>t - F\<bar> \<le> ((0 + (130000000 + 0) / 2 ^ 53) * 30 + 130000000 * 0) + (3900000000 + ((0 + (130000000 + 0) / 2 ^ 53) * 30 + 130000000 * 0)) / 2 ^ 53"
    unfolding t_def dmul_def [of _ T] F_def [symmetric] using F by (intro double.rnd_within) auto
  then have t: "\<bar>t - F\<bar> \<le> 1 / 2 ^ 20"
    by (rule order_trans) simp
  have e: "\<bar>e\<bar> \<le> 101" and ce: "\<bar>c - e\<bar> \<le> 101 / 2 ^ 24"
  proof -
    show "\<bar>e\<bar> \<le> 101"
      using fl_back [of 24 e 100] assms(2) by (simp add: c)
    then show "\<bar>c - e\<bar> \<le> 101 / 2 ^ 24"
      using fl_error [of 24 e] by (simp add: c)
  qed
  have d: "\<bar>d * 1000000\<bar> \<le> 102"
    using fl_back [of 53 "d * 1000000" 101] e by (simp add: e_def dmul_def)
  then have q1: "\<bar>q + - 1\<bar> \<le> 103 / 1000000"
    using fl_back [of 53 "q + - 1" "102 / 1000000"] by (simp add: d_def dadd_def abs_mult)
  then have "\<bar>q\<bar> \<le> 1001 / 1000"
    by linarith
  then have "\<bar>t / N\<bar> \<le> 1001 / 1000 * (1001 / 1000)"
    unfolding q_def ddiv_def by (intro fl_back) simp_all
  then have tN: "\<bar>t / N\<bar> \<le> 1003 / 1000"
    by (rule order_trans) simp
  have "\<bar>t - F\<bar> \<le> 1"
    by (rule order_trans [OF t]) simp
  then have "99000000 \<le> t"
    using F by linarith
  moreover have "t / N \<le> 1003 / 1000"
    using tN by linarith
  then have "t \<le> 1003 / 1000 * N"
    using N by (simp only: pos_divide_le_eq)
  ultimately have N_big: "90000000 \<le> N"
    by linarith
  have "\<bar>t / N - F / N\<bar> = \<bar>t - F\<bar> / N"
    using N by (simp only: diff_divide_distrib [symmetric] abs_divide abs_of_pos)
  also have "\<dots> \<le> (1 / 2 ^ 20) / 90000000"
    using t N_big by (intro frac_le) auto
  finally have f: "\<bar>t / N - F / N\<bar> \<le> 1 / 2 ^ 46"
    by (rule order_trans) simp
  then have "\<bar>t / N - F / N\<bar> \<le> 1 / 1000"
    by (rule order_trans) simp
  then have FN: "\<bar>F / N\<bar> \<le> 1004 / 1000"
    using tN by linarith
  have "\<bar>q - F / N\<bar> \<le> 1 / 2 ^ 46 + (1004 / 1000 + 1 / 2 ^ 46) / 2 ^ 53"
    unfolding q_def ddiv_def using f FN by (intro double.rnd_within)
  then have "\<bar>q - F / N\<bar> \<le> 1 / 2 ^ 45"
    by (rule order_trans) simp
  then have q: "\<bar>(q + - 1) - (F / N - 1)\<bar> \<le> 1 / 2 ^ 45"
    by simp
  have "\<bar>(q + - 1) - (F / N - 1)\<bar> \<le> 1 / 10000"
    by (rule order_trans [OF q]) simp
  then have F1: "\<bar>F / N - 1\<bar> \<le> 1 / 1000"
    using q1 by linarith
  have "\<bar>d - (F / N - 1)\<bar> \<le> 1 / 2 ^ 45 + (1 / 1000 + 1 / 2 ^ 45) / 2 ^ 53"
    unfolding d_def dadd_def using q F1 by (intro double.rnd_within)
  then have "\<bar>d - (F / N - 1)\<bar> \<le> 1 / 2 ^ 44"
    by (rule order_trans) simp
  then have "\<bar>d * 1000000 - (F / N - 1) * 1000000\<bar> \<le> 1 / 2 ^ 44 * 1000000 + 1 / 1000 * 0"
    using F1 by (intro product_near) auto
  moreover have "\<bar>F / N - 1\<bar> * 1000000 \<le> 1 / 1000 * 1000000"
    using F1 by (rule mult_right_mono) simp
  then have "\<bar>(F / N - 1) * 1000000\<bar> \<le> 1000"
    unfolding abs_mult abs_numeral by (rule order_trans) simp
  ultimately have "\<bar>e - (F / N - 1) * 1000000\<bar> \<le> 1 / 2 ^ 44 * 1000000 + (1000 + 1 / 2 ^ 44 * 1000000) / 2 ^ 53"
    unfolding e_def dmul_def by (intro double.rnd_within) (simp_all only: mult_zero_right add_0_right)
  then have eF: "\<bar>e - (F / N - 1) * 1000000\<bar> \<le> 1 / 2 ^ 23"
    by (rule order_trans) simp
  have "\<bar>c - (F / N - 1) * 1000000\<bar> \<le> 101 / 2 ^ 24 + 1 / 2 ^ 23"
    by (rule order_trans [OF apart_via [where b = e] add_mono [OF ce eF]])
  also have "\<dots> \<le> (1 :: rat) / 2 ^ 16"
    by simp
  finally show ?thesis
    by (simp only: N_def T_def F_def)
qed

section \<open>Input level\<close>

text \<open>\<open>*(cfg + 4)\<close>: the number of cycles. \<open>log10\<close> is a parameter. The conversion to \<open>uint8_t\<close> of a number that does
  not fit, \<open>log10(0)\<close> and a shift by 32 or more are undefined: \<open>None\<close>.\<close>

definition level_cycles :: "rat \<Rightarrow> int \<Rightarrow> u32" where
  "level_cycles freq time = word_of_int \<lfloor>dadd (dmul (dmul freq 1000000) (of_int time)) (1 / 2)\<rfloor> - 1"

definition level_bits :: "(rat \<Rightarrow> rat) \<Rightarrow> nat \<Rightarrow> u16 \<Rightarrow> u8 option" where
  "level_bits log10f scale level =
     (let k = \<lfloor>dmul (- 5) (log10f (ddiv (of_nat (unat level)) (of_nat scale)))\<rfloor> in
      if level = 0 \<or> k < 0 \<or> 32 \<le> k then None else Some (drop_bit (nat k) 15))"

definition level_setup :: "rat \<Rightarrow> int \<Rightarrow> machine \<Rightarrow> machine" where
  "level_setup freq time s = pulse (rd8 1) (wr8 1) 1 (wr32 4 (level_cycles freq time) s)"

text \<open>A turn of the loop: whether the program was interrupted, the fill level and the word of the FIFO.\<close>

definition level_turn :: "(rat \<Rightarrow> rat) \<Rightarrow> rat \<Rightarrow> u16 \<Rightarrow> u32 \<Rightarrow> machine \<Rightarrow> machine option" where
  "level_turn log10f freq filled w s =
     (if filled < 1 then Some (emit (Sleep 1000) s)
      else
        let scale = (if freq = 125 then 8192 else 32768) in
        case (level_bits log10f scale (ucast (w AND 0xffff)), level_bits log10f scale (ucast (drop_bit 16 w AND 0xffff))) of
          (Some b0, Some b1) \<Rightarrow> Some (wr8 2 (push_bit 4 b1 OR b0) s)
        | _ \<Rightarrow> None)"

fun level_loop :: "(rat \<Rightarrow> rat) \<Rightarrow> rat \<Rightarrow> (bool \<times> u16 \<times> u32) list \<Rightarrow> machine \<Rightarrow> machine option" where
  "level_loop log10f freq [] s = None"
| "level_loop log10f freq (t # ts) s =
     (if fst t then Some (reg_clear (rd8 1) (wr8 1) 1 (wr8 2 0 s))
      else case level_turn log10f freq (fst (snd t)) (snd (snd t)) s of None \<Rightarrow> None
      | Some s \<Rightarrow> level_loop log10f freq ts s)"

definition measure_level :: "(rat \<Rightarrow> rat) \<Rightarrow> bool \<Rightarrow> rat option \<Rightarrow> string list \<Rightarrow> (bool \<times> u16 \<times> u32) list \<Rightarrow> machine \<Rightarrow> machine tool option" where
  "measure_level log10f ok number args ts s =
     (if length args \<noteq> 2 then Some Usage
      else case tool_clock number of None \<Rightarrow> Some Usage
      | Some freq \<Rightarrow> case parse_range 1 30 (args ! 1) of None \<Rightarrow> Some Usage
      | Some time \<Rightarrow> if \<not> ok then Some NoDevice else map_option Done (level_loop log10f freq ts (level_setup freq time s)))"

text \<open>An input without a signal has the level 0, and nothing prevents its logarithm.\<close>

lemma silence_undefined:
  assumes "filled \<noteq> 0" and "w AND 0xffff = 0"
  shows "level_turn log10f freq filled w s = None"
  using assms by (simp add: level_turn_def level_bits_def word_less_1)

section \<open>Signal continuity\<close>

text \<open>The samples of a buffer, as the loop looks at them: \<open>d\<close> and \<open>dmax\<close> are \<open>int16_t\<close>.\<close>

definition jump :: "u16 \<Rightarrow> u16 \<Rightarrow> u16" where
  "jump a b = word_of_int \<bar>sint b - sint a\<bar>"

fun largest_jump :: "u16 list \<Rightarrow> u16 \<Rightarrow> u16" where
  "largest_jump (a # b # xs) dmax = largest_jump (b # xs) (let d = jump a b in if sint dmax < sint d then d else dmax)"
| "largest_jump _ dmax = dmax"

text \<open>What is printed for a buffer.\<close>

definition continuity_report :: "u16 list \<Rightarrow> int option" where
  "continuity_report xs = (let d = sint (largest_jump xs 0) in if d > 10 then Some d else None)"

fun jumps :: "u16 list \<Rightarrow> int list" where
  "jumps (a # b # xs) = \<bar>sint b - sint a\<bar> # jumps (b # xs)"
| "jumps _ = []"

text \<open>As long as no jump exceeds 32767 the largest one is found; a larger one is not seen at all.\<close>

lemma largest_jump_found:
  assumes "list_all (\<lambda>d. d < 2 ^ 15) (jumps xs)"
  shows "sint (largest_jump xs m) = fold max (jumps xs) (sint m)"
  using assms
proof (induction xs m rule: largest_jump.induct)
  case (1 a b xs m)
  have "sint (jump a b) = \<bar>sint b - sint a\<bar>"
    using 1(2) by (simp add: jump_def signed_of_int signed_take_bit_int_eq_self)
  then have "sint (if sint m < sint (jump a b) then jump a b else m) = max \<bar>sint b - sint a\<bar> (sint m)"
    by auto
  then show ?case
    using 1 by (simp add: Let_def)
qed simp_all

lemma large_jump_unseen: "continuity_report [- 30000, 30000] = None" "jumps [- 30000, 30000] = [60000]"
  by (simp_all add: continuity_report_def jump_def Let_def)

section \<open>Waiting for second 59\<close>

text \<open>The time to sleep for a clock of \<open>sec\<close> and \<open>nsec\<close>, in nanoseconds; \<open>nanosleep\<close> refuses a negative
  \<open>tv_sec\<close> and does not sleep.\<close>

definition sleep_to_59 :: "int \<Rightarrow> int \<Rightarrow> int" where
  "sleep_to_59 sec nsec =
     (let s = 58 - sec mod 60; n = 999999999 - nsec in if s < 0 then 0 else s * 1000000000 + n)"

lemma sleep_to_59_ends:
  assumes "0 \<le> nsec" and "nsec < 1000000000"
  shows "if sec mod 60 = 59 then sleep_to_59 sec nsec = 0
    else 0 \<le> sleep_to_59 sec nsec \<and> (sec * 1000000000 + nsec + sleep_to_59 sec nsec) mod 60000000000 = 59000000000 - 1"
proof (cases "sec mod 60 = 59")
  case False
  define q r where "q = sec div 60" and "r = sec mod 60"
  have r: "0 \<le> r" "r \<le> 58"
    using False pos_mod_bound [of 60 sec] by (simp_all add: r_def)
  have sec: "sec = 60 * q + r"
    by (simp add: q_def r_def)
  have sleep: "sleep_to_59 sec nsec = (58 - r) * 1000000000 + (999999999 - nsec)"
    using r(2) by (simp add: sleep_to_59_def r_def)
  then have "sec * 1000000000 + nsec + sleep_to_59 sec nsec = 59000000000 - 1 + 60000000000 * q"
    by (simp add: sec)
  then have "(sec * 1000000000 + nsec + sleep_to_59 sec nsec) mod 60000000000 = (59000000000 - 1) mod 60000000000"
    by (simp only: mod_mult_self2)
  moreover have "0 \<le> sleep_to_59 sec nsec"
    using r assms by (simp add: sleep)
  ultimately show ?thesis
    using False by simp
qed (simp add: sleep_to_59_def)

end
