(* ===== verification/Spec2Isabelle.thy ===== *)
theory Spec2Isabelle
  imports Trigger Scope Ram_writer Dpi_bridge Mcpha_client Mcpha_threads Pha Hpsdr_system Nmr_spec Scanner_spec Vna_spec Sdr_spec Hpsdr_rx_props Ring_spec Receiver_spec Psk_spec
    Tb_trigger Tb_scope Tb_ram Stimulus Event_file Sdr_wide Impedance C2_files Wspr Playground Recorders Tools
begin

text \<open>
  A verification of the C and SystemC core of the Red Pitaya notes.

  The repository holds FPGA designs for the Red Pitaya board with, for each of them, a small server
  that runs on the board's ARM processor. A server maps the registers and memories of its design,
  takes commands from a TCP or UDP client and carries samples between the design's FIFOs and the
  network. Beside the servers stand transaction-level models of three of the designs (SystemC) and
  the C side of the testbench bridge of the RTL simulation. What is modelled here:

  \<^item> \<open>models/systemc/common/axis_tlm_types.h\<close>, \<open>trigger/trigger_tlm.h\<close>, \<open>scope/scope_tlm.h\<close>,
    \<open>ram_writer/ram_writer_tlm.h\<close>: the event detector with its monitor, its stimulus and the file of its
    events, the oscilloscope, and the packer of samples into AXI4 write bursts; \<open>tb_trigger_tlm.cpp\<close>,
    \<open>tb_scope_tlm.cpp\<close> and \<open>tb_ram_writer_tlm.cpp\<close> beside them: the tests that play a stimulus and
    compare with an expected vector, both read from files.
  \<^item> \<open>tb/dpi/dpi_bridge.c\<close>: the circular buffers of notifications and the comparison with a reference.
  \<^item> \<open>projects/mcpha\<close>: the multichannel analyser's control server \<open>mcpha-server.c\<close> with its pulser
    thread, the server \<open>pha-server.c\<close> that streams pulse heights, and the command-line clients
    \<open>mcpha-pulser-start.c\<close>, \<open>mcpha-pulser-stop.c\<close> and \<open>pha-start.c\<close>.
  \<^item> \<open>projects/sdr_transceiver_hpsdr\<close>: \<open>sdr-transceiver-hpsdr.c\<close>, the transceiver with the HPSDR
    protocol: commands of the host, I2C devices, transmit and codec FIFOs, the receiver thread and
    the CW keyer thread. \<open>projects/sdr_receiver_hpsdr\<close>: \<open>sdr-receiver-hpsdr.c\<close>, eight receivers for the
    same protocol.
  \<^item> \<open>projects/sdr_transceiver\<close>: \<open>sdr-transceiver.c\<close>, whose clients connect once for each of four jobs;
    \<open>projects/sdr_transceiver_wide\<close>: \<open>sdr-transceiver-wide.c\<close>, a second program of this shape.
    \<open>projects/sdr_receiver\<close>: \<open>sdr-receiver.c\<close>, eight receivers for one TCP client.
  \<^item> \<open>projects/sdr_receiver_wide\<close>, \<open>sdr_receiver_master\<close>, \<open>sdr_receiver_slave\<close>, \<open>adc_test\<close>,
    \<open>radar_122_88\<close>: the servers that stream from a ring of memory the FPGA writes.
  \<^item> \<open>projects/pulsed_nmr\<close>, \<open>projects/scanner\<close>, \<open>projects/vna\<close>, \<open>projects/impedance_controller\<close>: the pulsed NMR
    server, the scanner, the vector network analyser and the impedance controller.
  \<^item> \<open>projects/sdr_transceiver_ft8\<close>: \<open>app/upload-to-pskreporter.c\<close>, which sends decoded signals to a server;
    there and in \<open>projects/sdr_transceiver_wspr\<close>: \<open>app/write-c2-files.c\<close>, which records the receivers of several
    bands. \<open>projects/sdr_transceiver_wspr\<close>: \<open>app/transmit-wspr-message.c\<close>.
  \<^item> \<open>projects/playground\<close>: the server that reads and writes the FPGA's memory. \<open>projects/adc_recorder\<close>,
    \<open>adc_recorder_trigger\<close>, \<open>dac_player\<close>: the programs that record to the terminal or a file and play a file.
    \<open>projects/common_tools\<close> and \<open>projects/adc_test\<close>: the command-line tools.

  Where a project has a variant for the 122.88 MHz board (\<open>_122_88\<close>), it is the same program with other
  constants, and a record of these constants (\<open>board\<close>, \<open>rxh_board\<close>, \<open>sdr_board\<close>, \<open>rcv_board\<close>,
  \<open>wide_board\<close>, \<open>nmr_board\<close>, \<open>vna_board\<close>) with its two values models both.

  \<^bold>\<open>The program's values.\<close> The programs are C for a 32-bit little-endian ARM. Integers keep their
  width as words where the code relies on it or can exceed it; counters that are bounded in the code
  are \<open>nat\<close> with the bound proved. The mapped registers are a map from offsets to bytes
  (\<open>Mmio.machine\<close>), because the code writes the same page through pointers of 8, 16 and 32 bits and
  the layout of neighbouring registers matters; every write and every word handed to the I2C bus, a
  FIFO or a socket is also logged in order. Doubles are rationals rounded to 53 bits (\<open>Doubles.fl\<close>);
  functions of the mathematical library (\<open>log\<close>, \<open>log10\<close>, \<open>exp\<close>, \<open>cos\<close>) are parameters, with what the
  code relies on as a named hypothesis. An access outside an array, a division by zero and a call
  that fails are values (\<open>None\<close>, or an \<open>Inl\<close> with the code's exit status), never left out.

  \<^bold>\<open>The theories.\<close>

  \<^item> \<open>Prelude\<close>: list, option and word lemmas and the collections \<open>reg_laws\<close>, \<open>byte_laws\<close>, \<open>step_defs\<close>.
    \<open>Mmio\<close>: registers, with the locales \<open>word_register\<close> (what reads after writes return) and
    \<open>undisturbed\<close> (predicates that stores to registers keep), interpreted at each width and later at
    each component's invariant. \<open>Doubles\<close>: rounding, conversions to integers; locale \<open>rounding\<close>.
    \<open>Clib\<close>: \<open>strtol\<close>, \<open>strtoull\<close>, \<open>sscanf\<close> and \<open>getline\<close>, and the argument parsing of the clients. \<open>Search\<close>: the binary search
    \<open>lower_bound\<close> both servers contain; locale \<open>first_at_least\<close> is its contract.
  \<^item> \<open>Axis\<close>, \<open>Trigger\<close>, \<open>Scope\<close>, \<open>Ram_writer\<close>: one record per SystemC module, one definition per member
    function. The trigger refines the specification \<open>fires_at\<close> over the whole stream; the scope
    captures windows of full length and plays them back; the RAM writer loses no sample and its
    bursts tile the memory without crossing a 4 KB page. Locale \<open>sample_sink\<close> is what the trigger
    demands of the module bound to its output socket.
  \<^item> \<open>Stimulus\<close>: the samples of the stimulus generator, from a file, a ramp or a sine; how near a ramp is to
    its line. \<open>Event_file\<close>: the exported events and a reader of them (\<open>Decimal\<close>: numbers as \<open>%d\<close> prints them). \<open>Tb_vectors\<close>: vector and settings files.
    \<open>Tb_trigger\<close>, \<open>Tb_scope\<close>, \<open>Tb_ram\<close>: the three tests, and when each of them passes.
  \<^item> \<open>Dpi_bridge\<close>: the bridge's globals as one record; retrieval, comparison and their limits.
  \<^item> \<open>Pulser\<close>: the arithmetic of the pulse generator (cumulative histogram, amplitude draw, pulse
    shape and rate). \<open>Mcpha\<close>: registers and commands. \<open>Mcpha_threads\<close>: the server's two threads as a
    step relation with the reachable states \<open>mcpha_reachable\<close>. \<open>Mcpha_client\<close>: the clients, and the
    composition of a client's commands with the server. \<open>Pha\<close>: server, reader threads and client.
  \<^item> \<open>Hpsdr_common\<close>: what transceiver and receiver share, the selectors, waiting, the layout of the
    datagrams; locale \<open>tiling\<close> is the contract of a loop that fills one region of an array per turn,
    interpreted at the numbering of the datagrams and at the receiver's two loops that copy samples.
    \<open>Hpsdr_state\<close>: the globals of the transceiver and its I2C devices; locale \<open>remembered\<close> is the
    contract of a value the code writes to a device only when it changed, interpreted at the thirteen
    device registers. \<open>Hpsdr_filters\<close> and \<open>Hpsdr_outputs\<close>: \<open>alex_write\<close>, \<open>misc_write\<close>, \<open>nucleo_write\<close>,
    \<open>icom_write\<close>, GPIO pins, gain DAC, Arduino words, drive level. \<open>Hpsdr_ep2\<close>: \<open>process_ep2\<close>, one
    definition per \<open>case\<close>. \<open>Hpsdr_main\<close>: the arguments, the device search, the registers at start and
    the loop of \<open>main\<close>. \<open>Hpsdr_ep6\<close>: \<open>handler_ep6\<close>. \<open>Hpsdr_keyer\<close>: \<open>handler_keyer\<close>.
  \<^item> \<open>Hpsdr_invariants\<close> (device values and ranges of the settings), \<open>Hpsdr_fresh\<close> (outputs follow the
    settings), \<open>Hpsdr_main_spec\<close> (arguments, FIFOs, devices found), \<open>Hpsdr_samples\<close>, \<open>Hpsdr_ep6_spec\<close> and
    \<open>Hpsdr_ep6_props\<close> (bounds, numbers and bytes of the datagrams), \<open>Hpsdr_keyer_spec\<close> (carrier and timing;
    locales \<open>keyer_env\<close> and \<open>steady_env\<close> state what the keyer needs of the other threads while it
    sleeps, interpreted at commands of the host), and \<open>Hpsdr_system\<close>, which composes them: the
    states reached when datagrams arrive in any order and number (\<open>hpsdr_reachable\<close>), the invariant
    \<open>hpsdr_inv\<close> of all of them, and keyer and receiver thread running among such turns.
  \<^item> \<open>Hpsdr_rx\<close>: the receiver's commands, its thread and their interleaving \<open>rxh_step\<close>. \<open>Hpsdr_rx_copy\<close>:
    which byte every loop of the thread puts where. \<open>Hpsdr_rx_spec\<close> and \<open>Hpsdr_rx_props\<close>: the bytes of a
    block's datagrams, memory safety in every reachable state, stopping, tuning. \<open>Modf\<close>: the phase
    increment by \<open>modf\<close> that this server, the ring servers and \<open>sdr-receiver.c\<close> compute.
  \<^item> \<open>Acquire\<close>: the loop that carries samples until a number of them is sent, and a C loop with one input
    per turn (\<open>while_turns\<close>); locale \<open>acquisition\<close> says how many samples such a loop sends and that it
    ends, interpreted at \<open>Nmr\<close>, \<open>Scanner\<close> and the reader thread of \<open>Vna\<close>. \<open>Nmr_spec\<close>, \<open>Scanner_spec\<close>,
    \<open>Vna_spec\<close>: what a sequence, a scan and a sweep send and leave in the registers, the settings in
    every reachable state, the readers of a cancelled sweep.
  \<^item> \<open>Four_jobs\<close>: \<open>main\<close> and four handler threads as a step relation over a record of the handlers; locale
    \<open>four_jobs\<close> is the contract of the handlers, and proves that there is one thread for each job and that
    registers are at their defaults while no thread runs. \<open>Sdr\<close> and \<open>Sdr_spec\<close>, \<open>Sdr_wide\<close>: the handlers of
    the two programs and the interpretations. \<open>Impedance\<close>: commands and reader threads of the impedance
    controller, its settings in every reachable state.
  \<^item> \<open>Streaming\<close>: the half the FPGA does not write is sent when the position has passed the other; locale
    \<open>ring_server\<close> proves that the client receives the samples without gaps. \<open>Ring_servers\<close>: commands and
    loops of the five servers, \<open>Ring_spec\<close>: the interpretations at all but the radar, which is shown to
    send nothing. \<open>Receiver\<close> and \<open>Receiver_spec\<close>: the settings of \<open>sdr-receiver.c\<close>, when they are defined.
  \<^item> \<open>Psk\<close>: the uploader, with what it uses of \<open>strtol\<close>, \<open>strtod\<close>, \<open>strptime\<close>, \<open>sscanf\<close> and \<open>timegm\<close>.
    \<open>Psk_spec\<close>: the bytes of its datagrams; a reader of the protocol, built from the locales \<open>codec\<close> (what is
    written is read back) and \<open>item_codec\<close> (a sequence of such items up to the padding), interpreted at
    each kind of field and at the report of a signal; when the buffer overflows.
  \<^item> \<open>C2_files\<close>: one record of constants for each of the four recorders; which word of the shared FIFO each file
    holds. \<open>Wspr\<close>: the transmitter, how exact the tones are. What \<open>libconfig\<close> finds, \<open>pow\<close>, the encoder of the
    message and \<open>strftime\<close> are parameters.
  \<^item> \<open>Playground\<close>: the server refines a memory. \<open>Recorders\<close>: where the samples printed and written come from,
    what is played. \<open>Tools\<close>: the registers, the exactness of the clock correction, the jumps that are found.

  \<^bold>\<open>Threads.\<close> The threads of \<open>mcpha-server.c\<close> and \<open>pha-server.c\<close> interleave at the granularity of a
  command of the main thread and a turn of the reader or pulser loop, which is where the code tests
  the shared flags. In the transceiver a command of the host is one step, and what other threads do
  while a thread sleeps is a function \<open>env\<close> of the state, arbitrary within its stated contract. The threads of
  the HPSDR receiver, of the two transceivers with four jobs, of the network analyser and of the impedance
  controller interleave with \<open>main\<close> in the step relations \<open>rxh_step\<close>, \<open>sdr_step\<close>, \<open>vna_step\<close> and \<open>imp_step\<close>, one turn or command a step; \<open>wide_step\<close> and
  \<open>rcv_step\<close> are the lives of the clients of a server with a single thread. Races
  between two instructions of one command are not modelled.

  \<^bold>\<open>Loops.\<close> Loops over arrays are structural recursions over the count or the list; \<open>pack_all\<close>,
  \<open>compare_loop\<close> and \<open>lower_bound_loop\<close> are functions with their termination proofs. Loops that
  wait for hardware or search without a bound in the code are \<open>partial_function (option)\<close>, where
  \<open>None\<close> is a loop that does not return: \<open>iir_loop\<close> (proved total for every factor), \<open>sleep_while\<close>
  (the waits on FIFO levels), \<open>key_down\<close> and \<open>iambic\<close> (the keyer returns once the paddles are
  released). \<open>while_turns\<close> consumes a list with the readings of each turn and is \<open>None\<close> when the loop is
  still running at the end of it; that the loops end is proved from readings that let a sample through
  often enough. That a ring server keeps up with the FPGA (\<open>ring_timely\<close>) is a hypothesis on the
  positions it reads. No fuel is used.

  \<^bold>\<open>Not modelled.\<close>

  \<^item> Creating and closing sockets, \<open>mmap\<close>, \<open>ioctl\<close>, creating threads and their scheduling classes:
    the environment; their results are arguments where the code branches on them.
  \<^item> Of the tests: the command line, the list of tests of a regression and what is printed.
  \<^item> The samples \<open>radar.c\<close> transmits, the end of the ring servers on an interrupt.
  \<^item> \<open>mii.c\<close>, \<open>sleep-rand.c\<close>, \<open>temp0.c\<close> and \<open>adc-test-client.c\<close>, which are system calls only.
  \<^item> \<open>patches\<close>: Linux and U-Boot drivers of third parties. \<open>projects/trigger_interrupts\<close>: generated by
    the vendor's tools. The RTL, the build scripts, the graphical clients and the notebooks, which
    are other languages.
\<close>

end
